(* ===== verification/Account_Quota.thy ===== *)
theory Account_Quota
  imports Go_Base
begin

text \<open>
  The daily request counter of a Cloudflare account (\<^verbatim>\<open>internal/pool/quota.go\<close>). The clock is an
  argument of every operation, in Unix seconds. \<^verbatim>\<open>Reqs\<close> and \<^verbatim>\<open>Limit\<close> are 64-bit words. The
  compare-and-swap of \<^verbatim>\<open>maybeReset\<close> succeeds, as it does when no other goroutine runs between the
  load and the swap.
\<close>

section \<open>Definitions\<close>

record quota =
  qAccountID :: string
  Reqs :: u64
  DayStart :: time
  Limit :: u64

text \<open>Midnight UTC of the day of \<open>t\<close>: the calendar day read back as seconds.\<close>

definition startOfDay :: "time \<Rightarrow> time" where
  "startOfDay t = t - t mod 86400"

definition NewQuota :: "time \<Rightarrow> string \<Rightarrow> u64 \<Rightarrow> quota" where
  "NewQuota now accountID limit =
     \<lparr>qAccountID = accountID, Reqs = 0, DayStart = startOfDay now, Limit = limit\<rparr>"

definition maybeReset :: "time \<Rightarrow> quota \<Rightarrow> quota" where
  "maybeReset now q =
     (let cur = DayStart q; today = startOfDay now
      in if today > cur then q\<lparr>DayStart := today, Reqs := 0\<rparr> else q)"

definition quota_Seed :: "time \<Rightarrow> u64 \<Rightarrow> quota \<Rightarrow> quota" where
  "quota_Seed now initial q = (maybeReset now q)\<lparr>Reqs := initial\<rparr>"

definition quota_Inc :: "time \<Rightarrow> quota \<Rightarrow> (u64 \<times> bool) \<times> quota" where
  "quota_Inc now q =
     (let q1 = maybeReset now q;
          n = Reqs q1 + 1;
          q2 = q1\<lparr>Reqs := n\<rparr>
      in if Limit q2 > 0 \<and> n \<ge> Limit q2 then ((n, True), q2) else ((n, False), q2))"

definition quota_Used :: "time \<Rightarrow> quota \<Rightarrow> u64 \<times> quota" where
  "quota_Used now q = (let q1 = maybeReset now q in (Reqs q1, q1))"

definition quota_Remaining :: "time \<Rightarrow> quota \<Rightarrow> u64 \<times> quota" where
  "quota_Remaining now q =
     (if Limit q = 0 then (0, q)
      else (let (used, q1) = quota_Used now q
            in if used \<ge> Limit q1 then (0, q1) else (Limit q1 - used, q1)))"

text \<open>A run of increments, one per proxied request, at the given times.\<close>

fun inc_run :: "time list \<Rightarrow> quota \<Rightarrow> (u64 \<times> bool) list \<times> quota" where
  "inc_run [] q = ([], q)"
| "inc_run (t # ts) q =
     (let (r, q1) = quota_Inc t q; (rs, q2) = inc_run ts q1 in (r # rs, q2))"

section \<open>Lemmas\<close>

lemma startOfDay_div: "startOfDay t = 86400 * (t div 86400)"
  by (simp add: startOfDay_def minus_mod_eq_mult_div)

lemma startOfDay_idem [simp]: "startOfDay (startOfDay t) = startOfDay t"
  by (simp add: startOfDay_div)

lemma startOfDay_mono: "s \<le> t \<Longrightarrow> startOfDay s \<le> startOfDay t"
  by (simp add: startOfDay_div zdiv_mono1)

lemma maybeReset_same_day [simp]:
  "startOfDay now \<le> DayStart q \<Longrightarrow> maybeReset now q = q"
  by (simp add: maybeReset_def Let_def)

lemma maybeReset_Limit [simp]: "Limit (maybeReset now q) = Limit q"
  by (simp add: maybeReset_def Let_def)

lemma DayStart_maybeReset: "DayStart (maybeReset now q) = max (DayStart q) (startOfDay now)"
  by (auto simp: maybeReset_def Let_def)

lemma quota_Inc_proj [simp]:
  "fst (fst (quota_Inc now q)) = Reqs (maybeReset now q) + 1"
  "snd (fst (quota_Inc now q)) \<longleftrightarrow> Limit q > 0 \<and> Reqs (maybeReset now q) + 1 \<ge> Limit q"
  "snd (quota_Inc now q) = (maybeReset now q)\<lparr>Reqs := Reqs (maybeReset now q) + 1\<rparr>"
  by (simp_all add: quota_Inc_def Let_def)

lemma inc_run_same_day:
  assumes "\<forall>t \<in> set ts. startOfDay t \<le> DayStart q"
  shows "inc_run ts q =
           (map (\<lambda>i. (Reqs q + of_nat (Suc i), Limit q > 0 \<and> Reqs q + of_nat (Suc i) \<ge> Limit q))
              [0..<length ts],
            q\<lparr>Reqs := Reqs q + of_nat (length ts)\<rparr>)"
  using assms
proof (induction ts arbitrary: q)
  case Nil
  then show ?case by simp
next
  case (Cons t ts)
  let ?q1 = "q\<lparr>Reqs := Reqs q + 1\<rparr>"
  from Cons.prems have r: "quota_Inc t q = ((Reqs q + 1, Limit q > 0 \<and> Reqs q + 1 \<ge> Limit q), ?q1)"
    by (simp add: quota_Inc_def Let_def)
  from Cons.prems have "\<forall>t \<in> set ts. startOfDay t \<le> DayStart ?q1" by simp
  note IH = Cons.IH [OF this]
  have "[0..<length (t # ts)] = 0 # map Suc [0..<length ts]"
    by (simp add: map_Suc_upt upt_conv_Cons del: upt_Suc)
  with r IH show ?case
    by (simp add: algebra_simps comp_def del: upt_Suc)
qed

section \<open>Properties\<close>

text \<open>
  Within one UTC day the \<open>i\<close>-th request counted against a fresh quota is reported as number
  \<open>i\<close>, and the limit flag is raised exactly from the \<open>limit\<close>-th request on (never when the limit
  is 0, which means unlimited), for any number of requests below \<open>2 ^ 64\<close>.
\<close>

lemma quota_counts_one_day:
  assumes day: "\<forall>t \<in> set ts. startOfDay t = startOfDay now"
    and bound: "length ts < 2 ^ 64" and i: "i < length ts"
  shows "unat (fst (fst (inc_run ts (NewQuota now acc limit)) ! i)) = Suc i \<and>
         (snd (fst (inc_run ts (NewQuota now acc limit)) ! i) \<longleftrightarrow>
            0 < unat limit \<and> unat limit \<le> Suc i)"
proof -
  from day have "\<forall>t \<in> set ts. startOfDay t \<le> DayStart (NewQuota now acc limit)"
    by (simp add: NewQuota_def)
  note run = inc_run_same_day [OF this]
  from i bound have u: "unat (of_nat (Suc i) :: u64) = Suc i"
    by (simp add: unat_of_nat take_bit_eq_mod del: of_nat_Suc)
  then show ?thesis
    using i unfolding run
    by (simp add: NewQuota_def word_le_nat_alt word_less_nat_alt unat_gt_0 del: of_nat_Suc)
qed

lemma quota_counts_one_day_example:
  "unat (fst (fst (inc_run [90000, 90001, 90002] (NewQuota 86400 ''a'' 2)) ! 1)) = Suc 1 \<and>
   (snd (fst (inc_run [90000, 90001, 90002] (NewQuota 86400 ''a'' 2)) ! 1) \<longleftrightarrow>
      0 < unat (2 :: u64) \<and> unat (2 :: u64) \<le> Suc 1)"
  by (rule quota_counts_one_day) (auto simp: startOfDay_def)

text \<open>
  The first request of a later UTC day is counted as number 1 whatever the counter held
  before, and the quota then belongs to that day: reading it any time later that day reports 1.
\<close>

lemma quota_rolls_over:
  assumes "DayStart q < startOfDay now" and "startOfDay later = startOfDay now"
  shows "fst (fst (quota_Inc now q)) = 1 \<and>
         fst (quota_Used later (snd (quota_Inc now q))) = 1"
  using assms by (simp add: quota_Used_def maybeReset_def Let_def)

lemma quota_rolls_over_example:
  "fst (fst (quota_Inc 172800 ((NewQuota 0 ''a'' 5)\<lparr>Reqs := 5\<rparr>))) = 1 \<and>
   fst (quota_Used 172900 (snd (quota_Inc 172800 ((NewQuota 0 ''a'' 5)\<lparr>Reqs := 5\<rparr>)))) = 1"
  by (rule quota_rolls_over) (simp_all add: NewQuota_def startOfDay_def)

text \<open>
  With a limit set, what remains is the limit minus what is used, cut off at 0, and it never
  wraps around: used and remaining add up to the limit or, once exhausted, nothing remains.
\<close>

lemma quota_remaining_exact:
  assumes "Limit q \<noteq> 0"
  shows "unat (fst (quota_Remaining now q)) = unat (Limit q) - unat (fst (quota_Used now q))"
  using assms
  by (auto simp: quota_Remaining_def quota_Used_def Let_def word_le_nat_alt unat_sub not_le
      intro: less_imp_le)

end
