(* ===== verification/Float64.thy ===== *)
theory Float64
  imports Complex_Main "HOL-Library.Log_Nat"
begin

text \<open>
  Go's \<^verbatim>\<open>float64\<close> arithmetic on non-negative finite values: a value is the rational number it
  denotes, and an operation is the exact rational operation followed by \<open>f64\<close>, rounding to the
  nearest binary64 value with ties to even (IEEE 754, 53 bits of precision, gradual underflow
  below \<open>2 ^ (-1022)\<close>). Overflow to infinity is not modelled: every value the sources compute is
  far below \<open>2 ^ 1024\<close>. Each operation is rounded on its own, as the amd64 compiler does.
  The theory shows that \<open>f64\<close> is monotone and exact on integers below \<open>2 ^ 53\<close> scaled by a
  power of two, which is what the proofs about the health score and the breaker need.
\<close>

section \<open>Definitions\<close>

text \<open>Position of the leading bit of a positive rational.\<close>

definition rlog2 :: "rat \<Rightarrow> int" where
  "rlog2 x = (let (a, b) = quotient_of x; k = bitlen a - bitlen b
              in if 2 powi k \<le> x then k else k - 1)"

text \<open>Round to the nearest integer, ties to even.\<close>

definition rne :: "rat \<Rightarrow> int" where
  "rne x = (let f = \<lfloor>x\<rfloor>; d = x - of_int f
            in if d < 1 / 2 then f else if 1 / 2 < d then f + 1
               else if even f then f else f + 1)"

text \<open>Exponent of the last bit kept.\<close>

definition ulp_exp :: "rat \<Rightarrow> int" where
  "ulp_exp x = max (- 1074) (rlog2 x - 52)"

definition f64 :: "rat \<Rightarrow> rat" where
  "f64 x = (if x \<le> 0 then 0 else of_int (rne (x / 2 powi ulp_exp x)) * 2 powi ulp_exp x)"

definition fadd :: "rat \<Rightarrow> rat \<Rightarrow> rat" where
  "fadd x y = f64 (x + y)"

definition fmul :: "rat \<Rightarrow> rat \<Rightarrow> rat" where
  "fmul x y = f64 (x * y)"

definition fdiv :: "rat \<Rightarrow> rat \<Rightarrow> rat" where
  "fdiv x y = f64 (x / y)"

section \<open>Rounding to integers\<close>

lemma rne_of_int [simp]: "rne (of_int n) = n"
  by (simp add: rne_def)

lemma rne_bounds: "\<lfloor>x\<rfloor> \<le> rne x" "rne x \<le> \<lfloor>x\<rfloor> + 1"
  by (simp_all add: rne_def Let_def)

lemma rne_mono: "x \<le> y \<Longrightarrow> rne x \<le> rne y"
proof -
  assume le: "x \<le> y"
  then have fl: "\<lfloor>x\<rfloor> \<le> \<lfloor>y\<rfloor>" by (rule floor_mono)
  show ?thesis
  proof (cases "\<lfloor>x\<rfloor> = \<lfloor>y\<rfloor>")
    case True
    with le show ?thesis by (simp add: rne_def Let_def)
  next
    case False
    with fl have "\<lfloor>x\<rfloor> + 1 \<le> \<lfloor>y\<rfloor>" by simp
    with rne_bounds(2) [of x] rne_bounds(1) [of y] show ?thesis by linarith
  qed
qed

lemma rne_le_int: "x \<le> of_int n \<Longrightarrow> rne x \<le> n"
  using rne_mono [of x "of_int n"] by simp

lemma int_le_rne: "of_int n \<le> x \<Longrightarrow> n \<le> rne x"
  using rne_mono [of "of_int n" x] by simp

section \<open>The leading bit\<close>

lemma bitlen_powi_bounds:
  assumes "0 < (a :: int)"
  shows "2 powi (bitlen a - 1) \<le> (of_int a :: rat)" and "(of_int a :: rat) < 2 powi bitlen a"
proof -
  from assms have b: "2 ^ nat (bitlen a - 1) \<le> a" "a < 2 ^ nat (bitlen a)"
    using bitlen_bounds [of a] by auto
  from assms have p: "0 < bitlen a" by (simp add: bitlen_eq_zero_iff bitlen_nonneg order_less_le)
  from b(1) have "(of_int (2 ^ nat (bitlen a - 1)) :: rat) \<le> of_int a" by (simp only: of_int_le_iff)
  with p show "2 powi (bitlen a - 1) \<le> (of_int a :: rat)" by (simp add: power_int_def)
  from b(2) have "(of_int a :: rat) < of_int (2 ^ nat (bitlen a))" by (simp only: of_int_less_iff)
  with p show "(of_int a :: rat) < 2 powi bitlen a" by (simp add: power_int_def)
qed

lemma powi_split: "2 powi (m - n) = (2 powi m / 2 powi n :: rat)"
  by (simp add: power_int_diff)

lemma rlog2_bounds:
  assumes "0 < x"
  shows "2 powi rlog2 x \<le> x" and "x < 2 powi (rlog2 x + 1)"
proof -
  obtain a b where q: "quotient_of x = (a, b)" by force
  then have b: "0 < b" and x: "x = of_int a / of_int b"
    by (simp_all add: quotient_of_denom_pos quotient_of_div)
  with assms have a: "0 < a" by (simp add: zero_less_divide_iff)
  note A = bitlen_powi_bounds [OF a] and B = bitlen_powi_bounds [OF b]
  let ?k = "bitlen a - bitlen b"
  have low: "2 powi (?k - 1) \<le> x"
  proof -
    have "2 powi (?k - 1) = (2 powi (bitlen a - 1) / 2 powi bitlen b :: rat)"
      by (simp flip: powi_split add: algebra_simps)
    also have "\<dots> \<le> of_int a / of_int b"
      using A(1) B(2) a b by (intro frac_le) auto
    finally show ?thesis by (simp add: x)
  qed
  have up: "x < 2 powi (?k + 1)"
  proof -
    have "of_int a / of_int b < (2 powi bitlen a / 2 powi (bitlen b - 1) :: rat)"
      using A(2) B(1) a b by (intro frac_less) auto
    also have "\<dots> = 2 powi (?k + 1)" by (simp flip: powi_split add: algebra_simps)
    finally show ?thesis by (simp add: x)
  qed
  show "2 powi rlog2 x \<le> x" and "x < 2 powi (rlog2 x + 1)"
    using low up q by (auto simp: rlog2_def Let_def)
qed

lemma powi_pos [simp]: "(0 :: rat) < 2 powi n"
  by (simp add: zero_less_power_int)

lemma powi_less_iff: "(2 powi m :: rat) < 2 powi n \<longleftrightarrow> m < n"
proof -
  have "(2 powi m :: rat) < 2 powi n \<longleftrightarrow> 1 < (2 powi (n - m) :: rat)"
    by (simp add: powi_split less_divide_eq)
  also have "\<dots> \<longleftrightarrow> m < n"
    by (cases "m < n"; cases "n = m")
      (auto simp: power_int_def one_less_power power_le_one not_less divide_simps)
  finally show ?thesis .
qed

lemma powi_le_iff: "(2 powi m :: rat) \<le> 2 powi n \<longleftrightarrow> m \<le> n"
  using powi_less_iff [of n m] by (simp add: linorder_not_less [symmetric])

lemma powi_shift: "(2 powi (e + int k) :: rat) = of_int (2 ^ k) * 2 powi e"
  by (simp add: power_int_add)

lemma powi_ratio: "(2 powi (e + int k) / 2 powi e :: rat) = of_int (2 ^ k)"
  by (simp add: powi_shift)

lemma rlog2_unique:
  assumes "2 powi k \<le> x" and "x < 2 powi (k + 1)"
  shows "rlog2 x = k"
proof -
  from assms(1) have "0 < x" using powi_pos [of k] by linarith
  note b = rlog2_bounds [OF this]
  from b(1) assms(2) have "(2 powi rlog2 x :: rat) < 2 powi (k + 1)" by linarith
  moreover from b(2) assms(1) have "(2 powi k :: rat) < 2 powi (rlog2 x + 1)" by linarith
  ultimately show ?thesis by (simp add: powi_less_iff)
qed

lemma rlog2_mono: "0 < x \<Longrightarrow> x \<le> y \<Longrightarrow> rlog2 x \<le> rlog2 y"
proof -
  assume x: "0 < x" and le: "x \<le> y"
  with rlog2_bounds(1) [OF x] rlog2_bounds(2) [of y]
  have "(2 powi rlog2 x :: rat) < 2 powi (rlog2 y + 1)" by linarith
  then show ?thesis by (simp add: powi_less_iff)
qed

section \<open>Rounding to binary64\<close>

lemma f64_0 [simp]: "f64 0 = 0"
  by (simp add: f64_def)

lemma f64_upper:
  assumes "0 < x"
  shows "f64 x \<le> 2 powi (ulp_exp x + 53)"
proof -
  let ?e = "ulp_exp x"
  have "x < 2 powi (rlog2 x + 1)" using assms by (rule rlog2_bounds(2))
  also have "\<dots> \<le> 2 powi (?e + 53)" by (simp add: powi_le_iff ulp_exp_def)
  finally have "x / 2 powi ?e \<le> 2 powi (?e + 53) / 2 powi ?e" by (simp add: divide_right_mono)
  also have "\<dots> = of_int (2 ^ 53)" using powi_ratio [of ?e 53] by simp
  finally have "rne (x / 2 powi ?e) \<le> 2 ^ 53" by (rule rne_le_int)
  then have "(of_int (rne (x / 2 powi ?e)) :: rat) \<le> of_int (2 ^ 53)" by (simp only: of_int_le_iff)
  then have "of_int (rne (x / 2 powi ?e)) * 2 powi ?e \<le> (of_int (2 ^ 53) * 2 powi ?e :: rat)"
    by (rule mult_right_mono) simp
  also have "\<dots> = 2 powi (?e + 53)" using powi_shift [of ?e 53] by simp
  finally show ?thesis using assms by (simp add: f64_def)
qed

lemma f64_lower:
  assumes "0 < x" and "ulp_exp x = rlog2 x - 52"
  shows "2 powi rlog2 x \<le> f64 x"
proof -
  let ?e = "ulp_exp x"
  have "2 powi (?e + 52) / 2 powi ?e \<le> x / 2 powi ?e"
    using rlog2_bounds(1) [OF assms(1)] assms(2) by (simp add: divide_right_mono)
  moreover have "(2 powi (?e + 52) / 2 powi ?e :: rat) = of_int (2 ^ 52)"
    using powi_ratio [of ?e 52] by simp
  ultimately have "2 ^ 52 \<le> rne (x / 2 powi ?e)" by (intro int_le_rne) simp
  then have "(of_int (2 ^ 52) :: rat) \<le> of_int (rne (x / 2 powi ?e))" by (simp only: of_int_le_iff)
  then have "(of_int (2 ^ 52) * 2 powi ?e :: rat) \<le> of_int (rne (x / 2 powi ?e)) * 2 powi ?e"
    by (rule mult_right_mono) simp
  also have "\<dots> = f64 x" using assms(1) by (simp add: f64_def)
  also have "of_int (2 ^ 52) * 2 powi ?e = (2 powi rlog2 x :: rat)"
    using powi_shift [of ?e 52] assms(2) by simp
  finally show ?thesis .
qed

lemma f64_nonneg [simp]: "0 \<le> f64 x"
proof (cases "x \<le> 0")
  case False
  then have "0 \<le> rne (x / 2 powi ulp_exp x)" by (intro int_le_rne) simp
  with False show ?thesis by (simp add: f64_def)
qed (simp add: f64_def)

lemma f64_mono: "x \<le> y \<Longrightarrow> f64 x \<le> f64 y"
proof (cases "x \<le> 0")
  case True
  then show ?thesis by (simp add: f64_def [of x])
next
  case False
  assume le: "x \<le> y"
  from False le have x: "0 < x" and y: "0 < y" by simp_all
  have rl: "rlog2 x \<le> rlog2 y" using x le by (rule rlog2_mono)
  show ?thesis
  proof (cases "ulp_exp x = ulp_exp y")
    case True
    have "rne (x / 2 powi ulp_exp y) \<le> rne (y / 2 powi ulp_exp y)"
      using le by (intro rne_mono) (simp add: divide_right_mono)
    with x y True show ?thesis by (simp add: f64_def)
  next
    case False
    with rl have lt: "ulp_exp x + 53 \<le> rlog2 y" and ey: "ulp_exp y = rlog2 y - 52"
      by (auto simp: ulp_exp_def)
    have "f64 x \<le> 2 powi (ulp_exp x + 53)" using x by (rule f64_upper)
    also have "\<dots> \<le> 2 powi rlog2 y" using lt by (simp add: powi_le_iff)
    also have "\<dots> \<le> f64 y" using y ey by (rule f64_lower)
    finally show ?thesis .
  qed
qed

text \<open>A multiple of the last kept bit is a binary64 value already.\<close>

lemma f64_exact: "0 < x \<Longrightarrow> x = of_int m * 2 powi ulp_exp x \<Longrightarrow> f64 x = x"
proof -
  assume "0 < x" and m: "x = of_int m * 2 powi ulp_exp x"
  from m have "x / 2 powi ulp_exp x = of_int m"
    by (metis nonzero_mult_div_cancel_right powi_pos less_irrefl)
  with \<open>0 < x\<close> m show ?thesis by (simp add: f64_def)
qed

lemma fadd_mono: "x \<le> x' \<Longrightarrow> y \<le> y' \<Longrightarrow> fadd x y \<le> fadd x' y'"
  by (simp add: fadd_def f64_mono add_mono)

lemma fmul_mono: "0 \<le> c \<Longrightarrow> x \<le> x' \<Longrightarrow> fmul c x \<le> fmul c x'"
  by (simp add: fmul_def f64_mono mult_left_mono)

lemma fop_nonneg [simp]: "0 \<le> fadd x y" "0 \<le> fmul x y" "0 \<le> fdiv x y"
  by (simp_all add: fadd_def fmul_def fdiv_def)

end
