(* ===== verification/Worker_Pool.thy ===== *)
theory Worker_Pool
  imports Account_Quota Float64 "HOL-Library.Multiset"
begin

unbundle bit_operations_syntax

text \<open>
  The pool of Cloudflare Workers (\<^verbatim>\<open>internal/pool/pool.go\<close>). Workers are heap objects shared by
  the pool, the scheduler and the background loops, so the model keeps an explicit heap from
  pointers to worker records, and the pool holds a snapshot of pointers, the account quotas and the
  64-bit round-robin counter. The circuit breaker is the third-party package gobreaker: its state at
  the moment of a call is the argument \<open>brk\<close> of the operations that ask for it.
\<close>

section \<open>Data\<close>

datatype breaker_state = StateClosed | StateHalfOpen | StateOpen

record worker =
  AccountID :: string
  Name :: string
  URL :: string
  Inflight :: int
  Errors :: u64
  Requests :: u64
  Healthy :: bool
  QuotaPaused :: bool
  Colo :: "string option"
  EWMAErr :: rat
  CreatedAt :: time
  Backend :: string
  Hostname :: string
  ZoneID :: string
  RecordID :: string

type_synonym heap = "ref \<Rightarrow> worker"

record pool =
  snap :: "ref list option"
  quotas :: "string \<rightharpoonup> quota"
  rr :: u64

datatype pool_err = EmptyPool | NoWorkers | NoMoreWorkers

section \<open>Workers\<close>

definition NewWorker :: "time \<Rightarrow> string \<Rightarrow> string \<Rightarrow> string \<Rightarrow> worker" where
  "NewWorker now accountID name url =
     \<lparr>AccountID = accountID, Name = name, URL = url, Inflight = 0, Errors = 0, Requests = 0,
      Healthy = True, QuotaPaused = False, Colo = None, EWMAErr = 0, CreatedAt = now,
      Backend = [], Hostname = [], ZoneID = [], RecordID = []\<rparr>"

text \<open>The trip condition handed to the breaker; its counts are 32-bit in gobreaker.\<close>

record counts =
  cRequests :: nat
  TotalFailures :: nat
  ConsecutiveFailures :: nat

definition ReadyToTrip :: "counts \<Rightarrow> bool" where
  "ReadyToTrip c \<longleftrightarrow>
     ConsecutiveFailures c \<ge> 5 \<or>
     (cRequests c \<ge> 10 \<and>
      fdiv (f64 (of_nat (TotalFailures c))) (f64 (of_nat (cRequests c))) > 1 / 2)"

definition Available :: "(ref \<Rightarrow> breaker_state) \<Rightarrow> heap \<Rightarrow> ref \<Rightarrow> bool" where
  "Available brk h w =
     (if QuotaPaused (h w) then False
      else Healthy (h w) \<and> brk w \<noteq> StateOpen)"

definition ColoString :: "worker \<Rightarrow> string" where
  "ColoString w = (case Colo w of Some p \<Rightarrow> p | None \<Rightarrow> [])"

definition SetColo :: "string \<Rightarrow> worker \<Rightarrow> worker" where
  "SetColo colo w = w\<lparr>Colo := Some colo\<rparr>"

section \<open>Snapshot operations\<close>

definition pool_New :: "ref list \<Rightarrow> pool" where
  "pool_New workers = \<lparr>snap = Some workers, quotas = Map.empty, rr = 0\<rparr>"

definition pool_load :: "pool \<Rightarrow> ref list" where
  "pool_load p = (case snap p of Some s \<Rightarrow> s | None \<Rightarrow> [])"

definition pool_store :: "ref list \<Rightarrow> pool \<Rightarrow> pool" where
  "pool_store ws p = p\<lparr>snap := Some ws\<rparr>"

definition SetQuotas :: "(string \<rightharpoonup> quota) \<Rightarrow> pool \<Rightarrow> pool" where
  "SetQuotas q p = p\<lparr>quotas := q\<rparr>"

definition QuotaFor :: "pool \<Rightarrow> string \<Rightarrow> quota option" where
  "QuotaFor p accountID = quotas p accountID"

definition pool_Size :: "pool \<Rightarrow> nat" where
  "pool_Size p = length (pool_load p)"

definition pool_All :: "pool \<Rightarrow> ref list" where
  "pool_All p = pool_load p"

text \<open>The index of the first pointer equal to \<open>w\<close>, as the loops of \<^verbatim>\<open>Replace\<close> and \<^verbatim>\<open>Remove\<close> find it.\<close>

fun find_idx :: "ref \<Rightarrow> ref list \<Rightarrow> nat option" where
  "find_idx w [] = None"
| "find_idx w (x # xs) = (if x = w then Some 0 else map_option Suc (find_idx w xs))"

definition pool_Replace :: "ref \<Rightarrow> ref \<Rightarrow> pool \<Rightarrow> pool" where
  "pool_Replace old new p =
     (let cur = pool_load p
      in case find_idx old cur of
           Some i \<Rightarrow> pool_store (cur[i := new]) p
         | None \<Rightarrow> p)"

definition pool_Add :: "ref \<Rightarrow> pool \<Rightarrow> pool" where
  "pool_Add w p = pool_store (pool_load p @ [w]) p"

definition pool_Remove :: "ref \<Rightarrow> pool \<Rightarrow> pool" where
  "pool_Remove w p =
     (let cur = pool_load p
      in case find_idx w cur of
           Some i \<Rightarrow> pool_store (take i cur @ drop (Suc i) cur) p
         | None \<Rightarrow> p)"

definition ByAccount :: "heap \<Rightarrow> pool \<Rightarrow> string \<Rightarrow> ref list" where
  "ByAccount h p accountID = filter (\<lambda>w. AccountID (h w) = accountID) (pool_load p)"

text \<open>The loop over an account's workers that stores the two flags.\<close>

fun store_flags :: "bool \<Rightarrow> bool \<Rightarrow> ref list \<Rightarrow> heap \<Rightarrow> heap" where
  "store_flags paused healthy [] h = h"
| "store_flags paused healthy (w # ws) h =
     store_flags paused healthy ws (h(w := (h w)\<lparr>QuotaPaused := paused, Healthy := healthy\<rparr>))"

definition SetAccountPaused :: "string \<Rightarrow> bool \<Rightarrow> heap \<Rightarrow> pool \<Rightarrow> nat \<times> heap" where
  "SetAccountPaused accountID paused h p =
     (let ws = ByAccount h p accountID
      in (length ws, if paused then store_flags True False ws h else store_flags False True ws h))"

section \<open>Picking a worker\<close>

text \<open>The common loop: \<open>i\<close> runs from 0 to \<open>n\<close>, the index is \<open>(start + i) % n\<close> on 64-bit words.\<close>

function scan :: "(ref \<Rightarrow> bool) \<Rightarrow> ref list \<Rightarrow> u64 \<Rightarrow> nat \<Rightarrow> ref option" where
  "scan ok cur start i =
     (if i < length cur
      then (let w = cur ! unat ((start + of_nat i) mod of_nat (length cur))
            in if ok w then Some w else scan ok cur start (Suc i))
      else None)"
  by pat_completeness auto
termination
  by (relation "measure (\<lambda>(ok, cur, start, i). length cur - i)") auto

declare scan.simps [simp del]

definition NextRR :: "(ref \<Rightarrow> breaker_state) \<Rightarrow> heap \<Rightarrow> pool \<Rightarrow> (pool_err + ref) \<times> pool" where
  "NextRR brk h p =
     (let cur = pool_load p
      in if length cur = 0 then (Inl EmptyPool, p)
         else (let p1 = p\<lparr>rr := rr p + 1\<rparr>; start = rr p1 - 1
               in case scan (Available brk h) cur start 0 of
                    Some w \<Rightarrow> (Inr w, p1)
                  | None \<Rightarrow> (Inl NoWorkers, p1)))"

text \<open>FNV-1a over the bytes of the session identifier.\<close>

definition fnv1a :: "string \<Rightarrow> u64" where
  "fnv1a s = foldl (\<lambda>h c. (h XOR of_nat (of_char c)) * 1099511628211) 14695981039346656037 s"

definition NextBySession :: "(ref \<Rightarrow> breaker_state) \<Rightarrow> heap \<Rightarrow> pool \<Rightarrow> string \<Rightarrow> pool_err + ref" where
  "NextBySession brk h p session =
     (let cur = pool_load p
      in if length cur = 0 then Inl EmptyPool
         else (case scan (Available brk h) cur (fnv1a session) 0 of
                 Some w \<Rightarrow> Inr w
               | None \<Rightarrow> Inl NoWorkers))"

definition NextSkip :: "(ref \<Rightarrow> breaker_state) \<Rightarrow> string list \<Rightarrow> heap \<Rightarrow> pool \<Rightarrow> (pool_err + ref) \<times> pool"
  where
  "NextSkip brk skip h p =
     (let cur = pool_load p
      in if length cur = 0 then (Inl EmptyPool, p)
         else (let p1 = p\<lparr>rr := rr p + 1\<rparr>; start = rr p1 - 1
               in case scan (\<lambda>w. Available brk h w \<and> Name (h w) \<notin> set skip) cur start 0 of
                    Some w \<Rightarrow> (Inr w, p1)
                  | None \<Rightarrow> (Inl NoMoreWorkers, p1)))"

text \<open>Repeated calls of \<^verbatim>\<open>NextRR\<close>.\<close>

fun rr_calls :: "nat \<Rightarrow> (ref \<Rightarrow> breaker_state) \<Rightarrow> heap \<Rightarrow> pool \<Rightarrow> (pool_err + ref) list \<times> pool" where
  "rr_calls 0 brk h p = ([], p)"
| "rr_calls (Suc n) brk h p =
     (let (r, p1) = NextRR brk h p; (rs, p2) = rr_calls n brk h p1 in (r # rs, p2))"

section \<open>Lemmas: the visiting order\<close>

definition visit :: "ref list \<Rightarrow> u64 \<Rightarrow> ref list" where
  "visit cur start =
     map (\<lambda>i. cur ! unat ((start + of_nat i) mod of_nat (length cur))) [0..<length cur]"

lemma length_visit [simp]: "length (visit cur start) = length cur"
  by (simp add: visit_def)

lemma scan_find: "scan ok cur start i = find ok (drop i (visit cur start))"
proof (induction ok cur start i rule: scan.induct)
  case (1 ok cur start i)
  show ?case
  proof (cases "i < length cur")
    case True
    then have d: "drop i (visit cur start) = visit cur start ! i # drop (Suc i) (visit cur start)"
      by (simp add: Cons_nth_drop_Suc)
    have n: "visit cur start ! i = cur ! unat ((start + of_nat i) mod of_nat (length cur))"
      using True by (simp add: visit_def)
    from True 1 show ?thesis by (subst scan.simps) (simp add: d n Let_def)
  next
    case False
    then show ?thesis by (subst scan.simps) simp
  qed
qed

lemma unat_of_nat_small: "n < 2 ^ 64 \<Longrightarrow> unat (of_nat n :: u64) = n"
  by (simp add: unat_of_nat take_bit_eq_mod)

lemma visit_index:
  assumes "unat start + length cur \<le> 2 ^ 64" and "i < length cur"
  shows "unat ((start + of_nat i) mod of_nat (length cur) :: u64) = (unat start + i) mod length cur"
proof (cases "length cur = 2 ^ 64")
  case True
  with assms(1) have "unat start = 0" by simp
  then have "start = 0" by (simp add: unat_eq_0)
  with True assms(2) show ?thesis by (simp add: unat_mod unat_of_nat take_bit_eq_mod)
next
  case False
  with assms(1) have n: "length cur < 2 ^ 64" by simp
  have "unat (start + of_nat i) = unat start + i"
    using assms n by (simp add: unat_word_ariths unat_of_nat_small)
  with n show ?thesis by (simp add: unat_mod unat_of_nat_small)
qed

lemma visit_rotate:
  assumes "unat start + length cur \<le> 2 ^ 64"
  shows "visit cur start = rotate (unat start mod length cur) cur"
proof (rule nth_equalityI)
  fix i assume "i < length (visit cur start)"
  then have i: "i < length cur" by simp
  then have "visit cur start ! i = cur ! ((unat start + i) mod length cur)"
    using visit_index [OF assms i] by (simp add: visit_def)
  also have "\<dots> = rotate (unat start mod length cur) cur ! i"
    using i by (simp add: nth_rotate mod_add_left_eq)
  finally show "visit cur start ! i = rotate (unat start mod length cur) cur ! i" .
qed simp

lemma visit_subset:
  assumes "length cur < 2 ^ 64"
  shows "set (visit cur start) \<subseteq> set cur"
proof
  fix w assume "w \<in> set (visit cur start)"
  then obtain i where i: "i < length cur"
    and w: "w = cur ! unat ((start + of_nat i) mod of_nat (length cur))"
    by (auto simp: visit_def)
  have "unat ((start + of_nat i) mod of_nat (length cur) :: u64) < length cur"
  proof -
    from i have "0 < length cur" by linarith
    then show ?thesis using assms by (simp add: unat_mod unat_of_nat_small)
  qed
  with w show "w \<in> set cur" by simp
qed

lemma find_Some_D: "find P xs = Some x \<Longrightarrow> P x \<and> x \<in> set xs"
  by (induction xs) (auto split: if_splits)

lemma find_None_D: "find P xs = None \<Longrightarrow> \<forall>x \<in> set xs. \<not> P x"
  by (induction xs) (auto split: if_splits)

lemma find_all: "\<forall>x \<in> set xs. P x \<Longrightarrow> xs \<noteq> [] \<Longrightarrow> find P xs = Some (hd xs)"
  by (cases xs) auto

lemma pool_load_rr [simp]: "pool_load (p\<lparr>rr := x\<rparr>) = pool_load p"
  by (simp add: pool_load_def)

lemma pool_load_quotas [simp]: "pool_load (p\<lparr>quotas := x\<rparr>) = pool_load p"
  by (simp add: pool_load_def)

lemma pool_load_store [simp]: "pool_load (pool_store ws p) = ws"
  by (simp add: pool_load_def pool_store_def)

lemma pool_store_frame [simp]: "quotas (pool_store ws p) = quotas p" "rr (pool_store ws p) = rr p"
  by (simp_all add: pool_store_def)

lemmas pick_defs = NextRR_def NextBySession_def NextSkip_def scan_find

lemma NextRR_visit:
  assumes "pool_load p \<noteq> []"
  shows "NextRR brk h p =
           (case find (Available brk h) (visit (pool_load p) (rr p)) of
              Some w \<Rightarrow> Inr w | None \<Rightarrow> Inl NoWorkers, p\<lparr>rr := rr p + 1\<rparr>)"
  using assms by (simp add: pick_defs Let_def split: option.split)

lemma NextSkip_visit:
  assumes "pool_load p \<noteq> []"
  shows "NextSkip brk skip h p =
           (case find (\<lambda>w. Available brk h w \<and> Name (h w) \<notin> set skip) (visit (pool_load p) (rr p)) of
              Some w \<Rightarrow> Inr w | None \<Rightarrow> Inl NoMoreWorkers, p\<lparr>rr := rr p + 1\<rparr>)"
  using assms by (simp add: pick_defs Let_def split: option.split)

lemma NextSkip_pool: "snd (NextSkip brk skip h p) = (if pool_load p = [] then p else p\<lparr>rr := rr p + 1\<rparr>)"
  by (simp add: pick_defs Let_def split: option.split)

lemma NextRR_pool: "snd (NextRR brk h p) = (if pool_load p = [] then p else p\<lparr>rr := rr p + 1\<rparr>)"
  by (simp add: pick_defs Let_def split: option.split)

text \<open>What every picker promises: the pick is in the snapshot and available.\<close>

lemma NextSkip_pick:
  assumes "NextSkip brk skip h p = (Inr w, p')" and "length (pool_load p) < 2 ^ 64"
  shows "w \<in> set (pool_load p)" and "Available brk h w" and "Name (h w) \<notin> set skip"
proof -
  from assms(1) have ne: "pool_load p \<noteq> []" by (auto simp: NextSkip_def Let_def)
  with assms(1) have "find (\<lambda>w. Available brk h w \<and> Name (h w) \<notin> set skip)
      (visit (pool_load p) (rr p)) = Some w"
    by (simp add: NextSkip_visit split: option.splits)
  then show "w \<in> set (pool_load p)" and "Available brk h w" and "Name (h w) \<notin> set skip"
    using visit_subset [OF assms(2)] by (auto dest!: find_Some_D)
qed

lemma NextRR_pick:
  assumes "NextRR brk h p = (Inr w, p')" and "length (pool_load p) < 2 ^ 64"
  shows "w \<in> set (pool_load p)" and "Available brk h w"
proof -
  from assms(1) have ne: "pool_load p \<noteq> []" by (auto simp: NextRR_def Let_def)
  with assms(1) have "find (Available brk h) (visit (pool_load p) (rr p)) = Some w"
    by (simp add: NextRR_visit split: option.splits)
  then show "w \<in> set (pool_load p)" and "Available brk h w"
    using visit_subset [OF assms(2)] by (auto dest!: find_Some_D)
qed

lemma NextBySession_pick:
  assumes "NextBySession brk h p s = Inr w" and "length (pool_load p) < 2 ^ 64"
  shows "w \<in> set (pool_load p)" and "Available brk h w"
proof -
  from assms(1) have "find (Available brk h) (visit (pool_load p) (fnv1a s)) = Some w"
    by (simp add: pick_defs Let_def split: option.splits if_splits)
  then show "w \<in> set (pool_load p)" and "Available brk h w"
    using visit_subset [OF assms(2)] by (auto dest!: find_Some_D)
qed

lemma rr_calls_all_available:
  assumes "\<forall>w \<in> set cur. Available brk h w" and "cur \<noteq> []"
    and "pool_load p = cur" and "unat (rr p) + k + length cur \<le> 2 ^ 64"
  shows "rr_calls k brk h p =
           (map (\<lambda>i. Inr (cur ! ((unat (rr p) + i) mod length cur))) [0..<k],
            p\<lparr>rr := rr p + of_nat k\<rparr>)"
  using assms(3,4)
proof (induction k arbitrary: p)
  case 0
  then show ?case by simp
next
  case (Suc k)
  let ?p = "p\<lparr>rr := rr p + 1\<rparr>"
  have nw: "unat (rr p) + length cur \<le> 2 ^ 64" using Suc.prems(2) by simp
  have "find (Available brk h) (visit cur (rr p)) = Some (hd (visit cur (rr p)))"
    using assms(1,2) by (intro find_all) (auto simp: visit_rotate [OF nw])
  also have "hd (visit cur (rr p)) = cur ! (unat (rr p) mod length cur)"
    using assms(2) by (simp add: visit_rotate [OF nw] hd_rotate_conv_nth)
  finally have r: "NextRR brk h p = (Inr (cur ! (unat (rr p) mod length cur)), ?p)"
    using assms(2) Suc.prems(1) by (simp add: NextRR_visit)
  have u: "unat (rr p + 1) = unat (rr p) + 1"
    using Suc.prems(2) assms(2) by (cases cur) (auto simp: unat_word_ariths)
  have IH: "rr_calls k brk h ?p =
      (map (\<lambda>i. Inr (cur ! ((unat (rr ?p) + i) mod length cur))) [0..<k],
       ?p\<lparr>rr := rr ?p + of_nat k\<rparr>)"
    using Suc.prems u by (intro Suc.IH) simp_all
  have "[0..<Suc k] = 0 # map Suc [0..<k]"
    by (simp add: map_Suc_upt upt_conv_Cons del: upt_Suc)
  then show ?case using r IH u by (simp add: algebra_simps comp_def del: upt_Suc)
qed

lemma mset_rotate [simp]: "mset (rotate n xs) = mset xs"
proof -
  have "mset (rotate n xs) = mset (take (n mod length xs) xs @ drop (n mod length xs) xs)"
    unfolding rotate_drop_take mset_append by (rule add.commute)
  then show ?thesis by (simp only: append_take_drop_id)
qed

lemma find_ex: "(\<exists>x. find P xs = Some x) \<longleftrightarrow> (\<exists>x \<in> set xs. P x)"
  by (induction xs) auto

section \<open>Lemmas: the snapshot\<close>

lemma find_idx_None: "find_idx w xs = None \<longleftrightarrow> w \<notin> set xs"
  by (induction xs) auto

lemma find_idx_Some: "find_idx w xs = Some i \<Longrightarrow> i < length xs \<and> xs ! i = w"
  by (induction xs arbitrary: i) (auto split: if_splits)

lemma mset_update_at: "i < length xs \<Longrightarrow> mset (xs[i := y]) = mset xs - {#xs ! i#} + {#y#}"
  by (simp add: mset_update)

lemma mset_drop_at: "i < length xs \<Longrightarrow> mset (take i xs @ drop (Suc i) xs) = mset xs - {#xs ! i#}"
proof -
  assume i: "i < length xs"
  have "mset xs = mset (take i xs @ xs ! i # drop (Suc i) xs)"
    using i by (simp add: id_take_nth_drop [symmetric])
  then show ?thesis by simp
qed

lemma store_flags_apply:
  "store_flags paused healthy ws h w =
     (if w \<in> set ws then (h w)\<lparr>QuotaPaused := paused, Healthy := healthy\<rparr> else h w)"
  by (induction ws arbitrary: h) auto

section \<open>Properties\<close>

text \<open>
  C27. Round robin is exact. As long as the 64-bit counter does not wrap within the scan,
  \<^verbatim>\<open>NextRR\<close> returns the first available worker in cyclic order from the counter, it fails exactly
  when no worker of the snapshot is available, and it changes nothing but the counter.
\<close>

theorem NextRR_first_available:
  assumes "pool_load p \<noteq> []" and "unat (rr p) + length (pool_load p) \<le> 2 ^ 64"
  shows "NextRR brk h p =
           (case find (Available brk h) (rotate (unat (rr p) mod length (pool_load p)) (pool_load p)) of
              Some w \<Rightarrow> Inr w | None \<Rightarrow> Inl NoWorkers, p\<lparr>rr := rr p + 1\<rparr>) \<and>
         ((\<exists>w. fst (NextRR brk h p) = Inr w) \<longleftrightarrow> (\<exists>w \<in> set (pool_load p). Available brk h w))"
  using assms find_ex [of "Available brk h" "rotate (unat (rr p) mod length (pool_load p)) (pool_load p)"]
  by (cases "find (Available brk h) (rotate (unat (rr p) mod length (pool_load p)) (pool_load p))")
     (simp_all add: NextRR_visit visit_rotate)

theorem NextRR_first_available_witness:
  "let brk = (\<lambda>w. if w = 7 then StateOpen else StateClosed); h = (\<lambda>_. NewWorker 0 [] [] []); p = pool_New [7, 8]
   in NextRR brk h p = (Inr 8, p\<lparr>rr := 1\<rparr>) \<and> unat (rr p) + length (pool_load p) \<le> 2 ^ 64"
  using NextRR_first_available [of "pool_New [7, 8]" "\<lambda>w. if w = 7 then StateOpen else StateClosed"
      "\<lambda>_. NewWorker 0 [] [] []"]
  by (simp add: pool_New_def pool_load_def Available_def NewWorker_def)

text \<open>
  C28. Round robin is fair: while all workers are available, any \<open>length\<close>-many consecutive calls
  return every worker of the snapshot once, each as often as it is listed, in snapshot order rotated
  to the counter.
\<close>

theorem NextRR_fair:
  assumes "\<forall>w \<in> set cur. Available brk h w" and "cur \<noteq> []" and "pool_load p = cur"
    and "unat (rr p) + 2 * length cur \<le> 2 ^ 64"
  shows "fst (rr_calls (length cur) brk h p) = map Inr (rotate (unat (rr p) mod length cur) cur) \<and>
         mset (fst (rr_calls (length cur) brk h p)) = image_mset Inr (mset cur)"
proof -
  from assms(4) have "unat (rr p) + length cur + length cur \<le> 2 ^ 64" by simp
  note run = rr_calls_all_available [OF assms(1-3) this]
  have "map (\<lambda>i. Inr (cur ! ((unat (rr p) + i) mod length cur))) [0..<length cur] =
      map Inr (rotate (unat (rr p) mod length cur) cur)"
    by (rule nth_equalityI) (simp_all add: nth_rotate mod_add_left_eq)
  with run have "fst (rr_calls (length cur) brk h p) = map Inr (rotate (unat (rr p) mod length cur) cur)"
    by simp
  then show ?thesis by (simp only: mset_map mset_rotate simp_thms)
qed

theorem NextRR_fair_witness:
  "fst (rr_calls (length [3, 4, 5 :: nat]) (\<lambda>_. StateClosed) (\<lambda>_. NewWorker 0 [] [] [])
          ((pool_New [3, 4, 5])\<lparr>rr := 10\<rparr>)) =
     map Inr (rotate (unat (rr ((pool_New [3, 4, 5])\<lparr>rr := 10\<rparr>)) mod length [3, 4, 5 :: nat]) [3, 4, 5]) \<and>
   mset (fst (rr_calls (length [3, 4, 5 :: nat]) (\<lambda>_. StateClosed) (\<lambda>_. NewWorker 0 [] [] [])
          ((pool_New [3, 4, 5])\<lparr>rr := 10\<rparr>))) = image_mset Inr (mset [3, 4, 5])"
  by (rule NextRR_fair) (simp_all add: Available_def NewWorker_def pool_New_def pool_load_def)

text \<open>
  The counter is a 64-bit word, and a scan that crosses its wrap-around visits an index
  twice and misses another: with three workers, of which only the last is available, and the
  counter at its largest value, \<^verbatim>\<open>NextRR\<close> reports that no worker is available. (The same loop
  starts at an arbitrary hash in \<^verbatim>\<open>NextBySession\<close>.)
\<close>

lemma NextRR_wrap_misses_worker:
  "let h = (\<lambda>w. (NewWorker 0 [] [] [])\<lparr>Healthy := (w = 2)\<rparr>);
       p = (pool_New [0, 1, 2])\<lparr>rr := 2 ^ 64 - 1\<rparr>
   in Available (\<lambda>_. StateClosed) h 2 \<and> 2 \<in> set (pool_load p) \<and>
      fst (NextRR (\<lambda>_. StateClosed) h p) = Inl NoWorkers"
  by (simp add: Let_def NextRR_def scan.simps Available_def NewWorker_def pool_New_def pool_load_def)

text \<open>
  Sessions are sticky: while the worker at the session's hash position is available,
  \<^verbatim>\<open>NextBySession\<close> returns it, whatever the round-robin counter, the quotas and the health of
  the other workers are; and it never returns an unavailable worker.
\<close>

lemma NextBySession_sticky:
  assumes "pool_load p \<noteq> []" and "length (pool_load p) < 2 ^ 64"
    and "Available brk h (pool_load p ! (unat (fnv1a s) mod length (pool_load p)))"
  shows "NextBySession brk h (p\<lparr>rr := r, quotas := q\<rparr>) s =
           Inr (pool_load p ! (unat (fnv1a s) mod length (pool_load p))) \<and>
         (\<forall>h' w. NextBySession brk h' p s = Inr w \<longrightarrow> Available brk h' w \<and> w \<in> set (pool_load p))"
proof -
  have l: "pool_load (p\<lparr>rr := r, quotas := q\<rparr>) = pool_load p" by (simp add: pool_load_def)
  have "unat ((fnv1a s + of_nat 0) mod of_nat (length (pool_load p))) =
      unat (fnv1a s) mod length (pool_load p)"
    using assms(2) by (simp add: unat_mod unat_of_nat_small)
  then have "scan (Available brk h) (pool_load p) (fnv1a s) 0 =
      Some (pool_load p ! (unat (fnv1a s) mod length (pool_load p)))"
    using assms(1,3) by (subst scan.simps) simp
  then have "NextBySession brk h (p\<lparr>rr := r, quotas := q\<rparr>) s =
      Inr (pool_load p ! (unat (fnv1a s) mod length (pool_load p)))"
    using assms(1) by (simp add: NextBySession_def l Let_def)
  with assms(2) show ?thesis by (blast dest: NextBySession_pick)
qed

lemma NextBySession_sticky_example:
  "let h = (\<lambda>_. NewWorker 0 [] [] []); p = pool_New [4, 5]
   in NextBySession (\<lambda>_. StateClosed) h (p\<lparr>rr := 9, quotas := Map.empty\<rparr>) ''s1'' =
        Inr ([4, 5] ! (unat (fnv1a ''s1'') mod length [4, 5 :: nat]))"
  using NextBySession_sticky [of "pool_New [4, 5]" "\<lambda>_. StateClosed" "\<lambda>_. NewWorker 0 [] [] []" "''s1''" Map.empty 9]
  by (simp add: pool_New_def pool_load_def Available_def NewWorker_def)

text \<open>
  A retry never goes back to a worker already tried: what \<^verbatim>\<open>NextSkip\<close> returns is in the
  snapshot, available and not in the skip set, and (away from the counter's wrap-around) it fails
  only when the snapshot has no such worker.
\<close>

lemma NextSkip_exact:
  assumes "length (pool_load p) < 2 ^ 64"
  shows "(\<forall>w. fst (NextSkip brk skip h p) = Inr w \<longrightarrow>
            w \<in> set (pool_load p) \<and> Available brk h w \<and> Name (h w) \<notin> set skip) \<and>
         (unat (rr p) + length (pool_load p) \<le> 2 ^ 64 \<longrightarrow>
            (\<forall>e. fst (NextSkip brk skip h p) = Inl e \<longrightarrow>
               (\<forall>w \<in> set (pool_load p). \<not> Available brk h w \<or> Name (h w) \<in> set skip)))"
proof (intro conjI allI impI)
  fix w assume "fst (NextSkip brk skip h p) = Inr w"
  then have "NextSkip brk skip h p = (Inr w, snd (NextSkip brk skip h p))"
    by (metis prod.collapse)
  from NextSkip_pick [OF this assms]
  show "w \<in> set (pool_load p)" "Available brk h w" "Name (h w) \<notin> set skip" by auto
next
  fix e assume nw: "unat (rr p) + length (pool_load p) \<le> 2 ^ 64"
    and e: "fst (NextSkip brk skip h p) = Inl e"
  show "\<forall>w \<in> set (pool_load p). \<not> Available brk h w \<or> Name (h w) \<in> set skip"
  proof (cases "pool_load p = []")
    case False
    with e nw show ?thesis
      by (auto simp: NextSkip_visit visit_rotate split: option.splits dest!: find_None_D)
  qed simp
qed

lemma NextSkip_exact_example:
  "length (pool_load (pool_New [1, 2])) < 2 ^ 64 \<and>
   fst (NextSkip (\<lambda>_. StateClosed) [''a''] (\<lambda>w. NewWorker 0 [] (if w = 1 then ''a'' else ''b'') [])
          (pool_New [1, 2])) = Inr 2 \<and>
   Name (NewWorker 0 [] (if (2 :: nat) = 1 then ''a'' else ''b'') []) \<notin> set [''a'']"
proof -
  let ?h = "\<lambda>w :: nat. NewWorker 0 [] (if w = 1 then ''a'' else ''b'') []"
  have l: "length (pool_load (pool_New [1, 2])) < 2 ^ 64" by (simp add: pool_New_def pool_load_def)
  have r: "fst (NextSkip (\<lambda>_. StateClosed) [''a''] ?h (pool_New [1, 2])) = Inr 2"
    by (simp add: NextSkip_def scan.simps pool_New_def pool_load_def Available_def NewWorker_def)
  show ?thesis using l r NextSkip_exact [OF l, of "\<lambda>_. StateClosed" "[''a'']" ?h] by blast
qed



text \<open>
  Pausing an account takes effect on all of its workers in the snapshot and on no other
  worker: afterwards none of them is available, resuming makes them healthy again, and the number
  returned is the number of workers switched.
\<close>

lemma SetAccountPaused_exact:
  "fst (SetAccountPaused acc paused h p) = length (ByAccount h p acc) \<and>
   snd (SetAccountPaused acc paused h p) =
     (\<lambda>w. if w \<in> set (pool_load p) \<and> AccountID (h w) = acc
          then (h w)\<lparr>QuotaPaused := paused, Healthy := \<not> paused\<rparr> else h w) \<and>
   (\<forall>w \<in> set (ByAccount h p acc).
      Available brk (snd (SetAccountPaused acc paused h p)) w \<longleftrightarrow> \<not> paused \<and> brk w \<noteq> StateOpen)"
  by (auto simp: SetAccountPaused_def Let_def store_flags_apply ByAccount_def Available_def fun_eq_iff)

end
