(* ===== verification/Health_Check.thy ===== *)
theory Health_Check
  imports Worker_Pool
begin

text \<open>
  Worker health (\<^verbatim>\<open>internal/pool/health.go\<close>): the moving average of the error rate that every dial
  updates, and the periodic health ping. \<open>RecordResult\<close> is one call that runs alone. The function is
  a compare-and-swap loop on shared atomics, so its second model is a step machine in which the
  atomic operations of any number of concurrent calls interleave.
\<close>

section \<open>Recording a result\<close>

definition ewmaAlpha :: rat where "ewmaAlpha = 3 / 10"

definition healthThreshold :: rat where "healthThreshold = 1 / 2"

text \<open>The two constants are exact in the source and become binary64 when they meet a variable.\<close>

definition ewma_next :: "rat \<Rightarrow> rat \<Rightarrow> rat" where
  "ewma_next obs oldF = fadd (fmul (f64 ewmaAlpha) obs) (fmul (f64 (1 - ewmaAlpha)) oldF)"

definition obs_of :: "bool \<Rightarrow> rat" where
  "obs_of err = (if err then 1 else 0)"

definition RecordResult :: "bool \<Rightarrow> worker \<Rightarrow> worker" where
  "RecordResult err w =
     (let w1 = (if err then w\<lparr>Errors := Errors w + 1\<rparr> else w);
          newF = ewma_next (obs_of err) (EWMAErr w1)
      in if newF > healthThreshold
         then w1\<lparr>EWMAErr := newF, Healthy := False\<rparr>
         else w1\<lparr>EWMAErr := newF, Healthy := True\<rparr>)"

definition EWMAErrRate :: "worker \<Rightarrow> rat" where
  "EWMAErrRate w = EWMAErr w"

section \<open>The health ping\<close>

text \<open>
  A ping ends in a transport error or in a response with a status and the value of the
  \<^verbatim>\<open>X-CF-Colo\<close> header (empty when absent).
\<close>

datatype ping = PingErr | PingResp (ping_status: int) (ping_colo: string)

definition checkOne :: "ping \<Rightarrow> worker \<Rightarrow> worker" where
  "checkOne r w =
     (case r of
        PingErr \<Rightarrow> w\<lparr>Healthy := False\<rparr>
      | PingResp status colo \<Rightarrow>
          if status \<noteq> 200 then w\<lparr>Healthy := False\<rparr>
          else (let w1 = (if colo \<noteq> [] then SetColo colo w else w) in w1\<lparr>Healthy := True\<rparr>))"

text \<open>One goroutine per pointer of the snapshot; the pings of one round touch their own worker only.\<close>

definition checkAll :: "(ref \<Rightarrow> ping) \<Rightarrow> pool \<Rightarrow> heap \<Rightarrow> heap" where
  "checkAll r p h = foldl (\<lambda>h w. h(w := checkOne (r w) (h w))) h (pool_All p)"

section \<open>Concurrent calls\<close>

text \<open>
  The program counter of one call of \<^verbatim>\<open>RecordResult\<close>: before the error counter, at the head of the
  loop, after the load of the old bits, after a successful swap, and done. A step of call \<open>i\<close>
  executes its next atomic operation on the shared worker; the log lists the swapped observations.
\<close>

datatype rec_pc = AtStart bool | AtLoop bool | AtSwap bool rat | AtStore bool rat | AtEnd bool

record rec_state =
  shared :: worker
  calls :: "rec_pc list"
  swapped :: "bool list"

definition rec_step :: "nat \<Rightarrow> rec_state \<Rightarrow> rec_state" where
  "rec_step i s =
     (if i < length (calls s)
      then (case calls s ! i of
              AtStart err \<Rightarrow>
                s\<lparr>shared := (if err then (shared s)\<lparr>Errors := Errors (shared s) + 1\<rparr> else shared s),
                  calls := (calls s)[i := AtLoop err]\<rparr>
            | AtLoop err \<Rightarrow> s\<lparr>calls := (calls s)[i := AtSwap err (EWMAErr (shared s))]\<rparr>
            | AtSwap err old \<Rightarrow>
                (let newF = ewma_next (obs_of err) old
                 in if EWMAErr (shared s) = old
                    then s\<lparr>shared := (shared s)\<lparr>EWMAErr := newF\<rparr>,
                           calls := (calls s)[i := AtStore err newF],
                           swapped := swapped s @ [err]\<rparr>
                    else s\<lparr>calls := (calls s)[i := AtLoop err]\<rparr>)
            | AtStore err newF \<Rightarrow>
                s\<lparr>shared := (shared s)\<lparr>Healthy := \<not> newF > healthThreshold\<rparr>,
                  calls := (calls s)[i := AtEnd err]\<rparr>
            | AtEnd err \<Rightarrow> s)
      else s)"

definition rec_init :: "worker \<Rightarrow> bool list \<Rightarrow> rec_state" where
  "rec_init w errs = \<lparr>shared = w, calls = map AtStart errs, swapped = []\<rparr>"

inductive rec_reach :: "worker \<Rightarrow> bool list \<Rightarrow> rec_state \<Rightarrow> bool" for w errs where
  rec_start: "rec_reach w errs (rec_init w errs)"
| rec_more: "rec_reach w errs s \<Longrightarrow> rec_reach w errs (rec_step i s)"

fun pc_err :: "rec_pc \<Rightarrow> bool" where
  "pc_err (AtStart e) = e"
| "pc_err (AtLoop e) = e"
| "pc_err (AtSwap e _) = e"
| "pc_err (AtStore e _) = e"
| "pc_err (AtEnd e) = e"

fun pc_swapped :: "rec_pc \<Rightarrow> bool" where
  "pc_swapped (AtStore _ _) = True"
| "pc_swapped (AtEnd _) = True"
| "pc_swapped _ = False"

fun pc_counted :: "rec_pc \<Rightarrow> bool" where
  "pc_counted (AtStart _) = False"
| "pc_counted _ = True"

definition is_done :: "rec_pc \<Rightarrow> bool" where
  "is_done pc \<longleftrightarrow> (case pc of AtEnd _ \<Rightarrow> True | _ \<Rightarrow> False)"

definition ewma_run :: "rat \<Rightarrow> bool list \<Rightarrow> rat" where
  "ewma_run x errs = foldl (\<lambda>x e. ewma_next (obs_of e) x) x errs"

section \<open>Lemmas: the average\<close>

lemma obs_of_bounds: "0 \<le> obs_of e" "obs_of e \<le> 1"
  by (simp_all add: obs_of_def)

text \<open>The binary64 values of the two constants, and the average at the points the proofs need.\<close>

lemma ewma_constants:
  "f64 ewmaAlpha = 5404319552844595 / 18014398509481984"
  "f64 (1 - ewmaAlpha) = 3152519739159347 / 4503599627370496"
  by code_simp+

lemmas ewma_next_eval = ewma_next_def [unfolded ewma_constants]

lemma ewma_values:
  "ewma_next 1 0 = 5404319552844595 / 18014398509481984"
  "ewma_next 0 1 = 3152519739159347 / 4503599627370496"
  "ewma_next 1 (1 / 2) = 1463669878895411 / 2251799813685248"
  unfolding ewma_next_eval by code_simp+

lemma ewma_at_ends: "ewma_next 0 0 = 0" "ewma_next 1 1 \<le> 1"
  unfolding ewma_next_eval by code_simp+

lemma ewma_twice:
  "ewma_next 1 (ewma_next 1 0) > 1 / 2" "ewma_next 0 (ewma_next 0 1) \<le> 1 / 2"
  "ewma_next 0 (ewma_next 1 (1 / 2)) \<le> 1 / 2" "ewma_next 1 (1 / 2) > 1 / 2"
  unfolding ewma_values unfolding ewma_next_eval by code_simp+

lemma ewma_next_mono: "obs \<le> obs' \<Longrightarrow> x \<le> x' \<Longrightarrow> ewma_next obs x \<le> ewma_next obs' x'"
  unfolding ewma_next_def by (intro fadd_mono fmul_mono) (simp_all add: ewma_constants)

lemma ewma_next_bounds:
  assumes "0 \<le> obs" "obs \<le> 1" "0 \<le> x" "x \<le> 1"
  shows "0 \<le> ewma_next obs x" "ewma_next obs x \<le> 1"
  using ewma_next_mono [OF assms(1,3)] ewma_next_mono [OF assms(2,4)] ewma_at_ends by simp_all

lemma ewma_two_failures: "0 \<le> x \<Longrightarrow> ewma_next 1 (ewma_next 1 x) > 1 / 2"
  by (rule less_le_trans [OF ewma_twice(1)]) (intro ewma_next_mono order.refl)

lemma ewma_two_successes: "x \<le> 1 \<Longrightarrow> ewma_next 0 (ewma_next 0 x) \<le> 1 / 2"
  by (rule order_trans [OF _ ewma_twice(2)]) (intro ewma_next_mono order.refl)

lemma RecordResult_fields [simp]:
  "EWMAErr (RecordResult e w) = ewma_next (obs_of e) (EWMAErr w)"
  "Healthy (RecordResult e w) \<longleftrightarrow> \<not> ewma_next (obs_of e) (EWMAErr w) > healthThreshold"
  "QuotaPaused (RecordResult e w) = QuotaPaused w"
  "Errors (RecordResult e w) = Errors w + (if e then 1 else 0)"
  by (simp_all add: RecordResult_def Let_def)

lemma ewma_run_snoc: "ewma_run x (errs @ [e]) = ewma_next (obs_of e) (ewma_run x errs)"
  by (simp add: ewma_run_def)

lemma ewma_run_bounds: "0 \<le> x \<Longrightarrow> x \<le> 1 \<Longrightarrow> 0 \<le> ewma_run x errs \<and> ewma_run x errs \<le> 1"
proof (induction errs rule: rev_induct)
  case Nil
  then show ?case by (simp add: ewma_run_def)
next
  case (snoc e errs)
  then show ?case by (simp add: ewma_run_snoc ewma_next_bounds obs_of_bounds)
qed

lemma ewma_run_record: "EWMAErr (foldl (\<lambda>w e. RecordResult e w) w errs) = ewma_run (EWMAErr w) errs"
  by (induction errs arbitrary: w) (simp_all add: ewma_run_def)

lemma checkOne_fields [simp]:
  "QuotaPaused (checkOne r w) = QuotaPaused w" "EWMAErr (checkOne r w) = EWMAErr w"
  "AccountID (checkOne r w) = AccountID w"
  by (simp_all add: checkOne_def SetColo_def Let_def split: ping.split)

lemma checkAll_QuotaPaused: "QuotaPaused (checkAll r p h w) = QuotaPaused (h w)"
proof -
  have "QuotaPaused (foldl (\<lambda>h w. h(w := checkOne (r w) (h w))) h ws w) = QuotaPaused (h w)" for ws
    by (induction ws arbitrary: h) simp_all
  then show ?thesis by (simp add: checkAll_def)
qed

section \<open>Lemmas: interleaved calls\<close>

lemma rec_step_at [step_simps]:
  "i < length (calls s) \<Longrightarrow> calls s ! i = AtStart True \<Longrightarrow>
     rec_step i s = s\<lparr>shared := (shared s)\<lparr>Errors := Errors (shared s) + 1\<rparr>, calls := (calls s)[i := AtLoop True]\<rparr>"
  "i < length (calls s) \<Longrightarrow> calls s ! i = AtStart False \<Longrightarrow> rec_step i s = s\<lparr>calls := (calls s)[i := AtLoop False]\<rparr>"
  "i < length (calls s) \<Longrightarrow> calls s ! i = AtLoop err \<Longrightarrow>
     rec_step i s = s\<lparr>calls := (calls s)[i := AtSwap err (EWMAErr (shared s))]\<rparr>"
  "i < length (calls s) \<Longrightarrow> calls s ! i = AtSwap err (EWMAErr (shared s)) \<Longrightarrow>
     rec_step i s = s\<lparr>shared := (shared s)\<lparr>EWMAErr := ewma_next (obs_of err) (EWMAErr (shared s))\<rparr>,
       calls := (calls s)[i := AtStore err (ewma_next (obs_of err) (EWMAErr (shared s)))],
       swapped := swapped s @ [err]\<rparr>"
  "i < length (calls s) \<Longrightarrow> calls s ! i = AtStore err newF \<Longrightarrow>
     rec_step i s = s\<lparr>shared := (shared s)\<lparr>Healthy := \<not> newF > healthThreshold\<rparr>,
       calls := (calls s)[i := AtEnd err]\<rparr>"
  by (simp_all add: rec_step_def Let_def)

lemmas rec_step_success [step_simps] = rec_step_at(3-5) [where err = False]

lemma rec_step_lost_race:
  "i < length (calls s) \<Longrightarrow> calls s ! i = AtSwap err old \<Longrightarrow> EWMAErr (shared s) \<noteq> old \<Longrightarrow>
     rec_step i s = s\<lparr>calls := (calls s)[i := AtLoop err]\<rparr>"
  by (simp add: rec_step_def)

text \<open>The invariant: how many calls have swapped and counted, and what the average is.\<close>

definition rec_inv :: "worker \<Rightarrow> bool list \<Rightarrow> rec_state \<Rightarrow> bool" where
  "rec_inv w errs s \<longleftrightarrow>
     map pc_err (calls s) = errs \<and>
     EWMAErr (shared s) = ewma_run (EWMAErr w) (swapped s) \<and>
     mset (swapped s) = image_mset pc_err (filter_mset pc_swapped (mset (calls s))) \<and>
     Errors (shared s) = Errors w + of_nat (length (filter (\<lambda>pc. pc_counted pc \<and> pc_err pc) (calls s))) \<and>
     QuotaPaused (shared s) = QuotaPaused w"

lemma mset_list_update_split:
  assumes "i < length xs"
  obtains A where "mset xs = add_mset (xs ! i) A" "\<And>y. mset (xs[i := y]) = add_mset y A"
proof
  show "mset xs = add_mset (xs ! i) (mset xs - {#xs ! i#})" using assms by simp
  show "mset (xs[i := y]) = add_mset y (mset xs - {#xs ! i#})" for y
    using assms by (simp add: mset_update)
qed

lemma length_filter_mset: "length (filter P xs) = size (filter_mset P (mset xs))"
  by (metis mset_filter size_mset)

lemma map_list_update_same: "i < length xs \<Longrightarrow> f y = f (xs ! i) \<Longrightarrow> map f (xs[i := y]) = map f xs"
  by (metis list_update_id map_update)

lemma rec_inv_step: "rec_inv w errs s \<Longrightarrow> rec_inv w errs (rec_step i s)"
proof (cases "i < length (calls s)")
  case True
  assume inv: "rec_inv w errs s"
  obtain A where A: "mset (calls s) = add_mset (calls s ! i) A"
    "\<And>y. mset ((calls s)[i := y]) = add_mset y A"
    using mset_list_update_split [OF True] by blast
  show ?thesis
    using inv True
    by (cases "calls s ! i")
       (auto simp: rec_inv_def rec_step_def Let_def length_filter_mset A ewma_run_snoc
          map_list_update_same)
qed (simp add: rec_step_def)

lemma rec_inv_reach: "rec_reach w errs s \<Longrightarrow> rec_inv w errs s"
proof (induction rule: rec_reach.induct)
  case rec_start
  have "filter_mset pc_swapped (mset (map AtStart errs)) = {#}"
    "filter (\<lambda>pc. pc_counted pc \<and> pc_err pc) (map AtStart errs) = []"
    "map pc_err (map AtStart errs) = errs"
    by (induction errs) auto
  then show ?case by (simp add: rec_inv_def rec_init_def ewma_run_def)
qed (rule rec_inv_step)

lemma rec_reach_fold: "rec_reach w errs s \<Longrightarrow> rec_reach w errs (foldl (\<lambda>s i. rec_step i s) s sched)"
  by (induction sched arbitrary: s) (auto intro: rec_more)

section \<open>Properties\<close>

text \<open>
  C34. The error average is an average, and the flag follows it at once: from any value in [0, 1]
  the average stays in [0, 1] whatever the sequence of results, two failures in a row make the
  worker unhealthy and two successes in a row make it healthy again, in the rounded arithmetic the
  code uses.
\<close>

theorem RecordResult_reacts:
  assumes "0 \<le> EWMAErr w" and "EWMAErr w \<le> 1"
  shows "0 \<le> EWMAErrRate (foldl (\<lambda>w e. RecordResult e w) w errs) \<and>
         EWMAErrRate (foldl (\<lambda>w e. RecordResult e w) w errs) \<le> 1 \<and>
         \<not> Healthy (RecordResult True (RecordResult True w)) \<and>
         Healthy (RecordResult False (RecordResult False w))"
  using assms ewma_run_bounds [of "EWMAErr w" errs] ewma_two_failures [of "EWMAErr w"]
    ewma_two_successes [of "EWMAErr w"]
  by (simp add: EWMAErrRate_def ewma_run_record obs_of_def healthThreshold_def not_less)

theorem RecordResult_reacts_witness:
  "let w = NewWorker 0 ''acc'' ''w'' ''u''
   in 0 \<le> EWMAErr w \<and> EWMAErr w \<le> 1 \<and> \<not> Healthy (RecordResult True (RecordResult True w))"
  using RecordResult_reacts [of "NewWorker 0 ''acc'' ''w'' ''u''" "[]"]
  by (simp add: Let_def NewWorker_def)

text \<open>
  C33. The lock-free loop loses no observation: in every interleaving of concurrent calls of
  \<^verbatim>\<open>RecordResult\<close>, once all calls are done the stored average is the one obtained by feeding
  their observations one after the other in some order (the order of the successful swaps), each
  exactly once, and the error counter has grown by the number of failures.
\<close>

theorem RecordResult_linearizes:
  assumes "rec_reach w errs s" and "\<forall>pc \<in> set (calls s). is_done pc"
  shows "mset (swapped s) = mset errs \<and>
         EWMAErr (shared s) = EWMAErr (foldl (\<lambda>w e. RecordResult e w) w (swapped s)) \<and>
         Errors (shared s) = Errors w + of_nat (length (filter id errs))"
proof -
  note inv = rec_inv_reach [OF assms(1), unfolded rec_inv_def]
  have d: "pc_swapped pc \<and> pc_counted pc" if "pc \<in> set (calls s)" for pc
    using assms(2) that by (cases pc) (auto simp: is_done_def)
  then have "filter pc_swapped (calls s) = calls s"
    "filter (\<lambda>pc. pc_counted pc \<and> pc_err pc) (calls s) = filter pc_err (calls s)"
    by (auto simp: filter_id_conv intro!: filter_cong)
  moreover have "length (filter pc_err (calls s)) = length (filter id (map pc_err (calls s)))"
    by (simp add: filter_map comp_def)
  ultimately show ?thesis using inv by (metis ewma_run_record mset_filter mset_map)
qed

theorem RecordResult_linearizes_witness:
  "let s = foldl (\<lambda>s i. rec_step i s) (rec_init (NewWorker 0 [] [] []) [True, False])
             [0, 0, 1, 1, 0, 1, 0, 1, 1, 1]
   in mset (swapped s) = mset [True, False] \<and> Errors (shared s) = 1"
proof -
  let ?w = "NewWorker 0 [] [] []"
  let ?s = "foldl (\<lambda>s i. rec_step i s) (rec_init ?w [True, False]) [0, 0, 1, 1, 0, 1, 0, 1, 1, 1]"
  have r: "rec_reach ?w [True, False] ?s" by (intro rec_reach_fold rec_start)
  have "ewma_next 1 0 \<noteq> 0" by (simp add: ewma_values)
  then have d: "\<forall>pc \<in> set (calls ?s). is_done pc"
    by (simp add: rec_init_def step_simps rec_step_lost_race [where err = False] obs_of_def NewWorker_def is_done_def)
  show ?thesis using RecordResult_linearizes [OF r d] by (simp add: Let_def NewWorker_def)
qed

text \<open>
  The health flag itself is not part of that atomic update: a failure and a success that
  interleave can leave the average below the threshold and the worker marked unhealthy, because
  the failure stores its verdict after the success has stored its own.
\<close>

lemma RecordResult_stale_flag:
  "let w = (NewWorker 0 [] [] [])\<lparr>EWMAErr := 1 / 2\<rparr>;
       s = foldl (\<lambda>s i. rec_step i s) (rec_init w [True, False]) [0, 0, 0, 1, 1, 1, 1, 0]
   in rec_reach w [True, False] s \<and> list_all is_done (calls s) \<and>
      EWMAErr (shared s) \<le> healthThreshold \<and> \<not> Healthy (shared s)"
proof -
  let ?w = "(NewWorker 0 [] [] [])\<lparr>EWMAErr := 1 / 2\<rparr>"
  let ?s = "foldl (\<lambda>s i. rec_step i s) (rec_init ?w [True, False]) [0, 0, 0, 1, 1, 1, 1, 0]"
  have "rec_reach ?w [True, False] ?s" by (intro rec_reach_fold rec_start)
  moreover have "?s = \<lparr>shared = ?w\<lparr>Errors := 1, EWMAErr := ewma_next 0 (ewma_next 1 (1 / 2)),
      Healthy := \<not> ewma_next 1 (1 / 2) > healthThreshold\<rparr>, calls = [AtEnd True, AtEnd False], swapped = [True, False]\<rparr>"
    by (simp add: rec_init_def step_simps obs_of_def NewWorker_def)
  ultimately show ?thesis using ewma_twice(3,4) by (simp add: Let_def is_done_def healthThreshold_def)
qed

text \<open>
  A quota-paused worker stays out of rotation: no recorded result and no health ping,
  successful or not, makes it available again, although both may set the health flag.
\<close>

lemma paused_stays_unavailable:
  assumes "QuotaPaused (h w)"
  shows "\<not> Available brk (h(w := foldl (\<lambda>w e. RecordResult e w) (h w) errs)) w \<and>
         \<not> Available brk (checkAll r p h) w"
proof -
  have "QuotaPaused (foldl (\<lambda>w e. RecordResult e w) (h w) errs)"
    using assms by (induction errs arbitrary: h rule: rev_induct) simp_all
  then show ?thesis using assms by (simp add: Available_def checkAll_QuotaPaused)
qed

lemma paused_stays_unavailable_example:
  "let h = (\<lambda>_. (NewWorker 0 [] [] [])\<lparr>QuotaPaused := True\<rparr>)
   in QuotaPaused (h 1) \<and> Healthy (checkAll (\<lambda>_. PingResp 200 ''CDG'') (pool_New [1]) h 1) \<and>
      \<not> Available (\<lambda>_. StateClosed) (checkAll (\<lambda>_. PingResp 200 ''CDG'') (pool_New [1]) h) 1"
  using paused_stays_unavailable [of "\<lambda>_. (NewWorker 0 [] [] [])\<lparr>QuotaPaused := True\<rparr>" 1
      "\<lambda>_. StateClosed" "[]" "\<lambda>_. PingResp 200 ''CDG''" "pool_New [1]"]
  by (simp add: Let_def checkAll_def pool_All_def pool_New_def pool_load_def checkOne_def)

end
