(* ===== verification/Schedulers.thy ===== *)
theory Schedulers
  imports Health_Check
begin

text \<open>
  The scheduler interface (\<^verbatim>\<open>internal/scheduler/scheduler.go\<close>). The locale \<open>scheduler\<close> is the contract
  its client, the dial loop, relies on: a pick is a member of the snapshot, a pick touches nothing
  of the pool but the round-robin counter, and a non-empty pool with every worker available always
  gives a pick. Both implementations interpret it; the extension \<open>picky_scheduler\<close> (a pick is
  available) holds of round robin only.
\<close>

section \<open>Implementations\<close>

type_synonym sched = "(ref \<Rightarrow> breaker_state) \<Rightarrow> heap \<Rightarrow> pool \<Rightarrow> (pool_err + ref) \<times> pool"

definition roundRobin_Next :: sched where
  "roundRobin_Next brk h p = NextRR brk h p"

fun least_scan :: "heap \<Rightarrow> ref \<Rightarrow> int \<Rightarrow> ref list \<Rightarrow> ref" where
  "least_scan h best bestN [] = best"
| "least_scan h best bestN (w # ws) =
     (let n = Inflight (h w)
      in if n < bestN then least_scan h w n ws else least_scan h best bestN ws)"

definition leastInflight_Next :: sched where
  "leastInflight_Next brk h p =
     (case pool_All p of
        [] \<Rightarrow> NextRR brk h p
      | best # ws \<Rightarrow> (Inr (least_scan h best (Inflight (h best)) ws), p))"

section \<open>The contract\<close>

locale scheduler =
  fixes pick :: sched
  assumes next_member:
    "pick brk h p = (Inr w, p') \<Longrightarrow> length (pool_load p) < 2 ^ 64 \<Longrightarrow> w \<in> set (pool_load p)"
  and next_frame: "snap (snd (pick brk h p)) = snap p \<and> quotas (snd (pick brk h p)) = quotas p"
  and next_total:
    "pool_load p \<noteq> [] \<Longrightarrow> length (pool_load p) < 2 ^ 64 \<Longrightarrow>
     \<forall>w \<in> set (pool_load p). Available brk h w \<Longrightarrow> \<exists>w. fst (pick brk h p) = Inr w"
begin

lemma next_load: "pool_load (snd (pick brk h p)) = pool_load p"
  using next_frame [of brk h p] by (simp add: pool_load_def)

text \<open>Repeated picks: the snapshot is never changed, so all of them come from the first one.\<close>

fun picks :: "(nat \<Rightarrow> (ref \<Rightarrow> breaker_state) \<times> heap) \<Rightarrow> nat \<Rightarrow> pool \<Rightarrow> (pool_err + ref) list \<times> pool" where
  "picks env 0 p = ([], p)"
| "picks env (Suc n) p =
     (let (rs, p1) = picks env n p; (r, p2) = pick (fst (env n)) (snd (env n)) p1 in (rs @ [r], p2))"

lemma picks_load: "pool_load (snd (picks env n p)) = pool_load p"
proof (induction n)
  case (Suc n)
  then show ?case
    using next_load [of "fst (env n)" "snd (env n)" "snd (picks env n p)"]
    by (auto simp: Let_def split: prod.split)
qed simp

lemma picks_members:
  assumes "length (pool_load p) < 2 ^ 64" and "Inr w \<in> set (fst (picks env n p))"
  shows "w \<in> set (pool_load p)"
  using assms(2)
proof (induction n)
  case (Suc n)
  obtain rs p1 where 1: "picks env n p = (rs, p1)" by fastforce
  obtain r p2 where 2: "pick (fst (env n)) (snd (env n)) p1 = (r, p2)" by fastforce
  have l: "pool_load p1 = pool_load p" using picks_load [of env n p] 1 by simp
  show ?case
  proof (cases "Inr w \<in> set rs")
    case True
    with Suc.IH 1 show ?thesis by simp
  next
    case False
    with Suc.prems 1 2 have "r = Inr w" by simp
    with next_member [OF 2 [unfolded this]] l assms(1) show ?thesis by simp
  qed
qed simp

end

locale picky_scheduler = scheduler +
  assumes next_available:
    "pick brk h p = (Inr w, p') \<Longrightarrow> length (pool_load p) < 2 ^ 64 \<Longrightarrow> Available brk h w"
begin

lemma next_not_paused:
  "pick brk h p = (Inr w, p') \<Longrightarrow> length (pool_load p) < 2 ^ 64 \<Longrightarrow> \<not> QuotaPaused (h w)"
  by (auto dest!: next_available simp: Available_def)

end

section \<open>Lemmas\<close>

lemma least_scan_member: "least_scan h best bestN ws \<in> set (best # ws)"
  by (induction h best bestN ws rule: least_scan.induct) (auto simp: Let_def)

lemma least_scan_minimal:
  assumes "bestN = Inflight (h best)" and "w \<in> set (best # ws)"
  shows "Inflight (h (least_scan h best bestN ws)) \<le> Inflight (h w)"
  using assms
proof (induction h best bestN ws arbitrary: w rule: least_scan.induct)
  case (2 h best bestN x ws)
  show ?case
  proof (cases "Inflight (h x) < bestN")
    case True
    have m: "\<forall>w \<in> set (x # ws). Inflight (h (least_scan h x (Inflight (h x)) ws)) \<le> Inflight (h w)"
      using 2(1) [OF refl True refl] by blast
    have "Inflight (h x) \<le> Inflight (h best)" using True 2(3) by simp
    with m have "Inflight (h (least_scan h x (Inflight (h x)) ws)) \<le> Inflight (h best)" by force
    with m 2(4) True show ?thesis by (auto simp: Let_def)
  next
    case False
    have m: "\<forall>w \<in> set (best # ws). Inflight (h (least_scan h best bestN ws)) \<le> Inflight (h w)"
      using 2(2) [OF refl False 2(3)] by blast
    have "Inflight (h best) \<le> Inflight (h x)" using False 2(3) by simp
    with m have "Inflight (h (least_scan h best bestN ws)) \<le> Inflight (h x)" by force
    with m 2(4) False show ?thesis by (auto simp: Let_def)
  qed
qed simp

lemma NextRR_frame: "snap (snd (NextRR brk h p)) = snap p \<and> quotas (snd (NextRR brk h p)) = quotas p"
  by (simp add: NextRR_pool)

lemma NextRR_total:
  assumes "pool_load p \<noteq> []" and "length (pool_load p) < 2 ^ 64"
    and "\<forall>w \<in> set (pool_load p). Available brk h w"
  shows "\<exists>w. fst (NextRR brk h p) = Inr w"
proof -
  from assms have "find (Available brk h) (visit (pool_load p) (rr p)) = Some (hd (visit (pool_load p) (rr p)))"
    using visit_subset [OF assms(2)]
    by (intro find_all) (blast, metis length_0_conv length_visit)
  with assms(1) show ?thesis by (simp add: NextRR_visit)
qed

interpretation rr: picky_scheduler roundRobin_Next
  by unfold_locales
     (simp_all add: roundRobin_Next_def NextRR_frame NextRR_total NextRR_pick)

interpretation li: scheduler leastInflight_Next
proof
  fix brk h p w p'
  assume "leastInflight_Next brk h p = (Inr w, p')" and l: "length (pool_load p) < 2 ^ 64"
  then show "w \<in> set (pool_load p)"
    using NextRR_pick(1) [OF _ l]
      least_scan_member [of h "hd (pool_load p)" "Inflight (h (hd (pool_load p)))" "tl (pool_load p)"]
    by (cases "pool_load p") (auto simp: leastInflight_Next_def pool_All_def)
next
  fix brk h p
  show "snap (snd (leastInflight_Next brk h p)) = snap p \<and>
        quotas (snd (leastInflight_Next brk h p)) = quotas p"
    using NextRR_frame by (simp add: leastInflight_Next_def split: list.split)
next
  fix brk h p
  assume "pool_load p \<noteq> []"
  then show "\<exists>w. fst (leastInflight_Next brk h p) = Inr w"
    by (auto simp: leastInflight_Next_def pool_All_def split: list.split)
qed

section \<open>Properties\<close>

text \<open>
  The least-inflight scheduler picks a worker with the fewest streams in flight among the
  whole snapshot and leaves the pool as it is.
\<close>

lemma leastInflight_minimal:
  assumes "pool_load p \<noteq> []"
  shows "\<exists>b \<in> set (pool_load p). leastInflight_Next brk h p = (Inr b, p) \<and>
           (\<forall>w \<in> set (pool_load p). Inflight (h b) \<le> Inflight (h w))"
proof (cases "pool_load p")
  case (Cons best ws)
  let ?b = "least_scan h best (Inflight (h best)) ws"
  have "leastInflight_Next brk h p = (Inr ?b, p)"
    using Cons by (simp add: leastInflight_Next_def pool_All_def)
  moreover have "?b \<in> set (pool_load p)" using least_scan_member Cons by metis
  moreover have "\<forall>w \<in> set (pool_load p). Inflight (h ?b) \<le> Inflight (h w)"
    using least_scan_minimal [OF refl] Cons by metis
  ultimately show ?thesis by blast
qed (use assms in simp)

lemma leastInflight_minimal_example:
  "let h = (\<lambda>w. (NewWorker 0 [] [] [])\<lparr>Inflight := if w = 2 then 1 else 4\<rparr>); p = pool_New [1, 2, 3]
   in pool_load p \<noteq> [] \<and> leastInflight_Next (\<lambda>_. StateClosed) h p = (Inr 2, p)"
  using leastInflight_minimal [of "pool_New [1, 2, 3]" "\<lambda>_. StateClosed"
      "\<lambda>w. (NewWorker 0 [] [] [])\<lparr>Inflight := if w = 2 then 1 else 4\<rparr>"]
  by (auto simp: Let_def pool_New_def pool_load_def NewWorker_def)

text \<open>
  The two schedulers differ on a worker that must not be used: a quota-paused, unhealthy
  worker with an open breaker is still the pick of the least-inflight scheduler when it has the
  fewest streams in flight, although another worker is available, while round robin skips it.
\<close>

lemma leastInflight_ignores_availability:
  "let h = (\<lambda>w. (NewWorker 0 [] [] [])\<lparr>Inflight := int w, QuotaPaused := (w = 1), Healthy := (w \<noteq> 1)\<rparr>);
       brk = (\<lambda>w. if w = 1 then StateOpen else StateClosed)
   in fst (leastInflight_Next brk h (pool_New [1, 2])) = Inr 1 \<and> \<not> Available brk h 1 \<and>
      fst (roundRobin_Next brk h (pool_New [1, 2])) = Inr 2 \<and> Available brk h 2"
  by (simp add: Let_def leastInflight_Next_def roundRobin_Next_def NextRR_def scan.simps
      pool_All_def pool_New_def pool_load_def Available_def NewWorker_def)

end
