(* ===== verification/Tunnel.thy ===== *)
theory Tunnel
  imports Schedulers
begin

text \<open>
  One tunnel to a worker: the request signature (\<^verbatim>\<open>internal/auth/hmac.go\<close>), the WebSocket dial with
  its probe and the stream over WebSocket messages (\<^verbatim>\<open>internal/proxy/tunnel.go\<close>), the choice of the
  transport mode (\<^verbatim>\<open>mode.go\<close>) and the cache of targets that sockets cannot reach (\<^verbatim>\<open>cfcache.go\<close>).
  The keyed hash, the parsed worker URL, the WebSocket handshake and the first message are arguments;
  a WebSocket message is the list of results that reads of its reader give.
\<close>

section \<open>Modes and the reachability cache\<close>

definition ModeSocket :: string where "ModeSocket = ''socket''"
definition ModeFetch :: string where "ModeFetch = ''fetch''"
definition ModeHybrid :: string where "ModeHybrid = ''hybrid''"

lemmas mode_defs = ModeSocket_def ModeFetch_def ModeHybrid_def

definition PickMode :: "string \<Rightarrow> string \<Rightarrow> int \<Rightarrow> string" where
  "PickMode configured host port =
     (if configured = ModeSocket \<or> configured = [] then ModeSocket
      else if configured = ModeFetch then ModeFetch
      else if configured = ModeHybrid then ModeSocket
      else ModeSocket)"

text \<open>
  The private \<^verbatim>\<open>itoa\<close> writes digits from the end of a 10-byte buffer; \<open>None\<close> is the run-time
  panic of the eleventh digit.
\<close>

fun cf_itoa_loop :: "nat \<Rightarrow> nat \<Rightarrow> string \<Rightarrow> string option" where
  "cf_itoa_loop n i buf =
     (if n > 0
      then (if i = 0 then None else cf_itoa_loop (n div 10) (i - 1) (digit (n mod 10) # buf))
      else Some buf)"

declare cf_itoa_loop.simps [simp del]

definition cf_itoa :: "int \<Rightarrow> string option" where
  "cf_itoa n = (if n = 0 then Some ''0'' else if n > 0 then cf_itoa_loop (nat n) 10 [] else Some [])"

definition hostPortKey :: "string \<Rightarrow> int \<Rightarrow> string option" where
  "hostPortKey host port = map_option (\<lambda>p. host @ CHR '':'' # p) (cf_itoa port)"

type_synonym cf_cache = "string \<rightharpoonup> time"

definition MarkUnreachableViaSocket :: "time \<Rightarrow> string \<Rightarrow> int \<Rightarrow> cf_cache \<Rightarrow> cf_cache option" where
  "MarkUnreachableViaSocket now host port c = map_option (\<lambda>key. c(key \<mapsto> now)) (hostPortKey host port)"

definition IsKnownUnreachable ::
  "time \<Rightarrow> time \<Rightarrow> string \<Rightarrow> int \<Rightarrow> cf_cache \<Rightarrow> (bool \<times> cf_cache) option" where
  "IsKnownUnreachable CFCacheTTL now host port c =
     (case hostPortKey host port of
        None \<Rightarrow> None
      | Some key \<Rightarrow>
          (case c key of
             None \<Rightarrow> Some (False, c)
           | Some v \<Rightarrow> if now - v > CFCacheTTL then Some (False, c(key := None)) else Some (True, c)))"

section \<open>The signature\<close>

definition sign_text :: "time \<Rightarrow> string \<Rightarrow> int \<Rightarrow> bool \<Rightarrow> string \<Rightarrow> string" where
  "sign_text ts host port tls mode =
     itoa ts @ CHR ''|'' # host @ CHR ''|'' # itoa port @ CHR ''|'' #
     (if tls then CHR ''1'' else CHR ''0'') # CHR ''|'' # mode"

text \<open>\<^verbatim>\<open>hex.EncodeToString\<close>, and \<^verbatim>\<open>Sign\<close> with the keyed hash as an argument.\<close>

definition nibble :: "nat \<Rightarrow> char" where
  "nibble d = (if d < 10 then char_of (48 + d) else char_of (87 + d))"

definition hex_encode :: "bytes \<Rightarrow> string" where
  "hex_encode b = concat (map (\<lambda>w. [nibble (unat w div 16), nibble (unat w mod 16)]) b)"

definition Sign ::
  "(bytes \<Rightarrow> bytes \<Rightarrow> bytes) \<Rightarrow> time \<Rightarrow> string \<Rightarrow> string \<Rightarrow> int \<Rightarrow> bool \<Rightarrow> string \<Rightarrow> time \<times> string" where
  "Sign hmac now secret host port tls mode =
     (let ts = now; mode = (if mode = [] then ''socket'' else mode)
      in (ts, hex_encode (hmac (bytes_of secret) (bytes_of (sign_text ts host port tls mode)))))"

section \<open>Dialing a worker\<close>

datatype dial_err =
    ErrUpstreamBlocked | ErrUrl | ErrWsDial string | ErrProbe int | ErrProbeSig nat
  | ErrBreaker string | ErrPool pool_err | ErrCtx | ErrRewrap | ErrExhausted

record url =
  Scheme :: string
  Query :: "string \<rightharpoonup> string"

datatype probe = ProbeErr int | ProbeMsg bytes

record dial_env =
  PreferIPv4 :: bool
  PreferIPv4Resolver :: "(string \<Rightarrow> string) option"
  ProbeDisabled :: bool
  env_now :: time
  parsed_url :: "url option"
  ws_dial :: "url \<Rightarrow> string option"
  ws_first :: probe

text \<open>The ways a dialed WebSocket can end up: never opened, handed to the caller, or closed.\<close>

datatype ws_fate = NotOpened | Returned | Closed

definition ws_url ::
  "(bytes \<Rightarrow> bytes \<Rightarrow> bytes) \<Rightarrow> time \<Rightarrow> string \<Rightarrow> string \<Rightarrow> int \<Rightarrow> bool \<Rightarrow> string \<Rightarrow> url \<Rightarrow> url" where
  "ws_url hmac now secret host port tls mode u =
     (let (ts, sig) = Sign hmac now secret host port tls mode
      in u\<lparr>Scheme := (if Scheme u = ''https'' then ''wss'' else if Scheme u = ''http'' then ''ws'' else Scheme u),
           Query := (Query u)(''h'' \<mapsto> host, ''p'' \<mapsto> itoa port, ''t'' \<mapsto> (if tls then ''1'' else ''0''),
             ''ts'' \<mapsto> itoa ts, ''s'' \<mapsto> sig, ''m'' \<mapsto> mode)\<rparr>)"

definition DialWorker ::
  "(bytes \<Rightarrow> bytes \<Rightarrow> bytes) \<Rightarrow> dial_env \<Rightarrow> string \<Rightarrow> string \<Rightarrow> int \<Rightarrow> bool \<Rightarrow> string
     \<Rightarrow> (dial_err + url) \<times> ws_fate" where
  "DialWorker hmac env secret host0 port tls mode0 =
     (let host = (case PreferIPv4Resolver env of
                    Some r \<Rightarrow> if PreferIPv4 env \<and> r host0 \<noteq> [] then r host0 else host0
                  | None \<Rightarrow> host0);
          mode = (if mode0 = [] then ModeSocket else mode0)
      in case parsed_url env of
           None \<Rightarrow> (Inl ErrUrl, NotOpened)
         | Some u0 \<Rightarrow>
             (let u = ws_url hmac (env_now env) secret host port tls mode u0
              in case ws_dial env u of
                   Some e \<Rightarrow> (Inl (ErrWsDial e), NotOpened)
                 | None \<Rightarrow>
                     if ProbeDisabled env then (Inr u, Returned)
                     else (case ws_first env of
                             ProbeErr status \<Rightarrow>
                               if status = 4001 then (Inl ErrUpstreamBlocked, Closed)
                               else (Inl (ErrProbe status), Closed)
                           | ProbeMsg probe \<Rightarrow>
                               if length probe \<noteq> 1 \<or> probe ! 0 \<noteq> 1 then (Inl (ErrProbeSig (length probe)), Closed)
                               else (Inr u, Returned))))"

section \<open>The stream over messages\<close>

text \<open>
  A read of a message reader gives some bytes and whether it reports end of message. The state of
  the connection is the rest of the current message and the messages still to come.
\<close>

type_synonym reads = "(bytes \<times> bool) list"

record wsconn =
  cur_reader :: "reads option"
  incoming :: "reads list"

datatype read_res = Data bytes | DataEOF bytes | Broken

text \<open>One read of a message reader; a reader whose results are used up keeps reporting the end.\<close>

definition read_one :: "reads \<Rightarrow> (bytes \<times> bool) \<times> reads" where
  "read_one r = (case r of [] \<Rightarrow> (([], True), []) | x # xs \<Rightarrow> (x, xs))"

definition next_message :: "wsconn \<Rightarrow> read_res \<times> wsconn" where
  "next_message w =
     (case incoming w of
        [] \<Rightarrow> (Broken, w)
      | m # ms \<Rightarrow>
          (let ((b, eof), r) = read_one m
           in (if eof then DataEOF b else Data b, w\<lparr>cur_reader := Some r, incoming := ms\<rparr>)))"

definition wsConn_Read :: "wsconn \<Rightarrow> read_res \<times> wsconn" where
  "wsConn_Read w =
     (case cur_reader w of
        Some r \<Rightarrow>
          (let ((b, eof), r') = read_one r
           in if eof
              then (if b \<noteq> [] then (Data b, w\<lparr>cur_reader := None\<rparr>)
                    else next_message (w\<lparr>cur_reader := None\<rparr>))
              else (Data b, w\<lparr>cur_reader := Some r'\<rparr>))
      | None \<Rightarrow> next_message w)"

text \<open>What the copy loop of the relay takes from the stream: it stops at the first end or error.\<close>

fun copy_all :: "nat \<Rightarrow> wsconn \<Rightarrow> bytes" where
  "copy_all 0 w = []"
| "copy_all (Suc n) w =
     (case wsConn_Read w of
        (Data b, w') \<Rightarrow> b @ copy_all n w'
      | (DataEOF b, w') \<Rightarrow> b
      | (Broken, w') \<Rightarrow> [])"

section \<open>Lemmas\<close>

lemma cf_itoa_loop_dec:
  assumes "n < 10 ^ i" and "0 < n"
  shows "cf_itoa_loop n i buf = Some (dec n @ buf)"
  using assms
proof (induction i arbitrary: n buf)
  case (Suc i)
  have d: "n div 10 < 10 ^ i" using Suc.prems(1) by (simp add: less_mult_imp_div_less)
  show ?case
  proof (cases "n < 10")
    case True
    then show ?thesis using Suc.prems(2)
      by (subst cf_itoa_loop.simps, subst cf_itoa_loop.simps) (simp add: dec_rec [of n])
  next
    case False
    then have "0 < n div 10" by (simp add: div_greater_zero_iff)
    with Suc.IH [OF d this] False show ?thesis
      by (subst cf_itoa_loop.simps) (simp add: dec_rec [of n])
  qed
qed simp

lemma cf_itoa_dec: "0 \<le> n \<Longrightarrow> n < 10 ^ 10 \<Longrightarrow> cf_itoa n = Some (dec (nat n))"
  using cf_itoa_loop_dec [of "nat n" 10 "[]"] by (auto simp: cf_itoa_def dec_rec [of 0] digit_def char_of_def bit_Suc_0_iff)

lemma sep_notin_itoa [simp]: "CHR ''|'' \<notin> set (itoa n)" "CHR '':'' \<notin> set (itoa n)"
  by (simp_all add: itoa_def)

lemma tls_flag_inject: "(if a then x else y) = (if b then x else y) \<longleftrightarrow> a = b \<or> x = y"
  by auto

lemma sign_text_inject:
  assumes "CHR ''|'' \<notin> set mode" and "CHR ''|'' \<notin> set mode'"
  shows "sign_text ts host port tls mode = sign_text ts' host' port' tls' mode' \<longleftrightarrow>
           ts = ts' \<and> host = host' \<and> port = port' \<and> tls = tls' \<and> mode = mode'"
proof -
  let ?t = "\<lambda>tls. if tls then CHR ''1'' else CHR ''0''"
  have f: "sign_text ts host port tls mode =
      itoa ts @ CHR ''|'' # (((host @ CHR ''|'' # itoa port) @ CHR ''|'' # [?t tls]) @ CHR ''|'' # mode)"
    for ts host port tls mode
    by (simp add: sign_text_def)
  have t: "CHR ''|'' \<notin> set [?t tls]" "CHR ''|'' \<notin> set [?t tls']" by auto
  show ?thesis
    unfolding f sep_prefix_inject [OF sep_notin_itoa(1) sep_notin_itoa(1)] append_sep_inject [OF assms]
      append_sep_inject [OF t] append_sep_inject [OF sep_notin_itoa(1) sep_notin_itoa(1)]
    by (auto split: if_splits)
qed

text \<open>A message of non-empty reads followed by the report of its end.\<close>

definition message :: "bytes list \<Rightarrow> reads" where
  "message bs = map (\<lambda>b. (b, False)) bs @ [([], True)]"

lemma wsConn_Read_between:
  "cur_reader w = None \<or> cur_reader w = Some (message []) \<Longrightarrow>
   wsConn_Read w = next_message (w\<lparr>cur_reader := None\<rparr>)"
  by (cases w) (auto simp: wsConn_Read_def read_one_def message_def)

lemma copy_message_rest:
  assumes "cur_reader w = Some (message bs)"
  shows "copy_all (length bs + n) w = concat bs @ copy_all n (w\<lparr>cur_reader := Some (message [])\<rparr>)"
  using assms
proof (induction bs arbitrary: w)
  case Nil
  then have "w\<lparr>cur_reader := Some (message [])\<rparr> = w" by (cases w) simp
  then show ?case by simp
next
  case (Cons b bs)
  then have "wsConn_Read w = (Data b, w\<lparr>cur_reader := Some (message bs)\<rparr>)"
    by (simp add: wsConn_Read_def read_one_def message_def)
  then show ?case using Cons.IH [of "w\<lparr>cur_reader := Some (message bs)\<rparr>"] by simp
qed

lemma copy_messages:
  assumes "\<forall>m \<in> set ms. m \<noteq> []" and "cur_reader w = None \<or> cur_reader w = Some (message [])"
    and "incoming w = map message ms"
  shows "copy_all (length (concat ms) + n) w = concat (concat ms)"
  using assms
proof (induction ms arbitrary: w)
  case Nil
  then show ?case by (cases n) (simp_all add: wsConn_Read_between next_message_def)
next
  case (Cons m ms)
  then obtain b bs where m: "m = b # bs" by (cases m) auto
  let ?w = "w\<lparr>cur_reader := Some (message bs), incoming := map message ms\<rparr>"
  have "wsConn_Read w = (Data b, ?w)"
    using Cons.prems m by (simp add: wsConn_Read_between next_message_def read_one_def message_def)
  moreover have "copy_all (length bs + (length (concat ms) + n)) ?w =
      concat bs @ copy_all (length (concat ms) + n) (?w\<lparr>cur_reader := Some (message [])\<rparr>)"
    by (rule copy_message_rest) simp
  moreover have "copy_all (length (concat ms) + n) (?w\<lparr>cur_reader := Some (message [])\<rparr>) = concat (concat ms)"
    using Cons.prems by (intro Cons.IH) simp_all
  ultimately show ?case by (simp add: m add.assoc)
qed

lemmas dial_splits = option.split probe.split if_split

section \<open>Properties\<close>

text \<open>
  The signed text determines the request: two tunnel requests with the same signed text have
  the same timestamp, host, port, TLS flag and mode, whatever bytes the host contains, as long as
  the mode (socket, fetch or hybrid) has no separator in it. A signature for one target therefore
  never validates the query of another.
\<close>

lemma Sign_unambiguous:
  assumes "CHR ''|'' \<notin> set mode" and "CHR ''|'' \<notin> set mode'"
    and "sign_text ts host port tls mode = sign_text ts' host' port' tls' mode'"
  shows "(ts, host, port, tls, mode) = (ts', host', port', tls', mode')"
  using assms by (simp add: sign_text_inject)

lemma Sign_unambiguous_example:
  "sign_text 7 ''a|b'' 80 True ModeFetch = sign_text 7 (''a'' @ ''|b'') 80 True ''fetch'' \<and>
   (7 :: int, ''a|b'', 80 :: int, True, ModeFetch) = (7, ''a'' @ ''|b'', 80, True, ''fetch'')"
  using Sign_unambiguous [of ModeFetch "''fetch''" 7 "''a|b''" 80 True 7 "''a'' @ ''|b''" 80 True]
  by (simp add: ModeFetch_def)

text \<open>
  A dialed WebSocket is never lost and never handed out unproved: \<^verbatim>\<open>DialWorker\<close> returns a
  connection only after the handshake succeeded and the worker sent its one-byte signature (or
  probing is off); in every error case the socket was never opened or has been closed; and the query
  of the connection carries exactly the values that were signed.
\<close>

lemma DialWorker_safe:
  assumes "DialWorker hmac env secret host port tls mode = (r, fate)"
  shows "(fate = Returned \<longleftrightarrow> (\<exists>u. r = Inr u)) \<and>
         (fate = NotOpened \<longleftrightarrow> r = Inl ErrUrl \<or> (\<exists>e. r = Inl (ErrWsDial e))) \<and>
         (\<forall>u. r = Inr u \<longrightarrow>
            ws_dial env u = None \<and> (ProbeDisabled env \<or> ws_first env = ProbeMsg [1]) \<and>
            (\<exists>h m. Query u ''h'' = Some h \<and> Query u ''m'' = Some m \<and> m \<noteq> [] \<and> (mode \<noteq> [] \<longrightarrow> m = mode) \<and>
               Query u ''p'' = Some (itoa port) \<and> Query u ''ts'' = Some (itoa (env_now env)) \<and>
               Query u ''t'' = Some (if tls then ''1'' else ''0'') \<and>
               Query u ''s'' = Some (hex_encode (hmac (bytes_of secret)
                 (bytes_of (sign_text (env_now env) h port tls m))))))"
proof (cases "parsed_url env")
  case None
  then have "r = Inl ErrUrl" "fate = NotOpened" using assms by (simp_all add: DialWorker_def Let_def)
  then show ?thesis by simp
next
  case (Some u0)
  define h where "h = (case PreferIPv4Resolver env of
                    Some r \<Rightarrow> if PreferIPv4 env \<and> r host \<noteq> [] then r host else host | None \<Rightarrow> host)"
  define m where "m = (if mode = [] then ModeSocket else mode)"
  let ?u = "ws_url hmac (env_now env) secret h port tls m u0"
  have m: "m \<noteq> []" "mode \<noteq> [] \<longrightarrow> m = mode" by (simp_all add: m_def ModeSocket_def)
  have one: "length p = 1 \<and> p ! 0 = 1 \<longleftrightarrow> p = [1]" for p :: bytes by (cases p) auto
  have q: "Query ?u ''h'' = Some h" "Query ?u ''m'' = Some m" "Query ?u ''p'' = Some (itoa port)"
    "Query ?u ''ts'' = Some (itoa (env_now env))" "Query ?u ''t'' = Some (if tls then ''1'' else ''0'')"
    "Query ?u ''s'' = Some (hex_encode (hmac (bytes_of secret) (bytes_of (sign_text (env_now env) h port tls m))))"
    using m by (simp_all add: ws_url_def Sign_def Let_def)
  have "(r, fate) = (case ws_dial env ?u of
                   Some e \<Rightarrow> (Inl (ErrWsDial e), NotOpened)
                 | None \<Rightarrow>
                     if ProbeDisabled env then (Inr ?u, Returned)
                     else (case ws_first env of
                             ProbeErr status \<Rightarrow>
                               if status = 4001 then (Inl ErrUpstreamBlocked, Closed)
                               else (Inl (ErrProbe status), Closed)
                           | ProbeMsg probe \<Rightarrow>
                               if length probe \<noteq> 1 \<or> probe ! 0 \<noteq> 1 then (Inl (ErrProbeSig (length probe)), Closed)
                               else (Inr ?u, Returned)))"
    using assms Some unfolding DialWorker_def h_def [symmetric] m_def [symmetric] by (simp add: Let_def)
  then have "(fate = Returned \<and> r = Inr ?u \<and> ws_dial env ?u = None \<and> (ProbeDisabled env \<or> ws_first env = ProbeMsg [1])) \<or>
      (fate = Closed \<and> r \<in> Inl ` (insert ErrUpstreamBlocked (range ErrProbe \<union> range ErrProbeSig))) \<or>
      (fate = NotOpened \<and> r \<in> range (Inl \<circ> ErrWsDial))"
    using one by (auto split: option.splits probe.splits if_splits)
  then show ?thesis using q m by auto
qed

definition plain_env :: "probe \<Rightarrow> dial_env" where
  "plain_env first = \<lparr>PreferIPv4 = False, PreferIPv4Resolver = None, ProbeDisabled = False, env_now = 5,
     parsed_url = Some \<lparr>Scheme = ''https'', Query = Map.empty\<rparr>, ws_dial = (\<lambda>_. None), ws_first = first\<rparr>"

lemma DialWorker_safe_example:
  "snd (DialWorker (\<lambda>_ m. m) (plain_env (ProbeErr 4001)) ''k'' ''h'' 443 True ''socket'') = Closed \<and>
   snd (DialWorker (\<lambda>_ m. m) (plain_env (ProbeMsg [1])) ''k'' ''h'' 443 True ''socket'') = Returned"
proof -
  have 1: "DialWorker (\<lambda>_ m. m) (plain_env (ProbeErr 4001)) ''k'' ''h'' 443 True ''socket'' =
      (Inl ErrUpstreamBlocked, Closed)"
    by (simp add: DialWorker_def plain_env_def)
  obtain u where "DialWorker (\<lambda>_ m. m) (plain_env (ProbeMsg [1])) ''k'' ''h'' 443 True ''socket'' = (Inr u, Returned)"
    by (simp add: DialWorker_def plain_env_def Let_def)
  from 1 DialWorker_safe [OF this] this show ?thesis by simp
qed

text \<open>
  The reachability cache keeps targets apart and forgets on time: for ports below 10 digits,
  after marking a target at time \<open>now\<close> it is known exactly until the TTL has passed, and no other
  host and port is affected.
\<close>

lemma cf_cache_exact:
  assumes "0 \<le> port" "port < 10 ^ 10" and "0 \<le> port'" "port' < 10 ^ 10"
  shows "\<exists>c'. MarkUnreachableViaSocket now host port c = Some c' \<and>
           map_option fst (IsKnownUnreachable ttl t host port c') = Some (t - now \<le> ttl) \<and>
           ((host', port') \<noteq> (host, port) \<longrightarrow>
              map_option fst (IsKnownUnreachable ttl t host' port' c') =
              map_option fst (IsKnownUnreachable ttl t host' port' c))"
proof -
  let ?k = "host @ CHR '':'' # dec (nat port)" and ?k' = "host' @ CHR '':'' # dec (nat port')"
  have k: "hostPortKey host port = Some ?k" "hostPortKey host' port' = Some ?k'"
    using assms by (simp_all add: hostPortKey_def cf_itoa_dec)
  have "?k = ?k' \<longleftrightarrow> host = host' \<and> port = port'"
    using assms by (subst append_sep_inject) auto
  with k show ?thesis
    by (auto simp: MarkUnreachableViaSocket_def IsKnownUnreachable_def split: option.split)
qed

lemma cf_cache_exact_example:
  "\<exists>c'. MarkUnreachableViaSocket 100 ''h'' 443 Map.empty = Some c' \<and>
     map_option fst (IsKnownUnreachable 600 200 ''h'' 443 c') = Some True"
  using cf_cache_exact [of 443 80 100 "''h''" Map.empty 600 200 "''h''"] by auto

text \<open>
  Bytes survive the message framing: when every message of the worker gives at least one read
  before its end is reported, the copy loop of the relay delivers the bytes of all messages, in
  order and without loss, however the messages are cut into reads.
\<close>

lemma ws_stream_complete:
  assumes "\<forall>m \<in> set ms. m \<noteq> []" and "length (concat ms) \<le> n"
  shows "copy_all n \<lparr>cur_reader = None, incoming = map message ms\<rparr> = concat (concat ms)"
proof -
  obtain k where "n = length (concat ms) + k" using assms(2) le_Suc_ex by blast
  then show ?thesis using copy_messages [OF assms(1)] by simp
qed

lemma ws_stream_complete_example:
  "copy_all 3 \<lparr>cur_reader = None, incoming = map message [[[1, 2], [3]], [[4]]]\<rparr> = [1, 2, 3, 4]"
  using ws_stream_complete [of "[[[1, 2], [3]], [[4]]]" 3] by simp

text \<open>
  An empty WebSocket message ends the tunnel: the first read of its reader reports the end,
  \<^verbatim>\<open>Read\<close> passes that on as the end of the stream, and the data of the messages behind it is
  never delivered.
\<close>

lemma ws_empty_message_truncates:
  "copy_all n \<lparr>cur_reader = None, incoming = map message ([] # ms)\<rparr> = []"
  by (cases n) (simp_all add: wsConn_Read_def next_message_def read_one_def message_def)

end
