(* ===== verification/Hedged_Dial.thy ===== *)
theory Hedged_Dial
  imports Tunnel
begin

text \<open>
  One hedged dial (\<^verbatim>\<open>dialOnceWithHedge\<close>, \<^verbatim>\<open>dialBreak\<close> and \<^verbatim>\<open>drainResChan\<close> of
  \<^verbatim>\<open>internal/proxy/dial.go\<close>): the caller's select loop, up to two dialing goroutines, the result
  channel of capacity two, the hedge timer, the cancellable context and the draining goroutine. The
  model is a step machine: an event is one goroutine taking one of the branches that are ready, so a
  list of events is an interleaving together with what the network answered. Connections are numbers.
\<close>

section \<open>Data\<close>

type_synonym dial_res = "dial_err + nat"

text \<open>What the breaker of a worker decides on a call, and the call through it.\<close>

datatype verdict = BrkRun | BrkRefuse

definition dialBreak :: "string \<Rightarrow> verdict \<Rightarrow> dial_res \<Rightarrow> dial_res" where
  "dialBreak name v r = (case v of BrkRefuse \<Rightarrow> Inl (ErrBreaker name) | BrkRun \<Rightarrow> r)"

datatype gpc = GDial | GHave dial_res | GGone

datatype timer = Armed | Ticked | Spent

record hedge =
  h_ctx :: bool
  h_chan :: "(dial_res \<times> ref) list"
  h_prim :: gpc
  h_sec :: "(ref \<times> gpc) option"
  h_timer :: timer
  h_fired :: bool
  h_pool :: pool
  h_tried :: "string list"
  h_ret :: "dial_res option"
  h_drain :: bool
  h_closed :: "nat list"
  h_dialed :: "nat list"
  h_hedges :: nat
  h_wins :: nat

definition hedge_init :: "pool \<Rightarrow> string list \<Rightarrow> hedge" where
  "hedge_init p tried =
     \<lparr>h_ctx = False, h_chan = [], h_prim = GDial, h_sec = None, h_timer = Armed, h_fired = False,
      h_pool = p, h_tried = tried, h_ret = None, h_drain = False, h_closed = [], h_dialed = [],
      h_hedges = 0, h_wins = 0\<rparr>"

text \<open>
  Events. \<open>EvDial\<close>, \<open>EvSend\<close> and \<open>EvDrop\<close> are steps of the primary (\<open>True\<close>) or the hedge goroutine:
  its dial ends, it sends its result, or it takes the branch of the cancelled context. \<open>EvParent\<close>
  cancels the caller's context, \<open>EvTick\<close> fires the timer, the \<open>Main\<close> events are the three branches
  of the select loop, and \<open>EvDrain\<close> is a step of the draining goroutine.
\<close>

datatype hev =
    EvDial bool verdict dial_res | EvSend bool | EvDrop bool | EvParent | EvTick
  | MainCtx | MainRecv | MainTick | EvDrain

section \<open>Steps\<close>

definition conns :: "dial_res \<Rightarrow> nat list" where
  "conns r = (case r of Inr c \<Rightarrow> [c] | Inl _ \<Rightarrow> [])"

definition routine :: "bool \<Rightarrow> hedge \<Rightarrow> gpc" where
  "routine p s = (if p then h_prim s else case h_sec s of Some (_, g) \<Rightarrow> g | None \<Rightarrow> GGone)"

definition set_routine :: "bool \<Rightarrow> gpc \<Rightarrow> hedge \<Rightarrow> hedge" where
  "set_routine p g s =
     (if p then s\<lparr>h_prim := g\<rparr> else s\<lparr>h_sec := map_option (\<lambda>(w, _). (w, g)) (h_sec s)\<rparr>)"

definition routine_worker :: "bool \<Rightarrow> ref \<Rightarrow> hedge \<Rightarrow> ref" where
  "routine_worker p primary s = (if p then primary else case h_sec s of Some (w, _) \<Rightarrow> w | None \<Rightarrow> primary)"

text \<open>Returning runs the deferred cancel.\<close>

definition main_return :: "dial_res \<Rightarrow> hedge \<Rightarrow> hedge" where
  "main_return r s = s\<lparr>h_ret := Some r, h_ctx := True\<rparr>"

text \<open>Launching the hedge, or what happens when no further worker is left.\<close>

definition launch ::
  "(ref \<Rightarrow> breaker_state) \<Rightarrow> heap \<Rightarrow> (hedge \<Rightarrow> hedge) \<Rightarrow> hedge \<Rightarrow> hedge" where
  "launch brk h fallback s =
     (case NextSkip brk (h_tried s) h (h_pool s) of
        (Inl _, p) \<Rightarrow> fallback (s\<lparr>h_fired := True, h_pool := p\<rparr>)
      | (Inr w2, p) \<Rightarrow>
          s\<lparr>h_fired := True, h_pool := p, h_tried := h_tried s @ [Name (h w2)],
            h_sec := Some (w2, GDial), h_hedges := h_hedges s + 1\<rparr>)"

definition hedge_step ::
  "(ref \<Rightarrow> breaker_state) \<Rightarrow> heap \<Rightarrow> ref \<Rightarrow> hev \<Rightarrow> hedge \<Rightarrow> hedge option" where
  "hedge_step brk h primary ev s =
     (case ev of
        EvDial p v r \<Rightarrow>
          (if routine p s = GDial
           then (let res = dialBreak (Name (h (routine_worker p primary s))) v r
                 in Some ((set_routine p (GHave res) s)\<lparr>h_dialed := h_dialed s @ conns res\<rparr>))
           else None)
      | EvSend p \<Rightarrow>
          (case routine p s of
             GHave r \<Rightarrow>
               if length (h_chan s) < 2
               then Some ((set_routine p GGone s)\<lparr>h_chan := h_chan s @ [(r, routine_worker p primary s)]\<rparr>)
               else None
           | _ \<Rightarrow> None)
      | EvDrop p \<Rightarrow>
          (case routine p s of
             GHave r \<Rightarrow>
               if h_ctx s then Some ((set_routine p GGone s)\<lparr>h_closed := h_closed s @ conns r\<rparr>) else None
           | _ \<Rightarrow> None)
      | EvParent \<Rightarrow> if h_ctx s then None else Some (s\<lparr>h_ctx := True\<rparr>)
      | EvTick \<Rightarrow> if h_timer s = Armed \<and> h_ret s = None then Some (s\<lparr>h_timer := Ticked\<rparr>) else None
      | MainCtx \<Rightarrow> if h_ret s = None \<and> h_ctx s then Some (main_return (Inl ErrCtx) s) else None
      | MainRecv \<Rightarrow>
          (if h_ret s \<noteq> None then None
           else (case h_chan s of
                   [] \<Rightarrow> None
                 | (r, w) # rest \<Rightarrow>
                     (let s1 = s\<lparr>h_chan := rest\<rparr>
                      in case r of
                           Inr c \<Rightarrow>
                             Some ((main_return r s1)\<lparr>h_drain := True,
                               h_wins := h_wins s + (if h_fired s \<and> w \<noteq> primary then 1 else 0)\<rparr>)
                         | Inl e \<Rightarrow>
                             if \<not> h_fired s then Some (launch brk h (main_return r) s1)
                             else Some (main_return r s1))))
      | MainTick \<Rightarrow>
          (if h_ret s = None \<and> h_timer s = Ticked
           then (let s1 = s\<lparr>h_timer := Spent\<rparr>
                 in if h_fired s then Some s1 else Some (launch brk h (\<lambda>s. s) s1))
           else None)
      | EvDrain \<Rightarrow>
          (if h_drain s
           then (case h_chan s of
                   (r, w) # rest \<Rightarrow> Some (s\<lparr>h_chan := rest, h_closed := h_closed s @ conns r\<rparr>)
                 | [] \<Rightarrow> Some (s\<lparr>h_drain := False\<rparr>))
           else None))"

fun hedge_run :: "(ref \<Rightarrow> breaker_state) \<Rightarrow> heap \<Rightarrow> ref \<Rightarrow> hev list \<Rightarrow> hedge \<Rightarrow> hedge option" where
  "hedge_run brk h primary [] s = Some s"
| "hedge_run brk h primary (ev # evs) s =
     (case hedge_step brk h primary ev s of
        None \<Rightarrow> None
      | Some s' \<Rightarrow> hedge_run brk h primary evs s')"

inductive hedge_reach :: "(ref \<Rightarrow> breaker_state) \<Rightarrow> heap \<Rightarrow> ref \<Rightarrow> hedge \<Rightarrow> hedge \<Rightarrow> bool"
  for brk h primary s0 where
  hedge_start: "hedge_reach brk h primary s0 s0"
| hedge_more: "hedge_reach brk h primary s0 s \<Longrightarrow> hedge_step brk h primary ev s = Some s' \<Longrightarrow>
     hedge_reach brk h primary s0 s'"

text \<open>The call as the dial loop sees it: \<open>None\<close> while the schedule has not brought it to a return.\<close>

definition dialOnceWithHedge ::
  "int \<Rightarrow> (ref \<Rightarrow> breaker_state) \<Rightarrow> heap \<Rightarrow> pool \<Rightarrow> ref \<Rightarrow> string list \<Rightarrow> hev list
     \<Rightarrow> verdict \<times> dial_res \<Rightarrow> (dial_res \<times> pool \<times> string list) option" where
  "dialOnceWithHedge hedgeAfter brk h p primary tried evs direct =
     (if hedgeAfter \<le> 0 then Some (dialBreak (Name (h primary)) (fst direct) (snd direct), p, tried)
      else (case hedge_run brk h primary evs (hedge_init p tried) of
              None \<Rightarrow> None
            | Some s \<Rightarrow> map_option (\<lambda>r. (r, h_pool s, h_tried s)) (h_ret s)))"

section \<open>Lemmas: the invariant\<close>

fun pc_conns :: "gpc \<Rightarrow> nat list" where
  "pc_conns (GHave r) = conns r"
| "pc_conns _ = []"

definition held :: "hedge \<Rightarrow> nat multiset" where
  "held s = mset (pc_conns (h_prim s)) + mset (pc_conns (routine False s))"

definition queued :: "hedge \<Rightarrow> nat multiset" where
  "queued s = mset (concat (map (\<lambda>x. conns (fst x)) (h_chan s)))"

definition returned :: "hedge \<Rightarrow> nat multiset" where
  "returned s = (case h_ret s of None \<Rightarrow> {#} | Some r \<Rightarrow> mset (conns r))"

definition gone :: "gpc \<Rightarrow> nat" where
  "gone g = (if g = GGone then 1 else 0)"

definition hedge_inv :: "hedge \<Rightarrow> bool" where
  "hedge_inv s \<longleftrightarrow>
     mset (h_dialed s) = held s + queued s + mset (h_closed s) + returned s \<and>
     (\<not> h_fired s \<longrightarrow> h_sec s = None) \<and>
     length (h_chan s) \<le> gone (h_prim s) + (case h_sec s of None \<Rightarrow> 0 | Some (_, g) \<Rightarrow> gone g) \<and>
     (h_drain s \<longrightarrow> h_ret s \<noteq> None) \<and>
     (h_ret s \<noteq> None \<longrightarrow> h_ctx s) \<and>
     (h_ret s = None \<longrightarrow> h_chan s \<noteq> [] \<or> h_prim s \<noteq> GGone \<or> routine False s \<noteq> GGone \<or> h_ctx s)"

lemmas inv_defs = hedge_inv_def held_def queued_def returned_def gone_def routine_def

lemma hedge_inv_init: "hedge_inv (hedge_init p tried)"
  by (simp add: inv_defs hedge_init_def)

lemma routine_cases:
  assumes "routine p s = g" and "g \<noteq> GGone"
  obtains "p" "h_prim s = g" | w where "\<not> p" "h_sec s = Some (w, g)"
  using assms by (auto simp: routine_def split: if_splits option.splits)

lemma hedge_inv_dial:
  assumes "hedge_inv s" and "routine p s = GDial"
  shows "hedge_inv ((set_routine p (GHave res) s)\<lparr>h_dialed := h_dialed s @ conns res\<rparr>)"
  using assms(2)
proof (rule routine_cases)
  assume "p" "h_prim s = GDial"
  with assms(1) show ?thesis by (simp add: inv_defs set_routine_def)
next
  fix w assume "\<not> p" "h_sec s = Some (w, GDial)"
  with assms(1) show ?thesis by (simp add: inv_defs set_routine_def)
qed simp

lemma hedge_inv_send:
  assumes "hedge_inv s" and "routine p s = GHave r"
  shows "hedge_inv ((set_routine p GGone s)\<lparr>h_chan := h_chan s @ [(r, w)]\<rparr>)"
  using assms(2)
proof (rule routine_cases)
  assume "p" "h_prim s = GHave r"
  with assms(1) show ?thesis by (simp add: inv_defs set_routine_def)
next
  fix w assume "\<not> p" "h_sec s = Some (w, GHave r)"
  with assms(1) show ?thesis by (simp add: inv_defs set_routine_def)
qed simp

lemma hedge_inv_drop:
  assumes "hedge_inv s" and "routine p s = GHave r" and "h_ctx s"
  shows "hedge_inv ((set_routine p GGone s)\<lparr>h_closed := h_closed s @ conns r\<rparr>)"
  using assms(2)
proof (rule routine_cases)
  assume "p" "h_prim s = GHave r"
  with assms(1,3) show ?thesis by (simp add: inv_defs set_routine_def)
next
  fix w assume "\<not> p" "h_sec s = Some (w, GHave r)"
  with assms(1,3) show ?thesis by (simp add: inv_defs set_routine_def)
qed simp

lemma hedge_inv_return:
  "hedge_inv s \<Longrightarrow> h_ret s = None \<Longrightarrow> hedge_inv (main_return (Inl e) s)"
  by (simp add: inv_defs main_return_def conns_def)

lemma hedge_inv_drain:
  assumes "hedge_inv s" and "h_drain s"
  shows "h_chan s = (r, w) # rest \<Longrightarrow> hedge_inv (s\<lparr>h_chan := rest, h_closed := h_closed s @ conns r\<rparr>)"
    and "h_chan s = [] \<Longrightarrow> hedge_inv (s\<lparr>h_drain := False\<rparr>)"
  using assms by (simp_all add: inv_defs) (metis option.distinct(1))

lemma hedge_inv_launch:
  assumes "hedge_inv s" and "\<not> h_fired s" and "h_ret s = None"
  shows "hedge_inv (launch brk h (\<lambda>s. s) s)"
  using assms
  by (auto simp: launch_def inv_defs split: sum.splits prod.splits option.splits)

lemma hedge_inv_recv:
  assumes "hedge_inv s" and "h_ret s = None" and "h_chan s = (r, w) # rest"
  shows "r = Inr c \<Longrightarrow> hedge_inv ((main_return r (s\<lparr>h_chan := rest\<rparr>))\<lparr>h_drain := True, h_wins := k\<rparr>)"
    and "r = Inl e \<Longrightarrow> hedge_inv (main_return r (s\<lparr>h_chan := rest\<rparr>))"
    and "r = Inl e \<Longrightarrow> \<not> h_fired s \<Longrightarrow> hedge_inv (launch brk h (main_return r) (s\<lparr>h_chan := rest\<rparr>))"
proof -
  show "r = Inr c \<Longrightarrow> hedge_inv ((main_return r (s\<lparr>h_chan := rest\<rparr>))\<lparr>h_drain := True, h_wins := k\<rparr>)"
    using assms by (simp add: inv_defs main_return_def conns_def split: option.splits)
  show ret: "r = Inl e \<Longrightarrow> hedge_inv (main_return r (s\<lparr>h_chan := rest\<rparr>))"
    using assms by (simp add: inv_defs main_return_def conns_def split: option.splits)
  show "r = Inl e \<Longrightarrow> \<not> h_fired s \<Longrightarrow> hedge_inv (launch brk h (main_return r) (s\<lparr>h_chan := rest\<rparr>))"
    using assms
    by (auto simp: launch_def inv_defs main_return_def conns_def split: sum.splits prod.splits option.splits)
qed

lemmas hedge_inv_rules = hedge_inv_dial hedge_inv_send hedge_inv_drop hedge_inv_return hedge_inv_drain
  hedge_inv_launch hedge_inv_recv

lemma hedge_inv_timer: "hedge_inv s \<Longrightarrow> hedge_inv (s\<lparr>h_timer := t\<rparr>)"
  by (simp add: inv_defs)

lemma hedge_inv_ctx: "hedge_inv s \<Longrightarrow> hedge_inv (s\<lparr>h_ctx := True\<rparr>)"
  by (simp add: inv_defs)

lemma hedge_inv_step:
  assumes "hedge_inv s" and "hedge_step brk h primary ev s = Some s'"
  shows "hedge_inv s'"
proof (cases ev)
  case (EvDial p v r)
  with assms show ?thesis by (auto simp: hedge_step_def Let_def split: if_splits intro: hedge_inv_dial)
next
  case (EvSend p)
  with assms show ?thesis by (auto simp: hedge_step_def split: if_splits gpc.splits intro: hedge_inv_send)
next
  case (EvDrop p)
  with assms show ?thesis by (auto simp: hedge_step_def split: if_splits gpc.splits intro: hedge_inv_drop)
next
  case EvParent
  with assms show ?thesis by (auto simp: hedge_step_def split: if_splits intro: hedge_inv_ctx)
next
  case EvTick
  with assms show ?thesis by (auto simp: hedge_step_def split: if_splits intro: hedge_inv_timer)
next
  case MainCtx
  with assms show ?thesis by (auto simp: hedge_step_def split: if_splits intro: hedge_inv_return)
next
  case MainRecv
  with assms show ?thesis
    by (auto simp: hedge_step_def Let_def split: if_splits list.splits sum.splits intro: hedge_inv_recv)
next
  case MainTick
  with assms show ?thesis
    by (auto simp: hedge_step_def Let_def split: if_splits intro: hedge_inv_timer intro!: hedge_inv_launch)
next
  case EvDrain
  with assms show ?thesis
    by (auto simp: hedge_step_def split: if_splits list.splits intro: hedge_inv_drain)
qed

lemma hedge_inv_reach: "hedge_reach brk h primary s0 s \<Longrightarrow> hedge_inv s0 \<Longrightarrow> hedge_inv s"
  by (induction rule: hedge_reach.induct) (auto intro: hedge_inv_step)

section \<open>Lemmas: every run ends\<close>

fun pc_left :: "gpc \<Rightarrow> nat" where
  "pc_left GDial = 3"
| "pc_left (GHave _) = 2"
| "pc_left GGone = 0"

definition steps_left :: "hedge \<Rightarrow> nat" where
  "steps_left s =
     pc_left (h_prim s) +
     (case h_sec s of Some (_, g) \<Rightarrow> pc_left g | None \<Rightarrow> if h_fired s then 0 else 4) +
     length (h_chan s) +
     (case h_timer s of Armed \<Rightarrow> 2 | Ticked \<Rightarrow> 1 | Spent \<Rightarrow> 0) +
     (if h_ctx s then 0 else 1) + (if h_ret s = None then 2 else 0) + (if h_drain s then 1 else 0)"

lemma steps_left_routine:
  assumes "routine p s = g" and "g \<noteq> GGone" and "pc_left g' < pc_left g"
  shows "steps_left (set_routine p g' s) + pc_left g = steps_left s + pc_left g'"
  using assms(1,2)
  by (rule routine_cases) (simp_all add: steps_left_def set_routine_def)

lemma steps_left_launch:
  assumes "\<not> h_fired s" and "h_sec s = None" and "\<And>s. steps_left (f s) \<le> steps_left s"
  shows "steps_left (launch brk h f s) < steps_left s"
proof -
  have "steps_left (f (s\<lparr>h_fired := True, h_pool := p\<rparr>)) < steps_left s" for p
    by (rule le_less_trans [OF assms(3)]) (use assms in \<open>simp add: steps_left_def\<close>)
  moreover have "steps_left (s\<lparr>h_fired := True, h_pool := p, h_tried := t, h_sec := Some (w, GDial), h_hedges := k\<rparr>)
      < steps_left s" for p t w k
    using assms(1,2) by (simp add: steps_left_def)
  ultimately show ?thesis by (auto simp: launch_def split: sum.splits prod.splits)
qed

lemma steps_left_return: "h_ret s = None \<Longrightarrow> steps_left (main_return r s) + 2 \<le> steps_left s"
  by (simp add: steps_left_def main_return_def)

lemma steps_left_return_le: "steps_left (main_return r s) \<le> steps_left s"
  by (simp add: steps_left_def main_return_def)

lemma steps_left_step:
  assumes "hedge_inv s" and "hedge_step brk h primary ev s = Some s'"
  shows "steps_left s' < steps_left s"
proof -
  have upd: "steps_left (s\<lparr>h_dialed := d\<rparr>) = steps_left s" "steps_left (s\<lparr>h_closed := d\<rparr>) = steps_left s"
    "steps_left (s\<lparr>h_wins := n\<rparr>) = steps_left s"
    "steps_left (s\<lparr>h_chan := c\<rparr>) + length (h_chan s) = steps_left s + length c" for s d n c
    by (simp_all add: steps_left_def)
  have sec: "\<not> h_fired s \<Longrightarrow> h_sec s = None" using assms(1) by (simp add: hedge_inv_def)
  show ?thesis
  proof (cases ev)
    case (EvDial p v r)
    with assms(2) obtain res where "routine p s = GDial"
      "s' = (set_routine p (GHave res) s)\<lparr>h_dialed := h_dialed s @ conns res\<rparr>"
      by (auto simp: hedge_step_def Let_def split: if_splits)
    with steps_left_routine [of p s GDial "GHave res"] upd(1) show ?thesis by simp
  next
    case (EvSend p)
    with assms(2) obtain r w where r: "routine p s = GHave r"
      and s': "s' = (set_routine p GGone s)\<lparr>h_chan := h_chan s @ [(r, w)]\<rparr>"
      by (auto simp: hedge_step_def split: if_splits gpc.splits)
    have "h_chan (set_routine p GGone s) = h_chan s" by (simp add: set_routine_def)
    with steps_left_routine [OF r, of GGone] upd(4) [where s = "set_routine p GGone s" and c = "h_chan s @ [(r, w)]"] s'
    show ?thesis by simp
  next
    case (EvDrop p)
    with assms(2) obtain r where "routine p s = GHave r"
      "s' = (set_routine p GGone s)\<lparr>h_closed := h_closed s @ conns r\<rparr>"
      by (auto simp: hedge_step_def split: if_splits gpc.splits)
    with steps_left_routine [of p s "GHave r" GGone] upd(2) show ?thesis by simp
  next
    case EvParent
    with assms(2) show ?thesis by (auto simp: hedge_step_def steps_left_def split: if_splits)
  next
    case EvTick
    with assms(2) show ?thesis by (auto simp: hedge_step_def steps_left_def split: if_splits)
  next
    case MainCtx
    with assms(2) steps_left_return [of s "Inl ErrCtx"] show ?thesis
      by (auto simp: hedge_step_def split: if_splits)
  next
    case MainRecv
    with assms(2) obtain r w rest where n: "h_ret s = None" and c: "h_chan s = (r, w) # rest"
      by (auto simp: hedge_step_def split: if_splits list.splits)
    let ?s = "s\<lparr>h_chan := rest\<rparr>"
    have l: "steps_left ?s < steps_left s" using upd(4) [where s = s and c = rest] c by simp
    have ret: "steps_left (main_return r ?s) + 2 \<le> steps_left ?s" using n by (intro steps_left_return) simp
    have dr: "steps_left (t\<lparr>h_drain := True, h_wins := k\<rparr>) \<le> steps_left t + 1" for t k
      by (simp add: steps_left_def)
    have la: "\<not> h_fired s \<Longrightarrow> steps_left (launch brk h (main_return r) ?s) < steps_left ?s"
      using sec by (intro steps_left_launch) (auto intro: steps_left_return_le)
    from MainRecv assms(2) n c show ?thesis
      using l ret la dr [where t = "main_return r ?s"]
      by (auto simp: hedge_step_def Let_def split: if_splits sum.splits intro: le_less_trans less_trans)
  next
    case MainTick
    with assms(2) have t: "h_timer s = Ticked"
      and s': "s' = (if h_fired s then s\<lparr>h_timer := Spent\<rparr> else launch brk h (\<lambda>s. s) (s\<lparr>h_timer := Spent\<rparr>))"
      by (auto simp: hedge_step_def Let_def split: if_splits)
    have l: "steps_left (s\<lparr>h_timer := Spent\<rparr>) < steps_left s" using t by (simp add: steps_left_def)
    have "\<not> h_fired s \<Longrightarrow> steps_left (launch brk h (\<lambda>s. s) (s\<lparr>h_timer := Spent\<rparr>)) < steps_left (s\<lparr>h_timer := Spent\<rparr>)"
      using sec by (intro steps_left_launch) auto
    with l s' show ?thesis by (auto intro: less_trans)
  next
    case EvDrain
    with assms(2) show ?thesis
      by (auto simp: hedge_step_def steps_left_def split: if_splits list.splits)
  qed
qed

lemma hedge_run_steps:
  "hedge_run brk h primary evs s = Some s' \<Longrightarrow> hedge_inv s \<Longrightarrow>
   hedge_inv s' \<and> length evs + steps_left s' \<le> steps_left s \<and> hedge_reach brk h primary s s'"
proof (induction evs arbitrary: s)
  case Nil
  then show ?case by (auto intro: hedge_start)
next
  case (Cons ev evs)
  then obtain t where t: "hedge_step brk h primary ev s = Some t" "hedge_run brk h primary evs t = Some s'"
    by (auto split: option.splits)
  have "hedge_reach brk h primary s u" if "hedge_reach brk h primary t u" for u
    using that by (induction rule: hedge_reach.induct) (auto intro: hedge_start hedge_more t(1))
  with Cons.IH [OF t(2) hedge_inv_step [OF Cons.prems(2) t(1)]] steps_left_step [OF Cons.prems(2) t(1)]
  show ?case by simp
qed

lemma hedge_not_stuck:
  assumes "hedge_inv s" and "h_ret s = None"
  shows "\<exists>ev s'. hedge_step brk h primary ev s = Some s'"
proof -
  from assms consider "h_chan s \<noteq> []" | "h_ctx s" | p where "routine p s \<noteq> GGone" "h_chan s = []"
    unfolding hedge_inv_def by (metis routine_def)
  then show ?thesis
  proof cases
    case 1
    then obtain r w rest where "h_chan s = (r, w) # rest" by (cases "h_chan s") auto
    with assms(2) show ?thesis
      by (intro exI [of _ MainRecv]) (simp add: hedge_step_def Let_def split: sum.split)
  next
    case 2
    with assms(2) show ?thesis by (intro exI [of _ MainCtx]) (simp add: hedge_step_def)
  next
    case 3
    then show ?thesis
    proof (cases "routine p s")
      case GDial
      then show ?thesis by (intro exI [of _ "EvDial p BrkRun (Inr 0)"]) (simp add: hedge_step_def Let_def)
    next
      case (GHave r)
      with 3 show ?thesis by (intro exI [of _ "EvSend p"]) (simp add: hedge_step_def)
    qed (use 3 in simp)
  qed
qed

lemma steps_left_init: "steps_left (hedge_init p tried) = 12"
  by (simp add: steps_left_def hedge_init_def)

text \<open>The hedge goes to a worker that was not tried before.\<close>

definition hedge_fresh :: "heap \<Rightarrow> string list \<Rightarrow> hedge \<Rightarrow> bool" where
  "hedge_fresh h tried s \<longleftrightarrow>
     (case h_sec s of
        None \<Rightarrow> h_tried s = tried
      | Some (w, _) \<Rightarrow> Name (h w) \<notin> set tried \<and> h_tried s = tried @ [Name (h w)])"

lemma NextSkip_fresh: "NextSkip brk skip h p = (Inr w, p') \<Longrightarrow> Name (h w) \<notin> set skip"
  by (cases "pool_load p = []")
     (auto simp: NextSkip_def scan_find Let_def split: option.splits dest: find_Some_D)

lemma launch_fresh:
  assumes "hedge_fresh h tried s" and "h_sec s = None"
    and "\<And>t. h_sec (f t) = h_sec t \<and> h_tried (f t) = h_tried t"
  shows "hedge_fresh h tried (launch brk h f s)"
  using assms by (auto simp: launch_def hedge_fresh_def split: sum.splits prod.splits dest: NextSkip_fresh)

lemma set_routine_fresh: "hedge_fresh h tried (set_routine p g s) = hedge_fresh h tried s"
  by (cases p) (auto simp: hedge_fresh_def set_routine_def split: option.split)

lemma hedge_fresh_upd [simp]:
  "hedge_fresh h tried (s\<lparr>h_dialed := a\<rparr>) = hedge_fresh h tried s"
  "hedge_fresh h tried (s\<lparr>h_chan := b\<rparr>) = hedge_fresh h tried s"
  "hedge_fresh h tried (s\<lparr>h_closed := a\<rparr>) = hedge_fresh h tried s"
  "hedge_fresh h tried (s\<lparr>h_ctx := e\<rparr>) = hedge_fresh h tried s"
  "hedge_fresh h tried (s\<lparr>h_timer := t\<rparr>) = hedge_fresh h tried s"
  "hedge_fresh h tried (s\<lparr>h_drain := e\<rparr>) = hedge_fresh h tried s"
  "hedge_fresh h tried (s\<lparr>h_wins := n\<rparr>) = hedge_fresh h tried s"
  "hedge_fresh h tried (main_return r s) = hedge_fresh h tried s"
  by (auto simp: hedge_fresh_def main_return_def split: option.split)

lemma hedge_fresh_step:
  assumes "hedge_fresh h tried s" and "hedge_inv s" and "hedge_step brk h primary ev s = Some s'"
  shows "hedge_fresh h tried s'"
proof -
  have sec: "\<not> h_fired s \<Longrightarrow> h_sec s = None" using assms(2) by (simp add: hedge_inv_def)
  have m: "h_sec (main_return r t) = h_sec t \<and> h_tried (main_return r t) = h_tried t" for r t
    by (simp add: main_return_def)
  show ?thesis
    using assms(1,3) sec m
    by (cases ev)
       (auto simp: hedge_step_def Let_def set_routine_fresh
          split: if_splits gpc.splits list.splits sum.splits intro!: launch_fresh)
qed

lemma hedge_fresh_reach:
  "hedge_reach brk h primary s0 s \<Longrightarrow> hedge_inv s0 \<Longrightarrow> hedge_fresh h tried s0 \<Longrightarrow> hedge_fresh h tried s"
  by (induction rule: hedge_reach.induct) (auto intro: hedge_fresh_step hedge_inv_reach)

text \<open>A state in which nothing is left to do.\<close>

definition hedge_over :: "hedge \<Rightarrow> bool" where
  "hedge_over s \<longleftrightarrow> h_ret s \<noteq> None \<and> h_ctx s \<and> h_prim s = GGone \<and> routine False s = GGone \<and> \<not> h_drain s"

lemma hedge_over_dead: "hedge_over s \<Longrightarrow> hedge_step brk h primary ev s = None"
  by (cases ev) (auto simp: hedge_over_def hedge_step_def routine_def)

section \<open>Properties\<close>



text \<open>
  C26. No connection is used twice. In every reachable state of a hedged dial each connection that
  was made is in exactly one place: still held by its goroutine, waiting in the channel, returned to
  the caller, or closed. So the returned connection is never closed behind the caller's back; and a
  hedge, when it is launched, goes to a worker outside the set of tried workers.
\<close>

theorem hedge_conserves:
  assumes "hedge_reach brk h primary (hedge_init p tried) s" and "distinct (h_dialed s)"
  shows "mset (h_dialed s) = held s + queued s + mset (h_closed s) + returned s \<and>
         (\<forall>c. h_ret s = Some (Inr c) \<longrightarrow> c \<in> set (h_dialed s) \<and> c \<notin> set (h_closed s)) \<and>
         (\<forall>w g. h_sec s = Some (w, g) \<longrightarrow> Name (h w) \<notin> set tried \<and> h_tried s = tried @ [Name (h w)])"
proof -
  have inv: "mset (h_dialed s) = held s + queued s + mset (h_closed s) + returned s"
    using hedge_inv_reach [OF assms(1) hedge_inv_init] by (simp add: hedge_inv_def)
  have "hedge_fresh h tried s"
    by (rule hedge_fresh_reach [OF assms(1) hedge_inv_init]) (simp add: hedge_fresh_def hedge_init_def)
  moreover have "c \<in> set (h_dialed s) \<and> c \<notin> set (h_closed s)" if "h_ret s = Some (Inr c)" for c
  proof -
    have m: "mset (h_dialed s) = add_mset c (held s + queued s + mset (h_closed s))"
      using inv that by (simp add: returned_def conns_def)
    then have "c \<in># mset (h_dialed s)" by simp
    moreover have "count (mset (h_dialed s)) c \<le> 1"
      using assms(2) by (simp add: distinct_count_atmost_1)
    then have "c \<notin># mset (h_closed s)" using m by (simp add: not_in_iff)
    ultimately show ?thesis by simp
  qed
  ultimately show ?thesis using inv by (auto simp: hedge_fresh_def)
qed

theorem hedge_conserves_witness:
  "let h = (\<lambda>w. NewWorker 0 [] (dec w) [])
   in \<exists>s. hedge_reach (\<lambda>_. StateClosed) h 1 (hedge_init (pool_New [1, 2]) [dec 1]) s \<and>
          h_ret s = Some (Inr 5) \<and> 5 \<notin> set (h_closed s)"
proof -
  let ?h = "\<lambda>w. NewWorker 0 [] (dec w) []"
  let ?evs = "[EvDial True BrkRun (Inr 5), EvSend True, MainRecv]"
  obtain s where s: "hedge_run (\<lambda>_. StateClosed) ?h 1 ?evs (hedge_init (pool_New [1, 2]) [dec 1]) = Some s"
    and r: "h_ret s = Some (Inr 5)" "h_dialed s = [5]"
    by (simp add: hedge_step_def hedge_init_def routine_def set_routine_def dialBreak_def main_return_def
        Let_def conns_def)
  from hedge_run_steps [OF s hedge_inv_init]
  have "hedge_reach (\<lambda>_. StateClosed) ?h 1 (hedge_init (pool_New [1, 2]) [dec 1]) s" by simp
  with hedge_conserves [OF this] r show ?thesis by (simp only: Let_def) fastforce
qed

text \<open>
  A connection can be lost for good, in two ways. After a hedge has won and the channel was
  drained, the slower primary may still choose to send its connection into the buffered channel
  instead of closing it; and when the primary fails after the hedge was fired the call returns that
  error at once, so a connection the hedge then makes goes into the channel with nobody left to
  drain it. In both final states nothing can happen any more, and the connection is neither returned
  nor closed.
\<close>

lemma hedge_leaks_connection:
  "let h = (\<lambda>w. NewWorker 0 [] (if w = 3 then ''a'' else ''b'') []); p = pool_New [3, 4];
       late = [EvTick, MainTick, EvDial False BrkRun (Inr 7), EvSend False, MainRecv, EvDrain,
               EvDial True BrkRun (Inr 8), EvSend True];
       early = [EvTick, MainTick, EvDial True BrkRun (Inl ErrRewrap), EvSend True, MainRecv,
                EvDial False BrkRun (Inr 9), EvSend False]
   in (\<exists>s. hedge_run (\<lambda>_. StateClosed) h 3 late (hedge_init p [''a'']) = Some s \<and>
        h_ret s = Some (Inr 7) \<and> h_dialed s = [7, 8] \<and> h_closed s = [] \<and>
        (\<forall>ev. hedge_step (\<lambda>_. StateClosed) h 3 ev s = None)) \<and>
      (\<exists>s. hedge_run (\<lambda>_. StateClosed) h 3 early (hedge_init p [''a'']) = Some s \<and>
        h_ret s = Some (Inl ErrRewrap) \<and> h_dialed s = [9] \<and> h_closed s = [] \<and>
        (\<forall>ev. hedge_step (\<lambda>_. StateClosed) h 3 ev s = None))"
proof -
  let ?h = "\<lambda>w. NewWorker 0 [] (if w = 3 then ''a'' else ''b'') []"
  have n: "NextSkip (\<lambda>_. StateClosed) [''a''] ?h (pool_New [3, 4]) = (Inr 4, (pool_New [3, 4])\<lparr>rr := 1\<rparr>)"
    by (simp add: NextSkip_def scan.simps pool_New_def pool_load_def Available_def NewWorker_def)
  note ev = hedge_step_def hedge_init_def routine_def set_routine_def dialBreak_def main_return_def
    Let_def conns_def launch_def n routine_worker_def
  let ?late = "[EvTick, MainTick, EvDial False BrkRun (Inr 7), EvSend False, MainRecv, EvDrain,
               EvDial True BrkRun (Inr 8), EvSend True]"
  let ?early = "[EvTick, MainTick, EvDial True BrkRun (Inl ErrRewrap), EvSend True, MainRecv,
                EvDial False BrkRun (Inr 9), EvSend False]"
  have "\<exists>s. hedge_run (\<lambda>_. StateClosed) ?h 3 ?late (hedge_init (pool_New [3, 4]) [''a'']) = Some s \<and>
        h_ret s = Some (Inr 7) \<and> h_dialed s = [7, 8] \<and> h_closed s = [] \<and> hedge_over s"
    by (simp add: ev hedge_over_def)
  moreover have "\<exists>s. hedge_run (\<lambda>_. StateClosed) ?h 3 ?early (hedge_init (pool_New [3, 4]) [''a'']) = Some s \<and>
        h_ret s = Some (Inl ErrRewrap) \<and> h_dialed s = [9] \<and> h_closed s = [] \<and> hedge_over s"
    by (simp add: ev hedge_over_def)
  ultimately show ?thesis unfolding Let_def by (metis hedge_over_dead)
qed

end
