(* ===== verification/Dial_Policy.thy ===== *)
theory Dial_Policy
  imports Hedged_Dial
begin

text \<open>
  The retry loop around a dial (\<^verbatim>\<open>DialWithPolicy\<close> and \<^verbatim>\<open>maybeRewrap\<close> of \<^verbatim>\<open>internal/proxy/dial.go\<close>).
  The loop relies on the scheduler through its contract, so its lemmas are proved once in the
  locale \<open>scheduler\<close> and reach both schedulers by their interpretations. What the environment answers
  in one attempt (breaker states, the interleaving of the hedged dial, the TLS wrapping, the
  fallback dial, the cancellation during back-off, the clock) is one record per attempt.
\<close>

section \<open>Data\<close>

record policy =
  MaxRetries :: int
  BaseBackoff :: int
  HedgeAfter :: int
  HMACSecret :: string
  Mode :: string
  SessionID :: string
  TLSRewrap :: bool
  AutoFetchFallback :: bool

record attempt =
  a_brk :: "ref \<Rightarrow> breaker_state"
  a_evs :: "hev list"
  a_direct :: "verdict \<times> dial_res"
  a_wrap :: bool
  a_fallback :: "verdict \<times> dial_res"
  a_cancel :: bool
  a_now :: time
  a_rand :: int

record dstate =
  d_heap :: heap
  d_pool :: pool
  d_tried :: "string list"
  d_cache :: cf_cache
  d_log :: "(ref \<times> string) list"
  d_closed :: "nat list"
  d_delays :: "int list"

text \<open>The outcome of a call: a connection and the worker it is booked on, an error, a run-time
  panic, or still waiting for the rest of a schedule.\<close>

datatype outcome = DOk nat ref | DErr dial_err | DPanic | DPending

section \<open>Operations\<close>

definition wrap64 :: "int \<Rightarrow> int" where
  "wrap64 n = (n + 2 ^ 63) mod 2 ^ 64 - 2 ^ 63"

definition maybeRewrap :: "policy \<Rightarrow> bool \<Rightarrow> bool \<Rightarrow> nat \<Rightarrow> dial_res" where
  "maybeRewrap pol tls wrap_ok c =
     (if \<not> TLSRewrap pol \<or> \<not> tls \<or> Mode pol \<noteq> ModeSocket then Inr c
      else if wrap_ok then Inr c else Inl ErrRewrap)"

definition pick_worker :: "sched \<Rightarrow> policy \<Rightarrow> nat \<Rightarrow> attempt \<Rightarrow> dstate \<Rightarrow> (pool_err + ref) \<times> pool" where
  "pick_worker sched pol n a s =
     (if n = 0 \<and> SessionID pol \<noteq> [] then (NextBySession (a_brk a) (d_heap s) (d_pool s) (SessionID pol), d_pool s)
      else if n = 0 then sched (a_brk a) (d_heap s) (d_pool s)
      else NextSkip (a_brk a) (d_tried s) (d_heap s) (d_pool s))"

definition record_failure :: "ref \<Rightarrow> dstate \<Rightarrow> dstate" where
  "record_failure w s = s\<lparr>d_heap := (d_heap s)(w := RecordResult True (d_heap s w))\<rparr>"

text \<open>One attempt: either the call is over, or it goes on with the policy, the last error and the
  state for the next attempt.\<close>

datatype step_res = Final outcome dstate | Again policy dial_err dstate

definition back_off :: "policy \<Rightarrow> nat \<Rightarrow> attempt \<Rightarrow> ref \<Rightarrow> dial_err \<Rightarrow> dstate \<Rightarrow> step_res" where
  "back_off pol n a w derr s =
     (let s1 = (if derr \<noteq> ErrUpstreamBlocked then record_failure w s else s)
      in if BaseBackoff pol < 0 then Final DPanic s1
         else (let s2 = s1\<lparr>d_delays := d_delays s1 @ [wrap64 (wrap64 (BaseBackoff pol * 2 ^ n) + a_rand a)]\<rparr>
               in if a_cancel a then Final (DErr ErrCtx) s2 else Again pol derr s2))"

text \<open>The part of an attempt after the dial has an answer.\<close>

definition after_dial ::
  "string \<Rightarrow> int \<Rightarrow> bool \<Rightarrow> policy \<Rightarrow> nat \<Rightarrow> attempt \<Rightarrow> ref \<Rightarrow> dial_res \<Rightarrow> dstate \<Rightarrow> step_res" where
  "after_dial host port tls pol n a w r s2 =
     (case r of
        Inr c \<Rightarrow>
          (case maybeRewrap pol tls (a_wrap a) c of
             Inr c' \<Rightarrow> Final (DOk c' w) s2
           | Inl e \<Rightarrow> Again pol e ((record_failure w s2)\<lparr>d_closed := d_closed s2 @ [c]\<rparr>))
      | Inl derr \<Rightarrow>
          if derr = ErrUpstreamBlocked then
            (case MarkUnreachableViaSocket (a_now a) host port (d_cache s2) of
               None \<Rightarrow> Final DPanic s2
             | Some cache \<Rightarrow>
                 (let s3 = s2\<lparr>d_cache := cache\<rparr>
                  in if AutoFetchFallback pol \<and> Mode pol \<noteq> ModeFetch then
                       (let pol' = pol\<lparr>Mode := ModeFetch\<rparr>
                        in case dialBreak (Name (d_heap s3 w)) (fst (a_fallback a)) (snd (a_fallback a)) of
                             Inr c \<Rightarrow>
                               (case maybeRewrap pol' tls (a_wrap a) c of
                                  Inr c' \<Rightarrow> Final (DOk c' w) s3
                                | Inl e \<Rightarrow> back_off pol' n a w e (s3\<lparr>d_closed := d_closed s3 @ [c]\<rparr>))
                           | Inl ferr \<Rightarrow> back_off pol' n a w ferr s3)
                     else Final (DErr ErrUpstreamBlocked) s3))
          else back_off pol n a w derr s2)"

definition dial_attempt ::
  "sched \<Rightarrow> string \<Rightarrow> int \<Rightarrow> bool \<Rightarrow> policy \<Rightarrow> nat \<Rightarrow> attempt \<Rightarrow> dstate \<Rightarrow> step_res" where
  "dial_attempt sched host port tls pol n a s =
     (case pick_worker sched pol n a s of
        (Inl e, p1) \<Rightarrow> Final (DErr (ErrPool e)) (s\<lparr>d_pool := p1\<rparr>)
      | (Inr w, p1) \<Rightarrow>
          (let s1 = s\<lparr>d_pool := p1, d_tried := d_tried s @ [Name (d_heap s w)], d_log := d_log s @ [(w, Mode pol)]\<rparr>
           in case dialOnceWithHedge (HedgeAfter pol) (a_brk a) (d_heap s1) p1 w (d_tried s1) (a_evs a) (a_direct a) of
                None \<Rightarrow> Final DPending s1
              | Some (r, p2, tried2) \<Rightarrow> after_dial host port tls pol n a w r (s1\<lparr>d_pool := p2, d_tried := tried2\<rparr>)))"

fun dial_loop ::
  "sched \<Rightarrow> string \<Rightarrow> int \<Rightarrow> bool \<Rightarrow> (nat \<Rightarrow> attempt) \<Rightarrow> nat \<Rightarrow> nat \<Rightarrow> policy \<Rightarrow> dial_err option \<Rightarrow> dstate
     \<Rightarrow> outcome \<times> dstate" where
  "dial_loop sched host port tls att 0 n pol lastErr s =
     (DErr (case lastErr of None \<Rightarrow> ErrExhausted | Some e \<Rightarrow> e), s)"
| "dial_loop sched host port tls att (Suc left) n pol lastErr s =
     (case dial_attempt sched host port tls pol n (att n) s of
        Final out s' \<Rightarrow> (out, s')
      | Again pol' e s' \<Rightarrow> dial_loop sched host port tls att left (Suc n) pol' (Some e) s')"

definition normalize_policy :: "policy \<Rightarrow> policy" where
  "normalize_policy pol =
     (let pol1 = (if MaxRetries pol \<le> 0 then pol\<lparr>MaxRetries := 3\<rparr> else pol)
      in if BaseBackoff pol1 = 0 then pol1\<lparr>BaseBackoff := 50000000\<rparr> else pol1)"

definition DialWithPolicy ::
  "sched \<Rightarrow> time \<Rightarrow> time \<Rightarrow> string \<Rightarrow> int \<Rightarrow> bool \<Rightarrow> (nat \<Rightarrow> attempt) \<Rightarrow> policy \<Rightarrow> heap \<Rightarrow> pool \<Rightarrow> cf_cache
     \<Rightarrow> outcome \<times> dstate" where
  "DialWithPolicy sched ttl now host port tls att pol0 h p cache =
     (let pol = normalize_policy pol0;
          s0 = \<lparr>d_heap = h, d_pool = p, d_tried = [], d_cache = cache, d_log = [], d_closed = [], d_delays = []\<rparr>
      in if AutoFetchFallback pol \<and> (Mode pol = ModeHybrid \<or> Mode pol = ModeSocket) then
           (case IsKnownUnreachable ttl now host port cache of
              None \<Rightarrow> (DPanic, s0)
            | Some (known, cache') \<Rightarrow>
                dial_loop sched host port tls att (nat (MaxRetries pol)) 0
                  (if known then pol\<lparr>Mode := ModeFetch\<rparr> else pol) None (s0\<lparr>d_cache := cache'\<rparr>))
         else dial_loop sched host port tls att (nat (MaxRetries pol)) 0 pol None s0)"

section \<open>Lemmas: what an attempt keeps\<close>

lemma record_failure_frame [simp]:
  "d_pool (record_failure w s) = d_pool s" "d_tried (record_failure w s) = d_tried s"
  "d_cache (record_failure w s) = d_cache s" "d_log (record_failure w s) = d_log s"
  "Name (d_heap (record_failure w s) x) = Name (d_heap s x)"
  by (simp_all add: record_failure_def RecordResult_def Let_def)

text \<open>The two ends of an attempt agree on everything the retry discipline depends on.\<close>

definition keeps :: "dstate \<Rightarrow> dstate \<Rightarrow> bool" where
  "keeps s s' \<longleftrightarrow> d_pool s' = d_pool s \<and> d_tried s' = d_tried s \<and> d_log s' = d_log s \<and>
     (\<forall>x. Name (d_heap s' x) = Name (d_heap s x))"

lemma keeps_simps [simp]:
  "keeps s s" "keeps s (record_failure w s)" "keeps s (s\<lparr>d_cache := c\<rparr>)" "keeps s (s\<lparr>d_closed := l\<rparr>)"
  "keeps s (s\<lparr>d_delays := d\<rparr>)"
  by (simp_all add: keeps_def)

lemma keeps_trans: "keeps s t \<Longrightarrow> keeps t u \<Longrightarrow> keeps s u"
  by (simp add: keeps_def)

lemma back_off_Final:
  "back_off pol n a w e s = Final out s' \<Longrightarrow>
     keeps s s' \<and> (out = DPanic \<and> BaseBackoff pol < 0 \<or> out = DErr ErrCtx \<and> a_cancel a)"
  by (auto simp: back_off_def Let_def keeps_def split: if_splits)

lemma back_off_Again:
  "back_off pol n a w e s = Again pol' e' s' \<Longrightarrow> keeps s s' \<and> pol' = pol \<and> e' = e"
  by (auto simp: back_off_def Let_def keeps_def split: if_splits)

lemma NextSkip_load: "pool_load (snd (NextSkip brk skip h p)) = pool_load p"
  by (simp add: NextSkip_pool)

text \<open>A hedged dial keeps the snapshot and only appends fresh names to the tried list.\<close>

lemma hedge_pool_step:
  assumes "hedge_step brk h primary ev s = Some s'"
  shows "pool_load (h_pool s') = pool_load (h_pool s)"
proof -
  have l: "pool_load (h_pool (launch brk h f t)) = pool_load (h_pool t)"
    if "\<And>t. h_pool (f t) = h_pool t" for f t
    using NextSkip_load [of brk "h_tried t" h "h_pool t"] that
    by (auto simp: launch_def split: sum.splits prod.splits)
  show ?thesis
    using assms
    by (cases ev)
       (auto simp: hedge_step_def Let_def set_routine_def main_return_def l
          split: if_splits gpc.splits list.splits sum.splits)
qed

lemma hedge_pool_reach: "hedge_reach brk h primary s0 s \<Longrightarrow> pool_load (h_pool s) = pool_load (h_pool s0)"
  by (induction rule: hedge_reach.induct) (simp_all add: hedge_pool_step)

lemma dialOnce_keeps:
  assumes "dialOnceWithHedge after brk h p w tried evs direct = Some (r, p', tried')"
  shows "pool_load p' = pool_load p \<and> (tried' = tried \<or> (\<exists>n. n \<notin> set tried \<and> tried' = tried @ [n]))"
proof (cases "after \<le> 0")
  case True
  then show ?thesis using assms by (simp add: dialOnceWithHedge_def)
next
  case False
  then obtain s where run: "hedge_run brk h w evs (hedge_init p tried) = Some s"
    and s: "p' = h_pool s" "tried' = h_tried s"
    using assms by (auto simp: dialOnceWithHedge_def split: option.splits)
  have reach: "hedge_reach brk h w (hedge_init p tried) s"
    using hedge_run_steps [OF run hedge_inv_init] by simp
  have "hedge_fresh h tried s"
    by (rule hedge_fresh_reach [OF reach hedge_inv_init]) (simp add: hedge_fresh_def hedge_init_def)
  with hedge_pool_reach [OF reach] s show ?thesis
    by (auto simp: hedge_fresh_def hedge_init_def split: option.splits)
qed

text \<open>What an attempt with worker \<open>w\<close> leaves behind.\<close>

definition stepped :: "policy \<Rightarrow> dstate \<Rightarrow> ref \<Rightarrow> dstate \<Rightarrow> bool" where
  "stepped pol s w s' \<longleftrightarrow>
     d_log s' = d_log s @ [(w, Mode pol)] \<and>
     (d_tried s' = d_tried s @ [Name (d_heap s w)] \<or>
      (\<exists>n. n \<notin> set (d_tried s @ [Name (d_heap s w)]) \<and> d_tried s' = d_tried s @ [Name (d_heap s w), n])) \<and>
     pool_load (d_pool s') = pool_load (d_pool s) \<and>
     (\<forall>x. Name (d_heap s' x) = Name (d_heap s x))"

lemma stepped_keeps: "stepped pol s w t \<Longrightarrow> keeps t u \<Longrightarrow> stepped pol s w u"
  by (simp add: stepped_def keeps_def)

definition next_policy :: "policy \<Rightarrow> policy \<Rightarrow> bool" where
  "next_policy pol pol' \<longleftrightarrow> pol' = pol \<or> (AutoFetchFallback pol \<and> pol' = pol\<lparr>Mode := ModeFetch\<rparr>)"

definition shaped :: "policy \<Rightarrow> dstate \<Rightarrow> ref \<Rightarrow> step_res \<Rightarrow> bool" where
  "shaped pol s w r \<longleftrightarrow>
     (case r of
        Final out s' \<Rightarrow> stepped pol s w s'
      | Again pol' e s' \<Rightarrow> stepped pol s w s' \<and> next_policy pol pol')"

lemma shaped_back_off:
  "stepped pol s w t \<Longrightarrow> next_policy pol pol' \<Longrightarrow> shaped pol s w (back_off pol' n a w e t)"
  by (cases "back_off pol' n a w e t")
     (auto simp: shaped_def dest!: back_off_Final back_off_Again intro: stepped_keeps)

lemma shaped_final: "stepped pol s w t \<Longrightarrow> keeps t u \<Longrightarrow> shaped pol s w (Final out u)"
  by (simp add: shaped_def stepped_keeps)

lemma shaped_after_dial:
  assumes "stepped pol s w t"
  shows "shaped pol s w (after_dial host port tls pol n a w r t)"
proof -
  have k: "stepped pol s w (t\<lparr>d_cache := c\<rparr>)" "stepped pol s w (t\<lparr>d_cache := c, d_closed := l\<rparr>)" for c l
    using assms by (simp_all add: stepped_def)
  have rf: "stepped pol s w ((record_failure w t)\<lparr>d_closed := l\<rparr>)" for l
    using assms by (simp add: stepped_def)
  have np: "next_policy pol pol" by (simp add: next_policy_def)
  have nf: "AutoFetchFallback pol \<Longrightarrow> next_policy pol (pol\<lparr>Mode := ModeFetch\<rparr>)" by (simp add: next_policy_def)
  have f: "shaped pol s w (Final out t)" "shaped pol s w (Final out (t\<lparr>d_cache := c\<rparr>))" for out c
    using assms k by (simp_all add: shaped_def)
  have ag: "shaped pol s w (Again pol e ((record_failure w t)\<lparr>d_closed := l\<rparr>))" for e l
    using rf np by (simp add: shaped_def)
  show ?thesis
    using f ag shaped_back_off [OF assms np] shaped_back_off [OF k(1) nf] shaped_back_off [OF k(2) nf]
    by (simp add: after_dial_def Let_def split: sum.split option.split)
qed

context scheduler
begin

lemma pick_worker_load: "pool_load (snd (pick_worker pick pol n a s)) = pool_load (d_pool s)"
  by (simp add: pick_worker_def next_load NextSkip_load)

lemma pick_worker_member:
  assumes "pick_worker pick pol n a s = (Inr w, p1)" and "length (pool_load (d_pool s)) < 2 ^ 64"
  shows "w \<in> set (pool_load (d_pool s))"
  using assms NextBySession_pick(1) NextSkip_pick(1) next_member
  by (auto simp: pick_worker_def split: if_splits)

lemma pick_worker_fresh:
  "pick_worker pick pol n a s = (Inr w, p1) \<Longrightarrow> n = 0 \<and> d_tried s = [] \<or> 0 < n \<Longrightarrow>
   Name (d_heap s w) \<notin> set (d_tried s)"
  by (auto simp: pick_worker_def split: if_splits dest: NextSkip_fresh)

lemma dial_attempt_shape:
  obtains e p1 where "dial_attempt pick host port tls pol n a s = Final (DErr (ErrPool e)) (s\<lparr>d_pool := p1\<rparr>)"
      "pool_load p1 = pool_load (d_pool s)"
  | w p1 where "pick_worker pick pol n a s = (Inr w, p1)"
      "shaped pol s w (dial_attempt pick host port tls pol n a s)"
proof (cases "pick_worker pick pol n a s")
  case (Pair x p1)
  have l: "pool_load p1 = pool_load (d_pool s)" using pick_worker_load [of pol n a s] Pair by simp
  show ?thesis
  proof (cases x)
    case (Inl e)
    with Pair l show ?thesis by (intro that(1) [of e p1]) (simp_all add: dial_attempt_def)
  next
    case (Inr w)
    let ?s1 = "s\<lparr>d_pool := p1, d_tried := d_tried s @ [Name (d_heap s w)], d_log := d_log s @ [(w, Mode pol)]\<rparr>"
    have s1: "stepped pol s w ?s1" using l by (simp add: stepped_def)
    have "stepped pol s w (?s1\<lparr>d_pool := p2, d_tried := t2\<rparr>)"
      if "dialOnceWithHedge (HedgeAfter pol) (a_brk a) (d_heap ?s1) p1 w (d_tried ?s1) (a_evs a) (a_direct a)
            = Some (r, p2, t2)" for r p2 t2
      using dialOnce_keeps [OF that] l by (auto simp: stepped_def)
    then have "shaped pol s w (dial_attempt pick host port tls pol n a s)"
      unfolding dial_attempt_def using Pair Inr shaped_final [OF s1 keeps_simps(1)]
      by (auto simp: Let_def split: option.split intro!: shaped_after_dial)
    with Pair Inr show ?thesis by (intro that(2)) simp_all
  qed
qed

lemma dial_loop_discipline:
  assumes "dial_loop pick host port tls att k n pol lastErr s = (out, s')"
    and "n = 0 \<and> d_tried s = [] \<or> 0 < n" and "distinct (d_tried s)" and "length (pool_load (d_pool s)) < 2 ^ 64"
  shows "\<exists>l t. d_log s' = d_log s @ l \<and> length l \<le> k \<and> d_tried s' = d_tried s @ t \<and> distinct (d_tried s') \<and>
           pool_load (d_pool s') = pool_load (d_pool s) \<and>
           distinct (map (\<lambda>x. Name (d_heap s (fst x))) l) \<and>
           set (map (\<lambda>x. Name (d_heap s (fst x))) l) \<subseteq> set t \<and>
           list_all (\<lambda>x. fst x \<in> set (pool_load (d_pool s)) \<and> (\<not> AutoFetchFallback pol \<longrightarrow> snd x = Mode pol)) l"
  using assms
proof (induction k arbitrary: n pol lastErr s)
  case 0
  then show ?case by simp
next
  case (Suc k)
  show ?case
  proof (rule dial_attempt_shape [of host port tls pol n "att n" s])
    fix e p1
    assume "dial_attempt pick host port tls pol n (att n) s = Final (DErr (ErrPool e)) (s\<lparr>d_pool := p1\<rparr>)"
      and "pool_load p1 = pool_load (d_pool s)"
    with Suc.prems show ?thesis by auto
  next
    fix w p1
    assume p: "pick_worker pick pol n (att n) s = (Inr w, p1)"
      and sh: "shaped pol s w (dial_attempt pick host port tls pol n (att n) s)"
    have mem: "w \<in> set (pool_load (d_pool s))" by (rule pick_worker_member [OF p Suc.prems(4)])
    have fresh: "Name (d_heap s w) \<notin> set (d_tried s)" by (rule pick_worker_fresh [OF p Suc.prems(2)])
    have step: "\<exists>t1. d_tried u = d_tried s @ t1 \<and> distinct (d_tried u) \<and> hd t1 = Name (d_heap s w) \<and> t1 \<noteq> []"
      if "stepped pol s w u" for u
      using that fresh Suc.prems(3) unfolding stepped_def by fastforce
    show ?thesis
    proof (cases "dial_attempt pick host port tls pol n (att n) s")
      case (Final o' u)
      with Suc.prems(1) sh have u: "stepped pol s w u" "u = s'" by (simp_all add: shaped_def)
      from step [OF u(1)] obtain t1 where "d_tried u = d_tried s @ t1" "distinct (d_tried u)"
        "hd t1 = Name (d_heap s w)" "t1 \<noteq> []" by blast
      then show ?thesis using u mem
        by (intro exI [of _ "[(w, Mode pol)]"] exI [of _ t1]) (auto simp: stepped_def hd_in_set)
    next
      case (Again pol' e u)
      with sh have u: "stepped pol s w u" and pol': "next_policy pol pol'" by (simp_all add: shaped_def)
      from step [OF u] obtain t1 where t1: "d_tried u = d_tried s @ t1" "distinct (d_tried u)"
        "hd t1 = Name (d_heap s w)" "t1 \<noteq> []" by blast
      have nm: "Name (d_heap u x) = Name (d_heap s x)" and ld: "pool_load (d_pool u) = pool_load (d_pool s)"
        and lg: "d_log u = d_log s @ [(w, Mode pol)]" for x using u by (simp_all add: stepped_def)
      have loop: "dial_loop pick host port tls att k (Suc n) pol' (Some e) u = (out, s')"
        using Suc.prems(1) Again by simp
      have "\<exists>l t. d_log s' = d_log u @ l \<and> length l \<le> k \<and> d_tried s' = d_tried u @ t \<and> distinct (d_tried s') \<and>
           pool_load (d_pool s') = pool_load (d_pool u) \<and>
           distinct (map (\<lambda>x. Name (d_heap u (fst x))) l) \<and>
           set (map (\<lambda>x. Name (d_heap u (fst x))) l) \<subseteq> set t \<and>
           list_all (\<lambda>x. fst x \<in> set (pool_load (d_pool u)) \<and> (\<not> AutoFetchFallback pol' \<longrightarrow> snd x = Mode pol')) l"
        by (rule Suc.IH [OF loop]) (use t1(2) ld Suc.prems(4) in simp_all)
      then obtain l t where l: "d_log s' = d_log u @ l" "length l \<le> k" "d_tried s' = d_tried u @ t" "distinct (d_tried s')"
           "pool_load (d_pool s') = pool_load (d_pool u)" "distinct (map (\<lambda>x. Name (d_heap s (fst x))) l)"
           "set (map (\<lambda>x. Name (d_heap s (fst x))) l) \<subseteq> set t"
           "list_all (\<lambda>x. fst x \<in> set (pool_load (d_pool s)) \<and> (\<not> AutoFetchFallback pol' \<longrightarrow> snd x = Mode pol')) l"
        unfolding nm ld by blast
      have "Name (d_heap s w) \<in> set t1" using t1(3,4) hd_in_set by metis
      then have "Name (d_heap s w) \<notin> set t" using l(3,4) t1(1) by auto
      moreover have "list_all (\<lambda>x. fst x \<in> set (pool_load (d_pool s)) \<and> (\<not> AutoFetchFallback pol \<longrightarrow> snd x = Mode pol)) l"
        using l(8) pol' by (auto simp: next_policy_def list_all_iff)
      ultimately show ?thesis
        using l lg ld t1 mem \<open>Name (d_heap s w) \<in> set t1\<close>
        by (intro exI [of _ "(w, Mode pol) # l"] exI [of _ "t1 @ t"]) auto
    qed
  qed
qed

end

section \<open>Lemmas: panics\<close>

lemma cf_itoa_loop_None: "10 ^ i \<le> n \<Longrightarrow> cf_itoa_loop n i buf = None"
proof (induction i arbitrary: n buf)
  case 0
  then show ?case by (subst cf_itoa_loop.simps) simp
next
  case (Suc i)
  then have "10 ^ i \<le> n div 10" by (simp add: less_eq_div_iff_mult_less_eq mult.commute)
  moreover have "0 < n" using Suc.prems by (cases n) auto
  ultimately show ?case using Suc.IH by (subst cf_itoa_loop.simps) simp
qed

lemma Mark_panics: "10 ^ 10 \<le> port \<Longrightarrow> MarkUnreachableViaSocket now host port c = None"
  using cf_itoa_loop_None [of 10 "nat port" "[]"]
  by (simp add: MarkUnreachableViaSocket_def hostPortKey_def cf_itoa_def)

lemma Mark_ok: "0 \<le> port \<Longrightarrow> port < 10 ^ 10 \<Longrightarrow> MarkUnreachableViaSocket now host port c \<noteq> None"
  by (simp add: MarkUnreachableViaSocket_def hostPortKey_def cf_itoa_dec)

lemma after_dial_no_panic:
  assumes "0 \<le> port" "port < 10 ^ 10" "0 \<le> BaseBackoff pol" "after_dial host port tls pol n a w r s = Final out s'"
  shows "out \<noteq> DPanic"
proof -
  have b: "0 \<le> BaseBackoff q \<Longrightarrow> back_off q n a w e t \<noteq> Final DPanic u" for q e t u
    using back_off_Final [of q n a w e t DPanic u] by auto
  show ?thesis
    using assms(3,4) Mark_ok [OF assms(1,2), of "a_now a" host "d_cache s"]
    by (auto simp: after_dial_def Let_def b split: sum.splits option.splits if_splits)
qed

lemma after_dial_backoff:
  "after_dial host port tls pol n a w r s = Again pol' e s' \<Longrightarrow> BaseBackoff pol' = BaseBackoff pol"
  by (auto simp: after_dial_def Let_def split: sum.splits option.splits if_splits dest!: back_off_Again)

lemma dial_loop_no_panic:
  "0 \<le> port \<Longrightarrow> port < 10 ^ 10 \<Longrightarrow> 0 \<le> BaseBackoff pol \<Longrightarrow>
   fst (dial_loop sched host port tls att k n pol lastErr s) \<noteq> DPanic"
proof (induction k arbitrary: n pol lastErr s)
  case (Suc k)
  have att: "out \<noteq> DPanic" if "dial_attempt sched host port tls pol n (att n) s = Final out u" for out u
    using that after_dial_no_panic [OF Suc.prems]
    by (auto simp: dial_attempt_def Let_def split: prod.splits sum.splits option.splits)
  have again: "0 \<le> BaseBackoff pol'" if "dial_attempt sched host port tls pol n (att n) s = Again pol' e u" for pol' e u
    using that Suc.prems(3) after_dial_backoff
    by (fastforce simp: dial_attempt_def Let_def split: prod.splits sum.splits option.splits)
  show ?case
    using att again Suc.IH [OF Suc.prems(1,2)] by (auto split: step_res.split)
qed simp

lemma normalize_policy_fields [simp]:
  "AutoFetchFallback (normalize_policy pol) = AutoFetchFallback pol" "Mode (normalize_policy pol) = Mode pol"
  "HedgeAfter (normalize_policy pol) = HedgeAfter pol" "SessionID (normalize_policy pol) = SessionID pol"
  "TLSRewrap (normalize_policy pol) = TLSRewrap pol"
  by (simp_all add: normalize_policy_def Let_def)

lemma normalize_backoff: "0 \<le> BaseBackoff pol \<Longrightarrow> 0 \<le> BaseBackoff (normalize_policy pol)"
  by (simp add: normalize_policy_def Let_def)

lemma dial_no_panic:
  assumes "0 \<le> port" and "port < 10 ^ 10" and "0 \<le> BaseBackoff pol"
  shows "fst (DialWithPolicy sched ttl now host port tls att pol h p cache) \<noteq> DPanic"
proof -
  have key: "hostPortKey host port = Some (host @ CHR '':'' # dec (nat port))"
    using assms(1,2) by (simp add: hostPortKey_def cf_itoa_dec)
  have known: "IsKnownUnreachable ttl now host port cache \<noteq> None"
    by (auto simp: IsKnownUnreachable_def key split: option.split)
  have "0 \<le> BaseBackoff (normalize_policy pol)" by (rule normalize_backoff [OF assms(3)])
  then have "fst (dial_loop sched host port tls att k n (normalize_policy pol) e s) \<noteq> DPanic"
    "fst (dial_loop sched host port tls att k n ((normalize_policy pol)\<lparr>Mode := ModeFetch\<rparr>) e s) \<noteq> DPanic" for k n e s
    using dial_loop_no_panic [OF assms(1,2)] by simp_all
  with known show ?thesis by (auto simp: DialWithPolicy_def Let_def split: if_splits)
qed

definition demo_heap :: heap where
  "demo_heap w = NewWorker 0 [] (if w = 3 then ''a'' else ''b'') []"

definition demo_attempt :: "hev list \<Rightarrow> dial_res \<Rightarrow> attempt" where
  "demo_attempt evs r = \<lparr>a_brk = (\<lambda>_. StateClosed), a_evs = evs, a_direct = (BrkRun, r), a_wrap = True,
     a_fallback = (BrkRun, r), a_cancel = False, a_now = 0, a_rand = 0\<rparr>"

definition demo_policy :: "int \<Rightarrow> policy" where
  "demo_policy after = \<lparr>MaxRetries = 2, BaseBackoff = 0, HedgeAfter = after, HMACSecret = [], Mode = ModeSocket,
     SessionID = [], TLSRewrap = False, AutoFetchFallback = False\<rparr>"

lemma demo_first_pick:
  "NextRR (\<lambda>_. StateClosed) demo_heap (pool_New [3, 4]) = (Inr 3, (pool_New [3, 4])\<lparr>rr := 1\<rparr>)"
  by (simp add: NextRR_def scan.simps pool_New_def pool_load_def Available_def demo_heap_def NewWorker_def)

lemmas demo_simps = DialWithPolicy_def normalize_policy_def demo_policy_def demo_attempt_def Let_def
  dial_attempt_def pick_worker_def roundRobin_Next_def demo_first_pick dialOnceWithHedge_def after_dial_def
  maybeRewrap_def dialBreak_def

lemma demo_run:
  "DialWithPolicy roundRobin_Next 600 0 ''h'' 443 True (\<lambda>_. demo_attempt [] (Inr 5)) (demo_policy 0) demo_heap
     (pool_New [3, 4]) Map.empty =
   (DOk 5 3, \<lparr>d_heap = demo_heap, d_pool = (pool_New [3, 4])\<lparr>rr := 1\<rparr>, d_tried = [Name (demo_heap 3)], d_cache = Map.empty,
      d_log = [(3, ModeSocket)], d_closed = [], d_delays = []\<rparr>)"
  by (simp add: demo_simps numeral_2_eq_2)

section \<open>Properties\<close>

text \<open>
  C12. The retry discipline, for both schedulers: a call of \<^verbatim>\<open>DialWithPolicy\<close> makes at most the
  configured number of attempts (three when none is configured), every attempt goes to a worker of
  the snapshot, no worker name is used for two attempts, and unless the automatic fallback is on
  every attempt uses the mode the caller asked for.
\<close>

theorem DialWithPolicy_discipline:
  assumes "sched = roundRobin_Next \<or> sched = leastInflight_Next" and "length (pool_load p) < 2 ^ 64"
    and "DialWithPolicy sched ttl now host port tls att pol h p cache = (out, s)"
  shows "length (d_log s) \<le> (if MaxRetries pol \<le> 0 then 3 else nat (MaxRetries pol)) \<and>
         distinct (map (\<lambda>x. Name (h (fst x))) (d_log s)) \<and> distinct (d_tried s) \<and>
         pool_load (d_pool s) = pool_load p \<and>
         list_all (\<lambda>x. fst x \<in> set (pool_load p) \<and> (\<not> AutoFetchFallback pol \<longrightarrow> snd x = Mode pol)) (d_log s)"
proof -
  let ?pol = "normalize_policy pol" and ?n = "nat (MaxRetries (normalize_policy pol))"
  let ?s0 = "\<lambda>c. \<lparr>d_heap = h, d_pool = p, d_tried = [], d_cache = c, d_log = [], d_closed = [], d_delays = []\<rparr>"
  have n: "?n = (if MaxRetries pol \<le> 0 then 3 else nat (MaxRetries pol))"
    by (simp add: normalize_policy_def Let_def)
  have disc: "length (d_log s) \<le> ?n \<and> distinct (map (\<lambda>x. Name (h (fst x))) (d_log s)) \<and> distinct (d_tried s) \<and>
      pool_load (d_pool s) = pool_load p \<and>
      list_all (\<lambda>x. fst x \<in> set (pool_load p) \<and> (\<not> AutoFetchFallback q \<longrightarrow> snd x = Mode q)) (d_log s)"
    if "dial_loop sched host port tls att ?n 0 q None (?s0 c) = (out, s)" for q c
    using assms(1) rr.dial_loop_discipline [of host port tls att ?n 0 q None "?s0 c" out s]
      li.dial_loop_discipline [of host port tls att ?n 0 q None "?s0 c" out s] that assms(2) by auto
  show ?thesis
  proof (cases "AutoFetchFallback pol \<and> (Mode pol = ModeHybrid \<or> Mode pol = ModeSocket)")
    case False
    then have "dial_loop sched host port tls att ?n 0 ?pol None (?s0 cache) = (out, s)"
      using assms(3) by (auto simp: DialWithPolicy_def Let_def)
    from disc [OF this] n show ?thesis by simp
  next
    case True
    then consider "s = ?s0 cache" | q c where "dial_loop sched host port tls att ?n 0 q None (?s0 c) = (out, s)"
      using assms(3) by (auto simp: DialWithPolicy_def Let_def split: option.splits)
    then show ?thesis
    proof cases
      case 1
      then show ?thesis by simp
    next
      case 2
      from disc [OF this] n True show ?thesis by (auto simp: list_all_iff)
    qed
  qed
qed

theorem DialWithPolicy_discipline_witness:
  "\<exists>out s. DialWithPolicy roundRobin_Next 600 0 ''h'' 443 True (\<lambda>_. demo_attempt [] (Inr 5)) (demo_policy 0) demo_heap
     (pool_New [3, 4]) Map.empty = (out, s) \<and> out = DOk 5 3 \<and> length (d_log s) \<le> 2"
proof -
  have l: "length (pool_load (pool_New [3, 4])) < 2 ^ 64" by (simp add: pool_New_def pool_load_def)
  from DialWithPolicy_discipline [OF disjI1 [OF refl] l demo_run] demo_run show ?thesis
    by (simp add: demo_policy_def)
qed

text \<open>
  A blocked upstream ends the call at once when the automatic fallback is off: the first
  attempt that the worker answers with close code 4001 makes the whole call return
  \<^verbatim>\<open>ErrUpstreamBlocked\<close>, remembers the target, does not count against the worker's health, and
  no further worker is tried.
\<close>

lemma blocked_is_final:
  assumes "\<not> AutoFetchFallback pol" and "0 \<le> port" "port < 10 ^ 10"
    and "pick_worker sched pol n (att n) s = (Inr w, p1)"
    and "dialOnceWithHedge (HedgeAfter pol) (a_brk (att n)) (d_heap s) p1 w (d_tried s @ [Name (d_heap s w)])
           (a_evs (att n)) (a_direct (att n)) = Some (Inl ErrUpstreamBlocked, p2, tried2)"
  shows "\<exists>s'. dial_loop sched host port tls att (Suc k) n pol lastErr s = (DErr ErrUpstreamBlocked, s') \<and>
           d_heap s' = d_heap s \<and> d_log s' = d_log s @ [(w, Mode pol)] \<and>
           map_option fst (IsKnownUnreachable ttl (a_now (att n)) host port (d_cache s')) = Some (0 \<le> ttl)"
proof -
  have key: "hostPortKey host port = Some (host @ CHR '':'' # dec (nat port))"
    using assms(2,3) by (simp add: hostPortKey_def cf_itoa_dec)
  show ?thesis
    using assms(1,4,5)
    by (simp add: dial_attempt_def after_dial_def Let_def MarkUnreachableViaSocket_def key IsKnownUnreachable_def)
qed

lemma blocked_is_final_example:
  "let s = \<lparr>d_heap = demo_heap, d_pool = pool_New [3, 4], d_tried = [], d_cache = Map.empty, d_log = [],
            d_closed = [], d_delays = []\<rparr>
   in \<exists>s'. dial_loop roundRobin_Next ''h'' 443 True (\<lambda>_. demo_attempt [] (Inl ErrUpstreamBlocked)) 2 0 (demo_policy 0) None s
          = (DErr ErrUpstreamBlocked, s') \<and> length (d_log s') = 1"
proof -
  let ?s = "\<lparr>d_heap = demo_heap, d_pool = pool_New [3, 4], d_tried = [], d_cache = Map.empty, d_log = [],
            d_closed = [], d_delays = []\<rparr>"
  let ?att = "\<lambda>_ :: nat. demo_attempt [] (Inl ErrUpstreamBlocked)"
  have p: "pick_worker roundRobin_Next (demo_policy 0) 0 (?att 0) ?s = (Inr 3, (pool_New [3, 4])\<lparr>rr := 1\<rparr>)"
    by (simp add: demo_simps)
  have d: "dialOnceWithHedge (HedgeAfter (demo_policy 0)) (a_brk (?att 0)) (d_heap ?s) ((pool_New [3, 4])\<lparr>rr := 1\<rparr>) 3
      (d_tried ?s @ [Name (d_heap ?s 3)]) (a_evs (?att 0)) (a_direct (?att 0)) =
      Some (Inl ErrUpstreamBlocked, (pool_New [3, 4])\<lparr>rr := 1\<rparr>, d_tried ?s @ [Name (d_heap ?s 3)])"
    by (simp add: demo_simps)
  have "\<not> AutoFetchFallback (demo_policy 0)" by (simp add: demo_policy_def)
  from blocked_is_final [OF this _ _ p d, of 443 "''h''" True 1 None 0]
  obtain s' where "dial_loop roundRobin_Next ''h'' 443 True ?att (Suc 1) 0 (demo_policy 0) None ?s = (DErr ErrUpstreamBlocked, s')"
    and "d_log s' = d_log ?s @ [(3, Mode (demo_policy 0))]" by auto
  then show ?thesis by (simp del: dial_loop.simps add: numeral_2_eq_2)
qed

text \<open>
  A port of eleven digits, which the HTTP front end accepts from its client, makes the process
  panic as soon as a worker answers that the target is blocked: the key of the cache is written into
  a ten-byte buffer.
\<close>

lemma long_port_panics:
  "fst (DialWithPolicy roundRobin_Next 600 0 ''h'' 10000000000 False (\<lambda>_. demo_attempt [] (Inl ErrUpstreamBlocked))
     (demo_policy 0) demo_heap (pool_New [3, 4]) Map.empty) = DPanic"
  by (simp add: demo_simps Mark_panics numeral_2_eq_2)

text \<open>
  A hedge that wins is booked on the wrong worker: here worker 3 is slow, the hedge to worker 4
  wins with connection 7, and the call returns connection 7 together with worker 3, whose in-flight
  count, health and account quota the caller then updates.
\<close>

lemma hedge_win_booked_on_primary:
  "let evs = [EvTick, MainTick, EvDial False BrkRun (Inr 7), EvSend False, MainRecv]
   in fst (DialWithPolicy roundRobin_Next 600 0 ''h'' 443 True (\<lambda>_. demo_attempt evs (Inl ErrCtx))
        (demo_policy 1) demo_heap (pool_New [3, 4]) Map.empty) = DOk 7 3 \<and>
      map_option h_sec (hedge_run (\<lambda>_. StateClosed) demo_heap 3 evs
        (hedge_init ((pool_New [3, 4])\<lparr>rr := 1\<rparr>) [Name (demo_heap 3)])) = Some (Some (4, GGone))"
proof -
  have n: "NextSkip (\<lambda>_. StateClosed) [Name (demo_heap 3)] demo_heap ((pool_New [3, 4])\<lparr>rr := 1\<rparr>) =
      (Inr 4, (pool_New [3, 4])\<lparr>rr := 2\<rparr>)"
    by (simp add: NextSkip_def scan.simps pool_New_def pool_load_def Available_def demo_heap_def NewWorker_def)
  note ev = hedge_step_def hedge_init_def routine_def set_routine_def main_return_def conns_def launch_def n
    routine_worker_def
  show ?thesis by (simp add: demo_simps ev numeral_2_eq_2)
qed

end
