(* ===== verification/Quota_Guard.thy ===== *)
theory Quota_Guard
  imports Health_Check
begin

text \<open>
  The quota guard: the hook that the proxy calls once per tunnel and the loop that resumes workers
  after the daily reset (\<^verbatim>\<open>quotaHook\<close>, \<^verbatim>\<open>quotaResumeLoop\<close> and \<^verbatim>\<open>quotaSnapshotLoop\<close> of
  \<^verbatim>\<open>cmd/flarex/main.go\<close>), and the alert dispatcher with its cool-down (\<^verbatim>\<open>internal/alerts/alerts.go\<close>).
  Time is in Unix seconds. An alert that passes the cool-down goes to every sink; delivery itself is
  not modelled.
\<close>

section \<open>Alerts\<close>

datatype alert_kind = KindQuotaWarn | KindQuotaLimit | KindWorkerDown

definition kind_string :: "alert_kind \<Rightarrow> string" where
  "kind_string k = (case k of
     KindQuotaWarn \<Rightarrow> ''quota_warn'' | KindQuotaLimit \<Rightarrow> ''quota_limit'' | KindWorkerDown \<Rightarrow> ''worker_down'')"

record event =
  ev_Kind :: alert_kind
  ev_AccountID :: string
  ev_Used :: u64
  ev_Limit :: u64
  ev_At :: time

record dispatcher =
  sinks :: nat
  cooldwn :: int
  last_sent :: "string \<rightharpoonup> time"
  sent :: "event list"

definition alert_key :: "event \<Rightarrow> string" where
  "alert_key ev = kind_string (ev_Kind ev) @ CHR ''|'' # ev_AccountID ev"

text \<open>\<^verbatim>\<open>Fire\<close>; the swap succeeds, as it does when no other call runs between load and swap.\<close>

definition Fire :: "event \<Rightarrow> dispatcher \<Rightarrow> dispatcher" where
  "Fire ev d =
     (if sinks d = 0 then d
      else if cooldwn d > 0 then
        (let prev = (case last_sent d (alert_key ev) of None \<Rightarrow> 0 | Some t \<Rightarrow> t);
             d1 = d\<lparr>last_sent := (last_sent d)(alert_key ev \<mapsto> prev)\<rparr>
         in if prev > 0 \<and> ev_At ev - prev < cooldwn d then d1
            else d1\<lparr>last_sent := (last_sent d1)(alert_key ev \<mapsto> ev_At ev), sent := sent d1 @ [ev]\<rparr>)
      else d\<lparr>sent := sent d @ [ev]\<rparr>)"

section \<open>The hook and the loops\<close>

record guard =
  g_heap :: heap
  g_pool :: pool
  g_disp :: dispatcher

definition put_quota :: "string \<Rightarrow> quota \<Rightarrow> guard \<Rightarrow> guard" where
  "put_quota acc q g = g\<lparr>g_pool := (g_pool g)\<lparr>quotas := (quotas (g_pool g))(acc \<mapsto> q)\<rparr>\<rparr>"

definition quotaHook :: "u64 \<Rightarrow> time \<Rightarrow> string \<Rightarrow> guard \<Rightarrow> guard" where
  "quotaHook warnThreshold now accountID g =
     (case QuotaFor (g_pool g) accountID of
        None \<Rightarrow> g
      | Some q \<Rightarrow>
          (let ((n, hit), q1) = quota_Inc now q; g1 = put_quota accountID q1 g;
               ev = \<lambda>k. \<lparr>ev_Kind = k, ev_AccountID = accountID, ev_Used = n, ev_Limit = Limit q1, ev_At = now\<rparr>
           in if hit then
                g1\<lparr>g_heap := store_flags True False (ByAccount (g_heap g1) (g_pool g1) accountID) (g_heap g1),
                   g_disp := Fire (ev KindQuotaLimit) (g_disp g1)\<rparr>
              else if warnThreshold > 0 \<and> n \<ge> warnThreshold then
                g1\<lparr>g_disp := Fire (ev KindQuotaWarn) (g_disp g1)\<rparr>
              else g1))"

text \<open>One round of the resume loop: the body for one worker, then the workers of the snapshot.\<close>

definition resume_one :: "time \<Rightarrow> ref \<Rightarrow> guard \<Rightarrow> guard" where
  "resume_one now w g =
     (case QuotaFor (g_pool g) (AccountID (g_heap g w)) of
        None \<Rightarrow> g
      | Some q \<Rightarrow>
          if Limit q = 0 then g
          else (let (used, q1) = quota_Used now q; g1 = put_quota (AccountID (g_heap g w)) q1 g
                in if used < Limit q1 \<and> QuotaPaused (g_heap g1 w)
                   then g1\<lparr>g_heap := (g_heap g1)(w := (g_heap g1 w)\<lparr>QuotaPaused := False, Healthy := True\<rparr>)\<rparr>
                   else g1))"

definition resume_tick :: "time \<Rightarrow> guard \<Rightarrow> guard" where
  "resume_tick now g = foldl (\<lambda>g w. resume_one now w g) g (pool_All (g_pool g))"

text \<open>One snapshot round: a row per account that has a quota, in the order accounts first appear.\<close>

record quota_day =
  qd_Date :: time
  qd_Account :: string
  qd_Used :: u64
  qd_Limit :: u64

fun snapshot_rows :: "time \<Rightarrow> heap \<Rightarrow> (string \<rightharpoonup> quota) \<Rightarrow> string list \<Rightarrow> ref list \<Rightarrow> quota_day list \<times> (string \<rightharpoonup> quota)" where
  "snapshot_rows now h qs seen [] = ([], qs)"
| "snapshot_rows now h qs seen (w # ws) =
     (let acc = AccountID (h w)
      in if acc \<in> set seen then snapshot_rows now h qs seen ws
         else (case qs acc of
                 None \<Rightarrow> snapshot_rows now h qs (acc # seen) ws
               | Some q \<Rightarrow>
                   (let (used, q1) = quota_Used now q;
                        (rows, qs') = snapshot_rows now h (qs(acc \<mapsto> q1)) (acc # seen) ws
                    in (\<lparr>qd_Date = startOfDay now, qd_Account = acc, qd_Used = used, qd_Limit = Limit q1\<rparr> # rows, qs'))))"

definition quota_snapshot :: "time \<Rightarrow> guard \<Rightarrow> quota_day list \<times> guard" where
  "quota_snapshot now g =
     (let (rows, qs) = snapshot_rows now (g_heap g) (quotas (g_pool g)) [] (pool_All (g_pool g))
      in (rows, g\<lparr>g_pool := (g_pool g)\<lparr>quotas := qs\<rparr>\<rparr>))"

section \<open>Lemmas\<close>

lemma alert_key_inject: "alert_key a = alert_key b \<longleftrightarrow> ev_Kind a = ev_Kind b \<and> ev_AccountID a = ev_AccountID b"
  unfolding alert_key_def kind_string_def
  by (cases "ev_Kind a"; cases "ev_Kind b") auto

lemma put_quota_simps [simp]:
  "g_heap (put_quota acc q g) = g_heap g" "g_disp (put_quota acc q g) = g_disp g"
  "pool_load (g_pool (put_quota acc q g)) = pool_load (g_pool g)"
  "quotas (g_pool (put_quota acc q g)) = (quotas (g_pool g))(acc \<mapsto> q)"
  by (simp_all add: put_quota_def pool_load_def)

lemma resume_one_frame [simp]:
  "pool_load (g_pool (resume_one now w g)) = pool_load (g_pool g)"
  "AccountID (g_heap (resume_one now w g) x) = AccountID (g_heap g x)"
  by (auto simp: resume_one_def quota_Used_def Let_def split: option.split)

lemma maybeReset_idem [simp]: "maybeReset now (maybeReset now q) = maybeReset now q"
  by (simp add: maybeReset_def Let_def)

text \<open>The quotas after a round, and the flag of one worker under one step of the round.\<close>

definition can_resume :: "time \<Rightarrow> quota \<Rightarrow> bool" where
  "can_resume now q \<longleftrightarrow> Limit q \<noteq> 0 \<and> Reqs (maybeReset now q) < Limit q"

lemma can_resume_reset [simp]: "can_resume now (maybeReset now q) = can_resume now q"
  by (simp add: can_resume_def)

definition quotas_agree :: "time \<Rightarrow> (string \<rightharpoonup> quota) \<Rightarrow> (string \<rightharpoonup> quota) \<Rightarrow> bool" where
  "quotas_agree now m m' \<longleftrightarrow> (\<forall>a. map_option (maybeReset now) (m' a) = map_option (maybeReset now) (m a))"

lemma resume_one_quotas: "quotas_agree now (quotas (g_pool g)) (quotas (g_pool (resume_one now w g)))"
  by (auto simp: quotas_agree_def resume_one_def QuotaFor_def quota_Used_def Let_def split: option.split)

definition resumes :: "time \<Rightarrow> guard \<Rightarrow> ref \<Rightarrow> bool" where
  "resumes now g w \<longleftrightarrow> (\<exists>q. quotas (g_pool g) (AccountID (g_heap g w)) = Some q \<and> can_resume now q)"

lemma resumes_agree:
  assumes "quotas_agree now (quotas (g_pool g)) (quotas (g_pool g'))"
    and "AccountID (g_heap g' w) = AccountID (g_heap g w)"
  shows "resumes now g' w = resumes now g w"
proof -
  have "map_option (maybeReset now) (quotas (g_pool g') (AccountID (g_heap g w))) =
      map_option (maybeReset now) (quotas (g_pool g) (AccountID (g_heap g w)))"
    using assms(1) by (simp add: quotas_agree_def)
  then show ?thesis
    unfolding resumes_def assms(2) by (auto simp: map_option_case split: option.splits) (metis can_resume_reset)+
qed

lemma resume_one_heap:
  "g_heap (resume_one now w g) x =
     (if x = w \<and> resumes now g w \<and> QuotaPaused (g_heap g w)
      then (g_heap g w)\<lparr>QuotaPaused := False, Healthy := True\<rparr> else g_heap g x)"
  by (auto simp: resume_one_def resumes_def can_resume_def QuotaFor_def quota_Used_def Let_def split: option.split)

lemma resume_fold_heap:
  "g_heap (foldl (\<lambda>g w. resume_one now w g) g ws) x =
     (if x \<in> set ws \<and> resumes now g x \<and> QuotaPaused (g_heap g x)
      then (g_heap g x)\<lparr>QuotaPaused := False, Healthy := True\<rparr> else g_heap g x)"
proof (induction ws arbitrary: g)
  case (Cons w ws)
  let ?g = "resume_one now w g"
  have r: "resumes now ?g x = resumes now g x"
    by (rule resumes_agree [OF resume_one_quotas]) simp
  show ?case
    by (simp add: Cons r) (auto simp: resume_one_heap)
qed simp

lemma ByAccount_iff: "w \<in> set (ByAccount h p acc) \<longleftrightarrow> w \<in> set (pool_load p) \<and> AccountID (h w) = acc"
  by (auto simp: ByAccount_def)

lemma resume_tick_heap:
  "g_heap (resume_tick now g) x =
     (if x \<in> set (pool_load (g_pool g)) \<and> resumes now g x \<and> QuotaPaused (g_heap g x)
      then (g_heap g x)\<lparr>QuotaPaused := False, Healthy := True\<rparr> else g_heap g x)"
  by (simp add: resume_tick_def pool_All_def resume_fold_heap)

lemma hook_hit:
  assumes "QuotaFor (g_pool g) acc = Some q" and "snd (fst (quota_Inc now q))"
  shows "g_heap (quotaHook thr now acc g) =
           (\<lambda>x. if x \<in> set (ByAccount (g_heap g) (g_pool g) acc)
                then (g_heap g x)\<lparr>QuotaPaused := True, Healthy := False\<rparr> else g_heap g x) \<and>
         quotas (g_pool (quotaHook thr now acc g)) = (quotas (g_pool g))(acc \<mapsto> snd (quota_Inc now q)) \<and>
         pool_load (g_pool (quotaHook thr now acc g)) = pool_load (g_pool g)"
proof -
  obtain n q1 where i: "quota_Inc now q = ((n, True), q1)" using assms(2) by (metis prod.collapse)
  have b: "ByAccount (g_heap g) (g_pool (put_quota acc q1 g)) acc = ByAccount (g_heap g) (g_pool g) acc"
    by (simp add: ByAccount_def)
  show ?thesis using assms(1) i
    by (simp add: quotaHook_def Let_def b store_flags_apply fun_eq_iff)
qed

lemma inc_hit_quota:
  assumes "snd (fst (quota_Inc now q))" and "DayStart q \<le> startOfDay now"
  shows "Limit (snd (quota_Inc now q)) = Limit q \<and> Limit q \<noteq> 0 \<and>
         Limit q \<le> Reqs (snd (quota_Inc now q)) \<and> DayStart (snd (quota_Inc now q)) = startOfDay now"
proof -
  have l: "Limit (maybeReset now q) = Limit q" by (simp add: maybeReset_def Let_def)
  have d: "DayStart (maybeReset now q) = startOfDay now" using assms(2) by (simp add: maybeReset_def Let_def)
  show ?thesis using assms(1) l d by (auto simp: quota_Inc_def Let_def split: if_splits)
qed

section \<open>Properties\<close>


definition demo_guard :: guard where
  "demo_guard =
     \<lparr>g_heap = (\<lambda>w. NewWorker 0 (if w = 1 then ''a'' else ''b'') [] []),
      g_pool = (pool_New [1, 2])\<lparr>quotas := [''a'' \<mapsto> \<lparr>qAccountID = ''a'', Reqs = 9, DayStart = 0, Limit = 10\<rparr>]\<rparr>,
      g_disp = \<lparr>sinks = 0, cooldwn = 0, last_sent = Map.empty, sent = []\<rparr>\<rparr>"


text \<open>
  The resume loop does not know who paused an account: when an operator pauses an account
  whose quota is not used up, the next resume round (within a minute) puts its workers back into
  rotation.
\<close>

lemma operator_pause_undone:
  assumes "QuotaFor (g_pool g) acc = Some q" and "can_resume now q"
    and "w \<in> set (ByAccount (g_heap g) (g_pool g) acc)"
  shows "\<not> Available brk (snd (SetAccountPaused acc True (g_heap g) (g_pool g))) w \<and>
         Available brk (g_heap (resume_tick now
           (g\<lparr>g_heap := snd (SetAccountPaused acc True (g_heap g) (g_pool g))\<rparr>))) w = (brk w \<noteq> StateOpen)"
proof -
  let ?h = "snd (SetAccountPaused acc True (g_heap g) (g_pool g))"
  have h: "?h w = (g_heap g w)\<lparr>QuotaPaused := True, Healthy := False\<rparr>"
    using assms(3) by (simp add: SetAccountPaused_def Let_def store_flags_apply)
  have "resumes now (g\<lparr>g_heap := ?h\<rparr>) w"
    using assms h by (simp add: resumes_def QuotaFor_def ByAccount_iff)
  then show ?thesis using h assms(3) by (simp add: resume_tick_heap Available_def ByAccount_iff)
qed

lemma operator_pause_undone_example:
  "Available (\<lambda>_. StateClosed) (g_heap (resume_tick 200
     (demo_guard\<lparr>g_heap := snd (SetAccountPaused ''a'' True (g_heap demo_guard) (g_pool demo_guard))\<rparr>))) 1"
proof -
  let ?q = "\<lparr>qAccountID = ''a'', Reqs = 9, DayStart = 0, Limit = 10\<rparr>"
  have 1: "QuotaFor (g_pool demo_guard) ''a'' = Some ?q" by (simp add: demo_guard_def QuotaFor_def)
  have 2: "can_resume 200 ?q" by (simp add: can_resume_def maybeReset_def startOfDay_def Let_def)
  have 3: "1 \<in> set (ByAccount (g_heap demo_guard) (g_pool demo_guard) ''a'')"
    by (simp add: ByAccount_iff demo_guard_def pool_New_def pool_load_def NewWorker_def)
  show ?thesis using operator_pause_undone [OF 1 2 3, of "\<lambda>_. StateClosed"] by simp
qed

text \<open>
  Alerts are rate limited per kind and account: after an alert went out, another one of the same
  kind and account goes out exactly when the cool-down has passed, and alerts of another kind or
  account are not affected by it.
\<close>

lemma Fire_cooldown:
  assumes "0 < sinks d" and "0 < cooldwn d" and "0 < ev_At a" and "sent (Fire a d) = sent d @ [a]"
  shows "(ev_Kind b = ev_Kind a \<and> ev_AccountID b = ev_AccountID a \<longrightarrow>
            sent (Fire b (Fire a d)) = sent d @ a # (if ev_At b - ev_At a < cooldwn d then [] else [b])) \<and>
         (ev_Kind b \<noteq> ev_Kind a \<or> ev_AccountID b \<noteq> ev_AccountID a \<longrightarrow>
            (sent (Fire b (Fire a d)) = sent (Fire a d) @ [b]) = (sent (Fire b d) = sent d @ [b]))"
proof -
  have f: "sinks (Fire a d) = sinks d" "cooldwn (Fire a d) = cooldwn d" "last_sent (Fire a d) (alert_key a) = Some (ev_At a)"
    "k \<noteq> alert_key a \<Longrightarrow> last_sent (Fire a d) k = last_sent d k" for k
    using assms by (auto simp: Fire_def Let_def split: if_splits)
  have s: "sent (Fire b e) = (if ev_At b - p < cooldwn d \<and> p > 0 then sent e else sent e @ [b])"
    if "sinks e = sinks d" "cooldwn e = cooldwn d" "p = (case last_sent e (alert_key b) of None \<Rightarrow> 0 | Some t \<Rightarrow> t)" for e p
    using that assms(1,2) by (simp add: Fire_def Let_def)
  note sa = s [OF f(1,2) refl] and sd = s [OF refl refl refl]
  show ?thesis
  proof (cases "alert_key b = alert_key a")
    case True
    then have "ev_Kind b = ev_Kind a \<and> ev_AccountID b = ev_AccountID a" by (simp add: alert_key_inject)
    with True sa f(3) assms(3,4) show ?thesis by simp
  next
    case False
    then have "\<not> (ev_Kind b = ev_Kind a \<and> ev_AccountID b = ev_AccountID a)" by (simp add: alert_key_inject)
    with sa sd f(4) [OF False] show ?thesis by auto
  qed
qed

lemma Fire_cooldown_example:
  "let d = \<lparr>sinks = 1, cooldwn = 60, last_sent = Map.empty, sent = []\<rparr>;
       e = (\<lambda>t. \<lparr>ev_Kind = KindQuotaWarn, ev_AccountID = ''a'', ev_Used = 8, ev_Limit = 10, ev_At = t\<rparr>)
   in sent (Fire (e 130) (Fire (e 100) d)) = [e 100] \<and> sent (Fire (e 160) (Fire (e 100) d)) = [e 100, e 160]"
proof -
  let ?d = "\<lparr>sinks = 1, cooldwn = 60, last_sent = Map.empty, sent = []\<rparr>"
  let ?e = "\<lambda>t. \<lparr>ev_Kind = KindQuotaWarn, ev_AccountID = ''a'', ev_Used = 8, ev_Limit = 10, ev_At = t\<rparr>"
  have 4: "sent (Fire (?e 100) ?d) = sent ?d @ [?e 100]" by (simp add: Fire_def Let_def)
  show ?thesis
    using Fire_cooldown [OF _ _ _ 4, of "?e 130"] Fire_cooldown [OF _ _ _ 4, of "?e 160"] by (simp add: Let_def)
qed

end
