(* ===== verification/Netip.thy ===== *)
theory Netip
  imports Go_Base
begin

text \<open>
  The part of Go's package \<^verbatim>\<open>net/netip\<close> that the proxy uses: parsing and printing of IPv4 and
  IPv6 addresses and CIDR prefixes. An IPv4 address is its four bytes, an IPv6 address its eight
  16-bit groups and a zone (empty when absent). The theory shows that an address printed by
  \<^verbatim>\<open>Addr.String\<close> is parsed back to itself, which is what ties the host string the SOCKS5
  handshake builds to the address the filter checks.
\<close>

section \<open>Addresses\<close>

datatype addr = V4 "nat list" | V6 "nat list" string

fun wf_addr :: "addr \<Rightarrow> bool" where
  "wf_addr (V4 bs) \<longleftrightarrow> length bs = 4 \<and> list_all (\<lambda>b. b < 256) bs"
| "wf_addr (V6 gs z) \<longleftrightarrow> length gs = 8 \<and> list_all (\<lambda>g. g < 65536) gs"

fun zone_free :: "addr \<Rightarrow> bool" where
  "zone_free (V4 _) = True"
| "zone_free (V6 _ z) \<longleftrightarrow> z = []"

section \<open>Parsing\<close>

definition parse_octet :: "string \<Rightarrow> nat option" where
  "parse_octet s =
     (case parse_dec s of
        None \<Rightarrow> None
      | Some v \<Rightarrow> if length s > 1 \<and> hd s = CHR ''0'' then None
                  else if v > 255 then None else Some v)"

fun parse_all :: "(string \<Rightarrow> nat option) \<Rightarrow> string list \<Rightarrow> nat list option" where
  "parse_all f [] = Some []"
| "parse_all f (x # xs) =
     (case f x of None \<Rightarrow> None | Some v \<Rightarrow> map_option ((#) v) (parse_all f xs))"

definition parseIPv4Fields :: "string \<Rightarrow> nat list option" where
  "parseIPv4Fields s =
     (let parts = split_on CHR ''.'' s
      in if length parts = 4 then parse_all parse_octet parts else None)"

definition is_hex :: "char \<Rightarrow> bool" where
  "is_hex c \<longleftrightarrow> is_digit c \<or> (97 \<le> (of_char c :: nat) \<and> (of_char c :: nat) \<le> 102) \<or>
                (65 \<le> (of_char c :: nat) \<and> (of_char c :: nat) \<le> 70)"

definition hex_val :: "char \<Rightarrow> nat" where
  "hex_val c = (if is_digit c then of_char c - 48
                else if 97 \<le> (of_char c :: nat) then of_char c - 87 else of_char c - 55)"

definition unhex :: "string \<Rightarrow> nat" where
  "unhex s = foldl (\<lambda>a c. 16 * a + hex_val c) 0 s"

text \<open>
  The group loop of \<^verbatim>\<open>parseIPv6\<close>: \<open>n\<close> groups of room are left, \<open>gs\<close> are the groups read so far and
  \<open>ell\<close> is the position of the ellipsis. The result is the unread rest, the groups and the ellipsis.
\<close>

fun v6_loop :: "nat \<Rightarrow> string \<Rightarrow> nat list \<Rightarrow> nat option \<Rightarrow> (string \<times> nat list \<times> nat option) option" where
  "v6_loop 0 s gs ell = Some (s, gs, ell)"
| "v6_loop (Suc n) s gs ell =
     (let hx = takeWhile is_hex s; s1 = drop (length hx) s; gs1 = gs @ [unhex hx]
      in if hx = [] \<or> length hx > 4 then None
         else (case s1 of
                 [] \<Rightarrow> Some ([], gs1, ell)
               | c # s2 \<Rightarrow>
                   if c = CHR ''.'' then
                     (if (ell = None \<and> length gs \<noteq> 6) \<or> length gs > 6 then None
                      else (case parseIPv4Fields s of
                              Some [b0, b1, b2, b3] \<Rightarrow>
                                Some ([], gs @ [256 * b0 + b1, 256 * b2 + b3], ell)
                            | _ \<Rightarrow> None))
                   else if c \<noteq> CHR '':'' then None
                   else (case s2 of
                           [] \<Rightarrow> None
                         | d # s3 \<Rightarrow>
                             if d = CHR '':'' then
                               (if ell \<noteq> None then None
                                else if s3 = [] then Some ([], gs1, Some (length gs1))
                                else v6_loop n s3 gs1 (Some (length gs1)))
                             else v6_loop n s2 gs1 ell)))"

definition v6_finish :: "string \<Rightarrow> (string \<times> nat list \<times> nat option) option \<Rightarrow> addr option" where
  "v6_finish zone r =
     (case r of
        None \<Rightarrow> None
      | Some (s, gs, ell) \<Rightarrow>
          if s \<noteq> [] then None
          else (case ell of
                  None \<Rightarrow> if length gs < 8 then None else Some (V6 gs zone)
                | Some e \<Rightarrow> if length gs < 8
                    then Some (V6 (take e gs @ replicate (8 - length gs) 0 @ drop e gs) zone)
                    else None))"

definition parseIPv6 :: "string \<Rightarrow> addr option" where
  "parseIPv6 inp =
     (let (s, zone, ok) =
            (case index_byte inp CHR ''%'' of
               None \<Rightarrow> (inp, [], True)
             | Some i \<Rightarrow> (take i inp, drop (Suc i) inp, drop (Suc i) inp \<noteq> []))
      in if \<not> ok then None
         else if has_prefix s ''::'' then
           (let s1 = drop 2 s
            in if s1 = [] then Some (V6 (replicate 8 0) zone)
               else v6_finish zone (v6_loop 8 s1 [] (Some 0)))
         else v6_finish zone (v6_loop 8 s [] None))"

fun addr_kind :: "string \<Rightarrow> char option" where
  "addr_kind [] = None"
| "addr_kind (c # cs) =
     (if c = CHR ''.'' \<or> c = CHR '':'' \<or> c = CHR ''%'' then Some c else addr_kind cs)"

definition ParseAddr :: "string \<Rightarrow> addr option" where
  "ParseAddr s =
     (case addr_kind s of
        None \<Rightarrow> None
      | Some c \<Rightarrow> if c = CHR ''.'' then map_option V4 (parseIPv4Fields s)
                  else if c = CHR '':'' then parseIPv6 s else None)"

section \<open>Printing\<close>

definition hex_digit :: "nat \<Rightarrow> char" where
  "hex_digit d = (if d < 10 then char_of (48 + d) else char_of (87 + d))"

fun hexs :: "nat \<Rightarrow> string" where
  "hexs n = (if n < 16 then [hex_digit n] else hexs (n div 16) @ [hex_digit (n mod 16)])"

declare hexs.simps [simp del]

definition string4 :: "nat list \<Rightarrow> string" where
  "string4 bs = join_with ''.'' (map dec bs)"

definition zeros_at :: "nat list \<Rightarrow> nat \<Rightarrow> nat" where
  "zeros_at gs i = length (takeWhile (\<lambda>g. g = 0) (drop i gs))"

text \<open>The leftmost longest run of at least two zero groups, as \<^verbatim>\<open>appendTo6\<close> chooses it.\<close>

definition zero_run :: "nat list \<Rightarrow> (nat \<times> nat) option" where
  "zero_run gs =
     foldl (\<lambda>best i. let l = zeros_at gs i
                     in if l \<ge> 2 \<and> (case best of None \<Rightarrow> True | Some (a, b) \<Rightarrow> l > b - a)
                        then Some (i, i + l) else best)
       None [0..<length gs]"

definition string6 :: "nat list \<Rightarrow> string" where
  "string6 gs =
     (case zero_run gs of
        None \<Rightarrow> join_with '':'' (map hexs gs)
      | Some (a, b) \<Rightarrow> join_with '':'' (map hexs (take a gs)) @ ''::'' @
                       join_with '':'' (map hexs (drop b gs)))"

definition Is4In6 :: "nat list \<Rightarrow> bool" where
  "Is4In6 gs \<longleftrightarrow> take 5 gs = replicate 5 0 \<and> gs ! 5 = 65535"

definition unmap4 :: "nat list \<Rightarrow> nat list" where
  "unmap4 gs = [gs ! 6 div 256, gs ! 6 mod 256, gs ! 7 div 256, gs ! 7 mod 256]"

fun addr_String :: "addr \<Rightarrow> string" where
  "addr_String (V4 bs) = string4 bs"
| "addr_String (V6 gs z) =
     (if Is4In6 gs then ''::ffff:'' @ string4 (unmap4 gs) else string6 gs) @
     (if z = [] then [] else CHR ''%'' # z)"

text \<open>\<^verbatim>\<open>AddrFromSlice\<close> on 4 and 16 bytes.\<close>

fun pair_up :: "nat list \<Rightarrow> nat list" where
  "pair_up (a # b # xs) = (256 * a + b) # pair_up xs"
| "pair_up _ = []"

definition AddrFromSlice :: "bytes \<Rightarrow> addr option" where
  "AddrFromSlice b =
     (if length b = 4 then Some (V4 (map unat b))
      else if length b = 16 then Some (V6 (pair_up (map unat b)) [])
      else None)"

section \<open>Prefixes\<close>

datatype prefix = Prefix (prefix_addr: addr) (prefix_bits: nat)

definition last_index :: "string \<Rightarrow> char \<Rightarrow> nat option" where
  "last_index s c = map_option (\<lambda>i. length s - Suc i) (index_byte (rev s) c)"

definition ParsePrefix :: "string \<Rightarrow> prefix option" where
  "ParsePrefix s =
     (case last_index s CHR ''/'' of
        None \<Rightarrow> None
      | Some i \<Rightarrow>
          (case ParseAddr (take i s) of
             None \<Rightarrow> None
           | Some ip \<Rightarrow>
               (let bitsStr = drop (Suc i) s;
                    maxBits = (case ip of V4 _ \<Rightarrow> 32 | V6 _ _ \<Rightarrow> 128)
                in if \<not> zone_free ip then None
                   else if length bitsStr > 1 \<and> (\<not> is_digit (hd bitsStr) \<or> hd bitsStr = CHR ''0'') then None
                   else (case atoi bitsStr of
                           None \<Rightarrow> None
                         | Some n \<Rightarrow> if n < 0 \<or> n > maxBits then None else Some (Prefix ip (nat n))))))"

definition bits_be :: "nat \<Rightarrow> nat \<Rightarrow> bool list" where
  "bits_be w n = map (\<lambda>i. odd (n div 2 ^ i)) (rev [0..<w])"

text \<open>\<^verbatim>\<open>Prefix.Contains\<close> for addresses of one family: the leading bits agree.\<close>

fun prefix_contains :: "prefix \<Rightarrow> addr \<Rightarrow> bool" where
  "prefix_contains (Prefix (V4 ps) n) (V4 bs) \<longleftrightarrow>
     take n (concat (map (bits_be 8) ps)) = take n (concat (map (bits_be 8) bs))"
| "prefix_contains (Prefix (V6 ps _) n) (V6 gs z) \<longleftrightarrow>
     z = [] \<and> take n (concat (map (bits_be 16) ps)) = take n (concat (map (bits_be 16) gs))"
| "prefix_contains _ _ \<longleftrightarrow> False"

declare prefix_contains.simps(1,2) [simp del]

section \<open>Lemmas: decimal octets\<close>

lemma dec_short: "length (dec m) \<le> 1 \<Longrightarrow> m < 10"
proof (rule ccontr)
  assume l: "length (dec m) \<le> 1" and "\<not> m < 10"
  then have "dec m = dec (m div 10) @ [digit (m mod 10)]" by (subst dec_rec) simp
  with l dec_nonempty [of "m div 10"] show False by simp
qed

lemma hd_dec_zero: "length (dec n) > 1 \<Longrightarrow> hd (dec n) \<noteq> CHR ''0''"
proof (induction n rule: dec.induct)
  case (1 n)
  show ?case
  proof (cases "n < 10")
    case True
    with 1(2) show ?thesis by (simp add: dec_rec)
  next
    case False
    then have d: "dec n = dec (n div 10) @ [digit (n mod 10)]" by (subst dec_rec) simp
    show ?thesis
    proof (cases "length (dec (n div 10)) > 1")
      case True
      with 1(1) [OF False] d show ?thesis by (simp add: hd_append)
    next
      case False2: False
      then have "n div 10 < 10" by (intro dec_short) simp
      moreover from False have "n div 10 > 0" by (simp add: div_greater_zero_iff)
      ultimately have "dec (n div 10) = [digit (n div 10)]" "digit (n div 10) \<noteq> CHR ''0''"
        using digit_val_digit [of "n div 10"] by (auto simp: dec_rec [of "n div 10"] digit_val_def)
      with d show ?thesis by simp
    qed
  qed
qed

lemma parse_octet_dec [simp]: "b < 256 \<Longrightarrow> parse_octet (dec b) = Some b"
  using hd_dec_zero [of b] by (auto simp: parse_octet_def)

lemma parse_all_map: "list_all (\<lambda>b. f (g b) = Some b) bs \<Longrightarrow> parse_all f (map g bs) = Some bs"
  by (induction bs) auto

lemma parseIPv4Fields_string4:
  assumes "length bs = 4" and "list_all (\<lambda>b. b < 256) bs"
  shows "parseIPv4Fields (string4 bs) = Some bs"
proof -
  have "split_on CHR ''.'' (string4 bs) = map dec bs"
    unfolding string4_def using assms(1) by (intro split_join) auto
  moreover have "parse_all parse_octet (map dec bs) = Some bs"
    using assms(2) by (intro parse_all_map) (auto simp: list_all_iff)
  ultimately show ?thesis using assms(1) by (simp add: parseIPv4Fields_def)
qed

lemma addr_kind_skip:
  "list_all (\<lambda>c. c \<noteq> CHR ''.'' \<and> c \<noteq> CHR '':'' \<and> c \<noteq> CHR ''%'') a \<Longrightarrow>
   c \<in> {CHR ''.'', CHR '':'', CHR ''%''} \<Longrightarrow> addr_kind (a @ c # b) = Some c"
  by (induction a) auto

lemma parse_string4:
  assumes "wf_addr (V4 bs)"
  shows "ParseAddr (string4 bs) = Some (V4 bs)"
proof -
  from assms obtain b bs' where bs: "bs = b # bs'" "bs' \<noteq> []" by (cases bs; cases "tl bs") auto
  then have "string4 bs = dec b @ CHR ''.'' # join_with ''.'' (map dec bs')"
    by (cases bs') (simp_all add: string4_def)
  moreover have "list_all (\<lambda>c. c \<noteq> CHR ''.'' \<and> c \<noteq> CHR '':'' \<and> c \<noteq> CHR ''%'') (dec b)"
    by (auto simp: list_all_iff dest: digit_in_dec)
  ultimately have "addr_kind (string4 bs) = Some CHR ''.''" by (simp add: addr_kind_skip)
  then show ?thesis using assms by (simp add: ParseAddr_def parseIPv4Fields_string4)
qed

section \<open>Lemmas: hexadecimal groups\<close>

lemma hexs_rec: "hexs n = (if n < 16 then [hex_digit n] else hexs (n div 16) @ [hex_digit (n mod 16)])"
  by (rule hexs.simps)

lemma hexs_nonempty [simp]: "hexs n \<noteq> []"
  by (subst hexs_rec) simp

lemma hex_digit_ok: "d < 16 \<Longrightarrow> is_hex (hex_digit d) \<and> hex_val (hex_digit d) = d"
  by (auto simp: hex_digit_def is_hex_def is_digit_def hex_val_def)

lemma hexs_hex: "list_all is_hex (hexs n)"
proof (induction n rule: hexs.induct)
  case (1 n)
  then show ?case by (subst hexs_rec) (simp add: hex_digit_ok)
qed

lemma unhex_snoc: "unhex (s @ [c]) = 16 * unhex s + hex_val c"
  by (simp add: unhex_def)

lemma unhex_hexs [simp]: "unhex (hexs n) = n"
proof (induction n rule: hexs.induct)
  case (1 n)
  show ?case
  proof (cases "n < 16")
    case True
    then have "hexs n = [hex_digit n]" by (subst hexs_rec) simp
    with True show ?thesis by (simp add: unhex_def hex_digit_ok)
  next
    case False
    then have "hexs n = hexs (n div 16) @ [hex_digit (n mod 16)]" by (subst hexs_rec) simp
    with 1 [OF False] show ?thesis by (simp add: unhex_snoc hex_digit_ok)
  qed
qed

lemma length_hexs: "n < 16 ^ k \<Longrightarrow> 0 < k \<Longrightarrow> length (hexs n) \<le> k"
proof (induction k arbitrary: n)
  case (Suc k)
  show ?case
  proof (cases "n < 16")
    case True
    then show ?thesis by (subst hexs_rec) simp
  next
    case False
    then have "hexs n = hexs (n div 16) @ [hex_digit (n mod 16)]" by (subst hexs_rec) simp
    moreover have "n div 16 < 16 ^ k" using Suc.prems(1) by (simp add: less_mult_imp_div_less)
    moreover have "0 < k" using Suc.prems(1) False by (cases k) auto
    ultimately show ?thesis using Suc.IH [of "n div 16"] by simp
  qed
qed simp

lemma length_hexs_group [simp]: "g < 65536 \<Longrightarrow> length (hexs g) \<le> 4" "g < 65536 \<Longrightarrow> \<not> 4 < length (hexs g)"
  using length_hexs [of g 4] by simp_all

lemma not_hex_char [simp]: "\<not> is_hex CHR '':''" "\<not> is_hex CHR ''.''" "\<not> is_hex CHR ''%''"
  by (simp_all add: is_hex_def is_digit_def)

lemma takeWhile_hexs [simp]:
  "takeWhile is_hex (hexs g) = hexs g"
  "\<not> is_hex c \<Longrightarrow> takeWhile is_hex (hexs g @ c # r) = hexs g"
  using hexs_hex [of g] by (simp_all add: list_all_iff takeWhile_append2)

lemma sep_notin_hexs [simp]: "\<not> is_hex c \<Longrightarrow> c \<notin> set (hexs g)"
  using hexs_hex [of g] by (auto simp: list_all_iff)

section \<open>Lemmas: the group loop\<close>

lemma v6_loop_last:
  "g < 65536 \<Longrightarrow> v6_loop (Suc n) (hexs g) gs ell = Some ([], gs @ [g], ell)"
  by (simp add: Let_def)

lemma v6_loop_group:
  assumes "g < 65536" and "d \<noteq> CHR '':''"
  shows "v6_loop (Suc n) (hexs g @ CHR '':'' # d # r) gs ell = v6_loop n (d # r) (gs @ [g]) ell"
  using assms by (simp add: Let_def)

lemma v6_loop_ellipsis:
  assumes "g < 65536"
  shows "v6_loop (Suc n) (hexs g @ ''::'' @ r) gs None =
           (if r = [] then Some ([], gs @ [g], Some (length gs + 1))
            else v6_loop n r (gs @ [g]) (Some (length gs + 1)))"
  using assms by (simp add: Let_def)

declare v6_loop.simps(2) [simp del]

lemma hd_hexs: "\<exists>d r. hexs g = d # r \<and> d \<noteq> CHR '':''"
  using hexs_hex [of g] by (cases "hexs g") auto

lemma v6_loop_groups:
  assumes "ts \<noteq> []" and "list_all (\<lambda>g. g < 65536) ts" and "length ts \<le> n"
  shows "v6_loop n (join_with '':'' (map hexs ts)) gs ell = Some ([], gs @ ts, ell)"
  using assms
proof (induction ts arbitrary: n gs)
  case (Cons t ts)
  then obtain m where n: "n = Suc m" "length ts \<le> m" by (cases n) auto
  show ?case
  proof (cases ts)
    case Nil
    with Cons.prems n show ?thesis by (simp add: v6_loop_last)
  next
    case (Cons u us)
    obtain d r where dr: "hexs u = d # r" "d \<noteq> CHR '':''" using hd_hexs by blast
    have "join_with '':'' (map hexs (t # ts)) = hexs t @ CHR '':'' # join_with '':'' (map hexs ts)"
      using Cons by simp
    moreover obtain r' where "join_with '':'' (map hexs ts) = d # r'"
      using Cons dr by (cases us) auto
    ultimately show ?thesis
      using Cons.IH [of m "gs @ [t]"] Cons.prems n Cons dr by (simp add: v6_loop_group)
  qed
qed simp

lemma v6_loop_groups_ellipsis:
  assumes "ts \<noteq> []" and "list_all (\<lambda>g. g < 65536) ts" and "length ts \<le> n"
  shows "v6_loop n (join_with '':'' (map hexs ts) @ ''::'' @ r) gs None =
           (if r = [] then Some ([], gs @ ts, Some (length gs + length ts))
            else v6_loop (n - length ts) r (gs @ ts) (Some (length gs + length ts)))"
  using assms
proof (induction ts arbitrary: n gs)
  case (Cons t ts)
  then obtain m where n: "n = Suc m" "length ts \<le> m" by (cases n) auto
  show ?case
  proof (cases ts)
    case Nil
    with Cons.prems n show ?thesis using v6_loop_ellipsis [of t m r gs] by simp
  next
    case (Cons u us)
    obtain d q where dr: "hexs u = d # q" "d \<noteq> CHR '':''" using hd_hexs by blast
    have "join_with '':'' (map hexs (t # ts)) @ ''::'' @ r =
        hexs t @ CHR '':'' # (join_with '':'' (map hexs ts) @ ''::'' @ r)"
      using Cons by simp
    moreover obtain r' where "join_with '':'' (map hexs ts) @ ''::'' @ r = d # r'"
      using Cons dr by (cases us) auto
    ultimately show ?thesis
      using Cons.IH [of m "gs @ [t]"] Cons.prems n Cons dr by (simp add: v6_loop_group)
  qed
qed simp
section \<open>Lemmas: the zero run\<close>

definition run_ok :: "nat list \<Rightarrow> nat \<times> nat \<Rightarrow> bool" where
  "run_ok gs ab \<longleftrightarrow> fst ab + 2 \<le> snd ab \<and> snd ab \<le> length gs \<and>
     gs = take (fst ab) gs @ replicate (snd ab - fst ab) 0 @ drop (snd ab) gs"

lemma zeros_at_run:
  assumes "i < length gs" and "2 \<le> zeros_at gs i"
  shows "run_ok gs (i, i + zeros_at gs i)"
proof -
  let ?z = "takeWhile (\<lambda>g. g = 0) (drop i gs)"
  have z: "?z = replicate (length ?z) 0"
    by (rule replicate_eqI) (auto dest: set_takeWhileD)
  have "drop i gs = ?z @ drop (length ?z) (drop i gs)"
    by (metis dropWhile_eq_drop takeWhile_dropWhile_id)
  then have "gs = take i gs @ replicate (length ?z) 0 @ drop (length ?z) (drop i gs)"
    using z by (metis append_take_drop_id)
  moreover have "length ?z \<le> length (drop i gs)" by (rule length_takeWhile_le)
  ultimately show ?thesis using assms by (simp add: run_ok_def zeros_at_def add.commute)
qed

lemma zero_run_ok: "zero_run gs = Some ab \<Longrightarrow> run_ok gs ab"
proof -
  let ?f = "\<lambda>best i. let l = zeros_at gs i
                     in if l \<ge> 2 \<and> (case best of None \<Rightarrow> True | Some (a, b) \<Rightarrow> l > b - a)
                        then Some (i, i + l) else best"
  have "pred_option (run_ok gs) (foldl ?f None [0..<length gs])"
  proof (rule foldl_inv)
    fix best i assume "pred_option (run_ok gs) best" "i \<in> set [0..<length gs]"
    then show "pred_option (run_ok gs) (?f best i)" by (simp add: Let_def zeros_at_run)
  qed simp
  then show "zero_run gs = Some ab \<Longrightarrow> run_ok gs ab" unfolding zero_run_def by simp
qed

section \<open>The round trip\<close>

lemma has_prefix_colons: "has_prefix (hexs g @ r) ''::'' = False"
  using hd_hexs [of g] by (auto simp: has_prefix_def)

lemma join_hexs_cons: "ts \<noteq> [] \<Longrightarrow> \<exists>r. join_with '':'' (map hexs ts) = hexs (hd ts) @ r"
  by (cases ts; cases "tl ts") auto

lemma no_zone_join: "CHR ''%'' \<notin> set (join_with '':'' (map hexs ts))"
  by (induction ts rule: induct_list012) auto

lemma parseIPv6_string6:
  assumes len: "length gs = 8" and g: "list_all (\<lambda>g. g < 65536) gs"
  shows "parseIPv6 (string6 gs) = Some (V6 gs [])"
proof (cases "zero_run gs")
  case None
  have ne: "gs \<noteq> []" using len by auto
  let ?s = "join_with '':'' (map hexs gs)"
  have "index_byte ?s CHR ''%'' = None" by (simp add: index_byte_None no_zone_join)
  moreover have "\<not> has_prefix ?s ''::''" using join_hexs_cons [OF ne] has_prefix_colons by metis
  ultimately show ?thesis
    using None len v6_loop_groups [OF ne g, of 8 "[]" None]
    by (simp add: string6_def parseIPv6_def v6_finish_def)
next
  case (Some ab)
  obtain a b where ab: "ab = (a, b)" by force
  let ?A = "take a gs" and ?B = "drop b gs"
  let ?r = "join_with '':'' (map hexs ?B)"
  let ?s = "join_with '':'' (map hexs ?A) @ ''::'' @ ?r"
  from zero_run_ok [OF Some] ab have run: "a + 2 \<le> b" "b \<le> 8" "?A @ replicate (b - a) 0 @ ?B = gs"
    using len by (simp_all add: run_ok_def)
  have s: "string6 gs = ?s" using Some ab by (simp add: string6_def)
  have gA: "list_all (\<lambda>g. g < 65536) ?A" and gB: "list_all (\<lambda>g. g < 65536) ?B"
    using g by (auto simp: list_all_iff dest: in_set_takeD in_set_dropD)
  have nz: "index_byte ?s CHR ''%'' = None" by (simp add: index_byte_None no_zone_join)
  have r0: "?r = [] \<longleftrightarrow> ?B = []" using join_hexs_cons [of ?B] by (cases ?B) auto
  have fin: "v6_finish [] (Some ([], ?A @ ?B, Some a)) = Some (V6 gs [])"
    using run len by (simp add: v6_finish_def)
  show ?thesis
  proof (cases "a = 0")
    case True
    show ?thesis
    proof (cases "?B = []")
      case True2: True
      with \<open>a = 0\<close> run len have "gs = replicate 8 0" "b = 8" by auto
      with True True2 nz s show ?thesis by (simp add: parseIPv6_def has_prefix_def)
    next
      case False
      with True nz s fin v6_loop_groups [OF False gB, of 8 "[]" "Some 0"] r0 len run show ?thesis
        by (simp add: parseIPv6_def has_prefix_def)
    qed
  next
    case False
    then have neA: "?A \<noteq> []" using len by auto
    have "\<not> has_prefix ?s ''::''" using join_hexs_cons [OF neA] has_prefix_colons append_assoc by metis
    then have "parseIPv6 ?s = v6_finish [] (v6_loop 8 ?s [] None)"
      using nz by (simp add: parseIPv6_def)
    also have "v6_loop 8 ?s [] None = Some ([], ?A @ ?B, Some a)"
    proof (cases "?B = []")
      case True
      then show ?thesis
        using v6_loop_groups_ellipsis [OF neA gA, of 8 ?r "[]"] run len r0 by simp
    next
      case False
      then have "v6_loop (8 - a) ?r ?A (Some a) = Some ([], ?A @ ?B, Some a)"
        using gB run len by (intro v6_loop_groups) auto
      then show ?thesis
        using v6_loop_groups_ellipsis [OF neA gA, of 8 ?r "[]"] run len r0 False by simp
    qed
    finally show ?thesis using fin s by simp
  qed
qed

lemma dec_hex: "list_all is_hex (dec n)"
  using dec_digits [of n] by (auto simp: list_all_iff is_hex_def)

lemma v6_loop_dotted:
  assumes "length bs = 4" and "list_all (\<lambda>b. b < 256) bs" and "length gs \<le> 6"
  shows "v6_loop (Suc n) (string4 bs) gs (Some e) =
           Some ([], gs @ [256 * bs ! 0 + bs ! 1, 256 * bs ! 2 + bs ! 3], Some e)"
proof -
  obtain b0 b1 b2 b3 where bs: "bs = [b0, b1, b2, b3]"
    using assms(1) by (auto simp: eval_nat_numeral length_Suc_conv)
  let ?r = "join_with ''.'' (map dec [b1, b2, b3])"
  have s: "string4 bs = dec b0 @ CHR ''.'' # ?r" by (simp add: bs string4_def)
  have tw: "takeWhile is_hex (string4 bs) = dec b0"
    using dec_hex [of b0] by (simp add: s list_all_iff takeWhile_append2)
  have "b0 < 10 ^ 3" using assms(2) bs by simp
  then have "length (dec b0) \<le> 3" by (rule length_dec_bound) simp
  then show ?thesis
    using tw parseIPv4Fields_string4 [OF assms(1,2)] assms(3)
    by (simp add: v6_loop.simps(2) Let_def s) (simp add: bs)
qed

lemma string4_chars: "c \<in> set (string4 bs) \<Longrightarrow> is_digit c \<or> c = CHR ''.''"
  unfolding string4_def by (induction bs rule: induct_list012) (auto dest: digit_in_dec)

lemma ffff: "hexs 65535 = ''ffff''"
  by (simp add: hexs_rec hex_digit_def char_of_def bit_Suc_0_iff)

lemma parseIPv6_mapped:
  assumes len: "length gs = 8" and g: "list_all (\<lambda>g. g < 65536) gs" and m: "Is4In6 gs"
  shows "parseIPv6 (''::ffff:'' @ string4 (unmap4 gs)) = Some (V6 gs [])"
proof -
  let ?bs = "unmap4 gs"
  have bs: "length ?bs = 4" "list_all (\<lambda>b. b < 256) ?bs"
    using g len nth_mem [of 6 gs] nth_mem [of 7 gs]
    by (auto simp: unmap4_def list_all_iff less_mult_imp_div_less)
  have "CHR ''%'' \<notin> set (string4 ?bs)" using string4_chars by fastforce
  then have z: "index_byte (''::ffff:'' @ string4 ?bs) CHR ''%'' = None"
    by (simp add: index_byte_None)
  have "string4 ?bs \<noteq> []" using parseIPv4Fields_string4 [OF bs] by (auto simp: parseIPv4Fields_def)
  then obtain d r where dr: "string4 ?bs = d # r" by (cases "string4 ?bs") auto
  have d: "d \<noteq> CHR '':''" using string4_chars [of d ?bs] dr by auto
  have "v6_loop 8 (''ffff:'' @ string4 ?bs) [] (Some 0) = v6_loop 7 (string4 ?bs) [65535] (Some 0)"
    using v6_loop_group [of 65535 d 7 r "[]" "Some 0"] dr d by (simp add: ffff)
  also have "\<dots> = Some ([], [65535, gs ! 6, gs ! 7], Some 0)"
    using v6_loop_dotted [OF bs, of "[65535]" 6 0] by (simp add: unmap4_def)
  finally have "parseIPv6 (''::ffff:'' @ string4 ?bs) = Some (V6 (replicate 5 0 @ [65535, gs ! 6, gs ! 7]) [])"
    using z by (simp add: parseIPv6_def has_prefix_def v6_finish_def)
  moreover have "gs = take 5 gs @ [gs ! 5, gs ! 6, gs ! 7]"
    using len by (auto simp: eval_nat_numeral length_Suc_conv)
  ultimately show ?thesis using m unfolding Is4In6_def by metis
qed

lemma string6_kind:
  assumes "length gs = 8"
  shows "addr_kind (string6 gs) = Some CHR '':''"
proof -
  have hx: "addr_kind (hexs g @ CHR '':'' # r) = Some CHR '':''" for g r
    by (rule addr_kind_skip) (use hexs_hex [of g] in \<open>auto simp: list_all_iff\<close>)
  have j: "addr_kind (join_with '':'' (map hexs ts) @ CHR '':'' # r) = Some CHR '':''" for ts r
    by (induction ts rule: induct_list012) (simp_all add: hx)
  obtain g0 g1 gs' where "gs = g0 # g1 # gs'" using assms by (cases gs; cases "tl gs") auto
  then show ?thesis by (auto simp: string6_def hx j split: option.split)
qed

lemma ParseAddr_String:
  assumes "wf_addr a" and "zone_free a"
  shows "ParseAddr (addr_String a) = Some a"
proof (cases a)
  case (V4 bs)
  with assms parse_string4 show ?thesis by simp
next
  case (V6 gs z)
  with assms have gs: "length gs = 8" "list_all (\<lambda>g. g < 65536) gs" and z: "z = []" by auto
  have k: "addr_kind (addr_String a) = Some CHR '':''"
    using string6_kind [OF gs(1)] V6 z by simp
  moreover have "parseIPv6 (addr_String a) = Some a"
    using parseIPv6_mapped [OF gs] parseIPv6_string6 [OF gs] V6 z by simp
  ultimately show ?thesis by (simp add: ParseAddr_def)
qed

lemma AddrFromSlice_wf:
  assumes "AddrFromSlice b = Some a"
  shows "wf_addr a \<and> zone_free a"
proof -
  have u: "unat (x :: u8) < 256" for x using unsigned_less [of x] by simp
  have "length (pair_up xs) = length xs div 2" for xs
    by (induction xs rule: pair_up.induct) auto
  moreover have "list_all (\<lambda>x. x < 256) xs \<Longrightarrow> list_all (\<lambda>g. g < 65536) (pair_up xs)" for xs
    by (induction xs rule: pair_up.induct) auto
  moreover have "list_all (\<lambda>x. x < 256) (map unat b)" using u by (simp add: list_all_iff)
  ultimately show ?thesis using assms by (auto simp: AddrFromSlice_def split: if_splits)
qed

section \<open>Printed prefixes\<close>

lemma last_index_append: "c \<notin> set b \<Longrightarrow> last_index (a @ c # b) c = Some (length a)"
  by (simp add: last_index_def)

lemma atoi_dec: "int64_range (int n) \<Longrightarrow> atoi (dec n) = Some (int n)"
  using atoi_itoa [of "int n"] by (simp add: itoa_def)

fun addr_bits :: "addr \<Rightarrow> nat" where
  "addr_bits (V4 _) = 32"
| "addr_bits (V6 _ _) = 128"

lemma ParsePrefix_String:
  assumes "wf_addr a" and "zone_free a" and "n \<le> addr_bits a"
  shows "ParsePrefix (addr_String a @ CHR ''/'' # dec n) = Some (Prefix a n)"
proof -
  have "last_index (addr_String a @ CHR ''/'' # dec n) CHR ''/'' = Some (length (addr_String a))"
    by (rule last_index_append) simp
  moreover have "atoi (dec n) = Some (int n)"
    by (rule atoi_dec) (use assms(3) in \<open>cases a; simp add: int64_range_def\<close>)
  moreover have "\<not> (length (dec n) > 1 \<and> (\<not> is_digit (hd (dec n)) \<or> hd (dec n) = CHR ''0''))"
    using hd_dec_zero hd_dec_digit by blast
  moreover have "int n \<le> (case a of V4 _ \<Rightarrow> 32 | V6 _ _ \<Rightarrow> 128)" using assms(3) by (cases a) auto
  ultimately show ?thesis
    using ParseAddr_String [OF assms(1,2)] assms(2) by (simp add: ParsePrefix_def Let_def)
qed

section \<open>Parsed addresses are well formed\<close>

lemma parse_all_bound:
  "parse_all f xs = Some vs \<Longrightarrow> (\<And>x v. f x = Some v \<Longrightarrow> P v) \<Longrightarrow> length vs = length xs \<and> list_all P vs"
  by (induction xs arbitrary: vs) (auto split: option.splits)

lemma parse_octet_less: "parse_octet x = Some v \<Longrightarrow> v < 256"
  by (auto simp: parse_octet_def split: option.splits if_splits)

lemma parseIPv4Fields_wf: "parseIPv4Fields s = Some bs \<Longrightarrow> length bs = 4 \<and> list_all (\<lambda>b. b < 256) bs"
  using parse_all_bound [of parse_octet "split_on CHR ''.'' s" bs "\<lambda>b. b < 256"] parse_octet_less
  by (auto simp: parseIPv4Fields_def Let_def split: if_splits)

lemma hex_val_less: "is_hex c \<Longrightarrow> hex_val c < 16"
  by (auto simp: is_hex_def hex_val_def is_digit_def)

lemma unhex_less: "list_all is_hex s \<Longrightarrow> unhex s < 16 ^ length s"
proof (induction s rule: rev_induct)
  case (snoc c s)
  then have "unhex s + 1 \<le> 16 ^ length s" "hex_val c < 16" by (simp_all add: hex_val_less)
  then show ?case by (simp add: unhex_snoc)
qed (simp add: unhex_def)

lemma unhex_group: "takeWhile is_hex s = hx \<Longrightarrow> length hx \<le> 4 \<Longrightarrow> unhex hx < 65536"
proof -
  assume t: "takeWhile is_hex s = hx" and l: "length hx \<le> 4"
  have "list_all is_hex hx" using t by (auto simp: list_all_iff dest: set_takeWhileD)
  then have "unhex hx < 16 ^ length hx" by (rule unhex_less)
  also have "\<dots> \<le> (16 :: nat) ^ 4" using l by (rule power_increasing) simp
  finally show ?thesis by simp
qed

definition v6_ok :: "string \<times> nat list \<times> nat option \<Rightarrow> bool" where
  "v6_ok r \<longleftrightarrow> (case r of (_, gs, ell) \<Rightarrow>
     length gs \<le> 8 \<and> list_all (\<lambda>g. g < 65536) gs \<and> (\<forall>e. ell = Some e \<longrightarrow> e \<le> length gs))"

lemma v6_dotted_ok:
  assumes "parseIPv4Fields s = Some [b0, b1, b2, b3]" "length gs \<le> 6" "v6_ok (s, gs, ell)"
  shows "v6_ok ([], gs @ [256 * b0 + b1, 256 * b2 + b3], ell)"
  using assms(2,3) parseIPv4Fields_wf [OF assms(1)] by (auto simp: v6_ok_def)

lemma v6_loop_ok:
  assumes "v6_loop n s gs ell = Some r" and "length gs + n = 8" and "v6_ok (s, gs, ell)"
  shows "v6_ok r"
  using assms
proof (induction n arbitrary: s gs ell)
  case (Suc n)
  let ?hx = "takeWhile is_hex s"
  from Suc.prems(1) have l: "length ?hx \<le> 4" by (auto simp: v6_loop.simps(2) Let_def split: if_splits)
  have g: "v6_ok (s', gs @ [unhex ?hx], ell)" "v6_ok (s', gs @ [unhex ?hx], Some (length gs + 1))" for s'
    using Suc.prems(2,3) unhex_group [OF refl l] by (auto simp: v6_ok_def)
  have IH: "v6_loop n s' (gs @ [unhex ?hx]) ell' = Some r \<Longrightarrow> v6_ok (s', gs @ [unhex ?hx], ell') \<Longrightarrow> v6_ok r"
    for s' ell'
    using Suc.IH Suc.prems(2) by simp
  have g': "v6_ok (s', gs @ [unhex ?hx], Some (Suc (length gs)))" for s' using g(2) by simp
  show ?case
  proof (cases "drop (length ?hx) s")
    case Nil
    with Suc.prems(1) g show ?thesis by (auto simp: v6_loop.simps(2) Let_def split: if_splits)
  next
    case (Cons c s2)
    show ?thesis
    proof (cases "c = CHR ''.''")
      case True
      with Suc.prems(1) Cons obtain b0 b1 b2 b3 where "parseIPv4Fields s = Some [b0, b1, b2, b3]"
        "length gs \<le> 6" "r = ([], gs @ [256 * b0 + b1, 256 * b2 + b3], ell)"
        by (auto simp: v6_loop.simps(2) Let_def split: if_splits option.splits list.splits)
      with v6_dotted_ok Suc.prems(3) show ?thesis by blast
    next
      case False
      with Suc.prems(1) Cons show ?thesis
        using IH g g' by (auto simp: v6_loop.simps(2) Let_def split: if_splits list.splits)
    qed
  qed
qed simp

lemma v6_finish_wf: "v6_finish z r = Some a \<Longrightarrow> (\<And>x. r = Some x \<Longrightarrow> v6_ok x) \<Longrightarrow> wf_addr a"
  by (fastforce simp: v6_finish_def v6_ok_def list_all_iff split: option.splits if_splits
      dest: in_set_takeD in_set_dropD)

lemma parseIPv6_wf:
  assumes "parseIPv6 s = Some a"
  shows "wf_addr a"
proof -
  have "v6_ok (s', [], Some 0)" "v6_ok (s', [], None)" for s' by (simp_all add: v6_ok_def)
  then have "v6_finish z (v6_loop 8 s' [] (Some 0)) = Some a \<Longrightarrow> wf_addr a"
    "v6_finish z (v6_loop 8 s' [] None) = Some a \<Longrightarrow> wf_addr a" for z s'
    using v6_loop_ok [of 8 s' "[]"] by (auto intro!: v6_finish_wf)
  with assms show ?thesis
    by (auto simp: parseIPv6_def Let_def list_all_iff split: if_splits prod.splits)
qed

lemma ParseAddr_wf: "ParseAddr s = Some a \<Longrightarrow> wf_addr a"
  using parseIPv4Fields_wf parseIPv6_wf by (auto simp: ParseAddr_def split: option.splits if_splits)

end
