(* ===== verification/Ip_Filter.thy ===== *)
theory Ip_Filter
  imports Netip Complex_Main
begin

text \<open>
  The destination filter (\<^verbatim>\<open>internal/filter/cidr.go\<close>): a deny list of CIDR prefixes and an allow
  list of ports that the admin interface swaps at run time. The prefix set is the third-party
  package \<^verbatim>\<open>go4.org/netipx\<close>: building a set and asking for membership are the parameters \<open>build\<close>
  and \<open>contains\<close>, and \<open>ipset_spec\<close> states their documented behaviour for addresses without a zone.
\<close>

section \<open>Data\<close>

type_synonym 's build = "prefix list \<Rightarrow> 's option"
type_synonym 's contains = "'s \<Rightarrow> addr \<Rightarrow> bool"

definition ipset_spec :: "'s build \<Rightarrow> 's contains \<Rightarrow> bool" where
  "ipset_spec build contains \<longleftrightarrow>
     (\<forall>ps. \<exists>s. build ps = Some s \<and>
        (\<forall>a. wf_addr a \<and> zone_free a \<longrightarrow> contains s a = list_ex (\<lambda>p. prefix_contains p a) ps))"

text \<open>A port entry of the configuration, by its dynamic type.\<close>

datatype port_any = PStr string | PInt int | PInt64 int | PFloat rat | POther

datatype filter_err = BadCidr string | SetErr | BadPort string | BadPortType | PortDenied int | IpDenied addr

record 's IPFilter =
  ip_set :: 's
  allowPorts :: "int set"
  allowAll :: bool

definition defaultDenyCIDRs :: "string list" where
  "defaultDenyCIDRs =
     [''10.0.0.0/8'', ''172.16.0.0/12'', ''192.168.0.0/16'', ''127.0.0.0/8'', ''169.254.0.0/16'',
      ''100.64.0.0/10'', ''224.0.0.0/4'', ''240.0.0.0/4'', ''0.0.0.0/8'', ''::1/128'', ''fc00::/7'',
      ''fe80::/10'', ''ff00::/8'']"

section \<open>Operations\<close>

text \<open>
  \<^verbatim>\<open>fmt.Sscanf(v, "%d", &p)\<close>: blanks are skipped (a newline is an error), then a signed decimal is
  read as far as it goes; what follows it is ignored.
\<close>

definition sscanf_d :: "string \<Rightarrow> int option" where
  "sscanf_d v =
     (let s = dropWhile (\<lambda>c. is_space c \<and> of_char c \<noteq> (10 :: nat)) v;
          (sign, s1) = (case s of
                          c # cs \<Rightarrow> if c = CHR ''-'' \<or> c = CHR ''+'' then ([c], cs) else ([], s)
                        | [] \<Rightarrow> ([], s));
          ds = takeWhile is_digit s1
      in if ds = [] then None else atoi (sign @ ds))"

fun parse_ports :: "port_any list \<Rightarrow> int set \<Rightarrow> bool \<Rightarrow> filter_err + int set \<times> bool" where
  "parse_ports [] ports all = Inr (ports, all)"
| "parse_ports (raw # rs) ports all =
     (case raw of
        PStr v \<Rightarrow>
          if v = ''*'' then parse_ports rs ports True
          else (case sscanf_d v of
                  None \<Rightarrow> Inl (BadPort v)
                | Some p \<Rightarrow> parse_ports rs (insert p ports) all)
      | PInt v \<Rightarrow> if v = 0 then parse_ports rs ports True else parse_ports rs (insert v ports) all
      | PInt64 v \<Rightarrow> if v = 0 then parse_ports rs ports True else parse_ports rs (insert v ports) all
      | PFloat v \<Rightarrow>
          if v = 0 then parse_ports rs ports True
          else parse_ports rs (insert (if v < 0 then \<lceil>v\<rceil> else \<lfloor>v\<rfloor>) ports) all
      | POther \<Rightarrow> Inl BadPortType)"

fun parse_cidrs :: "string list \<Rightarrow> prefix list \<Rightarrow> filter_err + prefix list" where
  "parse_cidrs [] ps = Inr ps"
| "parse_cidrs (s # ss) ps =
     (case ParsePrefix s of
        None \<Rightarrow> Inl (BadCidr s)
      | Some p \<Rightarrow> parse_cidrs ss (ps @ [p]))"

definition NewIPFilter ::
  "'s build \<Rightarrow> string list \<Rightarrow> port_any list \<Rightarrow> filter_err + 's IPFilter" where
  "NewIPFilter build extraDeny ports =
     (case parse_cidrs (defaultDenyCIDRs @ extraDeny) [] of
        Inl e \<Rightarrow> Inl e
      | Inr ps \<Rightarrow>
          (case build ps of
             None \<Rightarrow> Inl SetErr
           | Some s \<Rightarrow>
               (case parse_ports ports {} False of
                  Inl e \<Rightarrow> Inl e
                | Inr (ap, all) \<Rightarrow> Inr \<lparr>ip_set = s, allowPorts = ap, allowAll = all\<rparr>)))"

definition AllowPort :: "'s IPFilter \<Rightarrow> int \<Rightarrow> bool" where
  "AllowPort f port = (if allowAll f \<or> allowPorts f = {} then True else port \<in> allowPorts f)"

definition SetAllowPorts :: "port_any list \<Rightarrow> 's IPFilter \<Rightarrow> filter_err option \<times> 's IPFilter" where
  "SetAllowPorts raw f =
     (case parse_ports raw {} False of
        Inl e \<Rightarrow> (Some e, f)
      | Inr (ports, all) \<Rightarrow> (None, f\<lparr>allowPorts := ports, allowAll := all\<rparr>))"

definition AllowAddr :: "'s contains \<Rightarrow> 's IPFilter \<Rightarrow> addr \<Rightarrow> bool" where
  "AllowAddr contains f a = (\<not> contains (ip_set f) a)"

definition AllowHost :: "'s contains \<Rightarrow> 's IPFilter \<Rightarrow> string \<Rightarrow> int \<Rightarrow> filter_err option" where
  "AllowHost contains f host port =
     (if \<not> AllowPort f port then Some (PortDenied port)
      else (case ParseAddr host of
              Some a \<Rightarrow> if \<not> AllowAddr contains f a then Some (IpDenied a) else None
            | None \<Rightarrow> None))"

section \<open>Lemmas: prefixes as ranges\<close>

lemma length_bits_be [simp]: "length (bits_be w n) = w"
  by (simp add: bits_be_def)

lemma bits_be_nth: "i < w \<Longrightarrow> bits_be w n ! i = odd (n div 2 ^ (w - Suc i))"
  by (simp add: bits_be_def rev_nth)

lemma take_bits_be: "k \<le> w \<Longrightarrow> take k (bits_be w n) = bits_be k (n div 2 ^ (w - k))"
proof (rule nth_equalityI)
  fix i assume "k \<le> w" "i < length (take k (bits_be w n))"
  then have i: "i < k" "i < w" by simp_all
  have "n div 2 ^ (w - Suc i) = n div 2 ^ (w - k) div 2 ^ (k - Suc i)"
    using i \<open>k \<le> w\<close> by (simp add: div_mult2_eq [symmetric] power_add [symmetric])
  with i show "take k (bits_be w n) ! i = bits_be k (n div 2 ^ (w - k)) ! i"
    by (simp add: bits_be_nth)
qed simp

lemma bits_be_inj:
  assumes "m < 2 ^ w" and "n < 2 ^ w"
  shows "bits_be w m = bits_be w n \<longleftrightarrow> m = n"
proof
  assume eq: "bits_be w m = bits_be w n"
  have "bit m i = bit n i" for i
  proof (cases "i < w")
    case True
    then have "bits_be w m ! (w - Suc i) = bits_be w n ! (w - Suc i)" using eq by simp
    with True show ?thesis by (simp add: bits_be_nth bit_iff_odd)
  next
    case False
    then have "m < 2 ^ i" "n < 2 ^ i"
      using assms by (meson less_le_trans not_less one_le_numeral power_increasing)+
    then show ?thesis by (simp add: bit_iff_odd)
  qed
  then show "m = n" by (simp add: bit_eq_iff)
qed simp

lemma parse_cidrs_append:
  "parse_cidrs (xs @ ys) ps =
     (case parse_cidrs xs ps of Inl e \<Rightarrow> Inl e | Inr qs \<Rightarrow> parse_cidrs ys qs)"
  by (induction xs arbitrary: ps) (auto split: option.split)

lemma parse_cidrs_shift:
  "parse_cidrs ss (qs @ ps) =
     (case parse_cidrs ss ps of Inl e \<Rightarrow> Inl e | Inr rs \<Rightarrow> Inr (qs @ rs))"
  by (induction ss arbitrary: ps) (auto split: option.split)

lemmas parse_cidrs_from = parse_cidrs_shift [where ps = "[]", simplified]

lemmas print_simps = string4_def string6_def dec_rec digit_def hexs_rec hex_digit_def zero_run_def zeros_at_def Is4In6_def
   char_of_def bit_Suc_0_iff

lemma default_texts:
  "defaultDenyCIDRs =
     map (\<lambda>(a, n). addr_String a @ CHR ''/'' # dec n)
     [(V4 [10, 0, 0, 0], 8), (V4 [172, 16, 0, 0], 12), (V4 [192, 168, 0, 0], 16),
      (V4 [127, 0, 0, 0], 8), (V4 [169, 254, 0, 0], 16), (V4 [100, 64, 0, 0], 10),
      (V4 [224, 0, 0, 0], 4), (V4 [240, 0, 0, 0], 4), (V4 [0, 0, 0, 0], 8),
      (V6 [0, 0, 0, 0, 0, 0, 0, 1] [], 128), (V6 [64512, 0, 0, 0, 0, 0, 0, 0] [], 7),
      (V6 [65152, 0, 0, 0, 0, 0, 0, 0] [], 10), (V6 [65280, 0, 0, 0, 0, 0, 0, 0] [], 8)]"
  by (simp add: defaultDenyCIDRs_def print_simps upt_rec)

lemma parse_cidrs_texts:
  assumes "list_all (\<lambda>(a, n). wf_addr a \<and> zone_free a \<and> n \<le> addr_bits a) ps"
  shows "parse_cidrs (map (\<lambda>(a, n). addr_String a @ CHR ''/'' # dec n) ps) qs =
           Inr (qs @ map (\<lambda>(a, n). Prefix a n) ps)"
  using assms by (induction ps arbitrary: qs) (auto simp: ParsePrefix_String)

definition default_deny :: "prefix list" where
  "default_deny =
     [Prefix (V4 [10, 0, 0, 0]) 8, Prefix (V4 [172, 16, 0, 0]) 12, Prefix (V4 [192, 168, 0, 0]) 16,
      Prefix (V4 [127, 0, 0, 0]) 8, Prefix (V4 [169, 254, 0, 0]) 16, Prefix (V4 [100, 64, 0, 0]) 10,
      Prefix (V4 [224, 0, 0, 0]) 4, Prefix (V4 [240, 0, 0, 0]) 4, Prefix (V4 [0, 0, 0, 0]) 8,
      Prefix (V6 [0, 0, 0, 0, 0, 0, 0, 1] []) 128, Prefix (V6 [64512, 0, 0, 0, 0, 0, 0, 0] []) 7,
      Prefix (V6 [65152, 0, 0, 0, 0, 0, 0, 0] []) 10, Prefix (V6 [65280, 0, 0, 0, 0, 0, 0, 0] []) 8]"

lemma default_prefixes: "parse_cidrs defaultDenyCIDRs [] = Inr default_deny"
  unfolding default_texts default_deny_def by (subst parse_cidrs_texts) simp_all

text \<open>What the default prefixes deny, in plain arithmetic.\<close>

fun reserved :: "addr \<Rightarrow> bool" where
  "reserved (V4 [a, b, c, d]) \<longleftrightarrow>
     a = 0 \<or> a = 10 \<or> a = 127 \<or> a \<ge> 224 \<or> (a = 172 \<and> 16 \<le> b \<and> b < 32) \<or> (a = 192 \<and> b = 168) \<or>
     (a = 169 \<and> b = 254) \<or> (a = 100 \<and> 64 \<le> b \<and> b < 128)"
| "reserved (V6 gs z) \<longleftrightarrow>
     gs = [0, 0, 0, 0, 0, 0, 0, 1] \<or> (64512 \<le> hd gs \<and> hd gs < 65024) \<or>
     (65152 \<le> hd gs \<and> hd gs < 65216) \<or> 65280 \<le> hd gs"
| "reserved _ = False"

lemma div_pow_less: "(x :: nat) < 2 ^ w \<Longrightarrow> n \<le> w \<Longrightarrow> x div 2 ^ (w - n) < 2 ^ n"
  by (rule less_mult_imp_div_less) (simp flip: power_add)

lemma prefix4:
  assumes "p < 256" "q < 256" "a < 256" "b < 256"
  shows "n \<le> 8 \<Longrightarrow> prefix_contains (Prefix (V4 [p, q, r, s]) n) (V4 [a, b, c, d]) \<longleftrightarrow>
           p div 2 ^ (8 - n) = a div 2 ^ (8 - n)"
    and "n \<le> 8 \<Longrightarrow> prefix_contains (Prefix (V4 [p, q, r, s]) (8 + n)) (V4 [a, b, c, d]) \<longleftrightarrow>
           p = a \<and> q div 2 ^ (8 - n) = b div 2 ^ (8 - n)"
proof -
  have d: "x div 2 ^ (8 - n) < 2 ^ n" if "x < 256" "n \<le> 8" for x :: nat
    using that div_pow_less [of x 8 n] by simp
  have e: "bits_be 8 p = bits_be 8 a \<longleftrightarrow> p = a" using assms by (simp add: bits_be_inj)
  show "n \<le> 8 \<Longrightarrow> prefix_contains (Prefix (V4 [p, q, r, s]) n) (V4 [a, b, c, d]) \<longleftrightarrow>
           p div 2 ^ (8 - n) = a div 2 ^ (8 - n)"
    using assms d by (simp add: prefix_contains.simps take_bits_be bits_be_inj)
  show "n \<le> 8 \<Longrightarrow> prefix_contains (Prefix (V4 [p, q, r, s]) (8 + n)) (V4 [a, b, c, d]) \<longleftrightarrow>
           p = a \<and> q div 2 ^ (8 - n) = b div 2 ^ (8 - n)"
    using assms d by (simp add: prefix_contains.simps take_bits_be bits_be_inj e)
qed

lemma prefix6:
  assumes "p < 65536" "g < 65536" "n \<le> 16"
  shows "prefix_contains (Prefix (V6 (p # ps) z) n) (V6 (g # gs) []) \<longleftrightarrow>
           p div 2 ^ (16 - n) = g div 2 ^ (16 - n)"
proof -
  have "x div 2 ^ (16 - n) < 2 ^ n" if "x < 65536" for x :: nat
    using that assms(3) div_pow_less [of x 16 n] by simp
  with assms show ?thesis by (simp add: prefix_contains.simps take_bits_be bits_be_inj)
qed

lemma concat_bits_inj:
  assumes "list_all (\<lambda>g. g < 2 ^ w) xs" "list_all (\<lambda>g. g < 2 ^ w) ys" "length xs = length ys"
  shows "concat (map (bits_be w) xs) = concat (map (bits_be w) ys) \<longleftrightarrow> xs = ys"
  using assms(3,1,2) by (induction xs ys rule: list_induct2) (auto simp: bits_be_inj)

lemma prefix6_full:
  assumes "wf_addr (V6 ps [])" "wf_addr (V6 gs [])"
  shows "prefix_contains (Prefix (V6 ps []) 128) (V6 gs []) \<longleftrightarrow> ps = gs"
proof -
  have "length (concat (map (bits_be 16) xs)) = 16 * length xs" for xs
    by (induction xs) auto
  with assms show ?thesis using concat_bits_inj [of 16 ps gs] by (simp add: prefix_contains.simps)
qed

lemma div_eq_range: "0 < (k :: nat) \<Longrightarrow> q = x div k \<longleftrightarrow> q * k \<le> x \<and> x < q * k + k"
  by (metis add.commute div_nat_eqI dividend_less_times_div mult.commute mult_Suc div_times_less_eq_dividend)

lemma default_reserved:
  assumes "wf_addr a" and "zone_free a"
  shows "list_ex (\<lambda>p. prefix_contains p a) default_deny \<longleftrightarrow> reserved a"
proof (cases a)
  case (V4 bs)
  with assms(1) obtain w x y z where bs: "bs = [w, x, y, z]" "w < 256" "x < 256"
    by (auto simp: eval_nat_numeral length_Suc_conv)
  note ranges = prefix4(1) [where n = 8, simplified] prefix4(1) [where n = 4, simplified]
    prefix4(2) [where n = 8, simplified] prefix4(2) [where n = 4, simplified]
    prefix4(2) [where n = 2, simplified]
  have "list_ex (\<lambda>p. prefix_contains p a) default_deny \<longleftrightarrow>
      10 = w \<or> (172 = w \<and> 1 = x div 16) \<or> (192 = w \<and> 168 = x) \<or> 127 = w \<or> (169 = w \<and> 254 = x) \<or>
      (100 = w \<and> 1 = x div 64) \<or> 14 = w div 16 \<or> 15 = w div 16 \<or> 0 = w"
    using bs V4 by (simp add: default_deny_def ranges)
  moreover have "1 = x div 16 \<longleftrightarrow> 16 \<le> x \<and> x < 32" "1 = x div 64 \<longleftrightarrow> 64 \<le> x \<and> x < 128"
    by (subst div_eq_range; simp)+
  moreover have "14 = w div 16 \<or> 15 = w div 16 \<longleftrightarrow> 224 \<le> w"
    using bs(2) by (subst (1 2) div_eq_range) auto
  ultimately show ?thesis using bs V4 unfolding V4 bs reserved.simps by metis
next
  case (V6 gs z)
  with assms obtain g gs' where gs: "gs = g # gs'" "g < 65536" "z = []" by (cases gs) auto
  have full: "prefix_contains (Prefix (V6 [0, 0, 0, 0, 0, 0, 0, 1] []) 128) (V6 gs []) \<longleftrightarrow>
      [0, 0, 0, 0, 0, 0, 0, 1] = gs"
    using assms(1) V6 by (intro prefix6_full) simp_all
  note ranges = prefix6 [where n = 7, simplified] prefix6 [where n = 8, simplified]
    prefix6 [where n = 10, simplified]
  have "list_ex (\<lambda>p. prefix_contains p a) default_deny \<longleftrightarrow>
      gs = [0, 0, 0, 0, 0, 0, 0, 1] \<or> 126 = g div 512 \<or> 1018 = g div 64 \<or> 255 = g div 256"
    using gs V6 full by (auto simp: default_deny_def ranges)
  moreover have "126 = g div 512 \<longleftrightarrow> 64512 \<le> g \<and> g < 65024" "1018 = g div 64 \<longleftrightarrow> 65152 \<le> g \<and> g < 65216"
    "255 = g div 256 \<longleftrightarrow> 65280 \<le> g"
    using gs(2) by (simp_all add: div_eq_range)
  ultimately show ?thesis using gs V6 by simp
qed

lemma NewIPFilter_ok:
  assumes "NewIPFilter build extra ports = Inr f"
  obtains es s ap all where "parse_cidrs extra [] = Inr es" and "build (default_deny @ es) = Some s"
    and "parse_ports ports {} False = Inr (ap, all)"
    and "f = \<lparr>ip_set = s, allowPorts = ap, allowAll = all\<rparr>"
  using assms
  by (auto simp: NewIPFilter_def parse_cidrs_append default_prefixes
      parse_cidrs_from [of extra default_deny]
      split: sum.splits option.splits)

lemma AllowHost_addr:
  assumes "wf_addr a" and "zone_free a"
  shows "AllowHost contains f (addr_String a) port = None \<longleftrightarrow> AllowPort f port \<and> \<not> contains (ip_set f) a"
  using ParseAddr_String [OF assms] by (simp add: AllowHost_def AllowAddr_def)

lemma filter_contains:
  assumes "ipset_spec build contains" and "NewIPFilter build extra ports = Inr f"
    and "wf_addr a" and "zone_free a" and "parse_cidrs extra [] = Inr es"
  shows "contains (ip_set f) a \<longleftrightarrow> reserved a \<or> list_ex (\<lambda>p. prefix_contains p a) es"
proof -
  from assms(2) obtain es' s where "parse_cidrs extra [] = Inr es'" "build (default_deny @ es') = Some s"
    and f: "ip_set f = s"
    by (auto elim: NewIPFilter_ok)
  with assms(5) have b: "build (default_deny @ es) = Some s" by simp
  with assms(1,3,4) have "contains s a = list_ex (\<lambda>p. prefix_contains p a) (default_deny @ es)"
    unfolding ipset_spec_def by (metis option.inject)
  then show ?thesis using f default_reserved [OF assms(3,4)] by simp
qed

section \<open>Lemmas: the port list\<close>

text \<open>What one entry denotes: the wildcard, a port, or nothing (an error).\<close>

fun is_wild :: "port_any \<Rightarrow> bool" where
  "is_wild (PStr v) \<longleftrightarrow> v = ''*''"
| "is_wild (PInt v) \<longleftrightarrow> v = 0"
| "is_wild (PInt64 v) \<longleftrightarrow> v = 0"
| "is_wild (PFloat v) \<longleftrightarrow> v = 0"
| "is_wild POther = False"

fun port_of :: "port_any \<Rightarrow> int option" where
  "port_of (PStr v) = sscanf_d v"
| "port_of (PInt v) = Some v"
| "port_of (PInt64 v) = Some v"
| "port_of (PFloat v) = Some (if v < 0 then \<lceil>v\<rceil> else \<lfloor>v\<rfloor>)"
| "port_of POther = None"

lemma parse_ports_step:
  "is_wild r \<Longrightarrow> parse_ports (r # rs) ports all = parse_ports rs ports True"
  "\<not> is_wild r \<Longrightarrow> port_of r = Some p \<Longrightarrow> parse_ports (r # rs) ports all = parse_ports rs (insert p ports) all"
  "\<not> is_wild r \<Longrightarrow> port_of r = None \<Longrightarrow> \<exists>e. parse_ports (r # rs) ports all = Inl e"
  by (cases r; simp)+

lemma parse_ports_exact:
  "if list_all (\<lambda>r. is_wild r \<or> port_of r \<noteq> None) raw
   then parse_ports raw ports all =
          Inr (ports \<union> {p. \<exists>r \<in> set raw. \<not> is_wild r \<and> port_of r = Some p}, all \<or> list_ex is_wild raw)
   else (\<exists>e. parse_ports raw ports all = Inl e)"
proof (induction raw arbitrary: ports all)
  case (Cons r raw)
  consider "is_wild r" | p where "\<not> is_wild r" "port_of r = Some p" | "\<not> is_wild r" "port_of r = None"
    by blast
  then show ?case
  proof cases
    case 1
    with Cons [of ports True] show ?thesis by (auto simp: parse_ports_step simp del: parse_ports.simps)
  next
    case 2
    then have "{q. \<exists>x \<in> set (r # raw). \<not> is_wild x \<and> port_of x = Some q} =
        insert p {q. \<exists>x \<in> set raw. \<not> is_wild x \<and> port_of x = Some q}" by auto
    with 2 Cons [of "insert p ports" all] show ?thesis
      by (simp add: parse_ports_step del: parse_ports.simps)
  next
    case 3
    with parse_ports_step(3) [OF 3] show ?thesis by simp
  qed
qed simp

section \<open>Properties\<close>

text \<open>
  The deny list holds for every textual IP target. Whatever extra prefixes and ports are
  configured, a filter built by \<^verbatim>\<open>NewIPFilter\<close> lets the canonical text of an address through only
  on an allowed port and only when the address is in none of the reserved ranges (0/8, 10/8, 127/8,
  172.16/12, 192.168/16, 169.254/16, 100.64/10, 224/4, 240/4, ::1, fc00::/7, fe80::/10, ff00::/8);
  and without extra prefixes it lets every other address through.
\<close>

lemma filter_denies_reserved:
  assumes "ipset_spec build contains" and "NewIPFilter build extra ports = Inr f"
    and "wf_addr a" and "zone_free a"
  shows "(AllowHost contains f (addr_String a) port = None \<longrightarrow> AllowPort f port \<and> \<not> reserved a) \<and>
         (extra = [] \<longrightarrow> AllowPort f port \<longrightarrow> \<not> reserved a \<longrightarrow>
            AllowHost contains f (addr_String a) port = None)"
proof -
  from assms(2) obtain es where "parse_cidrs extra [] = Inr es" by (auto elim: NewIPFilter_ok)
  from filter_contains [OF assms this] this show ?thesis by (auto simp: AllowHost_addr assms(3,4))
qed

definition list_contains :: "prefix list \<Rightarrow> addr \<Rightarrow> bool" where
  "list_contains ps a = list_ex (\<lambda>p. prefix_contains p a) ps"

lemma list_ipset: "ipset_spec Some list_contains"
  by (simp add: ipset_spec_def list_contains_def)

lemma NewIPFilter_plain:
  "NewIPFilter Some [] [] = Inr \<lparr>ip_set = default_deny, allowPorts = {}, allowAll = False\<rparr>"
  by (simp add: NewIPFilter_def default_prefixes)

lemma filter_denies_reserved_example:
  "let f = \<lparr>ip_set = default_deny, allowPorts = {}, allowAll = False\<rparr>
   in AllowHost list_contains f (addr_String (V4 [192, 168, 1, 1])) 80 \<noteq> None \<and>
      AllowHost list_contains f (addr_String (V4 [8, 8, 8, 8])) 80 = None"
  using filter_denies_reserved [OF list_ipset NewIPFilter_plain, of "V4 [192, 168, 1, 1]" 80]
    filter_denies_reserved [OF list_ipset NewIPFilter_plain, of "V4 [8, 8, 8, 8]" 80]
  by (simp add: AllowPort_def)

text \<open>
  Swapping the port list is all or nothing. \<^verbatim>\<open>SetAllowPorts\<close> with a bad entry reports an error
  and leaves the filter as it was; otherwise the address set is kept and a port is allowed exactly
  when the new list names it, has a wildcard (\<^verbatim>\<open>"*"\<close> or 0) or names no port at all.
\<close>

lemma SetAllowPorts_atomic:
  assumes "SetAllowPorts raw f = (e, f')"
  shows "(e = None \<longleftrightarrow> list_all (\<lambda>r. is_wild r \<or> port_of r \<noteq> None) raw) \<and>
         (e \<noteq> None \<longrightarrow> f' = f) \<and>
         (e = None \<longrightarrow> ip_set f' = ip_set f \<and>
            (\<forall>port. AllowPort f' port \<longleftrightarrow>
               list_ex is_wild raw \<or> \<not> list_ex (\<lambda>r. \<not> is_wild r) raw \<or>
               list_ex (\<lambda>r. \<not> is_wild r \<and> port_of r = Some port) raw))"
proof (cases "list_all (\<lambda>r. is_wild r \<or> port_of r \<noteq> None) raw")
  case False
  with parse_ports_exact [of raw "{}" False] assms show ?thesis
    by (auto simp: SetAllowPorts_def)
next
  case True
  define N where "N = {p. \<exists>r \<in> set raw. \<not> is_wild r \<and> port_of r = Some p}"
  have f': "e = None" "f' = f\<lparr>allowPorts := N, allowAll := list_ex is_wild raw\<rparr>"
    using parse_ports_exact [of raw "{}" False] True assms by (simp_all add: SetAllowPorts_def N_def)
  have n: "N = {} \<longleftrightarrow> \<not> list_ex (\<lambda>r. \<not> is_wild r) raw"
    using True unfolding N_def by (fastforce simp: list_all_iff list_ex_iff)
  have m: "port \<in> N \<longleftrightarrow> list_ex (\<lambda>r. \<not> is_wild r \<and> port_of r = Some port) raw" for port
    by (auto simp: list_ex_iff N_def)
  have "AllowPort f' port \<longleftrightarrow> list_ex is_wild raw \<or> N = {} \<or> port \<in> N" for port
    by (auto simp: AllowPort_def f')
  then show ?thesis unfolding n m using True f' by simp
qed

lemma SetAllowPorts_atomic_example:
  "let f = \<lparr>ip_set = (), allowPorts = {443}, allowAll = False\<rparr>
   in SetAllowPorts [PInt 80, POther] f = (Some BadPortType, f) \<and>
      AllowPort (snd (SetAllowPorts [PInt 80, PStr ''8443''] f)) 8443"
proof -
  let ?f = "\<lparr>ip_set = (), allowPorts = {443}, allowAll = False\<rparr>"
  have s: "sscanf_d ''8443'' = Some 8443" by code_simp
  have 1: "SetAllowPorts [PInt 80, POther] ?f = (Some BadPortType, ?f)"
    by (simp add: SetAllowPorts_def)
  have 2: "SetAllowPorts [PInt 80, PStr ''8443''] ?f = (None, ?f\<lparr>allowPorts := {80, 8443}\<rparr>)"
    by (simp add: SetAllowPorts_def s insert_commute)
  show ?thesis using 1 SetAllowPorts_atomic [OF 2] s by (auto simp: 2)
qed

lemma replicate_5: "replicate 5 x = [x, x, x, x, x]"
  by (simp add: numeral_eq_Suc)

text \<open>
  The deny list does not see through IPv4-mapped IPv6 addresses: with the default deny list,
  127.0.0.1 is refused and ::ffff:127.0.0.1, the same host, is let through.
\<close>

lemma filter_mapped_bypass:
  assumes "ipset_spec build contains" and "NewIPFilter build [] [] = Inr f"
  shows "AllowHost contains f ''127.0.0.1'' 80 \<noteq> None \<and>
         AllowHost contains f ''::ffff:127.0.0.1'' 80 = None"
proof -
  let ?a = "V4 [127, 0, 0, 1]" and ?m = "V6 [0, 0, 0, 0, 0, 65535, 32512, 1] []"
  have t: "''127.0.0.1'' = addr_String ?a" by (simp add: print_simps)
  have m: "''::ffff:127.0.0.1'' = addr_String ?m" by (simp add: print_simps unmap4_def replicate_5)
  from assms(2) have p: "AllowPort f 80" by (auto simp: AllowPort_def elim: NewIPFilter_ok)
  have w: "wf_addr ?a" "zone_free ?a" "wf_addr ?m" "zone_free ?m" by simp_all
  have e: "parse_cidrs [] [] = Inr []" by simp
  have "AllowHost contains f (addr_String ?a) 80 \<noteq> None"
    using filter_contains [OF assms w(1,2) e] p by (subst AllowHost_addr) simp_all
  moreover have "AllowHost contains f (addr_String ?m) 80 = None"
    using filter_contains [OF assms w(3,4) e] p by (subst AllowHost_addr) simp_all
  ultimately show ?thesis using t m by metis
qed

lemma filter_mapped_bypass_example:
  "AllowHost list_contains \<lparr>ip_set = default_deny, allowPorts = {}, allowAll = False\<rparr>
     ''::ffff:127.0.0.1'' 80 = None"
  using filter_mapped_bypass [OF list_ipset NewIPFilter_plain] by blast

end
