(* ===== verification/Socks5.thy ===== *)
theory Socks5
  imports Ip_Filter
begin

text \<open>
  The SOCKS5 front end (\<^verbatim>\<open>internal/proxy/socks5.go\<close>). A client connection is the bytes still to be
  read, the bytes written so far and the number of writes that will still succeed; a read past the
  end of the input and a write on a broken connection are error values, so that every early return of
  the handshake is a branch. The client's messages are also given as an encoder, and the handshake
  is shown to accept exactly the encodings.
\<close>

section \<open>Connections\<close>

record conn =
  inp :: bytes
  outp :: bytes
  wleft :: nat

definition conn_write :: "bytes \<Rightarrow> conn \<Rightarrow> bool \<times> conn" where
  "conn_write b c =
     (if wleft c = 0 then (False, c) else (True, c\<lparr>outp := outp c @ b, wleft := wleft c - 1\<rparr>))"

definition read_full :: "nat \<Rightarrow> conn \<Rightarrow> bytes option \<times> conn" where
  "read_full n c =
     (if n \<le> length (inp c) then (Some (take n (inp c)), c\<lparr>inp := drop n (inp c)\<rparr>)
      else (None, c\<lparr>inp := []\<rparr>))"

section \<open>Data\<close>

record auth =
  User :: string
  Pass :: string

record request =
  Host :: string
  Port :: int
  TLS :: bool
  Session :: string

datatype hs_err =
    Greeting | BadVersion u8 | ReadFail | NoMethod | WriteFail | BadAuthVersion | BadCredentials
  | BadRequestVersion | CmdUnsupported | AtypUnsupported u8 | FilterDeny filter_err

text \<open>The pattern \<^verbatim>\<open>if _, err := io.ReadFull(...); err != nil { return err }\<close>.\<close>

definition reading ::
  "nat \<Rightarrow> hs_err \<Rightarrow> conn \<Rightarrow> (bytes \<Rightarrow> conn \<Rightarrow> (hs_err + 'a) \<times> conn) \<Rightarrow> (hs_err + 'a) \<times> conn" where
  "reading n e c k =
     (case read_full n c of (None, c1) \<Rightarrow> (Inl e, c1) | (Some b, c1) \<Rightarrow> k b c1)"

section \<open>Operations\<close>

definition reply :: "u8 \<Rightarrow> conn \<Rightarrow> bool \<times> conn" where
  "reply code c = conn_write [5, code, 0, 1, 0, 0, 0, 0, 0, 0] c"

definition ReplySuccess :: "conn \<Rightarrow> bool \<times> conn" where
  "ReplySuccess c = reply 0 c"

definition ReplyFail :: "u8 \<Rightarrow> conn \<Rightarrow> conn" where
  "ReplyFail code c = snd (reply code c)"

definition session_match :: "string \<Rightarrow> string \<Rightarrow> string \<Rightarrow> bool" where
  "session_match user base sep \<longleftrightarrow>
     (let p = base @ sep in length user > length p \<and> take (length p) user = p)"

definition authMatches :: "string \<Rightarrow> string \<Rightarrow> bool" where
  "authMatches user base =
     (if user = base then True
      else session_match user base ''-session-'' \<or> session_match user base '':session:'')"

definition extractSession :: "string \<Rightarrow> string \<Rightarrow> string" where
  "extractSession user base =
     (if user = base then []
      else if session_match user base ''-session-'' then drop (length (base @ ''-session-'')) user
      else if session_match user base '':session:'' then drop (length (base @ '':session:'')) user
      else [])"

definition check_credentials :: "auth \<Rightarrow> bytes \<Rightarrow> bytes \<Rightarrow> conn \<Rightarrow> (hs_err + string) \<times> conn" where
  "check_credentials a user pass c =
     (let u = string_of user
      in if \<not> authMatches u (User a) \<or> string_of pass \<noteq> Pass a
         then (Inl BadCredentials, snd (conn_write [1, 1] c))
         else (case conn_write [1, 0] c of
                 (False, c) \<Rightarrow> (Inl WriteFail, c)
               | (True, c) \<Rightarrow> (Inr u, c)))"

definition userPassAuth :: "auth \<Rightarrow> conn \<Rightarrow> (hs_err + string) \<times> conn" where
  "userPassAuth a c =
     reading 2 ReadFail c (\<lambda>head c.
       if head ! 0 \<noteq> 1 then (Inl BadAuthVersion, c)
       else reading (unat (head ! 1)) ReadFail c (\<lambda>user c.
         reading 1 ReadFail c (\<lambda>pl c.
           reading (unat (pl ! 0)) ReadFail c (\<lambda>pass c. check_credentials a user pass c))))"

definition read_host :: "u8 \<Rightarrow> conn \<Rightarrow> (hs_err + string) \<times> conn" where
  "read_host atyp c =
     (if atyp = 1 then
        reading 4 ReadFail c (\<lambda>buf c. (Inr (case AddrFromSlice buf of Some a \<Rightarrow> addr_String a | None \<Rightarrow> ''invalid IP''), c))
      else if atyp = 4 then
        reading 16 ReadFail c (\<lambda>buf c. (Inr (case AddrFromSlice buf of Some a \<Rightarrow> addr_String a | None \<Rightarrow> ''invalid IP''), c))
      else if atyp = 3 then
        reading 1 ReadFail c (\<lambda>lb c. reading (unat (lb ! 0)) ReadFail c (\<lambda>dom c. (Inr (string_of dom), c)))
      else (Inl (AtypUnsupported atyp), snd (reply 8 c)))"

definition read_request :: "'s contains \<Rightarrow> 's IPFilter \<Rightarrow> string \<Rightarrow> conn \<Rightarrow> (hs_err + request) \<times> conn" where
  "read_request contains filt session c =
     reading 4 ReadFail c (\<lambda>head c.
       if head ! 0 \<noteq> 5 then (Inl BadRequestVersion, c)
       else if head ! 1 \<noteq> 1 then (Inl CmdUnsupported, snd (reply 7 c))
       else (case read_host (head ! 3) c of
               (Inl e, c) \<Rightarrow> (Inl e, c)
             | (Inr host, c) \<Rightarrow>
                 reading 2 ReadFail c (\<lambda>pb c.
                   let port = 256 * int (unat (pb ! 0)) + int (unat (pb ! 1))
                   in case AllowHost contains filt host port of
                        Some e \<Rightarrow> (Inl (FilterDeny e), snd (reply 2 c))
                      | None \<Rightarrow> (Inr \<lparr>Host = host, Port = port, TLS = (port = 443 \<or> port = 8443),
                                      Session = session\<rparr>, c))))"

definition want_method :: "auth option \<Rightarrow> u8" where
  "want_method au = (case au of None \<Rightarrow> 0 | Some _ \<Rightarrow> 2)"

definition authenticate :: "'s contains \<Rightarrow> auth option \<Rightarrow> 's IPFilter \<Rightarrow> conn \<Rightarrow> (hs_err + request) \<times> conn" where
  "authenticate contains au filt c =
     (case au of
        None \<Rightarrow> read_request contains filt [] c
      | Some a \<Rightarrow>
          (case userPassAuth a c of
             (Inl e, c) \<Rightarrow> (Inl e, c)
           | (Inr u, c) \<Rightarrow> read_request contains filt (extractSession u (User a)) c))"

definition choose_method ::
  "'s contains \<Rightarrow> auth option \<Rightarrow> 's IPFilter \<Rightarrow> bytes \<Rightarrow> conn \<Rightarrow> (hs_err + request) \<times> conn" where
  "choose_method contains au filt methods c =
     (if want_method au \<notin> set methods then (Inl NoMethod, snd (conn_write [5, 255] c))
      else (case conn_write [5, want_method au] c of
              (False, c) \<Rightarrow> (Inl WriteFail, c)
            | (True, c) \<Rightarrow> authenticate contains au filt c))"

definition Handshake :: "'s contains \<Rightarrow> auth option \<Rightarrow> 's IPFilter \<Rightarrow> conn \<Rightarrow> (hs_err + request) \<times> conn" where
  "Handshake contains au filt c =
     reading 2 Greeting c (\<lambda>header c.
       if header ! 0 \<noteq> 5 then (Inl (BadVersion (header ! 0)), c)
       else reading (unat (header ! 1)) ReadFail c (\<lambda>methods c. choose_method contains au filt methods c))"

text \<open>The listen address: the part before the first \<^verbatim>\<open>://\<close>, with tcp as the default scheme.\<close>

fun scheme_at :: "string \<Rightarrow> nat option" where
  "scheme_at s =
     (case s of
        a # b # c # r \<Rightarrow>
          if a = CHR '':'' \<and> b = CHR ''/'' \<and> c = CHR ''/'' then Some 0
          else map_option Suc (scheme_at (b # c # r))
      | _ \<Rightarrow> None)"

definition splitScheme :: "string \<Rightarrow> string \<times> string" where
  "splitScheme s =
     (case scheme_at s of Some i \<Rightarrow> (take i s, drop (i + 3) s) | None \<Rightarrow> (''tcp'', s))"

datatype listen_kind = ListenTcp string | ListenUnix string | ListenBad

definition Listen_kind :: "string \<Rightarrow> listen_kind" where
  "Listen_kind s =
     (case splitScheme s of
        (scheme, addr) \<Rightarrow>
          if scheme = ''tcp'' then ListenTcp addr
          else if scheme = ''unix'' then ListenUnix addr else ListenBad)"

section \<open>What a client sends\<close>

datatype target = TIPv4 bytes | TIPv6 bytes | TDomain bytes

fun wf_target :: "target \<Rightarrow> bool" where
  "wf_target (TIPv4 b) \<longleftrightarrow> length b = 4"
| "wf_target (TIPv6 b) \<longleftrightarrow> length b = 16"
| "wf_target (TDomain b) \<longleftrightarrow> length b < 256"

fun target_host :: "target \<Rightarrow> string" where
  "target_host (TIPv4 b) = addr_String (V4 (map unat b))"
| "target_host (TIPv6 b) = addr_String (V6 (pair_up (map unat b)) [])"
| "target_host (TDomain b) = string_of b"

fun enc_target :: "target \<Rightarrow> bytes" where
  "enc_target (TIPv4 b) = 1 # b"
| "enc_target (TIPv6 b) = 4 # b"
| "enc_target (TDomain b) = 3 # of_nat (length b) # b"

definition enc_greeting :: "bytes \<Rightarrow> bytes" where
  "enc_greeting ms = 5 # of_nat (length ms) # ms"

definition enc_auth :: "bytes \<Rightarrow> bytes \<Rightarrow> bytes" where
  "enc_auth u p = 1 # of_nat (length u) # u @ of_nat (length p) # p"

definition enc_request :: "u8 \<Rightarrow> target \<Rightarrow> u8 \<Rightarrow> u8 \<Rightarrow> bytes" where
  "enc_request rsv t hi lo = [5, 1, rsv] @ enc_target t @ [hi, lo]"

definition port_of_bytes :: "u8 \<Rightarrow> u8 \<Rightarrow> int" where
  "port_of_bytes hi lo = 256 * int (unat hi) + int (unat lo)"

section \<open>Lemmas: reading\<close>

lemma reading_append:
  "length b = n \<Longrightarrow> inp c = b @ r \<Longrightarrow> reading n e c k = k b (c\<lparr>inp := r\<rparr>)"
  by (simp add: reading_def read_full_def)

lemma reading_Inr:
  assumes "reading n e c k = (Inr x, c')"
  obtains b r where "length b = n" "inp c = b @ r" "k b (c\<lparr>inp := r\<rparr>) = (Inr x, c')"
proof
  from assms have n: "n \<le> length (inp c)" by (auto simp: reading_def read_full_def split: if_splits)
  then show "length (take n (inp c)) = n" "inp c = take n (inp c) @ drop n (inp c)" by simp_all
  show "k (take n (inp c)) (c\<lparr>inp := drop n (inp c)\<rparr>) = (Inr x, c')"
    using assms n by (simp add: reading_def read_full_def)
qed

lemma unat_len [simp]: "length b < 256 \<Longrightarrow> unat (of_nat (length b) :: u8) = length b"
  by (simp add: unat_of_nat take_bit_eq_mod)

lemma of_nat_unat8 [simp]: "of_nat (unat (x :: u8)) = x"
  by simp

lemma unat8_less [simp]: "unat (x :: u8) < 256"
  using unsigned_less [of x] by simp

lemma list_len_2: "length b = 2 \<Longrightarrow> \<exists>x y. b = [x, y]"
  by (auto simp: eval_nat_numeral length_Suc_conv)

lemma list_len_4: "length b = 4 \<Longrightarrow> \<exists>w x y z. b = [w, x, y, z]"
  by (auto simp: eval_nat_numeral length_Suc_conv)

lemma list_len_1: "length b = Suc 0 \<Longrightarrow> \<exists>x. b = [x]"
  by (auto simp: length_Suc_conv)

lemmas list_lens = list_len_1 list_len_2 list_len_4

section \<open>Lemmas: accepting an encoding\<close>

lemma read_host_enc:
  assumes "wf_target t" and "inp c = enc_target t @ r"
  shows "read_host (hd (enc_target t)) (c\<lparr>inp := tl (inp c)\<rparr>) = (Inr (target_host t), c\<lparr>inp := r\<rparr>)"
proof (cases t)
  case (TIPv4 b)
  with assms show ?thesis
    by (simp add: read_host_def reading_append [where b = b and r = r] AddrFromSlice_def)
next
  case (TIPv6 b)
  with assms show ?thesis
    by (simp add: read_host_def reading_append [where b = b and r = r] AddrFromSlice_def)
next
  case (TDomain b)
  with assms show ?thesis
    by (simp add: read_host_def reading_append [where b = "[of_nat (length b)]" and r = "b @ r"]
        reading_append [where b = b and r = r])
qed

lemma read_request_enc:
  assumes "wf_target t" and "inp c = enc_request rsv t hi lo @ r"
  shows "read_request contains filt session c =
           (case AllowHost contains filt (target_host t) (port_of_bytes hi lo) of
              Some e \<Rightarrow> (Inl (FilterDeny e), snd (reply 2 (c\<lparr>inp := r\<rparr>)))
            | None \<Rightarrow> (Inr \<lparr>Host = target_host t, Port = port_of_bytes hi lo,
                            TLS = (port_of_bytes hi lo = 443 \<or> port_of_bytes hi lo = 8443),
                            Session = session\<rparr>, c\<lparr>inp := r\<rparr>))"
proof -
  let ?b = "tl (enc_target t)"
  have t: "enc_target t = hd (enc_target t) # ?b" by (cases t) auto
  have i: "inp c = [5, 1, rsv, hd (enc_target t)] @ (?b @ [hi, lo] @ r)"
    using assms(2) t by (simp add: enc_request_def)
  have h: "read_host (hd (enc_target t)) (c\<lparr>inp := ?b @ [hi, lo] @ r\<rparr>) =
      (Inr (target_host t), c\<lparr>inp := [hi, lo] @ r\<rparr>)"
  proof -
    have "inp (c\<lparr>inp := enc_target t @ [hi, lo] @ r\<rparr>) = enc_target t @ [hi, lo] @ r" by simp
    from read_host_enc [OF assms(1) this] show ?thesis by (subst (asm) (2) t) simp
  qed
  have p: "reading 2 ReadFail (c\<lparr>inp := [hi, lo] @ r\<rparr>) k = k [hi, lo] (c\<lparr>inp := r\<rparr>)" for k :: "bytes \<Rightarrow> conn \<Rightarrow> (hs_err + request) \<times> conn"
    by (subst reading_append [where b = "[hi, lo]" and r = r]) simp_all
  show ?thesis
    unfolding read_request_def
    by (subst reading_append [OF _ i]) (simp_all add: h [simplified] p [simplified] port_of_bytes_def Let_def split: option.split)
qed

lemma userPassAuth_enc:
  assumes "length u < 256" "length p < 256" and "inp c = enc_auth u p @ r"
  shows "userPassAuth a c = check_credentials a u p (c\<lparr>inp := r\<rparr>)"
proof -
  have i: "inp c = [1, of_nat (length u)] @ (u @ [of_nat (length p)] @ (p @ r))"
    using assms(3) by (simp add: enc_auth_def)
  have 1: "reading (length u) ReadFail (c\<lparr>inp := u @ s\<rparr>) k = k u (c\<lparr>inp := s\<rparr>)"
    and 2: "reading 1 ReadFail (c\<lparr>inp := x # s\<rparr>) k = k [x] (c\<lparr>inp := s\<rparr>)"
    and 3: "reading (length p) ReadFail (c\<lparr>inp := p @ s\<rparr>) k = k p (c\<lparr>inp := s\<rparr>)"
    for k :: "bytes \<Rightarrow> conn \<Rightarrow> (hs_err + string) \<times> conn" and s x
    by (simp_all add: reading_def read_full_def)
  show ?thesis
    unfolding userPassAuth_def
    by (subst reading_append [OF _ i]) (simp_all add: assms(1,2) 1 2 [simplified] 3)
qed

lemma Handshake_enc:
  assumes "length ms < 256" and "inp c = enc_greeting ms @ r"
  shows "Handshake contains au filt c = choose_method contains au filt ms (c\<lparr>inp := r\<rparr>)"
proof -
  have i: "inp c = [5, of_nat (length ms)] @ (ms @ r)" using assms(2) by (simp add: enc_greeting_def)
  have 1: "reading (length ms) ReadFail (c\<lparr>inp := ms @ s\<rparr>) k = k ms (c\<lparr>inp := s\<rparr>)"
    for k :: "bytes \<Rightarrow> conn \<Rightarrow> (hs_err + request) \<times> conn" and s
    by (simp add: reading_def read_full_def)
  show ?thesis
    unfolding Handshake_def by (subst reading_append [OF _ i]) (simp_all add: assms(1) 1)
qed

section \<open>Lemmas: only encodings are accepted\<close>

lemma read_host_Inr:
  assumes "read_host atyp c = (Inr host, c')"
  obtains t where "wf_target t" "host = target_host t" "atyp # inp c = enc_target t @ inp c'"
    "outp c' = outp c" "wleft c' = wleft c"
proof -
  consider "atyp = 1" | "atyp = 4" | "atyp = 3" | "atyp \<notin> {1, 3, 4}" by blast
  then show ?thesis
  proof cases
    case 1
    with assms obtain b r where "length b = 4" "inp c = b @ r" "host = target_host (TIPv4 b)" "c' = c\<lparr>inp := r\<rparr>"
      by (auto simp: read_host_def AddrFromSlice_def elim!: reading_Inr)
    with 1 show ?thesis by (intro that [of "TIPv4 b"]) auto
  next
    case 2
    with assms obtain b r where "length b = 16" "inp c = b @ r" "host = target_host (TIPv6 b)" "c' = c\<lparr>inp := r\<rparr>"
      by (auto simp: read_host_def AddrFromSlice_def elim!: reading_Inr)
    with 2 show ?thesis by (intro that [of "TIPv6 b"]) auto
  next
    case 3
    with assms obtain l b r where "length b = unat (l :: u8)" "inp c = l # b @ r" "host = string_of b" "c' = c\<lparr>inp := r\<rparr>"
      by (auto simp: read_host_def elim!: reading_Inr dest!: list_len_1)
    with 3 show ?thesis by (intro that [of "TDomain b"]) auto
  next
    case 4
    with assms show ?thesis by (auto simp: read_host_def)
  qed
qed

lemma read_request_Inr:
  assumes "read_request contains filt session c = (Inr req, c')"
  obtains rsv t hi lo where "wf_target t" "inp c = enc_request rsv t hi lo @ inp c'"
    "AllowHost contains filt (target_host t) (port_of_bytes hi lo) = None"
    "Host req = target_host t" "Port req = port_of_bytes hi lo"
    "TLS req \<longleftrightarrow> Port req = 443 \<or> Port req = 8443" "Session req = session"
    "outp c' = outp c" "wleft c' = wleft c"
proof -
  from assms obtain v cmd rsv atyp r where i: "inp c = [v, cmd, rsv, atyp] @ r" and v: "v = 5" "cmd = 1"
    and rest: "(case read_host atyp (c\<lparr>inp := r\<rparr>) of
               (Inl e, c) \<Rightarrow> (Inl e, c)
             | (Inr host, c) \<Rightarrow>
                 reading 2 ReadFail c (\<lambda>pb c.
                   let port = 256 * int (unat (pb ! 0)) + int (unat (pb ! 1))
                   in case AllowHost contains filt host port of
                        Some e \<Rightarrow> (Inl (FilterDeny e), snd (reply 2 c))
                      | None \<Rightarrow> (Inr \<lparr>Host = host, Port = port, TLS = (port = 443 \<or> port = 8443),
                                      Session = session\<rparr>, c))) = (Inr req, c')"
    unfolding read_request_def
    by (elim reading_Inr) (auto dest!: list_len_4 split: if_splits)
  from rest obtain host c1 where h: "read_host atyp (c\<lparr>inp := r\<rparr>) = (Inr host, c1)"
    by (auto split: prod.splits sum.splits)
  from h obtain t where t: "wf_target t" "host = target_host t" "atyp # r = enc_target t @ inp c1"
      "outp c1 = outp c" "wleft c1 = wleft c"
    by (auto elim: read_host_Inr)
  from rest h obtain hi lo r2 where p: "inp c1 = [hi, lo] @ r2" "c' = c1\<lparr>inp := r2\<rparr>"
     "AllowHost contains filt host (port_of_bytes hi lo) = None"
     "req = \<lparr>Host = host, Port = port_of_bytes hi lo,
        TLS = (port_of_bytes hi lo = 443 \<or> port_of_bytes hi lo = 8443), Session = session\<rparr>"
    by (auto elim!: reading_Inr dest!: list_len_2 simp: port_of_bytes_def Let_def split: option.splits)
  show ?thesis
    using t p i v by (intro that [of t rsv hi lo]) (auto simp: enc_request_def)
qed

lemma check_credentials_Inr:
  "check_credentials a ub pb c = (Inr u, c') \<longleftrightarrow>
     0 < wleft c \<and> authMatches (string_of ub) (User a) \<and> string_of pb = Pass a \<and> u = string_of ub \<and>
     c' = c\<lparr>outp := outp c @ [1, 0], wleft := wleft c - 1\<rparr>"
  by (auto simp: check_credentials_def conn_write_def Let_def)

lemma userPassAuth_Inr:
  assumes "userPassAuth a c = (Inr u, c')"
  obtains ub pb where "u = string_of ub" "length ub < 256" "length pb < 256"
    "inp c = enc_auth ub pb @ inp c'" "authMatches u (User a)" "string_of pb = Pass a"
    "outp c' = outp c @ [1, 0]" "wleft c = Suc (wleft c')"
proof -
  obtain l r0 where 0: "inp c = [1, l] @ r0"
    and k0: "reading (unat l) ReadFail (c\<lparr>inp := r0\<rparr>) (\<lambda>user c. reading 1 ReadFail c (\<lambda>pl c.
           reading (unat (pl ! 0)) ReadFail c (\<lambda>pass c. check_credentials a user pass c))) = (Inr u, c')"
  proof (rule reading_Inr [OF assms [unfolded userPassAuth_def]])
    fix b r assume b: "length b = 2" "inp c = b @ r"
      and k: "(if b ! 0 \<noteq> 1 then (Inl BadAuthVersion, c\<lparr>inp := r\<rparr>)
         else reading (unat (b ! 1)) ReadFail (c\<lparr>inp := r\<rparr>) (\<lambda>user c. reading 1 ReadFail c (\<lambda>pl c.
           reading (unat (pl ! 0)) ReadFail c (\<lambda>pass c. check_credentials a user pass c)))) = (Inr u, c')"
    from list_len_2 [OF b(1)] obtain x l where xl: "b = [x, l]" by blast
    show thesis
    proof (cases "x = 1")
      case True
      show thesis by (rule that [of l r]) (use b k xl True in simp_all)
    next
      case False
      then show thesis using k xl by simp
    qed
  qed
  obtain ub r1 where 1: "length ub = unat l" "r0 = ub @ r1"
    and k1: "reading 1 ReadFail (c\<lparr>inp := r1\<rparr>) (\<lambda>pl c. reading (unat (pl ! 0)) ReadFail c
           (\<lambda>pass c. check_credentials a ub pass c)) = (Inr u, c')"
    by (rule reading_Inr [OF k0]) simp
  obtain k r2 where 2: "r1 = k # r2"
    and k2: "reading (unat k) ReadFail (c\<lparr>inp := r2\<rparr>) (\<lambda>pass c. check_credentials a ub pass c) = (Inr u, c')"
    by (rule reading_Inr [OF k1]) (auto dest!: list_len_1)
  obtain pb r3 where 3: "length pb = unat k" "r2 = pb @ r3"
    and k3: "check_credentials a ub pb (c\<lparr>inp := r3\<rparr>) = (Inr u, c')"
    by (rule reading_Inr [OF k2]) simp
  have len: "length ub < 256" "length pb < 256" using 1(1) 3(1) by simp_all
  have lk: "l = of_nat (length ub)" "k = of_nat (length pb)" using 1(1) 3(1) by simp_all
  show ?thesis
    by (rule that [of ub pb])
       (use 0 1(2) 2 3(2) k3 [unfolded check_credentials_Inr] lk len in \<open>simp_all add: enc_auth_def\<close>)
qed

lemma Handshake_Inr:
  assumes "Handshake contains au filt c = (Inr req, c')"
  obtains ms r c1 where "length ms < 256" "inp c = enc_greeting ms @ r" "want_method au \<in> set ms"
    "c1 = c\<lparr>inp := r, outp := outp c @ [5, want_method au], wleft := wleft c - 1\<rparr>" "wleft c > 0"
    "authenticate contains au filt c1 = (Inr req, c')"
proof -
  obtain n r0 where 0: "inp c = [5, n] @ r0"
    and k0: "reading (unat n) ReadFail (c\<lparr>inp := r0\<rparr>) (\<lambda>methods c. choose_method contains au filt methods c)
       = (Inr req, c')"
  proof (rule reading_Inr [OF assms [unfolded Handshake_def]])
    fix b r assume b: "length b = 2" "inp c = b @ r"
      and k: "(if b ! 0 \<noteq> 5 then (Inl (BadVersion (b ! 0)), c\<lparr>inp := r\<rparr>)
         else reading (unat (b ! 1)) ReadFail (c\<lparr>inp := r\<rparr>) (\<lambda>methods c. choose_method contains au filt methods c))
           = (Inr req, c')"
    from list_len_2 [OF b(1)] obtain x l where xl: "b = [x, l]" by blast
    show thesis
    proof (cases "x = 5")
      case True
      show thesis by (rule that [of l r]) (use b k xl True in simp_all)
    next
      case False
      then show thesis using k xl by simp
    qed
  qed
  obtain ms r where 1: "length ms = unat n" "r0 = ms @ r"
    and k1: "choose_method contains au filt ms (c\<lparr>inp := r\<rparr>) = (Inr req, c')"
    by (rule reading_Inr [OF k0]) simp
  have n: "n = of_nat (length ms)" "length ms < 256" using 1(1) by simp_all
  show ?thesis
    by (rule that [of ms r])
       (use 0 1(2) n k1 in \<open>auto simp: choose_method_def conn_write_def enc_greeting_def split: if_splits\<close>)
qed

lemma port_of_bytes_bounds: "0 \<le> port_of_bytes hi lo \<and> port_of_bytes hi lo < 65536"
proof -
  have "int (unat hi) < 256" "int (unat lo) < 256" using unat8_less [of hi] unat8_less [of lo] by linarith+
  then show ?thesis unfolding port_of_bytes_def by linarith
qed

lemma session_match_iff: "session_match user base sep \<longleftrightarrow> (\<exists>i. i \<noteq> [] \<and> user = base @ sep @ i)"
proof
  assume m: "session_match user base sep"
  let ?p = "base @ sep"
  have "user = ?p @ drop (length ?p) user" using m by (metis append_take_drop_id session_match_def)
  moreover have "drop (length ?p) user \<noteq> []" using m by (simp add: session_match_def Let_def)
  ultimately show "\<exists>i. i \<noteq> [] \<and> user = base @ sep @ i" by (metis append.assoc)
qed (auto simp: session_match_def Let_def)

text \<open>The writes of the handshake: how many succeed in the course of an accepted one.\<close>

definition hs_greeted :: "auth option \<Rightarrow> conn \<Rightarrow> bytes \<Rightarrow> conn" where
  "hs_greeted au c r = c\<lparr>inp := r, outp := outp c @ [5, want_method au], wleft := wleft c - 1\<rparr>"

lemma choose_method_ok:
  "want_method au \<in> set ms \<Longrightarrow> 0 < wleft c \<Longrightarrow>
   choose_method contains au filt ms (c\<lparr>inp := r\<rparr>) = authenticate contains au filt (hs_greeted au c r)"
  by (simp add: choose_method_def conn_write_def hs_greeted_def)

lemma authenticate_Inr:
  assumes "authenticate contains (Some a) filt c = (Inr req, c')"
  obtains u c1 where "userPassAuth a c = (Inr u, c1)"
    "read_request contains filt (extractSession u (User a)) c1 = (Inr req, c')"
  using assms by (auto simp: authenticate_def split: prod.splits sum.splits)

section \<open>Properties\<close>

text \<open>
  C6. A request leaves the handshake only when the client has earned it. On success the input
  was a greeting that offers the required method, then (when credentials are configured) a
  user/password message whose password is the configured one and whose user is the configured one or
  a session variant of it, then a CONNECT request; host and port are those of the request, the filter
  allows them, and nothing but the method choice and the authentication status has been sent.
\<close>

theorem Handshake_sound:
  assumes "Handshake contains au filt c = (Inr req, c')"
  shows "\<exists>ms rsv t hi lo up.
           wf_target t \<and> Host req = target_host t \<and> Port req = port_of_bytes hi lo \<and>
           0 \<le> Port req \<and> Port req < 65536 \<and> TLS req = (Port req = 443 \<or> Port req = 8443) \<and>
           AllowHost contains filt (Host req) (Port req) = None \<and> want_method au \<in> set ms \<and>
           (case au of
              None \<Rightarrow> inp c = enc_greeting ms @ enc_request rsv t hi lo @ inp c' \<and>
                      Session req = [] \<and> outp c' = outp c @ [5, 0]
            | Some a \<Rightarrow>
                inp c = enc_greeting ms @ enc_auth (fst up) (snd up) @ enc_request rsv t hi lo @ inp c' \<and>
                authMatches (string_of (fst up)) (User a) \<and> string_of (snd up) = Pass a \<and>
                Session req = extractSession (string_of (fst up)) (User a) \<and>
                outp c' = outp c @ [5, 2, 1, 0])"
proof -
  obtain ms r c1 where g: "inp c = enc_greeting ms @ r" "want_method au \<in> set ms"
    and c1: "c1 = c\<lparr>inp := r, outp := outp c @ [5, want_method au], wleft := wleft c - 1\<rparr>"
    and k: "authenticate contains au filt c1 = (Inr req, c')"
    by (rule Handshake_Inr [OF assms])
  show ?thesis
  proof (cases au)
    case None
    with k have "read_request contains filt [] c1 = (Inr req, c')" by (simp add: authenticate_def)
    from read_request_Inr [OF this] obtain rsv t hi lo where
      "wf_target t" "inp c1 = enc_request rsv t hi lo @ inp c'" "AllowHost contains filt (target_host t) (port_of_bytes hi lo) = None"
      "Host req = target_host t" "Port req = port_of_bytes hi lo" "TLS req \<longleftrightarrow> Port req = 443 \<or> Port req = 8443"
      "Session req = []" "outp c' = outp c1" .
    with None g c1 port_of_bytes_bounds [of hi lo] show ?thesis
      by (intro exI [of _ ms] exI [of _ rsv] exI [of _ t] exI [of _ hi] exI [of _ lo]) (simp add: want_method_def)
  next
    case (Some a)
    from k Some obtain u c2 where u: "userPassAuth a c1 = (Inr u, c2)"
      and r: "read_request contains filt (extractSession u (User a)) c2 = (Inr req, c')"
      by (auto elim: authenticate_Inr)
    from userPassAuth_Inr [OF u] obtain ub pb where
      "u = string_of ub" "inp c1 = enc_auth ub pb @ inp c2" "authMatches u (User a)" "string_of pb = Pass a"
      "outp c2 = outp c1 @ [1, 0]" .
    moreover from read_request_Inr [OF r] obtain rsv t hi lo where
      "wf_target t" "inp c2 = enc_request rsv t hi lo @ inp c'" "AllowHost contains filt (target_host t) (port_of_bytes hi lo) = None"
      "Host req = target_host t" "Port req = port_of_bytes hi lo" "TLS req \<longleftrightarrow> Port req = 443 \<or> Port req = 8443"
      "Session req = extractSession u (User a)" "outp c' = outp c2" .
    ultimately show ?thesis using Some g c1 port_of_bytes_bounds [of hi lo]
      by (intro exI [of _ ms] exI [of _ rsv] exI [of _ t] exI [of _ hi] exI [of _ lo] exI [of _ "(ub, pb)"])
         (simp add: want_method_def)
  qed
qed

definition open_filter :: "prefix list IPFilter" where
  "open_filter = \<lparr>ip_set = [], allowPorts = {}, allowAll = True\<rparr>"

lemma open_filter_allows [simp]: "AllowHost list_contains open_filter host port = None"
  by (simp add: AllowHost_def AllowPort_def AllowAddr_def open_filter_def list_contains_def split: option.split)

definition demo_conn :: conn where
  "demo_conn = \<lparr>inp = enc_greeting [0] @ enc_request 0 (TDomain (bytes_of ''ex'')) 1 187 @ [9], outp = [], wleft = 5\<rparr>"

lemma demo_handshake:
  "\<exists>req c'. Handshake list_contains None open_filter demo_conn = (Inr req, c') \<and> Host req = ''ex'' \<and> inp c' = [9]"
proof -
  have "inp demo_conn = enc_greeting [0] @ (enc_request 0 (TDomain (bytes_of ''ex'')) 1 187 @ [9])"
    by (simp add: demo_conn_def)
  note h = Handshake_enc [OF _ this, of list_contains None open_filter]
  have i: "inp (hs_greeted None demo_conn (enc_request 0 (TDomain (bytes_of ''ex'')) 1 187 @ [9])) =
      enc_request 0 (TDomain (bytes_of ''ex'')) 1 187 @ [9]"
    by (simp add: hs_greeted_def)
  have w: "0 < wleft demo_conn" by (simp add: demo_conn_def)
  show ?thesis
    using h w read_request_enc [OF _ i, of list_contains open_filter "[]"]
    by (simp add: choose_method_ok want_method_def authenticate_def)
qed

theorem Handshake_sound_witness:
  "\<exists>req c'. Handshake list_contains None open_filter demo_conn = (Inr req, c') \<and>
     outp c' = outp demo_conn @ [5, 0] \<and> Session req = []"
proof -
  obtain req c' where h: "Handshake list_contains None open_filter demo_conn = (Inr req, c')"
    using demo_handshake by blast
  from Handshake_sound [OF h] h show ?thesis by auto
qed

text \<open>
  C13. The handshake understands every well-formed client. For a client that offers the method,
  sends its credentials and a request, and reads all answers, the outcome is exact: bad credentials
  are refused with status 1, a denied target is refused with reply 2, and otherwise the request comes
  back with the encoded host, port and session, all answers in order, and the bytes behind the
  request left unread.
\<close>

theorem Handshake_complete:
  assumes "length ms < 256" "2 \<in> set ms" "length u < 256" "length p < 256" "wf_target t" "3 \<le> wleft c"
    and "inp c = enc_greeting ms @ enc_auth u p @ enc_request rsv t hi lo @ rest"
  shows "\<exists>c'. Handshake contains (Some a) filt c =
           (if \<not> (authMatches (string_of u) (User a) \<and> string_of p = Pass a) then (Inl BadCredentials, c')
            else case AllowHost contains filt (target_host t) (port_of_bytes hi lo) of
                   Some e \<Rightarrow> (Inl (FilterDeny e), c')
                 | None \<Rightarrow> (Inr \<lparr>Host = target_host t, Port = port_of_bytes hi lo,
                      TLS = (port_of_bytes hi lo = 443 \<or> port_of_bytes hi lo = 8443),
                      Session = extractSession (string_of u) (User a)\<rparr>, c')) \<and>
           outp c' = outp c @ [5, 2] @
             (if \<not> (authMatches (string_of u) (User a) \<and> string_of p = Pass a) then [1, 1]
              else [1, 0] @ (if AllowHost contains filt (target_host t) (port_of_bytes hi lo) = None then []
                             else [5, 2, 0, 1, 0, 0, 0, 0, 0, 0])) \<and>
           inp c' = (if \<not> (authMatches (string_of u) (User a) \<and> string_of p = Pass a)
                     then enc_request rsv t hi lo @ rest else rest)"
proof -
  let ?r = "enc_request rsv t hi lo @ rest"
  let ?g = "hs_greeted (Some a) c (enc_auth u p @ ?r)"
  have w: "want_method (Some a) = 2" by (simp add: want_method_def)
  have h: "Handshake contains (Some a) filt c = authenticate contains (Some a) filt ?g"
    using Handshake_enc [OF assms(1,7), of contains "Some a" filt] assms(2,6) w
    by (simp add: choose_method_ok)
  have u: "userPassAuth a ?g = check_credentials a u p (?g\<lparr>inp := ?r\<rparr>)"
    by (rule userPassAuth_enc [OF assms(3,4)]) (simp add: hs_greeted_def)
  let ?ok = "authMatches (string_of u) (User a) \<and> string_of p = Pass a"
  have g: "0 < wleft ?g" using assms(6) by (simp add: hs_greeted_def)
  show ?thesis
  proof (cases ?ok)
    case False
    then have "userPassAuth a ?g = (Inl BadCredentials, snd (conn_write [1, 1] (?g\<lparr>inp := ?r\<rparr>)))"
      by (auto simp: u check_credentials_def)
    then have r: "Handshake contains (Some a) filt c = (Inl BadCredentials, snd (conn_write [1, 1] (?g\<lparr>inp := ?r\<rparr>)))"
      by (simp add: h authenticate_def)
    show ?thesis using False g w unfolding r
      by (intro exI [of _ "snd (conn_write [1, 1] (?g\<lparr>inp := ?r\<rparr>))"]) (auto simp: conn_write_def hs_greeted_def)
  next
    case True
    let ?c2 = "snd (conn_write [1, 0] (?g\<lparr>inp := ?r\<rparr>))"
    have "userPassAuth a ?g = (Inr (string_of u), ?c2)"
      using True g by (simp add: u check_credentials_def conn_write_def)
    then have r: "Handshake contains (Some a) filt c =
        read_request contains filt (extractSession (string_of u) (User a)) ?c2"
      by (simp add: h authenticate_def)
    have i: "inp ?c2 = ?r" using g by (simp add: conn_write_def)
    have o: "outp ?c2 = outp c @ [5, 2, 1, 0]" "0 < wleft ?c2"
      using g w assms(6) by (simp_all add: conn_write_def hs_greeted_def)
    show ?thesis
      unfolding r read_request_enc [OF assms(5) i]
      using True o by (auto simp: reply_def conn_write_def split: option.split)
  qed
qed

theorem Handshake_complete_witness:
  "let a = \<lparr>User = ''u'', Pass = ''p''\<rparr>;
       c = \<lparr>inp = enc_greeting [2] @ enc_auth (bytes_of ''u'') (bytes_of ''x'') @
              enc_request 0 (TDomain (bytes_of ''ex'')) 0 80 @ [], outp = [], wleft = 9\<rparr>
   in \<exists>c'. Handshake list_contains (Some a) open_filter c = (Inl BadCredentials, c') \<and>
        outp c' = [5, 2, 1, 1]"
proof -
  let ?a = "\<lparr>User = ''u'', Pass = ''p''\<rparr>"
  let ?c = "\<lparr>inp = enc_greeting [2] @ enc_auth (bytes_of ''u'') (bytes_of ''x'') @
              enc_request 0 (TDomain (bytes_of ''ex'')) 0 80 @ [], outp = [], wleft = 9\<rparr>"
  from Handshake_complete [of "[2]" "bytes_of ''u''" "bytes_of ''x''" "TDomain (bytes_of ''ex'')" ?c 0 0 80 "[]"
      list_contains ?a open_filter]
  show ?thesis by (simp only: Let_def) auto
qed

text \<open>
  Sticky sessions come from the user name and from nothing else: a user is accepted exactly
  when it is the configured name, or that name followed by one of the two markers and a non-empty
  session identifier, and the identifier the scheduler gets is then exactly what stands behind the
  marker.
\<close>

lemma session_user_exact:
  "(authMatches user base \<longleftrightarrow>
     user = base \<or> (\<exists>i. i \<noteq> [] \<and> (user = base @ ''-session-'' @ i \<or> user = base @ '':session:'' @ i))) \<and>
   extractSession base base = [] \<and>
   (i \<noteq> [] \<longrightarrow> extractSession (base @ ''-session-'' @ i) base = i \<and>
      extractSession (base @ '':session:'' @ i) base = i)"
proof -
  have n: "\<not> session_match (base @ '':session:'' @ i) base ''-session-''" for i
    by (simp add: session_match_iff)
  have "authMatches user base \<longleftrightarrow>
     user = base \<or> (\<exists>i. i \<noteq> [] \<and> (user = base @ ''-session-'' @ i \<or> user = base @ '':session:'' @ i))"
    unfolding authMatches_def session_match_iff by auto
  moreover have "session_match (base @ ''-session-'' @ i) base ''-session-''"
    "session_match (base @ '':session:'' @ i) base '':session:''" if "i \<noteq> []"
    using that by (auto simp: session_match_iff)
  ultimately show ?thesis using n by (simp add: extractSession_def)
qed

lemma session_user_exact_example:
  "extractSession (''bob'' @ ''-session-'' @ ''42'') ''bob'' = ''42''"
  using session_user_exact [of "''bob''" "''bob''" "''42''"] by simp

text \<open>
  The deny list cannot be talked around by the address type: whether the client sends an
  IPv4 address, an IPv6 address or a domain name that spells one, a request that comes out of the
  handshake never names a reserved IP address (without a zone).
\<close>

lemma Handshake_never_reserved:
  assumes "ipset_spec build contains" and "NewIPFilter build extra ports = Inr filt"
    and "Handshake contains au filt c = (Inr req, c')" and "ParseAddr (Host req) = Some a" and "zone_free a"
  shows "\<not> reserved a"
proof -
  obtain ms r c1 where "authenticate contains au filt c1 = (Inr req, c')"
    by (rule Handshake_Inr [OF assms(3)])
  then obtain session c2 where "read_request contains filt session c2 = (Inr req, c')"
    by (cases au) (auto simp: authenticate_def elim: authenticate_Inr split: prod.splits sum.splits)
  then have ok: "AllowHost contains filt (Host req) (Port req) = None"
    by (rule read_request_Inr) simp
  obtain es where "parse_cidrs extra [] = Inr es" using assms(2) by (auto elim: NewIPFilter_ok)
  from filter_contains [OF assms(1,2) ParseAddr_wf [OF assms(4)] assms(5) this]
  show ?thesis using ok assms(4) by (auto simp: AllowHost_def AllowAddr_def split: if_splits)
qed

lemma demo_handshake_ip:
  "\<exists>req c'. Handshake list_contains None \<lparr>ip_set = default_deny, allowPorts = {}, allowAll = False\<rparr>
     \<lparr>inp = enc_greeting [0] @ enc_request 0 (TIPv4 [8, 8, 8, 8]) 0 80 @ [], outp = [], wleft = 5\<rparr> = (Inr req, c') \<and>
     Host req = addr_String (V4 [8, 8, 8, 8])"
proof -
  let ?c = "\<lparr>inp = enc_greeting [0] @ enc_request 0 (TIPv4 [8, 8, 8, 8]) 0 80 @ [], outp = [], wleft = 5\<rparr>"
  let ?f = "\<lparr>ip_set = default_deny, allowPorts = {}, allowAll = False\<rparr>"
  let ?r = "enc_request 0 (TIPv4 [8, 8, 8, 8]) 0 80 @ []"
  have h: "Handshake list_contains None ?f ?c = read_request list_contains ?f [] (hs_greeted None ?c ?r)"
    by (subst Handshake_enc [where ms = "[0]" and r = ?r])
       (simp_all add: choose_method_def conn_write_def hs_greeted_def want_method_def authenticate_def)
  have i: "inp (hs_greeted None ?c ?r) = ?r" by (simp add: hs_greeted_def)
  have "AllowHost list_contains ?f (addr_String (V4 [8, 8, 8, 8])) 80 = None"
    using filter_contains [OF list_ipset NewIPFilter_plain, of "V4 [8, 8, 8, 8]" "[]"]
    by (subst AllowHost_addr) (simp_all add: AllowPort_def)
  then show ?thesis
    unfolding h using read_request_enc [OF _ i, of list_contains ?f "[]"]
    by (simp add: port_of_bytes_def)
qed

lemma Handshake_never_reserved_example:
  "\<exists>req c' a. Handshake list_contains None \<lparr>ip_set = default_deny, allowPorts = {}, allowAll = False\<rparr>
     \<lparr>inp = enc_greeting [0] @ enc_request 0 (TIPv4 [8, 8, 8, 8]) 0 80 @ [], outp = [], wleft = 5\<rparr> = (Inr req, c') \<and>
     ParseAddr (Host req) = Some a \<and> \<not> reserved a"
proof -
  from demo_handshake_ip obtain req c' where
    h: "Handshake list_contains None \<lparr>ip_set = default_deny, allowPorts = {}, allowAll = False\<rparr>
     \<lparr>inp = enc_greeting [0] @ enc_request 0 (TIPv4 [8, 8, 8, 8]) 0 80 @ [], outp = [], wleft = 5\<rparr> = (Inr req, c')"
    and "Host req = addr_String (V4 [8, 8, 8, 8])" by blast
  then have p: "ParseAddr (Host req) = Some (V4 [8, 8, 8, 8])" by (simp add: parse_string4)
  from Handshake_never_reserved [OF list_ipset NewIPFilter_plain h p] h p show ?thesis by auto
qed

end
