(* ===== verification/Proxy_Server.thy ===== *)
theory Proxy_Server
  imports Dial_Policy Quota_Guard Socks5
begin

text \<open>
  The SOCKS5 connection handler (\<^verbatim>\<open>handle\<close>, \<^verbatim>\<open>peekAndClassify\<close>, the proxy mode and the byte
  counters of \<^verbatim>\<open>internal/proxy/server.go\<close>, and the sniffing of \<^verbatim>\<open>sniff.go\<close>). It composes the
  handshake, the rate limiter, the dial loop, the fetch fallback for targets a socket cannot reach,
  and the bookkeeping on the worker and its account.
\<close>

section \<open>Sniffing\<close>

definition sniffMinBytes :: nat where "sniffMinBytes = 7"

definition crlf :: string where "crlf = [char_of (13 :: nat), char_of (10 :: nat)]"

definition h2_preface :: string where
  "h2_preface = ''PRI * HTTP/2.0'' @ crlf @ crlf @ ''SM'' @ crlf @ crlf"

definition http_methods :: "string list" where
  "http_methods = [''GET '', ''POST '', ''HEAD '', ''PUT '', ''DELETE '', ''OPTIONS '', ''PATCH '', ''TRACE '', ''CONNECT '']"

definition LooksLikeHTTP :: "bytes \<Rightarrow> bool" where
  "LooksLikeHTTP buf =
     (if length buf < sniffMinBytes then False
      else if length buf \<ge> 24 \<and> string_of (take 24 buf) = h2_preface then True
      else list_ex (\<lambda>m. length buf \<ge> length m \<and> string_of (take (length m) buf) = m) http_methods)"

definition IsTLSClientHello :: "bytes \<Rightarrow> bool" where
  "IsTLSClientHello buf \<longleftrightarrow> length buf \<ge> 3 \<and> buf ! 0 = 0x16 \<and> buf ! 1 = 0x03"

text \<open>One read of at most 256 bytes; the network hands over \<open>k\<close> bytes (none: time-out or end).\<close>

definition peekAndClassify :: "nat \<Rightarrow> conn \<Rightarrow> (bytes \<times> bool) option \<times> conn" where
  "peekAndClassify k c =
     (let n = min k (min 256 (length (inp c)))
      in if n = 0 then (None, c)
         else (let peek = take n (inp c) in (Some (peek, LooksLikeHTTP peek), c\<lparr>inp := drop n (inp c)\<rparr>)))"

section \<open>The server\<close>

record 's server =
  sv_Auth :: "auth option"
  sv_Filter :: "'s IPFilter"
  sv_Scheduler :: sched
  sv_RateLimit :: bool
  sv_HMACSecret :: string
  sv_MaxRetries :: int
  sv_BaseBackoff :: int
  sv_HedgeAfter :: int
  sv_TLSRewrap :: bool
  sv_QuotaHook :: "u64 option"
  proxyMode :: "string option"

definition GetProxyMode :: "'s server \<Rightarrow> string" where
  "GetProxyMode sv = (case proxyMode sv of Some p \<Rightarrow> p | None \<Rightarrow> ModeHybrid)"

definition SetProxyMode :: "string \<Rightarrow> 's server \<Rightarrow> 's server" where
  "SetProxyMode mode sv = sv\<lparr>proxyMode := Some mode\<rparr>"

record metrics =
  ConnectionsTotal :: int
  ConnectionsActive :: int
  HandshakeFailTotal :: int
  DialFailTotal :: int
  DialSuccessTotal :: int
  FetchFallbackTotal :: int

record sstate =
  s_guard :: guard
  s_cache :: cf_cache
  s_metrics :: metrics

text \<open>What the environment answers while one connection is handled.\<close>

record net_env =
  ne_rate :: bool
  ne_dial1 :: "nat \<Rightarrow> attempt"
  ne_dial2 :: "nat \<Rightarrow> attempt"
  ne_now :: time
  ne_ttl :: time
  ne_peek :: nat
  ne_upwrite :: bool

text \<open>How a handler ends: the client connection and the server state at the end, the bytes sent
  upstream before the relay, and whether the relay was started.\<close>

record handled =
  r_conn :: conn
  r_state :: sstate
  r_up :: bytes
  r_relay :: bool

datatype hresult = HDone handled | HPanic | HWaiting

definition dial_policy :: "'s server \<Rightarrow> string \<Rightarrow> int \<Rightarrow> string \<Rightarrow> policy" where
  "dial_policy sv host port session =
     \<lparr>MaxRetries = sv_MaxRetries sv, BaseBackoff = sv_BaseBackoff sv, HedgeAfter = sv_HedgeAfter sv,
      HMACSecret = sv_HMACSecret sv, Mode = PickMode (GetProxyMode sv) host port, SessionID = session,
      TLSRewrap = sv_TLSRewrap sv, AutoFetchFallback = False\<rparr>"

definition run_dial ::
  "'s server \<Rightarrow> net_env \<Rightarrow> (nat \<Rightarrow> attempt) \<Rightarrow> policy \<Rightarrow> string \<Rightarrow> int \<Rightarrow> bool \<Rightarrow> sstate \<Rightarrow> outcome \<times> sstate" where
  "run_dial sv env att pol host port tls st =
     (let (out, d) = DialWithPolicy (sv_Scheduler sv) (ne_ttl env) (ne_now env) host port tls att pol
                       (g_heap (s_guard st)) (g_pool (s_guard st)) (s_cache st)
      in (out, st\<lparr>s_guard := (s_guard st)\<lparr>g_heap := d_heap d, g_pool := d_pool d\<rparr>, s_cache := d_cache d\<rparr>))"

definition upd_metrics :: "(metrics \<Rightarrow> metrics) \<Rightarrow> sstate \<Rightarrow> sstate" where
  "upd_metrics f st = st\<lparr>s_metrics := f (s_metrics st)\<rparr>"

definition upd_worker :: "ref \<Rightarrow> (worker \<Rightarrow> worker) \<Rightarrow> sstate \<Rightarrow> sstate" where
  "upd_worker w f st =
     st\<lparr>s_guard := (s_guard st)\<lparr>g_heap := (g_heap (s_guard st))(w := f (g_heap (s_guard st) w))\<rparr>\<rparr>"

text \<open>The bookkeeping of an established tunnel, and its deferred end.\<close>

definition stream_begin :: "'s server \<Rightarrow> net_env \<Rightarrow> ref \<Rightarrow> sstate \<Rightarrow> sstate" where
  "stream_begin sv env w st =
     (let st1 = upd_worker w (\<lambda>x. x\<lparr>Inflight := Inflight x + 1, Requests := Requests x + 1\<rparr>) st;
          st2 = upd_worker w (RecordResult False) st1
      in case sv_QuotaHook sv of
           None \<Rightarrow> st2
         | Some warn \<Rightarrow>
             st2\<lparr>s_guard := quotaHook warn (ne_now env) (AccountID (g_heap (s_guard st2) w)) (s_guard st2)\<rparr>)"

definition stream_end :: "ref \<Rightarrow> sstate \<Rightarrow> sstate" where
  "stream_end w st = upd_worker w (\<lambda>x. x\<lparr>Inflight := Inflight x - 1\<rparr>) st"

text \<open>The part of the handler after a successful dial.\<close>

definition serve_tunnel :: "'s server \<Rightarrow> net_env \<Rightarrow> ref \<Rightarrow> bytes option \<Rightarrow> conn \<Rightarrow> sstate \<Rightarrow> handled" where
  "serve_tunnel sv env w preBytes c st =
     (let st1 = stream_begin sv env w (upd_metrics (\<lambda>m. m\<lparr>DialSuccessTotal := DialSuccessTotal m + 1\<rparr>) st);
          st2 = stream_end w st1
      in case preBytes of
           Some b \<Rightarrow>
             if ne_upwrite env then \<lparr>r_conn = c, r_state = st2, r_up = b, r_relay = True\<rparr>
             else \<lparr>r_conn = c, r_state = st2, r_up = [], r_relay = False\<rparr>
         | None \<Rightarrow>
             (case ReplySuccess c of
                (True, c) \<Rightarrow> \<lparr>r_conn = c, r_state = st2, r_up = [], r_relay = True\<rparr>
              | (False, c) \<Rightarrow> \<lparr>r_conn = c, r_state = st2, r_up = [], r_relay = False\<rparr>))"

definition dial_failed :: "conn \<Rightarrow> sstate \<Rightarrow> handled" where
  "dial_failed c st =
     \<lparr>r_conn = ReplyFail 3 c, r_state = upd_metrics (\<lambda>m. m\<lparr>DialFailTotal := DialFailTotal m + 1\<rparr>) st,
      r_up = [], r_relay = False\<rparr>"

definition quiet_end :: "conn \<Rightarrow> sstate \<Rightarrow> handled" where
  "quiet_end c st = \<lparr>r_conn = c, r_state = st, r_up = [], r_relay = False\<rparr>"

text \<open>The fetch fallback behind a byte sniff.\<close>

definition sniff_fallback :: "'s server \<Rightarrow> net_env \<Rightarrow> policy \<Rightarrow> request \<Rightarrow> conn \<Rightarrow> sstate \<Rightarrow> hresult" where
  "sniff_fallback sv env pol req c st =
     (case ReplySuccess c of
        (False, c) \<Rightarrow> HDone (quiet_end c st)
      | (True, c) \<Rightarrow>
          (case peekAndClassify (ne_peek env) c of
             (None, c) \<Rightarrow> HDone (quiet_end c st)
           | (Some (peeked, isHTTP), c) \<Rightarrow>
               if \<not> isHTTP then HDone (quiet_end c st)
               else (case run_dial sv env (ne_dial2 env) (pol\<lparr>Mode := ModeFetch\<rparr>) (Host req) (Port req) (TLS req) st of
                       (DOk u w, st) \<Rightarrow>
                         HDone (serve_tunnel sv env w (Some peeked) c
                           (upd_metrics (\<lambda>m. m\<lparr>FetchFallbackTotal := FetchFallbackTotal m + 1\<rparr>) st))
                     | (DErr e, st) \<Rightarrow> HDone (dial_failed c st)
                     | (DPanic, st) \<Rightarrow> HPanic
                     | (DPending, st) \<Rightarrow> HWaiting)))"

definition handle_request :: "'s server \<Rightarrow> net_env \<Rightarrow> request \<Rightarrow> conn \<Rightarrow> sstate \<Rightarrow> hresult" where
  "handle_request sv env req c st =
     (if sv_RateLimit sv \<and> \<not> ne_rate env then HDone (quiet_end (ReplyFail 1 c) st)
      else (let pol = dial_policy sv (Host req) (Port req) (Session req)
            in case run_dial sv env (ne_dial1 env) pol (Host req) (Port req) (TLS req) st of
                 (DOk u w, st) \<Rightarrow> HDone (serve_tunnel sv env w None c st)
               | (DErr e, st) \<Rightarrow>
                   if e = ErrUpstreamBlocked \<and> GetProxyMode sv = ModeHybrid \<and> Mode pol \<noteq> ModeFetch
                   then sniff_fallback sv env pol req c st
                   else HDone (dial_failed c st)
               | (DPanic, st) \<Rightarrow> HPanic
               | (DPending, st) \<Rightarrow> HWaiting))"

definition active :: "int \<Rightarrow> sstate \<Rightarrow> sstate" where
  "active k st = upd_metrics (\<lambda>m. m\<lparr>ConnectionsActive := ConnectionsActive m + k\<rparr>) st"

text \<open>The deferred decrement of the active connections, on every way out.\<close>

definition leave :: "hresult \<Rightarrow> hresult" where
  "leave r = (case r of HDone d \<Rightarrow> HDone (d\<lparr>r_state := active (- 1) (r_state d)\<rparr>) | _ \<Rightarrow> r)"

definition handle :: "'s contains \<Rightarrow> 's server \<Rightarrow> net_env \<Rightarrow> conn \<Rightarrow> sstate \<Rightarrow> hresult" where
  "handle contains sv env c st =
     (let st1 = active 1 (upd_metrics (\<lambda>m. m\<lparr>ConnectionsTotal := ConnectionsTotal m + 1\<rparr>) st)
      in leave (case Handshake contains (sv_Auth sv) (sv_Filter sv) c of
                  (Inl e, c) \<Rightarrow>
                    HDone (quiet_end c (upd_metrics (\<lambda>m. m\<lparr>HandshakeFailTotal := HandshakeFailTotal m + 1\<rparr>) st1))
                | (Inr req, c) \<Rightarrow> handle_request sv env req c st1))"

section \<open>Lemmas: sniffing\<close>

lemma take_bytes_of: "take n (bytes_of s) = bytes_of (take n s)"
  by (simp add: bytes_of_def take_map)

lemma LooksLikeHTTP_hd:
  assumes "LooksLikeHTTP b"
  shows "\<exists>c r. string_of b = c # r \<and> c \<in> set ''PGHDOTC''"
proof -
  have pre: "\<exists>r. string_of b = m @ r" if "string_of (take (length m) b) = m" for m
    using that by (metis append_take_drop_id map_append string_of_def)
  have "length h2_preface = 24" by (simp add: h2_preface_def crlf_def)
  then have "\<exists>m \<in> set (h2_preface # http_methods). string_of (take (length m) b) = m"
    using assms by (auto simp: LooksLikeHTTP_def list_ex_iff split: if_splits)
  then show ?thesis using pre by (fastforce simp: h2_preface_def http_methods_def)
qed

lemma HTTP_not_TLS: "LooksLikeHTTP b \<Longrightarrow> \<not> IsTLSClientHello b"
  by (cases b) (auto simp: IsTLSClientHello_def string_of_def char_of_eq_iff dest!: LooksLikeHTTP_hd)

lemma GET_is_HTTP: "3 \<le> length r \<Longrightarrow> LooksLikeHTTP (bytes_of (''GET '' @ r))"
  by (simp only: LooksLikeHTTP_def http_methods_def take_bytes_of string_of_bytes_of length_bytes_of)
     (simp add: sniffMinBytes_def)

section \<open>Lemmas: replies\<close>

definition reply_bytes :: "u8 \<Rightarrow> bytes" where
  "reply_bytes code = [5, code, 0, 1, 0, 0, 0, 0, 0, 0]"

lemma ReplySuccess_cases:
  "ReplySuccess c =
     (if wleft c = 0 then (False, c)
      else (True, c\<lparr>outp := outp c @ reply_bytes 0, wleft := wleft c - 1\<rparr>))"
  by (simp add: ReplySuccess_def reply_def conn_write_def reply_bytes_def)

lemma ReplyFail_cases:
  "ReplyFail code c =
     (if wleft c = 0 then c else c\<lparr>outp := outp c @ reply_bytes code, wleft := wleft c - 1\<rparr>)"
  by (simp add: ReplyFail_def reply_def conn_write_def reply_bytes_def)

lemma peek_splits:
  "peekAndClassify k c = (Some (b, h), c') \<Longrightarrow>
     b \<noteq> [] \<and> length b \<le> 256 \<and> h = LooksLikeHTTP b \<and> inp c = b @ inp c' \<and> outp c' = outp c \<and> wleft c' = wleft c"
  by (auto simp: peekAndClassify_def Let_def min_def split: if_splits)

lemma peek_None: "peekAndClassify k c = (None, c') \<Longrightarrow> c' = c"
  by (auto simp: peekAndClassify_def Let_def split: if_splits)

section \<open>Lemmas: what a dial leaves of the counters\<close>

definition load_of :: "heap \<Rightarrow> ref \<Rightarrow> int \<times> u64" where
  "load_of h w = (Inflight (h w), Requests (h w))"

lemma load_RecordResult [simp]:
  "Inflight (RecordResult e w) = Inflight w" "Requests (RecordResult e w) = Requests w"
  by (simp_all add: RecordResult_def Let_def)

lemma load_record_failure [simp]: "load_of (d_heap (record_failure w s)) = load_of (d_heap s)"
  by (simp add: load_of_def record_failure_def fun_eq_iff)

lemma load_back_off:
  "back_off pol n a w e s = Final out s' \<Longrightarrow> load_of (d_heap s') = load_of (d_heap s)"
  "back_off pol n a w e s = Again pol' e' s' \<Longrightarrow> load_of (d_heap s') = load_of (d_heap s)"
  by (auto simp: back_off_def Let_def split: if_splits)

lemma load_after_dial:
  "after_dial host port tls pol n a w r s = Final out s' \<Longrightarrow> load_of (d_heap s') = load_of (d_heap s)"
  "after_dial host port tls pol n a w r s = Again pol' e s' \<Longrightarrow> load_of (d_heap s') = load_of (d_heap s)"
  by (auto simp: after_dial_def Let_def dest!: load_back_off split: sum.splits option.splits if_splits)

lemma load_dial_attempt:
  "dial_attempt sched host port tls pol n a s = Final out s' \<Longrightarrow> load_of (d_heap s') = load_of (d_heap s)"
  "dial_attempt sched host port tls pol n a s = Again pol' e s' \<Longrightarrow> load_of (d_heap s') = load_of (d_heap s)"
  by (auto simp: dial_attempt_def Let_def dest!: load_after_dial split: prod.splits sum.splits option.splits)

lemma load_dial_loop:
  "load_of (d_heap (snd (dial_loop sched host port tls att k n pol e s))) = load_of (d_heap s)"
  by (induction k arbitrary: n pol e s)
     (auto split: step_res.split dest: load_dial_attempt)

lemma load_DialWithPolicy:
  "load_of (d_heap (snd (DialWithPolicy sched ttl now host port tls att pol h p cache))) = load_of h"
  by (auto simp: DialWithPolicy_def Let_def load_dial_loop split: option.split)

definition sload :: "sstate \<Rightarrow> ref \<Rightarrow> int \<times> u64" where
  "sload st = load_of (g_heap (s_guard st))"

lemma sload_run_dial: "run_dial sv env att pol host port tls st = (out, st') \<Longrightarrow> sload st' = sload st"
  using load_DialWithPolicy [of "sv_Scheduler sv" "ne_ttl env" "ne_now env" host port tls att pol
      "g_heap (s_guard st)" "g_pool (s_guard st)" "s_cache st"]
  by (auto simp: run_dial_def Let_def sload_def split: prod.splits)

lemma metrics_run_dial: "run_dial sv env att pol host port tls st = (out, st') \<Longrightarrow> s_metrics st' = s_metrics st"
  by (auto simp: run_dial_def Let_def split: prod.splits)

lemma load_store_flags: "load_of (store_flags p q ws h) = load_of h"
  by (simp add: load_of_def fun_eq_iff store_flags_apply)

lemma load_quotaHook: "load_of (g_heap (quotaHook warn now acc g)) = load_of (g_heap g)"
  by (auto simp: quotaHook_def Let_def load_store_flags put_quota_def split: option.split prod.split)

lemma sload_upd_metrics [simp]:
  "sload (upd_metrics f st) = sload st" "s_metrics (upd_metrics f st) = f (s_metrics st)"
  "sload (st\<lparr>s_metrics := m\<rparr>) = sload st"
  by (simp_all add: upd_metrics_def sload_def)

lemma sload_stream_begin:
  "sload (stream_begin sv env w st) = (sload st)(w := (fst (sload st w) + 1, snd (sload st w) + 1))"
proof -
  have h: "sload (st'\<lparr>s_guard := quotaHook wn now acc (s_guard st')\<rparr>) = sload st'" for st' wn now acc
    using load_quotaHook [of wn now acc "s_guard st'"] by (simp add: sload_def)
  have r: "sload (upd_worker w (RecordResult False) st') = sload st'" for st'
    by (auto simp: sload_def upd_worker_def load_of_def fun_eq_iff)
  have u: "sload (upd_worker w (\<lambda>x. x\<lparr>Inflight := Inflight x + 1, Requests := Requests x + 1\<rparr>) st) =
      (sload st)(w := (fst (sload st w) + 1, snd (sload st w) + 1))"
    by (auto simp: sload_def upd_worker_def load_of_def fun_eq_iff)
  show ?thesis by (auto simp: stream_begin_def Let_def h r u split: option.split)
qed

lemma sload_stream_end: "sload (stream_end w st) = (sload st)(w := (fst (sload st w) - 1, snd (sload st w)))"
  by (auto simp: sload_def upd_worker_def load_of_def stream_end_def fun_eq_iff)

lemma sload_stream:
  "sload (stream_end w (stream_begin sv env w st)) = (sload st)(w := (fst (sload st w), snd (sload st w) + 1))"
  by (simp add: sload_stream_end sload_stream_begin)

lemma metrics_stream [simp]: "s_metrics (stream_end w (stream_begin sv env w st)) = s_metrics st"
  by (simp add: stream_end_def stream_begin_def upd_worker_def Let_def split: option.split)

section \<open>Lemmas: the shapes of a handled connection\<close>

text \<open>What holds of a handler's end whatever path it took: the books of the workers and the
  metrics, relative to the state before.\<close>

definition booked :: "sstate \<Rightarrow> handled \<Rightarrow> bool" where
  "booked st d \<longleftrightarrow>
     (let m = s_metrics st; m' = s_metrics (r_state d)
      in ConnectionsActive m' = ConnectionsActive m \<and> ConnectionsTotal m' = ConnectionsTotal m \<and>
         ((\<exists>w. sload (r_state d) = (sload st)(w := (fst (sload st w), snd (sload st w) + 1))) \<and>
          DialSuccessTotal m' = DialSuccessTotal m + 1 \<and> DialFailTotal m' = DialFailTotal m \<or>
          sload (r_state d) = sload st \<and> DialSuccessTotal m' = DialSuccessTotal m \<and> \<not> r_relay d \<and>
          DialFailTotal m' \<in> {DialFailTotal m, DialFailTotal m + 1}))"

lemma booked_quiet: "sload st' = sload st \<Longrightarrow> s_metrics st' = s_metrics st \<Longrightarrow> booked st (quiet_end c st')"
  by (simp add: booked_def quiet_end_def)

lemma booked_failed: "sload st' = sload st \<Longrightarrow> s_metrics st' = s_metrics st \<Longrightarrow> booked st (dial_failed c st')"
  by (simp add: booked_def dial_failed_def Let_def)

lemma booked_tunnel:
  assumes "sload st' = sload st" "s_metrics st' = (s_metrics st)\<lparr>FetchFallbackTotal := k\<rparr>"
  shows "booked st (serve_tunnel sv env w pre c st')"
proof -
  have "r_state (serve_tunnel sv env w pre c st') =
      stream_end w (stream_begin sv env w (upd_metrics (\<lambda>m. m\<lparr>DialSuccessTotal := DialSuccessTotal m + 1\<rparr>) st'))"
    by (simp add: serve_tunnel_def Let_def split: option.split prod.split bool.split)
  then show ?thesis using assms by (auto simp: booked_def sload_stream)
qed

text \<open>The same for the bytes: with \<open>c\<close> the client connection after the handshake.\<close>

definition clean_relay :: "'s server \<Rightarrow> conn \<Rightarrow> handled \<Rightarrow> bool" where
  "clean_relay sv c d \<longleftrightarrow>
     (r_relay d \<longrightarrow>
        outp (r_conn d) = outp c @ reply_bytes 0 \<and> inp c = r_up d @ inp (r_conn d) \<and>
        (r_up d \<noteq> [] \<longrightarrow> LooksLikeHTTP (r_up d) \<and> GetProxyMode sv = ModeHybrid))"

lemma clean_quiet [simp]: "clean_relay sv c (quiet_end c' st)" "clean_relay sv c (dial_failed c' st)"
  by (simp_all add: clean_relay_def quiet_end_def dial_failed_def)

lemma clean_tunnel_None: "clean_relay sv c (serve_tunnel sv' env w None c st)"
  by (simp add: clean_relay_def serve_tunnel_def Let_def ReplySuccess_cases)

lemma clean_tunnel_Some:
  "LooksLikeHTTP b \<Longrightarrow> GetProxyMode sv = ModeHybrid \<Longrightarrow> inp c = b @ inp c' \<Longrightarrow> outp c' = outp c @ reply_bytes 0 \<Longrightarrow>
   clean_relay sv c (serve_tunnel sv' env w (Some b) c' st)"
  by (simp add: clean_relay_def serve_tunnel_def Let_def)

lemma sniff_fallback_cases:
  assumes "sniff_fallback sv env pol req c st = HDone d"
  obtains c' where "d = quiet_end c' st"
  | b c' st' w u where "run_dial sv env (ne_dial2 env) (pol\<lparr>Mode := ModeFetch\<rparr>) (Host req) (Port req) (TLS req) st = (DOk u w, st')"
      "LooksLikeHTTP b" "inp c = b @ inp c'" "outp c' = outp c @ reply_bytes 0"
      "d = serve_tunnel sv env w (Some b) c' (upd_metrics (\<lambda>m. m\<lparr>FetchFallbackTotal := FetchFallbackTotal m + 1\<rparr>) st')"
  | c' st' e where "run_dial sv env (ne_dial2 env) (pol\<lparr>Mode := ModeFetch\<rparr>) (Host req) (Port req) (TLS req) st = (DErr e, st')"
      "d = dial_failed c' st'"
proof (cases "wleft c = 0")
  case True
  with assms show ?thesis by (intro that(1) [of c]) (simp add: sniff_fallback_def ReplySuccess_cases)
next
  case False
  let ?c1 = "c\<lparr>outp := outp c @ reply_bytes 0, wleft := wleft c - 1\<rparr>"
  show ?thesis
  proof (cases "peekAndClassify (ne_peek env) ?c1")
    case (Pair p c')
    show ?thesis
    proof (cases p)
      case None
      with Pair False assms show ?thesis by (intro that(1) [of c']) (simp add: sniff_fallback_def ReplySuccess_cases)
    next
      case (Some bh)
      obtain b h where bh: "bh = (b, h)" by force
      have pk: "h = LooksLikeHTTP b" "inp c = b @ inp c'" "outp c' = outp c @ reply_bytes 0"
        using peek_splits [of "ne_peek env" ?c1 b h c'] Pair Some bh by auto
      obtain out st' where dial: "run_dial sv env (ne_dial2 env) (pol\<lparr>Mode := ModeFetch\<rparr>) (Host req) (Port req) (TLS req) st = (out, st')"
        by force
      show ?thesis
        using assms that Pair False Some bh pk dial
        by (cases out) (auto simp: sniff_fallback_def ReplySuccess_cases split: if_splits)
    qed
  qed
qed

lemma handle_request_cases:
  assumes "handle_request sv env req c st = HDone d"
  obtains c' where "d = quiet_end c' st"
  | w u st' where "run_dial sv env (ne_dial1 env) (dial_policy sv (Host req) (Port req) (Session req)) (Host req) (Port req) (TLS req) st = (DOk u w, st')"
      "d = serve_tunnel sv env w None c st'"
  | c' st' e where "run_dial sv env (ne_dial1 env) (dial_policy sv (Host req) (Port req) (Session req)) (Host req) (Port req) (TLS req) st = (DErr e, st')"
      "d = dial_failed c' st'"
  | st' where "run_dial sv env (ne_dial1 env) (dial_policy sv (Host req) (Port req) (Session req)) (Host req) (Port req) (TLS req) st = (DErr ErrUpstreamBlocked, st')"
      "GetProxyMode sv = ModeHybrid"
      "sniff_fallback sv env (dial_policy sv (Host req) (Port req) (Session req)) req c st' = HDone d"
proof (cases "sv_RateLimit sv \<and> \<not> ne_rate env")
  case True
  with assms show ?thesis by (intro that(1) [of "ReplyFail 1 c"]) (simp add: handle_request_def)
next
  case False
  obtain out st' where dial: "run_dial sv env (ne_dial1 env) (dial_policy sv (Host req) (Port req) (Session req)) (Host req) (Port req) (TLS req) st = (out, st')"
    by force
  show ?thesis
    using assms that False dial by (cases out) (auto simp: handle_request_def Let_def split: if_splits)
qed

lemma handle_request_booked:
  assumes "handle_request sv env req c st = HDone d"
  shows "booked st d"
proof -
  have up: "s_metrics st' = s_metrics st \<Longrightarrow> s_metrics st' = (s_metrics st)\<lparr>FetchFallbackTotal := FetchFallbackTotal (s_metrics st)\<rparr>"
    for st' by simp
  note r = sload_run_dial metrics_run_dial
  show ?thesis
    using assms
  proof (cases rule: handle_request_cases)
    case 1
    then show ?thesis by (simp add: booked_quiet)
  next
    case (2 w u st')
    then show ?thesis using booked_tunnel [OF r(1) up [OF r(2)], OF 2(1) 2(1)] by simp
  next
    case (3 c' st' e)
    then show ?thesis using booked_failed [OF r(1) r(2), OF 3(1) 3(1)] by simp
  next
    case (4 st')
    note e = r [OF 4(1)]
    show ?thesis
      using 4(3)
    proof (cases rule: sniff_fallback_cases)
      case 1
      with e show ?thesis by (simp add: booked_quiet)
    next
      case (2 b c' st'' w u)
      then show ?thesis using e r [OF 2(1)] by (auto intro: booked_tunnel)
    next
      case (3 c' st'' e')
      then show ?thesis using e r [OF 3(1)] by (auto intro: booked_failed)
    qed
  qed
qed

lemma handle_request_clean:
  assumes "handle_request sv env req c st = HDone d"
  shows "clean_relay sv c d"
  using assms
proof (cases rule: handle_request_cases)
  case (4 st')
  show ?thesis using 4(3) by (cases rule: sniff_fallback_cases) (auto intro: clean_tunnel_Some 4(2))
qed (auto intro: clean_tunnel_None)

lemma handle_Done:
  assumes "handle contains sv env c st = HDone d"
  obtains e c1 where "Handshake contains (sv_Auth sv) (sv_Filter sv) c = (Inl e, c1)"
      "d = quiet_end c1 (active (- 1) (upd_metrics (\<lambda>m. m\<lparr>HandshakeFailTotal := HandshakeFailTotal m + 1\<rparr>)
             (active 1 (upd_metrics (\<lambda>m. m\<lparr>ConnectionsTotal := ConnectionsTotal m + 1\<rparr>) st))))"
  | req c1 d' where "Handshake contains (sv_Auth sv) (sv_Filter sv) c = (Inr req, c1)"
      "handle_request sv env req c1 (active 1 (upd_metrics (\<lambda>m. m\<lparr>ConnectionsTotal := ConnectionsTotal m + 1\<rparr>) st)) = HDone d'"
      "d = d'\<lparr>r_state := active (- 1) (r_state d')\<rparr>"
proof (cases "Handshake contains (sv_Auth sv) (sv_Filter sv) c")
  case (Pair x c1)
  then show ?thesis using assms that
    by (cases x) (auto simp: handle_def Let_def leave_def quiet_end_def split: hresult.splits)
qed

lemma Handshake_port:
  assumes "Handshake contains au filt c = (Inr req, c')"
  shows "0 \<le> Port req \<and> Port req < 10 ^ 10"
proof -
  obtain c1 where k: "authenticate contains au filt c1 = (Inr req, c')" by (rule Handshake_Inr [OF assms])
  obtain sess c2 where "read_request contains filt sess c2 = (Inr req, c')"
    using k by (cases au) (auto simp: authenticate_def elim: authenticate_Inr split: prod.splits sum.splits)
  then obtain hi lo where "Port req = port_of_bytes hi lo" by (elim read_request_Inr) blast
  then show ?thesis using port_of_bytes_bounds [of hi lo] by simp
qed

lemma run_dial_no_panic:
  "0 \<le> port \<Longrightarrow> port < 10 ^ 10 \<Longrightarrow> 0 \<le> BaseBackoff pol \<Longrightarrow> fst (run_dial sv env att pol host port tls st) \<noteq> DPanic"
  using dial_no_panic by (simp add: run_dial_def Let_def split: prod.split) (metis fst_conv)

lemma handle_request_no_panic:
  assumes "0 \<le> Port req" "Port req < 10 ^ 10" "0 \<le> sv_BaseBackoff sv"
  shows "handle_request sv env req c st \<noteq> HPanic"
proof -
  have b: "0 \<le> BaseBackoff (dial_policy sv h p x)" "0 \<le> BaseBackoff ((dial_policy sv h p x)\<lparr>Mode := y\<rparr>)" for h p x y
    using assms(3) by (simp_all add: dial_policy_def)
  have np: "fst (run_dial sv env att (dial_policy sv h p x) hh (Port req) t st') \<noteq> DPanic"
    "fst (run_dial sv env att ((dial_policy sv h p x)\<lparr>Mode := ModeFetch\<rparr>) hh (Port req) t st') \<noteq> DPanic" for att h p x hh t st'
    by (rule run_dial_no_panic [OF assms(1,2) b(1)], rule run_dial_no_panic [OF assms(1,2) b(2)])
  have "sniff_fallback sv env (dial_policy sv (Host req) (Port req) (Session req)) req c st' \<noteq> HPanic" for st'
    using np(2) [of "ne_dial2 env" "Host req" "Port req" "Session req" "Host req" "TLS req" st']
    by (auto simp: sniff_fallback_def split: prod.splits bool.splits option.splits outcome.splits)
  then show ?thesis
    using np(1) [of "ne_dial1 env" "Host req" "Port req" "Session req" "Host req" "TLS req" st]
    by (auto simp: handle_request_def Let_def split: prod.splits outcome.splits)
qed

section \<open>A concrete server\<close>

definition demo_server :: "prefix list server" where
  "demo_server = \<lparr>sv_Auth = None, sv_Filter = open_filter, sv_Scheduler = leastInflight_Next, sv_RateLimit = False,
     sv_HMACSecret = [], sv_MaxRetries = 2, sv_BaseBackoff = 1, sv_HedgeAfter = 0, sv_TLSRewrap = False,
     sv_QuotaHook = None, proxyMode = None\<rparr>"

definition demo_state :: sstate where
  "demo_state = \<lparr>s_guard = \<lparr>g_heap = demo_heap, g_pool = pool_New [3, 4],
       g_disp = \<lparr>sinks = 0, cooldwn = 0, last_sent = Map.empty, sent = []\<rparr>\<rparr>,
     s_cache = Map.empty,
     s_metrics = \<lparr>ConnectionsTotal = 0, ConnectionsActive = 0, HandshakeFailTotal = 0, DialFailTotal = 0,
       DialSuccessTotal = 0, FetchFallbackTotal = 0\<rparr>\<rparr>"

definition demo_env :: "dial_res \<Rightarrow> dial_res \<Rightarrow> net_env" where
  "demo_env r1 r2 = \<lparr>ne_rate = True, ne_dial1 = (\<lambda>_. demo_attempt [] r1), ne_dial2 = (\<lambda>_. demo_attempt [] r2),
     ne_now = 0, ne_ttl = 600, ne_peek = 18, ne_upwrite = True\<rparr>"

lemma demo_pol:
  "dial_policy demo_server ''ex'' 443 [] = \<lparr>MaxRetries = 2, BaseBackoff = 1, HedgeAfter = 0, HMACSecret = [],
     Mode = ModeSocket, SessionID = [], TLSRewrap = False, AutoFetchFallback = False\<rparr>"
  by (simp add: dial_policy_def demo_server_def GetProxyMode_def PickMode_def ModeHybrid_def ModeSocket_def ModeFetch_def)

lemma demo_pick: "leastInflight_Next brk demo_heap (pool_New [3, 4]) = (Inr 3, pool_New [3, 4])"
  by (simp add: leastInflight_Next_def pool_All_def pool_New_def pool_load_def demo_heap_def NewWorker_def)

text \<open>Both dials of the concrete server, in either mode: they answer what the worker answers.\<close>

lemma demo_dial:
  assumes "s_guard st = s_guard demo_state"
    and "pol = dial_policy demo_server ''ex'' 443 [] \<or> pol = (dial_policy demo_server ''ex'' 443 [])\<lparr>Mode := ModeFetch\<rparr>"
  shows "\<exists>st'. run_dial demo_server (demo_env r1 r2) (\<lambda>_. demo_attempt [] (Inr 5)) pol ''ex'' 443 True st = (DOk 5 3, st')"
    and "\<exists>st'. run_dial demo_server (demo_env r1 r2) (\<lambda>_. demo_attempt [] (Inl ErrUpstreamBlocked)) pol ''ex'' 443 True st
           = (DErr ErrUpstreamBlocked, st') \<and> s_guard st' = s_guard demo_state"
proof -
  have g: "g_heap (s_guard st) = demo_heap" "g_pool (s_guard st) = pool_New [3, 4]" "sv_Scheduler demo_server = leastInflight_Next"
    using assms(1) by (simp_all add: demo_state_def demo_server_def)
  have p: "MaxRetries pol = 2" "BaseBackoff pol = 1" "HedgeAfter pol = 0" "SessionID pol = []" "\<not> TLSRewrap pol" "\<not> AutoFetchFallback pol"
    using assms(2) by (auto simp: demo_pol)
  then have n: "normalize_policy pol = pol" by (simp add: normalize_policy_def)
  note loop = DialWithPolicy_def n p Let_def numeral_2_eq_2 dial_attempt_def pick_worker_def demo_pick dialOnceWithHedge_def
    demo_attempt_def dialBreak_def after_dial_def maybeRewrap_def
  show "\<exists>st'. run_dial demo_server (demo_env r1 r2) (\<lambda>_. demo_attempt [] (Inr 5)) pol ''ex'' 443 True st = (DOk 5 3, st')"
    by (simp add: run_dial_def g loop)
  show "\<exists>st'. run_dial demo_server (demo_env r1 r2) (\<lambda>_. demo_attempt [] (Inl ErrUpstreamBlocked)) pol ''ex'' 443 True st
           = (DErr ErrUpstreamBlocked, st') \<and> s_guard st' = s_guard demo_state"
    using Mark_ok [of 443 0 "''ex''" "s_cache st"] assms(1)
    by (auto simp add: run_dial_def g loop demo_state_def split: option.split)
qed

lemma demo_request:
  "\<exists>c1. Handshake list_contains (sv_Auth demo_server) (sv_Filter demo_server) demo_conn =
     (Inr \<lparr>Host = ''ex'', Port = 443, TLS = True, Session = []\<rparr>, c1) \<and> inp c1 = [9] \<and> 0 < wleft c1"
proof -
  let ?r = "enc_request 0 (TDomain (bytes_of ''ex'')) 1 187 @ [9]"
  have "inp demo_conn = enc_greeting [0] @ ?r" by (simp add: demo_conn_def)
  note h = Handshake_enc [OF _ this, of list_contains None open_filter]
  have i: "inp (hs_greeted None demo_conn ?r) = ?r" by (simp add: hs_greeted_def)
  have w: "0 < wleft demo_conn" by (simp add: demo_conn_def)
  have w': "0 < wleft (hs_greeted None demo_conn ?r)" by (simp add: demo_conn_def hs_greeted_def)
  show ?thesis
    using h w w' read_request_enc [OF _ i, of list_contains open_filter "[]"]
    by (simp add: choose_method_ok want_method_def authenticate_def demo_server_def port_of_bytes_def)
qed

lemma demo_handle:
  "\<exists>d. handle list_contains demo_server (demo_env (Inr 5) (Inr 5)) demo_conn demo_state = HDone d \<and> r_relay d"
proof -
  obtain c1 where c1: "Handshake list_contains (sv_Auth demo_server) (sv_Filter demo_server) demo_conn =
     (Inr \<lparr>Host = ''ex'', Port = 443, TLS = True, Session = []\<rparr>, c1)" "0 < wleft c1"
    using demo_request by blast
  let ?st = "active 1 (upd_metrics (\<lambda>m. m\<lparr>ConnectionsTotal := ConnectionsTotal m + 1\<rparr>) demo_state)"
  obtain st' where d: "run_dial demo_server (demo_env (Inr 5) (Inr 5)) (\<lambda>_. demo_attempt [] (Inr 5))
      (dial_policy demo_server ''ex'' 443 []) ''ex'' 443 True ?st = (DOk 5 3, st')"
    using demo_dial(1) [of ?st _ "Inr 5" "Inr 5", OF _ disjI1 [OF refl]] by (auto simp: active_def upd_metrics_def)
  have 1: "ne_dial1 (demo_env (Inr 5) (Inr 5)) = (\<lambda>_. demo_attempt [] (Inr 5))" "\<not> sv_RateLimit demo_server"
    by (simp_all add: demo_env_def demo_server_def)
  show ?thesis
    using c1 d by (simp add: handle_def Let_def handle_request_def 1 leave_def serve_tunnel_def ReplySuccess_cases)
qed

section \<open>Properties\<close>

text \<open>
  C3. The relay is transparent. When \<^verbatim>\<open>handle\<close> starts relaying, the client has been sent exactly
  one reply after the handshake, the success reply, and no byte it sent after its request is lost:
  what was already read from it has been written upstream, in order, and the rest is still to be
  relayed. Bytes are read ahead only in hybrid mode, and only ones that look like HTTP, never a TLS hello, get upstream.
\<close>

theorem relay_transparent:
  assumes "Handshake contains (sv_Auth sv) (sv_Filter sv) c = (Inr req, c1)"
    and "handle contains sv env c st = HDone d" and "r_relay d"
  shows "outp (r_conn d) = outp c1 @ [5, 0, 0, 1, 0, 0, 0, 0, 0, 0] \<and> inp c1 = r_up d @ inp (r_conn d) \<and>
         (r_up d = [] \<or> LooksLikeHTTP (r_up d) \<and> \<not> IsTLSClientHello (r_up d) \<and> GetProxyMode sv = ModeHybrid)"
  using assms(2)
proof (cases rule: handle_Done)
  case (1 e c1')
  with assms(1) show ?thesis by simp
next
  case (2 req' c1' d')
  then have "clean_relay sv c1 d'" using assms(1) handle_request_clean by auto
  with 2(3) assms(3) show ?thesis by (auto simp: clean_relay_def reply_bytes_def dest: HTTP_not_TLS)
qed

theorem relay_transparent_witness:
  "\<exists>d sent. handle list_contains demo_server (demo_env (Inr 5) (Inr 5)) demo_conn demo_state = HDone d \<and>
     outp (r_conn d) = sent @ [5, 0, 0, 1, 0, 0, 0, 0, 0, 0] \<and> r_up d @ inp (r_conn d) = [9]"
proof -
  from demo_request obtain req c1 where
    "Handshake list_contains (sv_Auth demo_server) (sv_Filter demo_server) demo_conn = (Inr req, c1)" "inp c1 = [9]" by blast
  moreover from demo_handle obtain d where
    "handle list_contains demo_server (demo_env (Inr 5) (Inr 5)) demo_conn demo_state = HDone d" "r_relay d" by blast
  ultimately show ?thesis using relay_transparent [of list_contains demo_server demo_conn req c1 "demo_env (Inr 5) (Inr 5)" demo_state d]
    by (intro exI [of _ d] exI [of _ "outp c1"]) auto
qed

text \<open>
  C7. The books balance. A connection that \<^verbatim>\<open>handle\<close> has finished leaves the active connections
  and the in-flight count of every worker as they were, counts one connection, and counts as one
  successful dial and one request of exactly one worker, or as no request at all; a connection
  relayed is always counted.
\<close>

theorem handle_balanced:
  assumes "handle contains sv env c st = HDone d"
  shows "ConnectionsActive (s_metrics (r_state d)) = ConnectionsActive (s_metrics st) \<and>
         ConnectionsTotal (s_metrics (r_state d)) = ConnectionsTotal (s_metrics st) + 1 \<and>
         (\<forall>w. Inflight (g_heap (s_guard (r_state d)) w) = Inflight (g_heap (s_guard st) w)) \<and>
         ((\<exists>w. (\<lambda>x. Requests (g_heap (s_guard (r_state d)) x)) =
                (\<lambda>x. Requests (g_heap (s_guard st) x))(w := Requests (g_heap (s_guard st) w) + 1)) \<and>
          DialSuccessTotal (s_metrics (r_state d)) = DialSuccessTotal (s_metrics st) + 1 \<or>
          (\<forall>x. Requests (g_heap (s_guard (r_state d)) x) = Requests (g_heap (s_guard st) x)) \<and>
          DialSuccessTotal (s_metrics (r_state d)) = DialSuccessTotal (s_metrics st) \<and> \<not> r_relay d)"
proof -
  define m where "m = active 1 (upd_metrics (\<lambda>m. m\<lparr>ConnectionsTotal := ConnectionsTotal m + 1\<rparr>) st)"
  have m: "sload m = sload st" "s_metrics m = (s_metrics st)\<lparr>ConnectionsTotal := ConnectionsTotal (s_metrics st) + 1,
      ConnectionsActive := ConnectionsActive (s_metrics st) + 1\<rparr>" by (simp_all add: m_def active_def)
  have ld: "Inflight (g_heap (s_guard t) x) = fst (sload t x)" "Requests (g_heap (s_guard t) x) = snd (sload t x)" for t x
    by (simp_all add: sload_def load_of_def)
  show ?thesis
    using assms
  proof (cases rule: handle_Done)
    case (1 e c1)
    then have "sload (r_state d) = sload st" by (simp add: quiet_end_def active_def)
    with 1 show ?thesis by (simp add: ld) (simp add: quiet_end_def active_def)
  next
    case (2 req c1 d')
    have b: "booked m d'" using handle_request_booked [OF 2(2)] by (simp add: m_def)
    have d: "sload (r_state d) = sload (r_state d')" "r_relay d = r_relay d'"
      "s_metrics (r_state d) = (s_metrics (r_state d'))\<lparr>ConnectionsActive := ConnectionsActive (s_metrics (r_state d')) - 1\<rparr>"
      using 2(3) by (simp_all add: active_def)
    from b consider w where "sload (r_state d) = (sload st)(w := (fst (sload st w), snd (sload st w) + 1))"
        "DialSuccessTotal (s_metrics (r_state d)) = DialSuccessTotal (s_metrics st) + 1"
      | "sload (r_state d) = sload st" "DialSuccessTotal (s_metrics (r_state d)) = DialSuccessTotal (s_metrics st)" "\<not> r_relay d"
      unfolding booked_def Let_def using d m by auto
    moreover have "ConnectionsActive (s_metrics (r_state d)) = ConnectionsActive (s_metrics st)"
      "ConnectionsTotal (s_metrics (r_state d)) = ConnectionsTotal (s_metrics st) + 1"
      using b d m by (simp_all add: booked_def Let_def)
    ultimately show ?thesis by cases (auto simp: ld fun_eq_iff)
  qed
qed

theorem handle_balanced_witness:
  "\<exists>d. handle list_contains demo_server (demo_env (Inr 5) (Inr 5)) demo_conn demo_state = HDone d \<and> r_relay d \<and>
     ConnectionsTotal (s_metrics (r_state d)) = 1 \<and> ConnectionsActive (s_metrics (r_state d)) = 0 \<and>
     DialSuccessTotal (s_metrics (r_state d)) = 1"
proof -
  from demo_handle obtain d where
    d: "handle list_contains demo_server (demo_env (Inr 5) (Inr 5)) demo_conn demo_state = HDone d" "r_relay d" by blast
  have "s_metrics demo_state = \<lparr>ConnectionsTotal = 0, ConnectionsActive = 0, HandshakeFailTotal = 0, DialFailTotal = 0,
       DialSuccessTotal = 0, FetchFallbackTotal = 0\<rparr>" by (simp add: demo_state_def)
  with handle_balanced [OF d(1)] d show ?thesis by auto
qed

text \<open>
  C15. With a configured back-off that is not negative, no client can make the SOCKS5 handler panic:
  the port of a SOCKS5 request always fits the cache key.
\<close>

theorem handle_no_panic:
  assumes "0 \<le> sv_BaseBackoff sv"
  shows "handle contains sv env c st \<noteq> HPanic"
proof (cases "Handshake contains (sv_Auth sv) (sv_Filter sv) c")
  case (Pair x c1)
  show ?thesis
  proof (cases x)
    case (Inl e)
    with Pair show ?thesis by (simp add: handle_def leave_def Let_def)
  next
    case (Inr req)
    note p = Handshake_port [OF Pair [unfolded Inr]]
    have "handle_request sv env req c1 st' \<noteq> HPanic" for st'
      by (rule handle_request_no_panic [OF conjunct1 [OF p] conjunct2 [OF p] assms])
    with Pair Inr show ?thesis by (auto simp: handle_def Let_def leave_def split: hresult.split)
  qed
qed

theorem handle_no_panic_witness:
  "handle list_contains demo_server (demo_env (Inr 5) (Inr 5)) demo_conn demo_state \<noteq> HPanic"
  by (rule handle_no_panic) (simp add: demo_server_def)

text \<open>
  Two replies to one request: when the socket dial is blocked, the client's first bytes look
  like HTTP and the fetch dial fails too, the handler sends the failure reply after the success
  reply it has already sent, so that the failure arrives as data of the tunnel.
\<close>

lemma fallback_failure_replies_twice:
  assumes "\<not> sv_RateLimit sv" and "GetProxyMode sv = ModeHybrid"
    and "Mode (dial_policy sv (Host req) (Port req) (Session req)) \<noteq> ModeFetch"
    and "run_dial sv env (ne_dial1 env) (dial_policy sv (Host req) (Port req) (Session req))
           (Host req) (Port req) (TLS req) st = (DErr ErrUpstreamBlocked, st1)"
    and "run_dial sv env (ne_dial2 env) ((dial_policy sv (Host req) (Port req) (Session req))\<lparr>Mode := ModeFetch\<rparr>)
           (Host req) (Port req) (TLS req) st1 = (DErr e, st2)"
    and "2 \<le> wleft c" and "7 \<le> length (inp c)" and "LooksLikeHTTP (inp c)" and "ne_peek env = length (inp c)"
    and "length (inp c) \<le> 256"
  shows "\<exists>d. handle_request sv env req c st = HDone d \<and> \<not> r_relay d \<and>
           outp (r_conn d) = outp c @ [5, 0, 0, 1, 0, 0, 0, 0, 0, 0] @ [5, 3, 0, 1, 0, 0, 0, 0, 0, 0]"
proof -
  let ?c1 = "c\<lparr>outp := outp c @ reply_bytes 0, wleft := wleft c - 1\<rparr>"
  have "peekAndClassify (ne_peek env) ?c1 = (Some (inp c, True), ?c1\<lparr>inp := []\<rparr>)"
    using assms(7-10) by (auto simp: peekAndClassify_def Let_def)
  then have "sniff_fallback sv env (dial_policy sv (Host req) (Port req) (Session req)) req c st1 =
      HDone (dial_failed (?c1\<lparr>inp := []\<rparr>) st2)"
    using assms(5,6) by (simp add: sniff_fallback_def ReplySuccess_cases)
  then have "handle_request sv env req c st = HDone (dial_failed (?c1\<lparr>inp := []\<rparr>) st2)"
    using assms(1-4) by (simp add: handle_request_def)
  then show ?thesis using assms(6) by (simp add: dial_failed_def ReplyFail_cases reply_bytes_def)
qed

lemma fallback_failure_replies_twice_example:
  "let c = \<lparr>inp = bytes_of (''GET / HTTP/1.1'' @ crlf @ crlf), outp = [], wleft = 2\<rparr>;
       req = \<lparr>Host = ''ex'', Port = 443, TLS = True, Session = []\<rparr>
   in \<exists>d. handle_request demo_server (demo_env (Inl ErrUpstreamBlocked) (Inl ErrUpstreamBlocked)) req c demo_state = HDone d \<and>
        outp (r_conn d) = [5, 0, 0, 1, 0, 0, 0, 0, 0, 0, 5, 3, 0, 1, 0, 0, 0, 0, 0, 0]"
proof -
  let ?b = "bytes_of (''GET / HTTP/1.1'' @ crlf @ crlf)"
  let ?c = "\<lparr>inp = ?b, outp = [], wleft = 2\<rparr>" and ?req = "\<lparr>Host = ''ex'', Port = 443, TLS = True, Session = []\<rparr>"
  let ?env = "demo_env (Inl ErrUpstreamBlocked) (Inl ErrUpstreamBlocked)"
  let ?pol = "dial_policy demo_server (Host ?req) (Port ?req) (Session ?req)"
  have l: "length ?b = 18" by (simp add: crlf_def)
  have h: "LooksLikeHTTP ?b" using GET_is_HTTP [of "''/ HTTP/1.1'' @ crlf @ crlf"] by (simp add: crlf_def)
  have env: "ne_dial1 ?env = (\<lambda>_. demo_attempt [] (Inl ErrUpstreamBlocked))" "ne_dial2 ?env = (\<lambda>_. demo_attempt [] (Inl ErrUpstreamBlocked))"
    "ne_peek ?env = 18" by (simp_all add: demo_env_def)
  obtain st1 where d1: "run_dial demo_server ?env (ne_dial1 ?env) ?pol (Host ?req) (Port ?req) (TLS ?req) demo_state
      = (DErr ErrUpstreamBlocked, st1)" and g1: "s_guard st1 = s_guard demo_state"
    using demo_dial(2) [OF refl disjI1 [OF refl]] env by fastforce
  obtain st2 where d2: "run_dial demo_server ?env (ne_dial2 ?env) (?pol\<lparr>Mode := ModeFetch\<rparr>) (Host ?req) (Port ?req) (TLS ?req) st1
      = (DErr ErrUpstreamBlocked, st2)"
    using demo_dial(2) [OF g1 disjI2 [OF refl]] env by fastforce
  have s: "\<not> sv_RateLimit demo_server" "GetProxyMode demo_server = ModeHybrid" "Mode ?pol \<noteq> ModeFetch"
    by (simp_all add: demo_server_def GetProxyMode_def demo_pol [unfolded demo_server_def] mode_defs)
  from fallback_failure_replies_twice [OF s d1 d2, of ?c] l h env show ?thesis by auto
qed

end
