(* ===== verification/Base64.thy ===== *)
theory Base64
  imports Go_Base
begin

text \<open>
  Base64 as \<^verbatim>\<open>encoding/base64\<close> of the Go library has it, in the two variants the program uses:
  \<^verbatim>\<open>StdEncoding\<close> with padding (the Basic authentication of the HTTP front end) and
  \<^verbatim>\<open>RawURLEncoding\<close> without (session cookies and API keys). The decoder skips carriage returns and
  line feeds; the padded variant wants whole groups of four characters with padding only in the last
  one, the raw variant allows a last group of two or three characters.
\<close>

section \<open>Operations\<close>

record encoding =
  alphabet :: string
  padded :: bool

definition StdEncoding :: encoding where
  "StdEncoding = \<lparr>alphabet = ''ABCDEFGHIJKLMNOPQRSTUVWXYZabcdefghijklmnopqrstuvwxyz0123456789+/'', padded = True\<rparr>"

definition RawURLEncoding :: encoding where
  "RawURLEncoding = \<lparr>alphabet = ''ABCDEFGHIJKLMNOPQRSTUVWXYZabcdefghijklmnopqrstuvwxyz0123456789-_'', padded = False\<rparr>"

definition b64_char :: "encoding \<Rightarrow> nat \<Rightarrow> char" where
  "b64_char e n = alphabet e ! n"

definition b64_val :: "encoding \<Rightarrow> char \<Rightarrow> nat option" where
  "b64_val e c = index_byte (alphabet e) c"

definition pad :: char where "pad = CHR ''=''"

definition three_bytes :: "nat \<Rightarrow> bytes" where
  "three_bytes v = [of_nat (v div 65536), of_nat (v div 256 mod 256), of_nat (v mod 256)]"

definition b64_group :: "encoding \<Rightarrow> char \<Rightarrow> char \<Rightarrow> char \<Rightarrow> char \<Rightarrow> bytes option" where
  "b64_group e a b c d =
     (case (b64_val e a, b64_val e b, b64_val e c, b64_val e d) of
        (Some p, Some q, Some r, Some s) \<Rightarrow> Some (three_bytes (p * 262144 + q * 4096 + r * 64 + s))
      | _ \<Rightarrow> None)"

definition b64_two :: "encoding \<Rightarrow> char \<Rightarrow> char \<Rightarrow> bytes option" where
  "b64_two e a b = map_option (take 1) (b64_group e a b (b64_char e 0) (b64_char e 0))"

definition b64_three :: "encoding \<Rightarrow> char \<Rightarrow> char \<Rightarrow> char \<Rightarrow> bytes option" where
  "b64_three e a b c = map_option (take 2) (b64_group e a b c (b64_char e 0))"

definition b64_last :: "encoding \<Rightarrow> char \<Rightarrow> char \<Rightarrow> char \<Rightarrow> char \<Rightarrow> bytes option" where
  "b64_last e a b c d =
     (if \<not> padded e \<or> d \<noteq> pad then b64_group e a b c d
      else if c \<noteq> pad then b64_three e a b c else b64_two e a b)"

fun b64_groups :: "encoding \<Rightarrow> string \<Rightarrow> bytes option" where
  "b64_groups e [] = Some []"
| "b64_groups e [a, b] = (if padded e then None else b64_two e a b)"
| "b64_groups e [a, b, c] = (if padded e then None else b64_three e a b c)"
| "b64_groups e [a, b, c, d] = b64_last e a b c d"
| "b64_groups e (a # b # c # d # x # r) =
     (case b64_group e a b c d of
        None \<Rightarrow> None
      | Some bs \<Rightarrow> map_option (\<lambda>rest. bs @ rest) (b64_groups e (x # r)))"
| "b64_groups e _ = None"

definition newline_char :: "char \<Rightarrow> bool" where
  "newline_char c \<longleftrightarrow> of_char c = (13 :: nat) \<or> of_char c = (10 :: nat)"

definition b64_decode :: "encoding \<Rightarrow> string \<Rightarrow> bytes option" where
  "b64_decode e s = b64_groups e (filter (\<lambda>c. \<not> newline_char c) s)"

definition four_chars :: "encoding \<Rightarrow> nat \<Rightarrow> string" where
  "four_chars e v =
     [b64_char e (v div 262144), b64_char e (v div 4096 mod 64), b64_char e (v div 64 mod 64), b64_char e (v mod 64)]"

definition pack :: "u8 \<Rightarrow> u8 \<Rightarrow> u8 \<Rightarrow> nat" where
  "pack x y z = unat x * 65536 + unat y * 256 + unat z"

fun b64_encode :: "encoding \<Rightarrow> bytes \<Rightarrow> string" where
  "b64_encode e [] = []"
| "b64_encode e [x] = take 2 (four_chars e (pack x 0 0)) @ (if padded e then [pad, pad] else [])"
| "b64_encode e [x, y] = take 3 (four_chars e (pack x y 0)) @ (if padded e then [pad] else [])"
| "b64_encode e (x # y # z # r) = four_chars e (pack x y z) @ b64_encode e r"

section \<open>Lemmas\<close>

text \<open>What makes an alphabet usable, checked for both variants by evaluation.\<close>

definition wf_encoding :: "encoding \<Rightarrow> bool" where
  "wf_encoding e \<longleftrightarrow>
     list_all (\<lambda>n. b64_val e (b64_char e n) = Some n \<and> b64_char e n \<noteq> pad \<and> \<not> newline_char (b64_char e n)) [0..<64]"

lemma wf_StdEncoding [simp]: "wf_encoding StdEncoding" by code_simp

lemma wf_RawURLEncoding [simp]: "wf_encoding RawURLEncoding" by code_simp

lemma b64_char_props:
  assumes "wf_encoding e" "n < 64"
  shows "b64_val e (b64_char e n) = Some n" "b64_char e n \<noteq> pad" "\<not> newline_char (b64_char e n)"
  using assms by (simp_all add: list_all_iff wf_encoding_def)

lemma not_newline_pad [simp]: "\<not> newline_char pad" by (simp add: newline_char_def pad_def)

lemma sextets: "(v div 262144) * 262144 + (v div 4096 mod 64) * 4096 + (v div 64 mod 64) * 64 + v mod 64 = (v :: nat)"
proof -
  have a: "v div 64 = (v div 4096) * 64 + v div 64 mod 64" and b: "v div 4096 = (v div 262144) * 64 + v div 4096 mod 64"
    using div_mult_mod_eq [of "v div 64" 64] div_mult_mod_eq [of "v div 4096" 64]
    by (simp_all flip: div_mult2_eq)
  have c: "v = v div 64 * 64 + v mod 64" by simp
  show ?thesis using a b c by linarith
qed

lemma unat_u8: "unat (x :: u8) < 256"
  using unsigned_less [of x, where 'a = nat] by simp

lemma three_bytes_pack: "three_bytes (pack x y z) = [x, y, z]"
proof -
  note b = unat_u8 [of x] unat_u8 [of y] unat_u8 [of z]
  have q: "pack x y z = (unat x * 256 + unat y) * 256 + unat z" by (simp add: pack_def)
  then have d: "pack x y z div 256 = unat x * 256 + unat y" using b(3) by simp
  then have "pack x y z div 256 div 256 = unat x" using b(2) by simp
  then have "pack x y z div 65536 = unat x" by (simp flip: div_mult2_eq)
  moreover have "pack x y z mod 256 = unat z" unfolding q mod_mult_self3 using b(3) by simp
  moreover have "pack x y z div 256 mod 256 = unat y" unfolding d mod_mult_self3 using b(2) by simp
  ultimately show ?thesis by (simp add: three_bytes_def)
qed

lemma pack_less: "pack x y z < 16777216"
  using unat_u8 [of x] unat_u8 [of y] unat_u8 [of z] unfolding pack_def by linarith

lemma pack_low: "pack x y 0 mod 64 = 0" "pack x 0 0 div 64 mod 64 = 0"
proof -
  have "pack x y 0 = (unat x * 1024 + unat y * 4) * 64" "pack x 0 0 = (unat x * 16 * 64) * 64" by (simp_all add: pack_def)
  then show "pack x y 0 mod 64 = 0" "pack x 0 0 div 64 mod 64 = 0" by (simp_all only: mod_mult_self2_is_0) simp
qed

lemma b64_group_chars:
  assumes "wf_encoding e" "v < 16777216"
  shows "b64_group e (b64_char e (v div 262144)) (b64_char e (v div 4096 mod 64)) (b64_char e (v div 64 mod 64))
           (b64_char e (v mod 64)) = Some (three_bytes v)"
proof -
  have "v div 262144 < 64" using assms(2) by (simp add: div_less_iff_less_mult)
  then show ?thesis by (simp add: b64_group_def b64_char_props [OF assms(1)] sextets)
qed

lemma b64_one:
  "wf_encoding e \<Longrightarrow> b64_two e (b64_char e (pack x 0 0 div 262144)) (b64_char e (pack x 0 0 div 4096 mod 64)) = Some [x]"
  using b64_group_chars [OF _ pack_less, of e x 0 0] by (simp add: b64_two_def pack_low three_bytes_pack)

lemma b64_pair:
  "wf_encoding e \<Longrightarrow> b64_three e (b64_char e (pack x y 0 div 262144)) (b64_char e (pack x y 0 div 4096 mod 64))
     (b64_char e (pack x y 0 div 64 mod 64)) = Some [x, y]"
  using b64_group_chars [OF _ pack_less, of e x y 0] by (simp add: b64_three_def pack_low three_bytes_pack)

lemma four_chars_clean: "wf_encoding e \<Longrightarrow> list_all (\<lambda>c. \<not> newline_char c) (four_chars e (pack x y z))"
  using pack_less [of x y z] by (simp add: four_chars_def b64_char_props div_less_iff_less_mult)

lemma b64_encode_clean: "wf_encoding e \<Longrightarrow> list_all (\<lambda>c. \<not> newline_char c) (b64_encode e bs)"
proof (induction e bs rule: b64_encode.induct)
  case (2 e x)
  then show ?case using four_chars_clean [OF 2, of x 0 0] by (simp add: four_chars_def)
next
  case (3 e x y)
  then show ?case using four_chars_clean [OF 3, of x y 0] by (simp add: four_chars_def)
qed (simp_all add: four_chars_clean)

lemma b64_groups_append:
  "wf_encoding e \<Longrightarrow> v < 16777216 \<Longrightarrow> b64_groups e (four_chars e v @ s) = map_option (\<lambda>r. three_bytes v @ r) (b64_groups e s)"
  using b64_char_props(2) [of e "v mod 64"]
  by (cases s) (simp_all add: four_chars_def b64_last_def b64_group_chars)

lemma b64_roundtrip:
  assumes "wf_encoding e"
  shows "b64_decode e (b64_encode e bs) = Some bs"
proof -
  have f: "filter (\<lambda>c. \<not> newline_char c) (b64_encode e bs) = b64_encode e bs"
    using b64_encode_clean [OF assms, of bs] by (simp add: list_all_iff)
  have "b64_groups e (b64_encode e bs) = Some bs"
    using assms
  proof (induction e bs rule: b64_encode.induct)
    case (2 e x)
    then show ?case by (simp add: four_chars_def b64_last_def b64_one)
  next
    case (3 e x y)
    then have "b64_char e (pack x y 0 div 64 mod 64) \<noteq> pad" by (simp add: b64_char_props)
    with 3 show ?case by (simp add: four_chars_def b64_last_def b64_pair)
  next
    case (4 e x y z r)
    then show ?case by (simp add: b64_groups_append three_bytes_pack pack_less)
  qed simp
  with f show ?thesis by (simp add: b64_decode_def)
qed

end
