(* ===== verification/Http_Connect.thy ===== *)
theory Http_Connect
  imports Proxy_Server Base64
begin

text \<open>
  The HTTP CONNECT front end (\<^verbatim>\<open>internal/proxy/httpconnect.go\<close>). It shares the dial path and the
  bookkeeping of the SOCKS5 handler but reads its request through a \<^verbatim>\<open>bufio.Reader\<close>, so the model
  keeps the reader's buffer apart from the connection: bytes that sit in the buffer when the relay
  starts are no longer on the connection. How many bytes a read returns is the choice of the network,
  a function of the bytes still to come. The URL parser of the library, used only for a target in
  absolute form, is the argument \<open>url_host\<close>.
\<close>

section \<open>The buffered reader\<close>

definition bufio_size :: nat where "bufio_size = 4096"

definition read_len :: "(nat \<Rightarrow> nat) \<Rightarrow> bytes \<Rightarrow> bytes \<Rightarrow> nat" where
  "read_len chunk buf inpt = max 1 (min (chunk (length inpt)) (bufio_size - length buf))"

text \<open>\<^verbatim>\<open>br.ReadString('\n')\<close>: the line with its delimiter, and the buffer and input left behind; a full
  buffer without a delimiter is set aside and reading goes on.\<close>

function read_string :: "(nat \<Rightarrow> nat) \<Rightarrow> bytes \<Rightarrow> bytes \<Rightarrow> bytes \<Rightarrow> bytes option \<times> bytes \<times> bytes" where
  "read_string chunk acc buf inpt =
     (if 10 \<in> set buf then
        (Some (acc @ takeWhile (\<lambda>b. b \<noteq> 10) buf @ [10]), tl (dropWhile (\<lambda>b. b \<noteq> 10) buf), inpt)
      else if bufio_size \<le> length buf then read_string chunk (acc @ buf) [] inpt
      else if inpt = [] then (None, [], [])
      else (let k = read_len chunk buf inpt in read_string chunk acc (buf @ take k inpt) (drop k inpt)))"
  by auto

termination
  by (relation "measures [\<lambda>(chunk, acc, buf, inpt). length inpt, \<lambda>(chunk, acc, buf, inpt). length buf]")
     (auto simp: bufio_size_def read_len_def)

declare read_string.simps [simp del]

section \<open>Parsing\<close>

record httpReq =
  hr_method :: string
  hr_target :: string

definition auth_header :: string where "auth_header = ''proxy-authorization:''"

definition header_auth :: "string \<Rightarrow> string \<Rightarrow> string" where
  "header_auth h authHdr =
     (if has_prefix (to_lower h) auth_header then trim_space (drop (length auth_header) h) else authHdr)"

definition blank_line :: "string \<Rightarrow> bool" where
  "blank_line h \<longleftrightarrow> h = crlf \<or> h = [char_of (10 :: nat)]"

lemma read_string_measure:
  "read_string chunk acc buf inpt = (Some l, buf', inpt') \<Longrightarrow> length buf' + length inpt' < length buf + length inpt"
proof (induction chunk acc buf inpt rule: read_string.induct)
  case (1 chunk acc buf inpt)
  show ?case
  proof (cases "10 \<in> set buf")
    case True
    then have "dropWhile (\<lambda>b. b \<noteq> 10) buf \<noteq> []" by (auto simp: dropWhile_eq_Nil_conv)
    then have "length (tl (dropWhile (\<lambda>b. b \<noteq> 10) buf)) < length buf"
      using length_dropWhile_le [of "\<lambda>b. b \<noteq> 10" buf] by (cases "dropWhile (\<lambda>b. b \<noteq> 10) buf") auto
    with 1(3) True show ?thesis by (auto simp: read_string.simps)
  next
    case False
    show ?thesis
      using 1(1) [OF False] 1(2) [OF False _ _ refl] 1(3) False
      by (subst (asm) read_string.simps) (fastforce simp: Let_def bufio_size_def split: if_splits)
  qed
qed

function read_headers :: "(nat \<Rightarrow> nat) \<Rightarrow> string \<Rightarrow> bytes \<Rightarrow> bytes \<Rightarrow> string option \<times> bytes \<times> bytes" where
  "read_headers chunk authHdr buf inpt =
     (case read_string chunk [] buf inpt of
        (None, b, i) \<Rightarrow> (None, b, i)
      | (Some h, b, i) \<Rightarrow>
          if blank_line (string_of h) then (Some authHdr, b, i)
          else read_headers chunk (header_auth (string_of h) authHdr) b i)"
  by auto

termination
  by (relation "measure (\<lambda>(chunk, a, buf, inpt). length buf + length inpt)")
     (auto dest!: read_string_measure [OF sym])

declare read_headers.simps [simp del]

definition readHTTPRequest :: "(nat \<Rightarrow> nat) \<Rightarrow> bytes \<Rightarrow> (httpReq \<times> string) option \<times> bytes \<times> bytes" where
  "readHTTPRequest chunk inpt =
     (case read_string chunk [] [] inpt of
        (None, b, i) \<Rightarrow> (None, b, i)
      | (Some line, b, i) \<Rightarrow>
          (case split_n 3 (CHR '' '') (trim_space (string_of line)) of
             m # t # v # _ \<Rightarrow>
               (case read_headers chunk [] b i of
                  (None, b, i) \<Rightarrow> (None, b, i)
                | (Some a, b, i) \<Rightarrow> (Some (\<lparr>hr_method = m, hr_target = t\<rparr>, a), b, i))
           | _ \<Rightarrow> (None, b, i)))"

definition decodeBasicAuth :: "string \<Rightarrow> (string \<times> string) option" where
  "decodeBasicAuth h =
     (if \<not> has_prefix (to_lower h) ''basic '' then None
      else (case b64_decode StdEncoding (trim_space (drop 6 h)) of
              None \<Rightarrow> None
            | Some raw \<Rightarrow>
                (case index_byte (string_of raw) (CHR '':'') of
                   None \<Rightarrow> None
                 | Some i \<Rightarrow> Some (take i (string_of raw), drop (i + 1) (string_of raw)))))"

text \<open>\<^verbatim>\<open>net.SplitHostPort\<close> of the library.\<close>

definition last_index :: "string \<Rightarrow> char \<Rightarrow> nat option" where
  "last_index s c = map_option (\<lambda>i. length s - 1 - i) (index_byte (rev s) c)"

definition SplitHostPort :: "string \<Rightarrow> (string \<times> string) option" where
  "SplitHostPort hp =
     (case last_index hp (CHR '':'') of
        None \<Rightarrow> None
      | Some i \<Rightarrow>
          if hp ! 0 = CHR ''['' then
            (case index_byte hp (CHR '']'') of
               None \<Rightarrow> None
             | Some e \<Rightarrow>
                 if e + 1 \<noteq> i then None
                 else if CHR ''['' \<in> set (drop 1 hp) \<or> CHR '']'' \<in> set (drop (e + 1) hp) then None
                 else Some (take (e - 1) (drop 1 hp), drop (i + 1) hp))
          else (let host = take i hp
                in if CHR '':'' \<in> set host \<or> CHR ''['' \<in> set hp \<or> CHR '']'' \<in> set hp then None
                   else Some (host, drop (i + 1) hp)))"

definition splitHostPort :: "(string \<Rightarrow> string option) \<Rightarrow> string \<Rightarrow> (string \<times> int) option" where
  "splitHostPort url_host target =
     (let t = (if contains_str target ''://'' then url_host target else Some target)
      in case t of
           None \<Rightarrow> None
         | Some t \<Rightarrow>
             (case SplitHostPort t of
                None \<Rightarrow> None
              | Some (h, p) \<Rightarrow> (case atoi p of None \<Rightarrow> None | Some pn \<Rightarrow> Some (h, pn))))"

section \<open>Answers\<close>

definition httpStatusText :: "int \<Rightarrow> string" where
  "httpStatusText code =
     (if code = 200 then ''OK'' else if code = 400 then ''Bad Request'' else if code = 403 then ''Forbidden''
      else if code = 405 then ''Method Not Allowed'' else if code = 407 then ''Proxy Authentication Required''
      else if code = 502 then ''Bad Gateway'' else if code = 503 then ''Service Unavailable'' else ''Error'')"

definition http_status_msg :: "int \<Rightarrow> string \<Rightarrow> string" where
  "http_status_msg code extra =
     ''HTTP/1.1 '' @ itoa code @ '' '' @ httpStatusText code @ crlf @ ''Content-Length: 0'' @ crlf @
     (if code = 407 then extra @ crlf else []) @ ''Connection: close'' @ crlf @ crlf"

definition writeHTTPStatus :: "int \<Rightarrow> string \<Rightarrow> conn \<Rightarrow> conn" where
  "writeHTTPStatus code extra c = snd (conn_write (bytes_of (http_status_msg code extra)) c)"

definition established :: bytes where
  "established = bytes_of (''HTTP/1.1 200 Connection Established'' @ crlf @ crlf)"

definition filter_err_text :: "filter_err \<Rightarrow> string" where
  "filter_err_text e =
     (case e of
        PortDenied p \<Rightarrow> ''port '' @ itoa p @ '' not allowed''
      | IpDenied a \<Rightarrow> ''ip '' @ addr_String a @ '' in deny-list''
      | _ \<Rightarrow> [])"

section \<open>The handler\<close>

text \<open>After a request with its credentials has been accepted.\<close>

definition http_tunnel :: "'s contains \<Rightarrow> 's server \<Rightarrow> net_env \<Rightarrow> string \<Rightarrow> int \<Rightarrow> string \<Rightarrow> conn \<Rightarrow> sstate \<Rightarrow> hresult" where
  "http_tunnel contains sv env host port session c st =
     (case AllowHost contains (sv_Filter sv) host port of
        Some e \<Rightarrow> HDone (quiet_end (writeHTTPStatus 403 (filter_err_text e) c) st)
      | None \<Rightarrow>
          if sv_RateLimit sv \<and> \<not> ne_rate env then HDone (quiet_end (writeHTTPStatus 503 ''rate limited'' c) st)
          else (case run_dial sv env (ne_dial1 env) (dial_policy sv host port session) host port (port = 443) st of
                  (DErr e, st) \<Rightarrow>
                    HDone (quiet_end (writeHTTPStatus 502 ''dial failed'' c)
                      (upd_metrics (\<lambda>m. m\<lparr>DialFailTotal := DialFailTotal m + 1\<rparr>) st))
                | (DOk u w, st) \<Rightarrow>
                    (let st1 = stream_begin sv env w (upd_metrics (\<lambda>m. m\<lparr>DialSuccessTotal := DialSuccessTotal m + 1\<rparr>) st);
                         st2 = stream_end w st1
                     in case conn_write established c of
                          (True, c) \<Rightarrow> HDone \<lparr>r_conn = c, r_state = st2, r_up = [], r_relay = True\<rparr>
                        | (False, c) \<Rightarrow> HDone \<lparr>r_conn = c, r_state = st2, r_up = [], r_relay = False\<rparr>)
                | (DPanic, st) \<Rightarrow> HPanic
                | (DPending, st) \<Rightarrow> HWaiting))"

definition http_session :: "auth option \<Rightarrow> string \<Rightarrow> string option" where
  "http_session au authRaw =
     (case au of
        None \<Rightarrow> Some []
      | Some a \<Rightarrow>
          if User a = [] \<and> Pass a = [] then Some []
          else (case decodeBasicAuth authRaw of
                  None \<Rightarrow> None
                | Some (u, p) \<Rightarrow>
                    if \<not> authMatches u (User a) \<or> p \<noteq> Pass a then None else Some (extractSession u (User a))))"

definition handleHTTP ::
  "'s contains \<Rightarrow> (string \<Rightarrow> string option) \<Rightarrow> (nat \<Rightarrow> nat) \<Rightarrow> 's server \<Rightarrow> net_env \<Rightarrow> conn \<Rightarrow> sstate \<Rightarrow> hresult" where
  "handleHTTP contains url_host chunk sv env c st =
     (let st1 = active 1 (upd_metrics (\<lambda>m. m\<lparr>ConnectionsTotal := ConnectionsTotal m + 1\<rparr>) st)
      in leave (case readHTTPRequest chunk (inp c) of
           (None, buf, i) \<Rightarrow> HDone (quiet_end (c\<lparr>inp := i\<rparr>) st1)
         | (Some (req, authRaw), buf, i) \<Rightarrow>
             (let c1 = c\<lparr>inp := i\<rparr>
              in if hr_method req \<noteq> ''CONNECT'' then HDone (quiet_end (writeHTTPStatus 405 ''use CONNECT method'' c1) st1)
                 else (case http_session (sv_Auth sv) authRaw of
                         None \<Rightarrow>
                           HDone (quiet_end (writeHTTPStatus 407 ''Proxy-Authenticate: Basic realm=\"flarex\"'' c1) st1)
                       | Some session \<Rightarrow>
                           (case splitHostPort url_host (hr_target req) of
                              None \<Rightarrow> HDone (quiet_end (writeHTTPStatus 400 ''bad target'' c1) st1)
                            | Some (host, port) \<Rightarrow> http_tunnel contains sv env host port session c1 st1)))))"

section \<open>Lemmas: reading conserves the bytes\<close>

lemma read_string_conserves:
  "read_string chunk acc buf inpt = (Some l, buf', inpt') \<Longrightarrow> length buf \<le> bufio_size \<Longrightarrow>
     acc @ buf @ inpt = l @ buf' @ inpt' \<and> length buf' \<le> bufio_size"
proof (induction chunk acc buf inpt rule: read_string.induct)
  case (1 chunk acc buf inpt)
  show ?case
  proof (cases "10 \<in> set buf")
    case True
    let ?d = "dropWhile (\<lambda>b. b \<noteq> 10) buf"
    have ne: "?d \<noteq> []" using True by (auto simp: dropWhile_eq_Nil_conv)
    then have d: "?d \<noteq> []" "hd ?d = 10" using hd_dropWhile [OF ne] by simp_all
    then have "buf = takeWhile (\<lambda>b. b \<noteq> 10) buf @ 10 # tl ?d"
      by (metis list.collapse takeWhile_dropWhile_id)
    moreover have "length ?d \<le> length buf" by (rule length_dropWhile_le)
    ultimately show ?thesis using 1(3,4) True by (auto simp: read_string.simps)
  next
    case False
    show ?thesis
    proof (cases "bufio_size \<le> length buf")
      case True
      with 1(1) [OF False True] 1(3) False show ?thesis by (subst (asm) read_string.simps) (simp add: bufio_size_def)
    next
      case nf: False
      show ?thesis
      proof (cases "inpt = []")
        case True
        with 1(3) False nf show ?thesis by (simp add: read_string.simps)
      next
        case ne: False
        let ?k = "read_len chunk buf inpt"
        have "length (buf @ take ?k inpt) \<le> bufio_size" using nf by (auto simp: read_len_def)
        moreover have "read_string chunk acc (buf @ take ?k inpt) (drop ?k inpt) = (Some l, buf', inpt')"
          using 1(3) False nf ne by (subst (asm) read_string.simps) (simp add: Let_def)
        ultimately show ?thesis using 1(2) [OF False nf ne refl] by simp
      qed
    qed
  qed
qed

lemma read_headers_conserves:
  "read_headers chunk a buf inpt = (Some r, buf', inpt') \<Longrightarrow> length buf \<le> bufio_size \<Longrightarrow>
     \<exists>hdr. buf @ inpt = hdr @ buf' @ inpt' \<and> length buf' \<le> bufio_size"
proof (induction chunk a buf inpt rule: read_headers.induct)
  case (1 chunk a buf inpt)
  obtain o' b i where rs: "read_string chunk [] buf inpt = (o', b, i)" by (metis surj_pair)
  show ?case
  proof (cases o')
    case None
    with 1(2) rs show ?thesis by (simp add: read_headers.simps)
  next
    case (Some h)
    note c = read_string_conserves [OF rs [unfolded Some] 1(3)]
    show ?thesis
    proof (cases "blank_line (string_of h)")
      case True
      with 1(2) rs Some c show ?thesis by (subst (asm) read_headers.simps) auto
    next
      case False
      have "read_headers chunk (header_auth (string_of h) a) b i = (Some r, buf', inpt')"
        using 1(2) rs Some False by (subst (asm) read_headers.simps) simp
      with 1(1) [OF rs [symmetric] Some refl False] c obtain hdr where "b @ i = hdr @ buf' @ inpt'"
        "length buf' \<le> bufio_size" by auto
      with c show ?thesis by (intro exI [of _ "h @ hdr"]) simp
    qed
  qed
qed

lemma readHTTPRequest_conserves:
  assumes "readHTTPRequest chunk inpt = (Some r, buf, inpt')"
  shows "\<exists>hdr. inpt = hdr @ buf @ inpt' \<and> length buf \<le> bufio_size"
proof -
  obtain o' b i where rs: "read_string chunk [] [] inpt = (o', b, i)" by (metis surj_pair)
  with assms obtain l where l: "o' = Some l" by (cases o') (auto simp: readHTTPRequest_def)
  note c = read_string_conserves [OF rs [unfolded l]]
  have "\<exists>a. read_headers chunk [] b i = (Some a, buf, inpt')"
    using assms rs l by (auto simp: readHTTPRequest_def split: list.splits prod.splits option.splits)
  then obtain a where "read_headers chunk [] b i = (Some a, buf, inpt')" ..
  from read_headers_conserves [OF this] c obtain hdr where "b @ i = hdr @ buf @ inpt'" "length buf \<le> bufio_size" by auto
  with c show ?thesis by (intro exI [of _ "l @ hdr"]) simp
qed

text \<open>Once the connection is drained, reading never goes back to it.\<close>

lemma read_string_drained: "read_string chunk acc buf [] = (r, buf', inpt') \<Longrightarrow> inpt' = []"
proof (induction "length buf" arbitrary: acc buf rule: less_induct)
  case less
  show ?case
  proof (cases "buf = []")
    case True
    with less.prems show ?thesis by (simp add: read_string.simps bufio_size_def)
  next
    case False
    then show ?thesis
      using less.prems less.hyps [of "[]" "acc @ buf"]
      by (subst (asm) read_string.simps) (auto simp: bufio_size_def split: if_splits)
  qed
qed

lemma read_headers_drained: "read_headers chunk a buf inpt = (r, buf', inpt') \<Longrightarrow> inpt = [] \<Longrightarrow> inpt' = []"
proof (induction chunk a buf inpt rule: read_headers.induct)
  case (1 chunk a buf inpt)
  obtain o' b i where rs: "read_string chunk [] buf inpt = (o', b, i)" by (metis surj_pair)
  then have i: "i = []" using read_string_drained 1(3) by blast
  show ?case
  proof (cases o')
    case None
    with 1(2) rs i show ?thesis by (simp add: read_headers.simps)
  next
    case (Some h)
    show ?thesis
    proof (cases "blank_line (string_of h)")
      case True
      with 1(2) rs i Some show ?thesis by (subst (asm) read_headers.simps) simp
    next
      case False
      have "read_headers chunk (header_auth (string_of h) a) b i = (r, buf', inpt')"
        using 1(2) rs Some False by (subst (asm) read_headers.simps) simp
      with 1(1) [OF rs [symmetric] Some refl False] i show ?thesis by simp
    qed
  qed
qed

lemma readHTTPRequest_drained:
  assumes "readHTTPRequest chunk inpt = (r, buf, inpt')" "length inpt \<le> bufio_size" "length inpt \<le> chunk (length inpt)"
  shows "inpt' = []"
proof -
  obtain o' b i where rs: "read_string chunk [] [] inpt = (o', b, i)" by (metis surj_pair)
  have "i = []"
  proof (cases "inpt = []")
    case True
    with rs show ?thesis using read_string_drained by blast
  next
    case False
    have "take (read_len chunk [] inpt) inpt = inpt" "drop (read_len chunk [] inpt) inpt = []"
      using assms(2,3) by (simp_all add: read_len_def)
    then have "read_string chunk [] inpt [] = (o', b, i)"
      using rs False by (subst (asm) read_string.simps) (simp add: Let_def bufio_size_def)
    then show ?thesis by (rule read_string_drained)
  qed
  then show ?thesis using assms(1) rs read_headers_drained [of chunk "[]" b i]
    by (auto simp: readHTTPRequest_def split: option.splits list.splits prod.splits)
qed

section \<open>Lemmas: the shape of a handled CONNECT\<close>

lemma http_tunnel_relay:
  assumes "http_tunnel contains sv env host port session c st = HDone d" "r_relay d"
  shows "AllowHost contains (sv_Filter sv) host port = None \<and> inp (r_conn d) = inp c \<and> r_up d = [] \<and>
         outp (r_conn d) = outp c @ established \<and> (sv_RateLimit sv \<longrightarrow> ne_rate env)"
  using assms
  by (auto simp: http_tunnel_def quiet_end_def Let_def conn_write_def
      split: option.splits if_splits prod.splits outcome.splits bool.splits)

lemma handleHTTP_relay:
  assumes "handleHTTP contains url_host chunk sv env c st = HDone d" "r_relay d"
  obtains req authRaw buf host port session where
    "readHTTPRequest chunk (inp c) = (Some (req, authRaw), buf, inp (r_conn d))"
    "hr_method req = ''CONNECT''" "http_session (sv_Auth sv) authRaw = Some session"
    "splitHostPort url_host (hr_target req) = Some (host, port)"
    "AllowHost contains (sv_Filter sv) host port = None"
    "outp (r_conn d) = outp c @ established" "r_up d = []"
proof -
  let ?st = "active 1 (upd_metrics (\<lambda>m. m\<lparr>ConnectionsTotal := ConnectionsTotal m + 1\<rparr>) st)"
  obtain o' buf i where rd: "readHTTPRequest chunk (inp c) = (o', buf, i)" by (metis surj_pair)
  have q: "\<not> r_relay (quiet_end c' st')" for c' st' by (simp add: quiet_end_def)
  from assms rd obtain req authRaw where r: "o' = Some (req, authRaw)"
    by (cases o') (auto simp: handleHTTP_def leave_def Let_def quiet_end_def)
  from assms rd r have m: "hr_method req = ''CONNECT''"
    by (auto simp: handleHTTP_def leave_def Let_def quiet_end_def split: if_splits)
  from assms rd r m obtain session where s: "http_session (sv_Auth sv) authRaw = Some session"
    by (auto simp: handleHTTP_def leave_def Let_def quiet_end_def split: option.splits)
  from assms rd r m s obtain host port where t: "splitHostPort url_host (hr_target req) = Some (host, port)"
    by (auto simp: handleHTTP_def leave_def Let_def quiet_end_def split: option.splits)
  from assms rd r m s t obtain d' where d: "http_tunnel contains sv env host port session (c\<lparr>inp := i\<rparr>) ?st = HDone d'"
    "d = d'\<lparr>r_state := active (- 1) (r_state d')\<rparr>"
    by (auto simp: handleHTTP_def leave_def Let_def split: hresult.splits)
  have "r_relay d'" using d(2) assms(2) by simp
  from http_tunnel_relay [OF d(1) this] d(2) have "AllowHost contains (sv_Filter sv) host port = None"
    "inp (r_conn d) = i" "outp (r_conn d) = outp c @ established" "r_up d = []" by simp_all
  with rd r m s t show ?thesis by (intro that) simp_all
qed

section \<open>A concrete client\<close>

definition demo_connect :: "string \<Rightarrow> string \<Rightarrow> bytes" where
  "demo_connect target rest = bytes_of (''CONNECT '' @ target @ '' HTTP/1.1'' @ crlf @ crlf @ rest)"

lemma demo_read:
  "readHTTPRequest (\<lambda>n. n) (demo_connect ''ex:443'' ''PING'') =
     (Some (\<lparr>hr_method = ''CONNECT'', hr_target = ''ex:443''\<rparr>, []), bytes_of ''PING'', [])"
  by code_simp

lemma demo_split: "splitHostPort (\<lambda>_. None) ''ex:443'' = Some (''ex'', 443)" by code_simp


definition demo_client :: "string \<Rightarrow> conn" where
  "demo_client target = \<lparr>inp = demo_connect target ''PING'', outp = [], wleft = 1\<rparr>"

lemma demo_http:
  "\<exists>d. handleHTTP list_contains (\<lambda>_. None) (\<lambda>n. n) demo_server (demo_env (Inr 5) (Inr 5)) (demo_client ''ex:443'') demo_state
     = HDone d \<and> r_relay d"
proof -
  let ?st = "active 1 (upd_metrics (\<lambda>m. m\<lparr>ConnectionsTotal := ConnectionsTotal m + 1\<rparr>) demo_state)"
  obtain st' where d: "run_dial demo_server (demo_env (Inr 5) (Inr 5)) (\<lambda>_. demo_attempt [] (Inr 5))
      (dial_policy demo_server ''ex'' 443 []) ''ex'' 443 True ?st = (DOk 5 3, st')"
    using demo_dial(1) [of ?st _ "Inr 5" "Inr 5", OF _ disjI1 [OF refl]] by (auto simp: active_def upd_metrics_def)
  have 1: "ne_dial1 (demo_env (Inr 5) (Inr 5)) = (\<lambda>_. demo_attempt [] (Inr 5))" "\<not> sv_RateLimit demo_server"
    "sv_Auth demo_server = None" "sv_Filter demo_server = open_filter"
    by (simp_all add: demo_env_def demo_server_def)
  show ?thesis
    using d by (simp add: handleHTTP_def Let_def demo_client_def demo_read demo_split http_session_def http_tunnel_def
        1 leave_def conn_write_def)
qed

lemma demo_dial_long:
  assumes "s_guard st = s_guard demo_state"
  shows "\<exists>st'. run_dial demo_server (demo_env r1 r2) (\<lambda>_. demo_attempt [] (Inl ErrUpstreamBlocked))
           (dial_policy demo_server ''ex'' 10000000000 []) ''ex'' 10000000000 False st = (DPanic, st')"
proof -
  have g: "g_heap (s_guard st) = demo_heap" "g_pool (s_guard st) = pool_New [3, 4]" "sv_Scheduler demo_server = leastInflight_Next"
    using assms by (simp_all add: demo_state_def demo_server_def)
  let ?pol = "dial_policy demo_server ''ex'' 10000000000 []"
  have p: "MaxRetries ?pol = 2" "BaseBackoff ?pol = 1" "HedgeAfter ?pol = 0" "SessionID ?pol = []" "\<not> AutoFetchFallback ?pol"
    by (simp_all add: dial_policy_def demo_server_def)
  then have n: "normalize_policy ?pol = ?pol" by (simp add: normalize_policy_def)
  show ?thesis
    by (simp add: run_dial_def g DialWithPolicy_def n p Let_def numeral_2_eq_2 dial_attempt_def pick_worker_def demo_pick
        dialOnceWithHedge_def demo_attempt_def dialBreak_def after_dial_def Mark_panics split: prod.split)
qed

section \<open>Lemmas: credentials\<close>

lemma b64_no_space:
  assumes "c \<in> set (b64_encode StdEncoding bs)"
  shows "\<not> is_space c"
proof -
  have a: "list_all (\<lambda>c. \<not> is_space c) (alphabet StdEncoding)" by code_simp
  have l: "length (alphabet StdEncoding) = 64" by code_simp
  have ch: "\<not> is_space (b64_char StdEncoding n)" if "n < 64" for n
    using a l that by (simp add: b64_char_def list_all_iff)
  have f: "\<not> is_space c" if "c \<in> set (four_chars StdEncoding (pack x y z))" for c x y z
    using that ch pack_less [of x y z] by (auto simp: four_chars_def div_less_iff_less_mult)
  have p: "\<not> is_space pad" by (simp add: pad_def is_space_def)
  show ?thesis
    using assms
  proof (induction StdEncoding bs rule: b64_encode.induct)
    case (2 x)
    then show ?case using f [of c x 0 0] p by (auto dest: in_set_takeD split: if_splits)
  next
    case (3 x y)
    then show ?case using f [of c x y 0] p by (auto dest: in_set_takeD split: if_splits)
  next
    case (4 x y z r)
    then show ?case using f [of c x y z] by auto
  qed simp
qed

lemma trim_space_id: "(\<And>c. c \<in> set s \<Longrightarrow> \<not> is_space c) \<Longrightarrow> trim_space s = s"
proof -
  have d: "dropWhile is_space t = t" if "\<And>c. c \<in> set t \<Longrightarrow> \<not> is_space c" for t using that by (cases t) auto
  assume n: "\<And>c. c \<in> set s \<Longrightarrow> \<not> is_space c"
  have "dropWhile is_space s = s" "dropWhile is_space (rev s) = rev s" by (rule d, use n in simp)+
  then show ?thesis by (simp add: trim_space_def)
qed

section \<open>Properties\<close>

text \<open>
  C14. The HTTP front end is guarded. When \<^verbatim>\<open>handleHTTP\<close> starts relaying, the client asked for
  CONNECT, presented the configured credentials (when any are configured), named a target that parses
  to a host and port the filter allows, and has been sent the 200 answer and nothing else; the bytes
  read from it are the request head and at most one reader's buffer.
\<close>

theorem http_connect_guarded:
  assumes "handleHTTP contains url_host chunk sv env c st = HDone d" and "r_relay d"
  shows "\<exists>req authRaw buf host port hdr.
           readHTTPRequest chunk (inp c) = (Some (req, authRaw), buf, inp (r_conn d)) \<and>
           hr_method req = ''CONNECT'' \<and>
           (case sv_Auth sv of
              None \<Rightarrow> True
            | Some a \<Rightarrow> User a = [] \<and> Pass a = [] \<or>
                (\<exists>u. decodeBasicAuth authRaw = Some (u, Pass a) \<and> authMatches u (User a))) \<and>
           splitHostPort url_host (hr_target req) = Some (host, port) \<and>
           AllowHost contains (sv_Filter sv) host port = None \<and>
           outp (r_conn d) = outp c @ established \<and>
           inp c = hdr @ buf @ inp (r_conn d) \<and> length buf \<le> 4096"
proof -
  from assms obtain req authRaw buf host port session where
    1: "readHTTPRequest chunk (inp c) = (Some (req, authRaw), buf, inp (r_conn d))"
    and 2: "hr_method req = ''CONNECT''" and s: "http_session (sv_Auth sv) authRaw = Some session"
    and 3: "splitHostPort url_host (hr_target req) = Some (host, port)"
    and 4: "AllowHost contains (sv_Filter sv) host port = None"
    and 5: "outp (r_conn d) = outp c @ established"
    by (rule handleHTTP_relay)
  have a: "case sv_Auth sv of None \<Rightarrow> True | Some a \<Rightarrow> User a = [] \<and> Pass a = [] \<or>
      (\<exists>u. decodeBasicAuth authRaw = Some (u, Pass a) \<and> authMatches u (User a))"
    using s by (auto simp: http_session_def split: option.splits if_splits)
  from readHTTPRequest_conserves [OF 1] obtain hdr where
    "inp c = hdr @ buf @ inp (r_conn d)" "length buf \<le> 4096" by (auto simp: bufio_size_def)
  with 1 2 3 4 5 a show ?thesis by blast
qed

theorem http_connect_guarded_witness:
  "\<exists>d req authRaw buf. handleHTTP list_contains (\<lambda>_. None) (\<lambda>n. n) demo_server (demo_env (Inr 5) (Inr 5))
       (demo_client ''ex:443'') demo_state = HDone d \<and>
     readHTTPRequest (\<lambda>n. n) (inp (demo_client ''ex:443'')) = (Some (req, authRaw), buf, inp (r_conn d)) \<and>
     hr_method req = ''CONNECT'' \<and> outp (r_conn d) = outp (demo_client ''ex:443'') @ established"
proof -
  from demo_http obtain d where "handleHTTP list_contains (\<lambda>_. None) (\<lambda>n. n) demo_server (demo_env (Inr 5) (Inr 5))
       (demo_client ''ex:443'') demo_state = HDone d" "r_relay d" by blast
  from http_connect_guarded [OF this] this(1) show ?thesis by blast
qed

text \<open>
  Bytes sent together with the request are lost: when the whole input arrives in one segment
  of at most 4096 bytes, the reader's buffer swallows all of it, and the relay starts with nothing
  left on the connection and nothing written upstream, whatever followed the request head.
\<close>

lemma http_pipelined_bytes_lost:
  assumes "handleHTTP contains url_host chunk sv env c st = HDone d" and "r_relay d"
    and "length (inp c) \<le> 4096" and "chunk (length (inp c)) = length (inp c)"
  shows "inp (r_conn d) = [] \<and> r_up d = []"
proof -
  from assms(1,2) obtain req authRaw buf where
    "readHTTPRequest chunk (inp c) = (Some (req, authRaw), buf, inp (r_conn d))" and u: "r_up d = []"
    by (rule handleHTTP_relay)
  from readHTTPRequest_drained [OF this(1)] assms(3,4) u show ?thesis by (simp add: bufio_size_def)
qed

lemma http_pipelined_bytes_lost_example:
  "\<exists>d pre. handleHTTP list_contains (\<lambda>_. None) (\<lambda>n. n) demo_server (demo_env (Inr 5) (Inr 5))
       (demo_client ''ex:443'') demo_state = HDone d \<and> r_relay d \<and>
     inp (demo_client ''ex:443'') = pre @ bytes_of ''PING'' \<and> inp (r_conn d) = [] \<and> r_up d = []"
proof -
  from demo_http obtain d where d: "handleHTTP list_contains (\<lambda>_. None) (\<lambda>n. n) demo_server (demo_env (Inr 5) (Inr 5))
       (demo_client ''ex:443'') demo_state = HDone d" "r_relay d" by blast
  have l: "length (inp (demo_client ''ex:443'')) \<le> 4096"
    by (simp add: demo_client_def demo_connect_def crlf_def)
  have "inp (demo_client ''ex:443'') = bytes_of (''CONNECT ex:443 HTTP/1.1'' @ crlf @ crlf) @ bytes_of ''PING''"
    by (simp add: demo_client_def demo_connect_def bytes_of_def)
  with http_pipelined_bytes_lost [OF d l refl] d show ?thesis by blast
qed

text \<open>
  Basic credentials survive the header: decoding the standard encoding of a user without a
  colon and any password gives them back, so that a client with the configured user (or a session of
  it) and password is let in with exactly its session.
\<close>

lemma basic_auth_roundtrip:
  assumes "CHR '':'' \<notin> set u" and "authMatches u (User a)" and "p = Pass a"
  shows "http_session (Some a) (''Basic '' @ b64_encode StdEncoding (bytes_of (u @ CHR '':'' # p))) =
           Some (if User a = [] \<and> Pass a = [] then [] else extractSession u (User a))"
proof -
  let ?e = "b64_encode StdEncoding (bytes_of (u @ CHR '':'' # p))"
  have "has_prefix (to_lower (''Basic '' @ ?e)) ''basic ''"
    by (simp add: has_prefix_def to_lower_def lower_char_def char_of_eq_iff)
  moreover have "trim_space (drop 6 (''Basic '' @ ?e)) = ?e"
    using trim_space_id [of ?e] b64_no_space by simp
  ultimately have "decodeBasicAuth (''Basic '' @ ?e) = Some (u, p)"
    using assms(1) by (simp add: decodeBasicAuth_def b64_roundtrip del: append.simps)
  then show ?thesis using assms(2,3) by (simp add: http_session_def)
qed

lemma basic_auth_roundtrip_example:
  "http_session (Some \<lparr>User = ''bob'', Pass = ''pw''\<rparr>)
     (''Basic '' @ b64_encode StdEncoding (bytes_of (''bob-session-7'' @ CHR '':'' # ''pw''))) = Some ''7''"
  using basic_auth_roundtrip [of "''bob-session-7''" "\<lparr>User = ''bob'', Pass = ''pw''\<rparr>" "''pw''"]
  by (simp add: authMatches_def extractSession_def session_match_def)

text \<open>
  A client of the HTTP front end can crash the process: with a target port of eleven digits,
  which \<^verbatim>\<open>strconv.Atoi\<close> and the port filter accept, the handler panics as soon as a worker answers
  that the target is blocked.
\<close>

lemma http_long_port_panics:
  "handleHTTP list_contains (\<lambda>_. None) (\<lambda>n. n) demo_server (demo_env (Inl ErrUpstreamBlocked) (Inl ErrUpstreamBlocked))
     (demo_client ''ex:10000000000'') demo_state = HPanic"
proof -
  let ?st = "active 1 (upd_metrics (\<lambda>m. m\<lparr>ConnectionsTotal := ConnectionsTotal m + 1\<rparr>) demo_state)"
  let ?env = "demo_env (Inl ErrUpstreamBlocked) (Inl ErrUpstreamBlocked)"
  have r: "readHTTPRequest (\<lambda>n. n) (demo_connect ''ex:10000000000'' ''PING'') =
     (Some (\<lparr>hr_method = ''CONNECT'', hr_target = ''ex:10000000000''\<rparr>, []), bytes_of ''PING'', [])" by code_simp
  have i: "itoa 10000000000 = ''10000000000''"
    by (simp add: itoa_def dec_rec [of "10000000000"] dec_rec digit_def char_of_eq_iff)
  have "atoi ''10000000000'' = Some 10000000000" unfolding i [symmetric] by (rule atoi_itoa) (simp add: int64_range_def)
  moreover have "SplitHostPort ''ex:10000000000'' = Some (''ex'', ''10000000000'')" by code_simp
  moreover have "\<not> contains_str ''ex:10000000000'' ''://''" by code_simp
  ultimately have s: "splitHostPort (\<lambda>_. None) ''ex:10000000000'' = Some (''ex'', 10000000000)" by (simp add: splitHostPort_def)
  have "s_guard ?st = s_guard demo_state" by (simp add: active_def upd_metrics_def)
  from demo_dial_long [OF this, of "Inl ErrUpstreamBlocked" "Inl ErrUpstreamBlocked"] obtain st' where
    d: "run_dial demo_server ?env (\<lambda>_. demo_attempt [] (Inl ErrUpstreamBlocked))
      (dial_policy demo_server ''ex'' 10000000000 []) ''ex'' 10000000000 False ?st = (DPanic, st')" ..
  have 1: "ne_dial1 ?env = (\<lambda>_. demo_attempt [] (Inl ErrUpstreamBlocked))" "\<not> sv_RateLimit demo_server"
    "sv_Auth demo_server = None" "sv_Filter demo_server = open_filter"
    by (simp_all add: demo_env_def demo_server_def)
  show ?thesis
    using d by (simp add: handleHTTP_def Let_def demo_client_def r s http_session_def http_tunnel_def 1 leave_def)
qed

end
