(* ===== verification/State_Store.thy ===== *)
theory State_Store
  imports Quota_Guard Tunnel "HOL-Library.Char_ord" "HOL-Library.List_Lexorder"
begin

text \<open>
  The persistent store (\<^verbatim>\<open>internal/state/state.go\<close>). The database package bbolt is not part of the
  repository: its buckets are an argument of the operations (insert, delete, and the entries in the
  order of a cursor), and \<open>bucket_ok\<close> states what its documentation promises, an ordered map from byte
  strings to byte strings. The JSON codec of a row type is a pair of functions in the same way. Each
  writing operation takes a flag that says whether its transaction commits; a transaction that does
  not commit changes nothing and is the error of the call.
\<close>

section \<open>Buckets\<close>

record 'b bucket_ops =
  bo_put :: "string \<Rightarrow> bytes \<Rightarrow> 'b \<Rightarrow> 'b"
  bo_delete :: "string \<Rightarrow> 'b \<Rightarrow> 'b"
  bo_items :: "'b \<Rightarrow> (string \<times> bytes) list"

definition bucket_ok :: "'b bucket_ops \<Rightarrow> bool" where
  "bucket_ok bo \<longleftrightarrow>
     (\<forall>b. sorted_wrt (<) (map fst (bo_items bo b))) \<and>
     (\<forall>k v b. map_of (bo_items bo (bo_put bo k v b)) = (map_of (bo_items bo b))(k \<mapsto> v)) \<and>
     (\<forall>k b. map_of (bo_items bo (bo_delete bo k b)) = (map_of (bo_items bo b))(k := None))"

definition bo_get :: "'b bucket_ops \<Rightarrow> string \<Rightarrow> 'b \<Rightarrow> bytes option" where
  "bo_get bo k b = map_of (bo_items bo b) k"

text \<open>A codec: \<open>json.Marshal\<close> of a row and \<open>json.Unmarshal\<close> into it.\<close>

record 'r codec =
  marshal :: "'r \<Rightarrow> bytes"
  unmarshal :: "bytes \<Rightarrow> 'r option"

section \<open>Rows and the store\<close>

record worker_rec =
  wr_Name :: string
  wr_AccountID :: string
  wr_URL :: string
  wr_CreatedAt :: time
  wr_Requests :: u64
  wr_Backend :: string
  wr_Hostname :: string
  wr_ZoneID :: string
  wr_RecordID :: string

record api_key =
  ak_ID :: string
  ak_Name :: string
  ak_Hash :: string
  ak_Prefix :: string
  ak_Scopes :: "string list"
  ak_Disabled :: bool
  ak_CreatedAt :: time
  ak_LastUsedAt :: "time option"
  ak_ExpiresAt :: "time option"

record audit_event =
  ae_At :: time
  ae_Who :: string
  ae_Action :: string
  ae_Target :: string
  ae_Detail :: string

record 'b store =
  bucketWorkers :: 'b
  bucketQuotas :: 'b
  bucketAPIKeys :: 'b
  bucketAuditLog :: 'b
  bucketMetricsSeries :: 'b
  bucketTestHistory :: 'b

datatype store_err = TxFailed | KeyNotFound | BadRow

definition testHistoryCap :: nat where "testHistoryCap = 100"

text \<open>\<^verbatim>\<open>Sprintf("%016x", t)\<close>: hexadecimal digits, padded with zeros to sixteen.\<close>

fun hexnum :: "nat \<Rightarrow> string" where
  "hexnum n = (if n < 16 then [nibble n] else hexnum (n div 16) @ [nibble (n mod 16)])"

declare hexnum.simps [simp del]

definition zpad :: "nat \<Rightarrow> string \<Rightarrow> string" where
  "zpad w s = replicate (w - length s) (CHR ''0'') @ s"

definition micro_key :: "time \<Rightarrow> string" where
  "micro_key t = (if t < 0 then CHR ''-'' # zpad 15 (hexnum (nat (- t))) else zpad 16 (hexnum (nat t)))"

section \<open>Operations\<close>

definition update_tx :: "bool \<Rightarrow> ('b store \<Rightarrow> 'b store) \<Rightarrow> 'b store \<Rightarrow> store_err option \<times> 'b store" where
  "update_tx commit f st = (if commit then (None, f st) else (Some TxFailed, st))"

text \<open>\<^verbatim>\<open>ForEach\<close> with a body that decodes a row and stops at the first bad one.\<close>

fun decode_rows :: "'r codec \<Rightarrow> (string \<times> bytes) list \<Rightarrow> store_err option \<times> 'r list" where
  "decode_rows cd [] = (None, [])"
| "decode_rows cd ((k, v) # kvs) =
     (case unmarshal cd v of
        None \<Rightarrow> (Some BadRow, [])
      | Some r \<Rightarrow> (let (e, rs) = decode_rows cd kvs in (e, r # rs)))"

text \<open>Walking a cursor backwards, skipping bad rows, until the limit is reached.\<close>

fun newest_rows :: "(bytes \<Rightarrow> 'r option) \<Rightarrow> int \<Rightarrow> nat \<Rightarrow> (string \<times> bytes) list \<Rightarrow> 'r list" where
  "newest_rows dcd limit n [] = []"
| "newest_rows dcd limit n ((k, v) # kvs) =
     (case dcd v of
        None \<Rightarrow> newest_rows dcd limit n kvs
      | Some r \<Rightarrow> if limit > 0 \<and> int (Suc n) \<ge> limit then [r] else r # newest_rows dcd limit (Suc n) kvs)"

definition PutAPIKey :: "'b bucket_ops \<Rightarrow> api_key codec \<Rightarrow> bool \<Rightarrow> api_key \<Rightarrow> 'b store \<Rightarrow> store_err option \<times> 'b store" where
  "PutAPIKey bo cd commit k st =
     update_tx commit (\<lambda>st. st\<lparr>bucketAPIKeys := bo_put bo (ak_ID k) (marshal cd k) (bucketAPIKeys st)\<rparr>) st"

definition ListAPIKeys :: "'b bucket_ops \<Rightarrow> api_key codec \<Rightarrow> 'b store \<Rightarrow> store_err option \<times> api_key list" where
  "ListAPIKeys bo cd st = decode_rows cd (bo_items bo (bucketAPIKeys st))"

definition GetAPIKey :: "'b bucket_ops \<Rightarrow> api_key codec \<Rightarrow> string \<Rightarrow> 'b store \<Rightarrow> store_err + api_key" where
  "GetAPIKey bo cd kid st =
     (case bo_get bo kid (bucketAPIKeys st) of
        None \<Rightarrow> Inl KeyNotFound
      | Some v \<Rightarrow> (case unmarshal cd v of None \<Rightarrow> Inl BadRow | Some k \<Rightarrow> Inr k))"

definition DeleteAPIKey :: "'b bucket_ops \<Rightarrow> bool \<Rightarrow> string \<Rightarrow> 'b store \<Rightarrow> store_err option \<times> 'b store" where
  "DeleteAPIKey bo commit kid st = update_tx commit (\<lambda>st. st\<lparr>bucketAPIKeys := bo_delete bo kid (bucketAPIKeys st)\<rparr>) st"

definition mark_row :: "'b bucket_ops \<Rightarrow> api_key codec \<Rightarrow> time \<Rightarrow> string \<Rightarrow> 'b \<Rightarrow> bytes \<Rightarrow> 'b" where
  "mark_row bo cd now hash b v =
     (case unmarshal cd v of
        None \<Rightarrow> b
      | Some k \<Rightarrow> if ak_Hash k = hash then bo_put bo (ak_ID k) (marshal cd (k\<lparr>ak_LastUsedAt := Some now\<rparr>)) b else b)"

definition MarkAPIKeyUsed :: "'b bucket_ops \<Rightarrow> api_key codec \<Rightarrow> bool \<Rightarrow> time \<Rightarrow> string \<Rightarrow> 'b store \<Rightarrow> 'b store" where
  "MarkAPIKeyUsed bo cd commit now hash st =
     snd (update_tx commit
       (\<lambda>st. st\<lparr>bucketAPIKeys := foldl (mark_row bo cd now hash) (bucketAPIKeys st) (map snd (bo_items bo (bucketAPIKeys st)))\<rparr>) st)"

definition PutAudit :: "'b bucket_ops \<Rightarrow> audit_event codec \<Rightarrow> bool \<Rightarrow> audit_event \<Rightarrow> 'b store \<Rightarrow> store_err option \<times> 'b store" where
  "PutAudit bo cd commit ev st =
     update_tx commit (\<lambda>st. st\<lparr>bucketAuditLog := bo_put bo (micro_key (ae_At ev)) (marshal cd ev) (bucketAuditLog st)\<rparr>) st"

definition ListAudit :: "'b bucket_ops \<Rightarrow> audit_event codec \<Rightarrow> int \<Rightarrow> 'b store \<Rightarrow> audit_event list" where
  "ListAudit bo cd limit st = newest_rows (unmarshal cd) limit 0 (rev (bo_items bo (bucketAuditLog st)))"

definition PutMetricsSample :: "'b bucket_ops \<Rightarrow> bool \<Rightarrow> time \<Rightarrow> bytes \<Rightarrow> 'b store \<Rightarrow> store_err option \<times> 'b store" where
  "PutMetricsSample bo commit t raw st =
     update_tx commit (\<lambda>st. st\<lparr>bucketMetricsSeries := bo_put bo (micro_key t) raw (bucketMetricsSeries st)\<rparr>) st"

definition ListMetricsSamples :: "'b bucket_ops \<Rightarrow> time \<Rightarrow> 'b store \<Rightarrow> bytes list" where
  "ListMetricsSamples bo since st =
     map snd (dropWhile (\<lambda>kv. fst kv < micro_key since) (bo_items bo (bucketMetricsSeries st)))"

text \<open>The pruning loop deletes the key at hand, takes a fresh cursor and asks it for the next key;
  what a cursor answers that was never positioned is the argument \<open>unpos\<close>.\<close>

partial_function (option) prune_loop ::
  "'b bucket_ops \<Rightarrow> ('b \<Rightarrow> string option) \<Rightarrow> string \<Rightarrow> string option \<Rightarrow> 'b \<Rightarrow> 'b option" where
  "prune_loop bo unpos cutoff k b =
     (case k of
        None \<Rightarrow> Some b
      | Some key \<Rightarrow>
          if key < cutoff then (let b' = bo_delete bo key b in prune_loop bo unpos cutoff (unpos b') b')
          else Some b)"

definition first_key :: "'b bucket_ops \<Rightarrow> 'b \<Rightarrow> string option" where
  "first_key bo b = (case bo_items bo b of [] \<Rightarrow> None | kv # _ \<Rightarrow> Some (fst kv))"

definition PruneMetricsSamples ::
  "'b bucket_ops \<Rightarrow> ('b \<Rightarrow> string option) \<Rightarrow> bool \<Rightarrow> time \<Rightarrow> 'b store \<Rightarrow> (store_err option \<times> 'b store) option" where
  "PruneMetricsSamples bo unpos commit before st =
     map_option (\<lambda>b. update_tx commit (\<lambda>st. st\<lparr>bucketMetricsSeries := b\<rparr>) st)
       (prune_loop bo unpos (micro_key before) (first_key bo (bucketMetricsSeries st)) (bucketMetricsSeries st))"

fun drop_first :: "'b bucket_ops \<Rightarrow> nat \<Rightarrow> 'b \<Rightarrow> 'b" where
  "drop_first bo 0 b = b"
| "drop_first bo (Suc n) b =
     (case first_key bo b of None \<Rightarrow> b | Some k \<Rightarrow> drop_first bo n (bo_delete bo k b))"

definition PutTestHistory :: "'b bucket_ops \<Rightarrow> bool \<Rightarrow> time \<Rightarrow> bytes \<Rightarrow> 'b store \<Rightarrow> store_err option \<times> 'b store" where
  "PutTestHistory bo commit t raw st =
     update_tx commit
       (\<lambda>st. let b = bo_put bo (micro_key t) raw (bucketTestHistory st); n = length (bo_items bo b)
             in st\<lparr>bucketTestHistory := (if n > testHistoryCap then drop_first bo (n - testHistoryCap) b else b)\<rparr>) st"

definition ListTestHistory :: "'b bucket_ops \<Rightarrow> int \<Rightarrow> 'b store \<Rightarrow> bytes list" where
  "ListTestHistory bo limit st = newest_rows Some limit 0 (rev (bo_items bo (bucketTestHistory st)))"

definition SetAPIKeyDisabled ::
  "'b bucket_ops \<Rightarrow> api_key codec \<Rightarrow> bool \<Rightarrow> string \<Rightarrow> bool \<Rightarrow> 'b store \<Rightarrow> store_err option \<times> 'b store" where
  "SetAPIKeyDisabled bo cd commit kid disabled st =
     (case bo_get bo kid (bucketAPIKeys st) of
        None \<Rightarrow> (Some KeyNotFound, st)
      | Some v \<Rightarrow>
          (case unmarshal cd v of
             None \<Rightarrow> (Some BadRow, st)
           | Some k \<Rightarrow>
               update_tx commit
                 (\<lambda>st. st\<lparr>bucketAPIKeys := bo_put bo kid (marshal cd (k\<lparr>ak_Disabled := disabled\<rparr>)) (bucketAPIKeys st)\<rparr>) st))"

definition PutWorker :: "'b bucket_ops \<Rightarrow> worker_rec codec \<Rightarrow> bool \<Rightarrow> worker_rec \<Rightarrow> 'b store \<Rightarrow> store_err option \<times> 'b store" where
  "PutWorker bo cd commit w st =
     update_tx commit (\<lambda>st. st\<lparr>bucketWorkers := bo_put bo (wr_Name w) (marshal cd w) (bucketWorkers st)\<rparr>) st"

definition DeleteWorker_rec :: "'b bucket_ops \<Rightarrow> bool \<Rightarrow> string \<Rightarrow> 'b store \<Rightarrow> store_err option \<times> 'b store" where
  "DeleteWorker_rec bo commit name st = update_tx commit (\<lambda>st. st\<lparr>bucketWorkers := bo_delete bo name (bucketWorkers st)\<rparr>) st"

definition ListWorkers :: "'b bucket_ops \<Rightarrow> worker_rec codec \<Rightarrow> 'b store \<Rightarrow> store_err option \<times> worker_rec list" where
  "ListWorkers bo cd st = decode_rows cd (bo_items bo (bucketWorkers st))"

definition PutQuotaSnapshot ::
  "'b bucket_ops \<Rightarrow> quota_day codec \<Rightarrow> (time \<Rightarrow> string) \<Rightarrow> bool \<Rightarrow> quota_day \<Rightarrow> 'b store \<Rightarrow> store_err option \<times> 'b store" where
  "PutQuotaSnapshot bo cd date_text commit q st =
     update_tx commit
       (\<lambda>st. st\<lparr>bucketQuotas := bo_put bo (date_text (qd_Date q) @ ''|'' @ qd_Account q) (marshal cd q) (bucketQuotas st)\<rparr>) st"

definition ListQuotaHistory :: "'b bucket_ops \<Rightarrow> quota_day codec \<Rightarrow> 'b store \<Rightarrow> store_err option \<times> quota_day list" where
  "ListQuotaHistory bo cd st = decode_rows cd (bo_items bo (bucketQuotas st))"

section \<open>Lemmas: keys are chronological\<close>

fun hexw :: "nat \<Rightarrow> nat \<Rightarrow> string" where
  "hexw 0 n = []"
| "hexw (Suc w) n = hexw w (n div 16) @ [nibble (n mod 16)]"

lemma length_hexw [simp]: "length (hexw w n) = w"
  by (induction w arbitrary: n) simp_all

lemma nibble_0: "nibble 0 = CHR ''0''" by (simp add: nibble_def char_of_eq_iff)

lemma hexw_0: "hexw w 0 = replicate w (CHR ''0'')"
  by (induction w) (simp_all add: nibble_0 replicate_append_same)

lemma zpad_hexnum: "0 < w \<Longrightarrow> n < 16 ^ w \<Longrightarrow> zpad w (hexnum n) = hexw w n"
proof (induction n arbitrary: w rule: hexnum.induct)
  case (1 n)
  from 1(2) obtain v where v: "w = Suc v" by (cases w) auto
  show ?case
  proof (cases "n < 16")
    case True
    then show ?thesis using v hexw_0 [of v] by (subst hexnum.simps) (simp add: zpad_def)
  next
    case False
    then have "0 < v" using 1(3) v by (cases v) auto
    moreover have "n div 16 < 16 ^ v" using 1(3) v by (simp add: div_less_iff_less_mult mult.commute)
    ultimately have "zpad v (hexnum (n div 16)) = hexw v (n div 16)" by (rule 1(1) [OF False])
    then show ?thesis using v False by (subst hexnum.simps) (simp add: zpad_def)
  qed
qed

lemma nibble_less: "a < b \<Longrightarrow> b < 16 \<Longrightarrow> nibble a < nibble b"
  by (simp add: nibble_def less_char_def)

lemma hexw_less: "m < n \<Longrightarrow> n < 16 ^ w \<Longrightarrow> hexw w m < hexw w n"
proof (induction w arbitrary: m n)
  case (Suc w)
  have b: "n div 16 < 16 ^ w" using Suc.prems(2) by (simp add: div_less_iff_less_mult mult.commute)
  show ?case
  proof (cases "m div 16 < n div 16")
    case True
    from Suc.IH [OF True b] show ?thesis unfolding list_less_def by (simp add: lexord_sufI)
  next
    case False
    then have e: "m div 16 = n div 16" using div_le_mono [of m n 16] Suc.prems(1) by simp
    moreover have "m mod 16 < n mod 16"
      using Suc.prems(1) e div_mult_mod_eq [of m 16] div_mult_mod_eq [of n 16] by linarith
    ultimately show ?thesis by (simp add: nibble_less list_less_def lexord_append_leftI)
  qed
qed simp

lemma micro_key_less: "0 \<le> t \<Longrightarrow> t < u \<Longrightarrow> u < 16 ^ 16 \<Longrightarrow> micro_key t < micro_key u"
  using hexw_less [of "nat t" "nat u" 16] zpad_hexnum [of 16 "nat t"] zpad_hexnum [of 16 "nat u"]
  by (simp add: micro_key_def nat_less_iff)

section \<open>Lemmas: ordered buckets\<close>

text \<open>An ordered list of entries is determined by its map, so each operation has one result.\<close>

lemma sorted_entries_unique:
  fixes xs ys :: "('k :: linorder \<times> 'v) list"
  assumes "sorted_wrt (<) (map fst xs)" "sorted_wrt (<) (map fst ys)" "map_of xs = map_of ys"
  shows "xs = ys"
  using assms
proof (induction xs arbitrary: ys)
  case Nil
  then show ?case by (cases ys) (auto simp: fun_eq_iff split: if_splits)
next
  case (Cons x xs)
  obtain y ys' where ys: "ys = y # ys'" using Cons.prems(3) by (cases ys) (auto simp: fun_eq_iff split: if_splits)
  have dom: "fst ` set (x # xs) = fst ` set ys" using Cons.prems(3) by (metis dom_map_of_conv_image_fst)
  have "fst x = fst y"
  proof (rule ccontr)
    assume "fst x \<noteq> fst y"
    moreover have "fst x \<in> fst ` set ys" "fst y \<in> fst ` set (x # xs)" using dom ys by auto
    ultimately have "fst y < fst x" "fst x < fst y" using Cons.prems(1,2) ys by auto
    then show False by simp
  qed
  moreover have "snd x = snd y" using calculation fun_cong [OF Cons.prems(3), of "fst x"] ys by simp
  ultimately have xy: "x = y" by (simp add: prod_eq_iff)
  have "map_of xs = map_of ys'"
  proof
    fix k
    have n: "map_of xs (fst x) = None" "map_of ys' (fst x) = None"
      using Cons.prems(1,2) ys xy by (auto simp: map_of_eq_None_iff)
    show "map_of xs k = map_of ys' k"
      using fun_cong [OF Cons.prems(3), of k] n ys xy by (cases "k = fst x") auto
  qed
  with Cons.IH [of ys'] Cons.prems(1,2) ys xy show ?case by simp
qed

lemma items_unique:
  assumes "bucket_ok bo" "sorted_wrt (<) (map fst l)" "map_of (bo_items bo b) = map_of l"
  shows "bo_items bo b = l"
  using assms by (intro sorted_entries_unique) (auto simp: bucket_ok_def)

lemma put_append:
  assumes "bucket_ok bo" "\<And>k'. k' \<in> fst ` set (bo_items bo b) \<Longrightarrow> k' < k"
  shows "bo_items bo (bo_put bo k v b) = bo_items bo b @ [(k, v)]"
proof (rule items_unique [OF assms(1)])
  show "sorted_wrt (<) (map fst (bo_items bo b @ [(k, v)]))"
    using assms by (auto simp: bucket_ok_def sorted_wrt_append)
  have "k \<notin> fst ` set (bo_items bo b)" using assms(2) by blast
  then have n: "map_of (bo_items bo b) k = None" by (simp add: map_of_eq_None_iff)
  show "map_of (bo_items bo (bo_put bo k v b)) = map_of (bo_items bo b @ [(k, v)])"
    using assms(1) n by (auto simp: bucket_ok_def fun_eq_iff map_add_def split: option.split)
qed

lemma delete_first:
  assumes "bucket_ok bo" "bo_items bo b = (k, v) # l"
  shows "bo_items bo (bo_delete bo k b) = l"
proof (rule items_unique [OF assms(1)])
  have s: "sorted_wrt (<) (map fst ((k, v) # l))" using assms by (metis bucket_ok_def)
  then show "sorted_wrt (<) (map fst l)" by simp
  have "map_of l k = None" using s by (auto simp: map_of_eq_None_iff)
  then show "map_of (bo_items bo (bo_delete bo k b)) = map_of l"
    using assms by (auto simp: bucket_ok_def fun_eq_iff)
qed

lemma drop_first_items:
  assumes "bucket_ok bo"
  shows "bo_items bo (drop_first bo n b) = drop n (bo_items bo b)"
proof (induction n arbitrary: b)
  case (Suc n)
  show ?case
  proof (cases "bo_items bo b")
    case Nil
    then show ?thesis by (simp add: first_key_def)
  next
    case (Cons kv l)
    then show ?thesis using Suc.IH delete_first [OF assms, of b "fst kv" "snd kv" l] by (simp add: first_key_def)
  qed
qed simp

lemma newest_rows_take:
  assumes "list_all (\<lambda>kv. dcd (snd kv) \<noteq> None) kvs" "limit \<le> 0 \<or> int n < limit"
  shows "newest_rows dcd limit n kvs =
           (let rs = map (\<lambda>kv. the (dcd (snd kv))) kvs in if limit \<le> 0 then rs else take (nat limit - n) rs)"
  using assms
proof (induction kvs arbitrary: n)
  case (Cons kv kvs)
  obtain k v where kv: "kv = (k, v)" by force
  obtain r where r: "dcd v = Some r" using Cons.prems(1) kv by auto
  show ?case
  proof (cases "limit > 0 \<and> int (Suc n) \<ge> limit")
    case True
    then have "nat limit - n = Suc 0" using Cons.prems(2) by auto
    with True kv r show ?thesis by simp
  next
    case False
    have "newest_rows dcd limit (Suc n) kvs =
           (let rs = map (\<lambda>kv. the (dcd (snd kv))) kvs in if limit \<le> 0 then rs else take (nat limit - Suc n) rs)"
      using Cons.prems False by (intro Cons.IH) auto
    moreover have "limit > 0 \<Longrightarrow> nat limit - n = Suc (nat limit - Suc n)" using False by auto
    ultimately show ?thesis using False kv r by (auto simp: Let_def)
  qed
qed simp

section \<open>A reference bucket\<close>

definition list_bucket :: "(string \<times> bytes) list bucket_ops" where
  "list_bucket =
     \<lparr>bo_put = (\<lambda>k v b. (k, v) # b), bo_delete = (\<lambda>k b. filter (\<lambda>kv. fst kv \<noteq> k) b),
      bo_items = (\<lambda>b. map (\<lambda>k. (k, the (map_of b k))) (sorted_list_of_set (fst ` set b)))\<rparr>"

lemma list_bucket_items: "map_of (bo_items list_bucket b) = map_of b"
proof
  fix k
  show "map_of (bo_items list_bucket b) k = map_of b k"
  proof (cases "map_of b k")
    case None
    then have "k \<notin> fst ` set b" by (simp add: map_of_eq_None_iff)
    with None show ?thesis by (simp add: list_bucket_def map_of_map_restrict)
  next
    case (Some v)
    then have "k \<in> fst ` set b" by (force dest: map_of_SomeD)
    with Some show ?thesis by (simp add: list_bucket_def map_of_map_restrict)
  qed
qed

lemma list_bucket_ok [simp]: "bucket_ok list_bucket"
proof -
  have s: "sorted_wrt (<) (map fst (bo_items list_bucket b))" for b
    by (simp add: list_bucket_def comp_def)
  have d: "map_of (filter (\<lambda>kv. fst kv \<noteq> k) b) = (map_of b)(k := None)" for k and b :: "(string \<times> bytes) list"
    by (induction b) (auto simp: fun_eq_iff)
  show ?thesis
    unfolding bucket_ok_def list_bucket_items using s d by (simp add: list_bucket_def)
qed

definition empty_store :: "(string \<times> bytes) list store" where
  "empty_store = \<lparr>bucketWorkers = [], bucketQuotas = [], bucketAPIKeys = [], bucketAuditLog = [],
     bucketMetricsSeries = [], bucketTestHistory = []\<rparr>"

section \<open>Lemmas: filling a log\<close>

text \<open>A list of timed rows as the entries of a bucket, and the clock values for which keys are
  chronological.\<close>

definition entries :: "(time \<times> bytes) list \<Rightarrow> (string \<times> bytes) list" where
  "entries xs = map (\<lambda>(t, v). (micro_key t, v)) xs"

definition clocked :: "time list \<Rightarrow> bool" where
  "clocked ts \<longleftrightarrow> sorted_wrt (<) ts \<and> list_all (\<lambda>t. 0 \<le> t \<and> t < 16 ^ 16) ts"

lemma clocked_snoc: "clocked (ts @ [t]) \<Longrightarrow> clocked ts \<and> 0 \<le> t \<and> t < 16 ^ 16 \<and> (\<forall>u \<in> set ts. 0 \<le> u \<and> u < t)"
  by (auto simp: clocked_def sorted_wrt_append list_all_iff)

lemma put_entries:
  assumes "bucket_ok bo" "bo_items bo b = entries xs" "0 \<le> t" "t < 16 ^ 16" "\<And>u. u \<in> fst ` set xs \<Longrightarrow> 0 \<le> u \<and> u < t"
  shows "bo_items bo (bo_put bo (micro_key t) v b) = entries (xs @ [(t, v)])"
proof -
  have "bo_items bo (bo_put bo (micro_key t) v b) = bo_items bo b @ [(micro_key t, v)]"
  proof (rule put_append [OF assms(1)])
    fix k' assume "k' \<in> fst ` set (bo_items bo b)"
    then obtain u where "u \<in> fst ` set xs" "k' = micro_key u" using assms(2) by (force simp: entries_def)
    with assms(4,5) show "k' < micro_key t" by (simp add: micro_key_less)
  qed
  then show ?thesis using assms(2) by (simp add: entries_def)
qed

lemma audit_puts:
  assumes "bucket_ok bo" "clocked (map ae_At evs)" "bo_items bo (bucketAuditLog st) = []"
  shows "bo_items bo (bucketAuditLog (foldl (\<lambda>s e. snd (PutAudit bo cd True e s)) st evs)) =
           entries (map (\<lambda>e. (ae_At e, marshal cd e)) evs)"
  using assms(2)
proof (induction evs rule: rev_induct)
  case Nil
  then show ?case using assms(3) by (simp add: entries_def)
next
  case (snoc e evs)
  note c = clocked_snoc [OF snoc.prems [simplified]]
  then show ?case using snoc.IH assms(1) by (auto simp: PutAudit_def update_tx_def intro!: put_entries)
qed

lemma history_puts:
  assumes "bucket_ok bo" "clocked (map fst xs)" "bo_items bo (bucketTestHistory st) = []"
  shows "bo_items bo (bucketTestHistory (foldl (\<lambda>s (t, raw). snd (PutTestHistory bo True t raw s)) st xs)) =
           entries (drop (length xs - 100) xs)"
  using assms(2)
proof (induction xs rule: rev_induct)
  case Nil
  then show ?case using assms(3) by (simp add: entries_def)
next
  case (snoc x xs)
  obtain t raw where x: "x = (t, raw)" by force
  have c: "clocked (map fst xs)" "0 \<le> t" "t < 16 ^ 16" "\<And>u. u \<in> fst ` set xs \<Longrightarrow> 0 \<le> u \<and> u < t"
    using clocked_snoc [of "map fst xs" t] snoc.prems x by auto
  let ?st = "foldl (\<lambda>s (t, raw). snd (PutTestHistory bo True t raw s)) st xs" and ?ys = "drop (length xs - 100) xs"
  let ?b = "bo_put bo (micro_key t) raw (bucketTestHistory ?st)"
  have b: "bo_items bo ?b = entries (?ys @ [x])"
    unfolding x by (rule put_entries [OF assms(1) snoc.IH [OF c(1)] c(2,3)]) (use c(4) in \<open>auto dest: in_set_dropD\<close>)
  have "length xs - (length xs - 100 + 99) + (length xs - 100) = length xs - 99" by arith
  then have "drop (length (?ys @ [x]) - 100) (?ys @ [x]) = drop (length (xs @ [x]) - 100) (xs @ [x])" by simp
  then show ?case
    using x b drop_first_items [OF assms(1), of "length (?ys @ [x]) - 100" ?b]
    by (auto simp: PutTestHistory_def update_tx_def Let_def testHistoryCap_def entries_def drop_map)
qed

section \<open>Properties\<close>

text \<open>
  The audit log is a log: after any number of events, recorded at increasing times of the
  clock, \<^verbatim>\<open>ListAudit\<close> returns them newest first, all of them without a limit and exactly the newest
  ones with a limit.
\<close>

lemma audit_newest_first:
  assumes "bucket_ok bo" and "bo_items bo (bucketAuditLog st) = []" and "clocked (map ae_At evs)"
    and "list_all (\<lambda>e. unmarshal cd (marshal cd e) = Some e) evs"
  shows "ListAudit bo cd limit (foldl (\<lambda>s e. snd (PutAudit bo cd True e s)) st evs) =
           (if limit \<le> 0 then rev evs else take (nat limit) (rev evs))"
proof -
  let ?it = "rev (entries (map (\<lambda>e. (ae_At e, marshal cd e)) evs))"
  have d: "map (\<lambda>kv. the (unmarshal cd (snd kv))) ?it = rev evs"
    using assms(4) by (auto simp: entries_def rev_map list_all_iff intro: map_idI)
  have "list_all (\<lambda>kv. unmarshal cd (snd kv) \<noteq> None) ?it" using assms(4) by (auto simp: entries_def list_all_iff)
  from newest_rows_take [OF this, of limit 0] d show ?thesis
    by (auto simp: ListAudit_def audit_puts [OF assms(1,3,2)] Let_def)
qed

definition demo_event :: "time \<Rightarrow> audit_event" where
  "demo_event t = \<lparr>ae_At = t, ae_Who = ''a'', ae_Action = [], ae_Target = [], ae_Detail = []\<rparr>"

definition demo_codec :: "audit_event codec" where
  "demo_codec = \<lparr>marshal = (\<lambda>e. bytes_of (itoa (ae_At e))), unmarshal = (\<lambda>b. map_option demo_event (atoi (string_of b)))\<rparr>"

lemma audit_newest_first_example:
  "ListAudit list_bucket demo_codec 1
     (foldl (\<lambda>s e. snd (PutAudit list_bucket demo_codec True e s)) empty_store [demo_event 5, demo_event 9]) = [demo_event 9]"
  using audit_newest_first [of list_bucket empty_store "[demo_event 5, demo_event 9]" demo_codec 1]
  by (simp add: empty_store_def list_bucket_def [THEN arg_cong [where f = bo_items]] clocked_def demo_codec_def demo_event_def
      int64_range_def)

text \<open>
  The test history never holds more than a hundred runs, and it holds the newest: after any
  number of runs recorded at increasing times, listing it gives the last hundred, newest first.
\<close>

lemma test_history_keeps_newest:
  assumes "bucket_ok bo" and "bo_items bo (bucketTestHistory st) = []" and "clocked (map fst xs)"
  shows "ListTestHistory bo 0 (foldl (\<lambda>s (t, raw). snd (PutTestHistory bo True t raw s)) st xs) =
           take 100 (rev (map snd xs))"
proof -
  have "newest_rows Some 0 0 (rev (entries ys)) = rev (map snd ys)" for ys
    using newest_rows_take [of Some "rev (entries ys)" 0 0]
    by (simp add: entries_def rev_map comp_def case_prod_unfold list_all_iff)
  then show ?thesis
    by (simp add: ListTestHistory_def history_puts [OF assms(1,3,2)] take_rev drop_map)
qed

lemma test_history_keeps_newest_example:
  "ListTestHistory list_bucket 0
     (foldl (\<lambda>s (t, raw). snd (PutTestHistory list_bucket True t raw s)) empty_store [(5, [1]), (9, [2])]) = [[2], [1]]"
  using test_history_keeps_newest [of list_bucket empty_store "[(5, [1]), (9, [2])]"]
  by (simp add: empty_store_def list_bucket_def [THEN arg_cong [where f = bo_items]] clocked_def)

text \<open>
  Pruning the persisted samples removes at most one of them: a database cursor that was never
  positioned has no next key, so the loop ends after its first deletion, although the samples are
  pruned once an hour and written once a minute.
\<close>

lemma prune_removes_one:
  assumes "bucket_ok bo" and "\<And>b. unpos b = None"
    and "bo_items bo (bucketMetricsSeries st) = kv # rest"
  shows "\<exists>st'. PruneMetricsSamples bo unpos True before st = Some (None, st') \<and>
           bo_items bo (bucketMetricsSeries st') = (if fst kv < micro_key before then rest else kv # rest)"
proof -
  have f: "first_key bo (bucketMetricsSeries st) = Some (fst kv)" using assms(3) by (simp add: first_key_def)
  have n: "prune_loop bo unpos c None b = Some b" for c b by (subst prune_loop.simps) simp
  have "bo_items bo (bo_delete bo (fst kv) (bucketMetricsSeries st)) = rest"
    by (rule delete_first [OF assms(1), where v = "snd kv"]) (use assms(3) in simp)
  then show ?thesis
    using assms(2,3) n by (simp add: PruneMetricsSamples_def f update_tx_def prune_loop.simps [where k = "Some _"])
qed

lemma prune_removes_one_example:
  "\<exists>st'. PruneMetricsSamples list_bucket (\<lambda>_. None) True 100
       (empty_store\<lparr>bucketMetricsSeries := [(micro_key 5, [1]), (micro_key 9, [2])]\<rparr>) = Some (None, st') \<and>
     bo_items list_bucket (bucketMetricsSeries st') = [(micro_key 9, [2])]"
proof -
  have k: "micro_key 5 < micro_key 9" "micro_key 5 < micro_key 100" by (simp_all add: micro_key_less)
  have i: "bo_items list_bucket (bucketMetricsSeries (empty_store\<lparr>bucketMetricsSeries := [(micro_key 5, [1]), (micro_key 9, [2])]\<rparr>)) =
      (micro_key 5, [1]) # [(micro_key 9, [2])]"
    by (rule items_unique) (use k in \<open>simp_all add: list_bucket_items\<close>)
  from prune_removes_one [OF list_bucket_ok _ i, of "\<lambda>_. None" 100] k show ?thesis by simp
qed

end
