(* ===== verification/Metrics_Ring.thy ===== *)
theory Metrics_Ring
  imports State_Store
begin

text \<open>
  The ring buffer of counter samples (\<^verbatim>\<open>internal/metrics/series.go\<close>): a fixed array with a write
  position that wraps around, its chronological snapshot, one tick of the snapshot loop, and the
  refill of the ring from the persistent store at start-up. The contract of such a buffer is the
  locale \<open>bounded_log\<close>: pushing appends and keeps the newest entries.
\<close>

section \<open>The contract of a bounded log\<close>

definition newest :: "nat \<Rightarrow> 'a list \<Rightarrow> 'a list" where
  "newest n xs = drop (length xs - n) xs"

lemma newest_simps [simp]: "newest n [] = []" "length xs \<le> n \<Longrightarrow> newest n xs = xs" "length (newest n xs) = min n (length xs)"
  by (simp_all add: newest_def)

lemma newest_snoc: "newest n (newest n xs @ [x]) = newest n (xs @ [x])"
proof (cases "length xs \<le> n")
  case False
  then have "Suc (length xs) - n = Suc (length xs - n)" "length xs - (length xs - n) = n" by simp_all
  then show ?thesis by (simp add: newest_def Suc_diff_le)
qed simp

locale bounded_log =
  fixes push :: "'a \<Rightarrow> 's \<Rightarrow> 's" and view :: "'s \<Rightarrow> 'a list" and invar :: "'s \<Rightarrow> bool" and cap :: nat
  assumes push_invar: "invar s \<Longrightarrow> invar (push x s)"
    and push_view: "invar s \<Longrightarrow> view (push x s) = newest cap (view s @ [x])"
begin

lemma pushes_invar: "invar s \<Longrightarrow> invar (foldl (\<lambda>s x. push x s) s xs)"
  by (induction xs arbitrary: s) (simp_all add: push_invar)

lemma pushes_view: "invar s \<Longrightarrow> view s = newest cap pre \<Longrightarrow> view (foldl (\<lambda>s x. push x s) s xs) = newest cap (pre @ xs)"
proof (induction xs arbitrary: s pre)
  case (Cons x xs)
  have "view (push x s) = newest cap (pre @ [x])" using Cons.prems by (simp add: push_view newest_snoc)
  from Cons.IH [OF push_invar [OF Cons.prems(1)] this] show ?case by simp
qed simp

end

section \<open>The ring\<close>

record 'a series =
  samples :: "'a list"
  head_pos :: nat
  full :: bool

definition NewSeries :: "'a \<Rightarrow> int \<Rightarrow> 'a series" where
  "NewSeries zero capacity =
     (let capacity = (if capacity \<le> 0 then 60 else capacity)
      in \<lparr>samples = replicate (nat capacity) zero, head_pos = 0, full = False\<rparr>)"

definition Push :: "'a \<Rightarrow> 'a series \<Rightarrow> 'a series" where
  "Push sample s =
     (let s1 = s\<lparr>samples := (samples s)[head_pos s := sample], head_pos := (head_pos s + 1) mod length (samples s)\<rparr>
      in if head_pos s1 = 0 then s1\<lparr>full := True\<rparr> else s1)"

definition Snapshot :: "'a series \<Rightarrow> 'a list" where
  "Snapshot s =
     (if \<not> full s then take (head_pos s) (samples s)
      else drop (head_pos s) (samples s) @ take (head_pos s) (samples s))"

text \<open>One sample, taken from the counters and the quantiles of the latency histogram (seconds).\<close>

record counters =
  c_Connections :: u64
  c_DialSuccess :: u64
  c_DialFail :: u64
  c_HandshakeFail :: u64
  c_BytesUpstream :: u64
  c_BytesDownstream :: u64
  c_FetchFallback :: u64
  c_HedgeFired :: u64
  c_HedgeWins :: u64

record sample = counters +
  sm_At :: time
  LatencyP50 :: rat
  LatencyP95 :: rat
  LatencyP99 :: rat
  WorkerRequests :: "(string \<times> u64) list option"

definition snapshotNow ::
  "(rat \<Rightarrow> rat) option \<Rightarrow> (string \<times> u64) list option \<Rightarrow> time \<Rightarrow> counters \<Rightarrow> sample" where
  "snapshotNow q workers now c =
     (let q = (case q of None \<Rightarrow> (\<lambda>_. 0) | Some q \<Rightarrow> q)
      in counters.extend c \<lparr>sm_At = now, LatencyP50 = fmul (q (1 / 2)) 1000, LatencyP95 = fmul (q (f64 (95 / 100))) 1000,
           LatencyP99 = fmul (q (f64 (99 / 100))) 1000, WorkerRequests = workers\<rparr>)"

text \<open>The refill at start-up and one tick of the loop, with the persistent store optional.\<close>

fun refill :: "(bytes \<Rightarrow> 'a option) \<Rightarrow> bytes list \<Rightarrow> 'a series \<Rightarrow> 'a series" where
  "refill dcd [] s = s"
| "refill dcd (raw # raws) s = refill dcd raws (case dcd raw of None \<Rightarrow> s | Some x \<Rightarrow> Push x s)"

definition start_ring :: "'b bucket_ops \<Rightarrow> 'a codec \<Rightarrow> int \<Rightarrow> time \<Rightarrow> 'b store option \<Rightarrow> 'a series \<Rightarrow> 'a series" where
  "start_ring bo cd interval now persist s =
     (case persist of
        None \<Rightarrow> s
      | Some st \<Rightarrow>
          (let interval = (if interval \<le> 0 then 60000000 else interval)
           in refill (unmarshal cd) (ListMetricsSamples bo (now - int (length (samples s)) * interval) st) s))"

definition push_tick :: "'b bucket_ops \<Rightarrow> 'a codec \<Rightarrow> ('a \<Rightarrow> time) \<Rightarrow> bool \<Rightarrow> 'a \<Rightarrow> 'b store option \<Rightarrow> 'a series \<Rightarrow> 'b store option \<times> 'a series" where
  "push_tick bo cd at_of commit x persist s =
     (map_option (\<lambda>st. snd (PutMetricsSample bo commit (at_of x) (marshal cd x) st)) persist, Push x s)"

section \<open>Lemmas\<close>

definition ring_inv :: "nat \<Rightarrow> 'a series \<Rightarrow> bool" where
  "ring_inv n s \<longleftrightarrow> 0 < n \<and> length (samples s) = n \<and> head_pos s < n"

lemma Push_invar: "ring_inv n s \<Longrightarrow> ring_inv n (Push x s)"
  by (simp add: ring_inv_def Push_def Let_def)

lemma ring_split:
  assumes "h < length xs"
  shows "take (Suc h) (xs[h := x]) = take h xs @ [x]" "drop (Suc h) (xs[h := x]) = drop (Suc h) xs"
  using assms by (simp_all add: take_Suc_conv_app_nth)

lemma Push_view: "ring_inv n s \<Longrightarrow> Snapshot (Push x s) = newest n (Snapshot s @ [x])"
proof -
  assume i: "ring_inv n s"
  define h where "h = head_pos s"
  have h: "h < length (samples s)" "n = length (samples s)" using i by (simp_all add: ring_inv_def h_def)
  have new: "drop h (samples s) = samples s ! h # drop (Suc h) (samples s)" using h by (simp add: Cons_nth_drop_Suc)
  show ?thesis
  proof (cases "Suc h = n")
    case True
    then have "Snapshot (Push x s) = (samples s)[h := x]" by (simp add: Snapshot_def Push_def Let_def h_def [symmetric] h(2) [symmetric])
    also have "\<dots> = take h (samples s) @ [x]" using ring_split(1) [OF h(1)] True h by simp
    finally show ?thesis
      using True h new by (cases "full s") (simp_all add: Snapshot_def h_def [symmetric] newest_def)
  next
    case False
    then have "Suc h < n" using h by simp
    then have p: "Snapshot (Push x s) =
        (if full s then drop (Suc h) (samples s) @ take h (samples s) @ [x] else take h (samples s) @ [x])"
      using ring_split [OF h(1), of x] h(2) by (simp add: Snapshot_def Push_def Let_def h_def [symmetric])
    have "Suc (length (samples s) - Suc 0) = length (samples s)" using h by simp
    then show ?thesis
      using p new h \<open>Suc h < n\<close> by (cases "full s") (simp_all add: Snapshot_def h_def [symmetric] newest_def)
  qed
qed

interpretation ring: bounded_log Push Snapshot "ring_inv n" n for n
  by unfold_locales (simp_all add: Push_invar Push_view)

lemma NewSeries_inv:
  "ring_inv (nat (if c \<le> 0 then 60 else c)) (NewSeries z c)" "Snapshot (NewSeries z c) = []"
  by (simp_all add: NewSeries_def Let_def ring_inv_def Snapshot_def)

lemma refill_pushes: "refill dcd raws s = foldl (\<lambda>s x. Push x s) s (List.map_filter dcd raws)"
  by (induction raws arbitrary: s) (simp_all add: map_filter_simps split: option.split)

section \<open>Properties\<close>

text \<open>
  The ring keeps a window: whatever has been pushed into a new ring, its snapshot is the
  newest samples in chronological order, as many as the ring has slots (60 when the capacity given
  is not positive), across any number of wrap-arounds.
\<close>

lemma ring_keeps_newest:
  "Snapshot (foldl (\<lambda>s x. Push x s) (NewSeries z c) xs) =
     drop (length xs - nat (if c \<le> 0 then 60 else c)) xs"
  using ring.pushes_view [OF NewSeries_inv(1), of z c "[]" xs] NewSeries_inv(2) [of z c]
  by (simp add: newest_def)

text \<open>
  A restart does not blank the chart: filling a new ring from a store whose persisted rows
  decode leaves exactly the newest persisted samples of the window in it, in order.
\<close>

lemma restart_restores_ring:
  assumes "0 < c" and "map (unmarshal cd) (ListMetricsSamples bo (now - c * interval) st) = map Some xs"
    and "0 < interval"
  shows "Snapshot (start_ring bo cd interval now (Some st) (NewSeries z c)) = drop (length xs - nat c) xs"
proof -
  have l: "length (samples (NewSeries z c)) = nat c" using assms(1) by (simp add: NewSeries_def Let_def)
  have f: "List.map_filter (unmarshal cd) raws = xs" if "map (unmarshal cd) raws = map Some xs" for raws
    using that by (induction raws arbitrary: xs) (auto simp: map_filter_simps map_eq_Cons_conv)
  have "start_ring bo cd interval now (Some st) (NewSeries z c) = foldl (\<lambda>s x. Push x s) (NewSeries z c) xs"
    using assms f [OF assms(2)] by (simp add: start_ring_def Let_def refill_pushes l)
  then show ?thesis
    using ring.pushes_view [OF NewSeries_inv(1), of z c "[]" xs] NewSeries_inv(2) [of z c] assms(1) by (simp add: newest_def)
qed

lemma restart_restores_ring_example:
  "Snapshot (start_ring list_bucket \<lparr>marshal = \<lambda>b. b, unmarshal = Some\<rparr> 60000000 7200000000
     (Some (empty_store\<lparr>bucketMetricsSeries := [(micro_key 7140000000, [1])]\<rparr>)) (NewSeries [] 60)) = [[1 :: u8]]"
proof -
  let ?st = "empty_store\<lparr>bucketMetricsSeries := [(micro_key 7140000000, [1 :: u8])]\<rparr>"
  have "\<not> micro_key 7140000000 < micro_key 3600000000" using micro_key_less [of 3600000000 7140000000] by simp
  then have "ListMetricsSamples list_bucket (7200000000 - 60 * 60000000) ?st = [[1]]"
    by (simp add: ListMetricsSamples_def list_bucket_def)
  from restart_restores_ring [of 60 "\<lparr>marshal = \<lambda>b. b, unmarshal = Some\<rparr>" list_bucket 7200000000 60000000 ?st "[[1]]" "[]"] this
  show ?thesis by simp
qed

end
