(* ===== verification/Admin_Auth.thy ===== *)
theory Admin_Auth
  imports Http_Connect State_Store
begin

text \<open>
  Authentication and authorization of the admin server (\<^verbatim>\<open>internal/admin/scopes.go\<close>, \<^verbatim>\<open>session.go\<close>
  and the middleware of \<^verbatim>\<open>server.go\<close>): scopes, signed session cookies, the registry of API keys with
  its in-memory index, the brute-force lockout, the CSRF check and the middleware \<^verbatim>\<open>authed\<close> that composes
  them. HMAC-SHA-256, SHA-256 and the TOTP check come from packages outside the repository and are one
  record of functions. A request is the part of \<^verbatim>\<open>http.Request\<close> the code reads, with cookies already
  parsed. Times are in nanoseconds.
\<close>

section \<open>Scopes\<close>

definition ScopeRead :: string where "ScopeRead = ''read''"
definition ScopeWrite :: string where "ScopeWrite = ''write''"
definition ScopeAPIKeys :: string where "ScopeAPIKeys = ''apikeys''"
definition ScopePprof :: string where "ScopePprof = ''pprof''"

lemmas scope_defs = ScopeRead_def ScopeWrite_def ScopeAPIKeys_def ScopePprof_def

definition AllScopes :: "string list" where
  "AllScopes = [ScopeRead, ScopeWrite, ScopeAPIKeys, ScopePprof]"

definition RequiredScope :: "string \<Rightarrow> string \<Rightarrow> string" where
  "RequiredScope meth path =
     (if has_prefix path ''/debug/pprof/'' then ScopePprof
      else if has_prefix path ''/apikeys'' then (if meth = ''GET'' then ScopeRead else ScopeAPIKeys)
      else if meth \<in> {''POST'', ''PUT'', ''DELETE'', ''PATCH''} then ScopeWrite
      else ScopeRead)"

fun HasScope :: "string list \<Rightarrow> string \<Rightarrow> bool" where
  "HasScope [] need = False"
| "HasScope (s # ss) need = (if s = need then True else HasScope ss need)"

fun parse_scopes_loop :: "string list \<Rightarrow> string list \<Rightarrow> string list \<Rightarrow> string list" where
  "parse_scopes_loop seen out [] = out"
| "parse_scopes_loop seen out (r # rs) =
     (if r \<notin> set AllScopes then parse_scopes_loop seen out rs
      else if r \<in> set seen then parse_scopes_loop seen out rs
      else parse_scopes_loop (r # seen) (out @ [r]) rs)"

definition ParseScopes :: "string list \<Rightarrow> string list" where
  "ParseScopes raw = parse_scopes_loop [] [] raw"

section \<open>Requests, keys and the server\<close>

record crypto =
  cr_hmac :: "bytes \<Rightarrow> bytes \<Rightarrow> bytes"
  cr_sha256 :: "bytes \<Rightarrow> bytes"
  cr_totp :: "string \<Rightarrow> string \<Rightarrow> bool"

record areq =
  rq_Method :: string
  rq_Path :: string
  rq_Authorization :: string
  rq_APIKey :: string
  rq_CSRF :: string
  rq_session_cookie :: "string option"
  rq_csrf_cookie :: "string option"
  rq_RemoteAddr :: string

record key_record =
  kr_ID :: string
  kr_Name :: string
  kr_Hash :: string
  kr_Prefix :: string
  kr_Scopes :: "string list"
  kr_Disabled :: bool
  kr_CreatedAt :: time
  kr_LastUsedAt :: "time option"
  kr_ExpiresAt :: "time option"

record admin_cfg =
  ad_Token :: string
  ad_APIKey :: string
  ad_BasicUser :: string
  ad_BasicPass :: string
  ad_TOTPSecret :: string
  ad_UIEnabled :: bool
  ad_hasKeys :: bool
  ad_secret :: "bytes option"

record fail_state =
  fs_count :: int
  fs_windowStart :: time
  fs_lockedUntil :: "time option"

record mut_state =
  ms_count :: int
  ms_windowStart :: time

record tracker =
  failed :: "string \<rightharpoonup> fail_state"
  mut_hits :: "string \<rightharpoonup> mut_state"

section \<open>Session cookies\<close>

definition second :: time where "second = 1000000000"

definition unix :: "time \<Rightarrow> int" where "unix t = t div second"

definition sessionTTL :: time where "sessionTTL = 86400 * second"

definition base64URLEncode :: "bytes \<Rightarrow> string" where
  "base64URLEncode b = b64_encode RawURLEncoding b"

definition base64URLDecode :: "string \<Rightarrow> bytes option" where
  "base64URLDecode s = b64_decode RawURLEncoding s"

definition hmacSign :: "crypto \<Rightarrow> bytes \<Rightarrow> string \<Rightarrow> string" where
  "hmacSign cr secret payload = base64URLEncode (cr_hmac cr secret (bytes_of payload))"

definition session_payload :: "time \<Rightarrow> string \<Rightarrow> string" where
  "session_payload now who =
     base64URLEncode (bytes_of who) @ ''.'' @ base64URLEncode (bytes_of (itoa (unix (now + sessionTTL))))"

text \<open>The two cookies and the expiry: \<^verbatim>\<open>issueSessionCookies\<close>.\<close>

record cookies =
  ck_session :: string
  ck_csrf :: string
  ck_exp :: int

definition issueSessionCookies :: "crypto \<Rightarrow> bytes \<Rightarrow> time \<Rightarrow> string \<Rightarrow> cookies" where
  "issueSessionCookies cr secret now who =
     (let payload = session_payload now who
      in \<lparr>ck_session = payload @ ''.'' @ hmacSign cr secret payload,
          ck_csrf = hmacSign cr secret (''csrf:'' @ payload), ck_exp = unix (now + sessionTTL)\<rparr>)"

definition resolveSessionCookieWithExp :: "crypto \<Rightarrow> admin_cfg \<Rightarrow> time \<Rightarrow> areq \<Rightarrow> (string \<times> int) option" where
  "resolveSessionCookieWithExp cr ad now r =
     (case (rq_session_cookie r, ad_secret ad) of
        (Some v, Some secret) \<Rightarrow>
          if v = [] then None
          else (case split_n 3 (CHR ''.'') v of
                  [a, b, c] \<Rightarrow>
                    if hmacSign cr secret (a @ ''.'' @ b) \<noteq> c then None
                    else (case (base64URLDecode a, base64URLDecode b) of
                            (Some who, Some expb) \<Rightarrow>
                              (case atoi (string_of expb) of
                                 None \<Rightarrow> None
                               | Some expTs \<Rightarrow> if unix now > expTs then None else Some (''session:'' @ string_of who, expTs))
                          | _ \<Rightarrow> None)
                | _ \<Rightarrow> None)
      | _ \<Rightarrow> None)"

definition resolveSessionCookie :: "crypto \<Rightarrow> admin_cfg \<Rightarrow> time \<Rightarrow> areq \<Rightarrow> string option" where
  "resolveSessionCookie cr ad now r = map_option fst (resolveSessionCookieWithExp cr ad now r)"

section \<open>The registry of API keys\<close>

definition hashAPIKey :: "crypto \<Rightarrow> string \<Rightarrow> string" where
  "hashAPIKey cr raw = hex_encode (cr_sha256 cr (bytes_of raw))"

text \<open>The index is rebuilt from what the store lists; an error leaves it empty.\<close>

type_synonym key_cache = "(string \<rightharpoonup> key_record) option"

definition rebuildAPIKeyCache :: "key_record list option \<Rightarrow> (string \<rightharpoonup> key_record)" where
  "rebuildAPIKeyCache listed =
     (case listed of None \<Rightarrow> Map.empty | Some keys \<Rightarrow> foldl (\<lambda>m k. m(kr_Hash k \<mapsto> k)) Map.empty keys)"

definition lookupAPIKeyByHash :: "key_record list option \<Rightarrow> string \<Rightarrow> key_cache \<Rightarrow> key_record option \<times> key_cache" where
  "lookupAPIKeyByHash listed hash cache =
     (case cache of
        Some m \<Rightarrow> (m hash, cache)
      | None \<Rightarrow> (let m = rebuildAPIKeyCache listed in (m hash, Some m)))"

definition InvalidateAPIKeyCache :: "key_cache \<Rightarrow> key_cache" where
  "InvalidateAPIKeyCache cache = None"

section \<open>Credentials\<close>

definition http_BasicAuth :: "string \<Rightarrow> (string \<times> string) option" where
  "http_BasicAuth h =
     (if \<not> has_prefix (to_lower h) ''basic '' then None
      else (case b64_decode StdEncoding (drop 6 h) of
              None \<Rightarrow> None
            | Some raw \<Rightarrow>
                (case index_byte (string_of raw) (CHR '':'') of
                   None \<Rightarrow> None
                 | Some i \<Rightarrow> Some (take i (string_of raw), drop (i + 1) (string_of raw)))))"

definition noAuthConfigured :: "admin_cfg \<Rightarrow> bool" where
  "noAuthConfigured ad \<longleftrightarrow> ad_Token ad = [] \<and> ad_APIKey ad = [] \<and> (ad_BasicUser ad = [] \<or> ad_BasicPass ad = [])"

text \<open>The answer of \<^verbatim>\<open>resolveScopes\<close>: the scopes and the identity, the index afterwards, and the
  hash whose last use is recorded in the background.\<close>

definition registry_scopes ::
  "crypto \<Rightarrow> key_record list option \<Rightarrow> time \<Rightarrow> areq \<Rightarrow> key_cache \<Rightarrow> (string list \<times> string) option \<times> key_cache \<times> string option" where
  "registry_scopes cr listed now r cache =
     (let raw = (if rq_APIKey r = [] \<and> has_prefix (rq_Authorization r) ''Bearer '' then drop 7 (rq_Authorization r) else rq_APIKey r)
      in if raw = [] then (None, cache, None)
         else (case lookupAPIKeyByHash listed (hashAPIKey cr raw) cache of
                 (None, cache) \<Rightarrow> (None, cache, None)
               | (Some k, cache) \<Rightarrow>
                   if kr_Disabled k then (None, cache, None)
                   else if (case kr_ExpiresAt k of None \<Rightarrow> False | Some t \<Rightarrow> now > t) then (None, cache, None)
                   else (Some (kr_Scopes k, ''apikey:'' @ kr_Name k), cache, Some (hashAPIKey cr raw))))"

definition resolveScopes ::
  "crypto \<Rightarrow> admin_cfg \<Rightarrow> key_record list option \<Rightarrow> time \<Rightarrow> areq \<Rightarrow> key_cache \<Rightarrow> (string list \<times> string) option \<times> key_cache \<times> string option" where
  "resolveScopes cr ad listed now r cache =
     (case resolveSessionCookie cr ad now r of
        Some who \<Rightarrow> (Some (AllScopes, who), cache, None)
      | None \<Rightarrow>
          if ad_Token ad \<noteq> [] \<and> rq_Authorization r = ''Bearer '' @ ad_Token ad then
            (Some (AllScopes, ''bootstrap:token''), cache, None)
          else if ad_APIKey ad \<noteq> [] \<and> (rq_APIKey r = ad_APIKey ad \<or> rq_Authorization r = ''ApiKey '' @ ad_APIKey ad) then
            (Some (AllScopes, ''bootstrap:api_key''), cache, None)
          else if ad_BasicUser ad \<noteq> [] \<and> ad_BasicPass ad \<noteq> [] \<and> http_BasicAuth (rq_Authorization r) = Some (ad_BasicUser ad, ad_BasicPass ad) then
            (Some (AllScopes, ''bootstrap:basic:'' @ ad_BasicUser ad), cache, None)
          else if ad_hasKeys ad then registry_scopes cr listed now r cache
          else (None, cache, None))"

section \<open>Brute-force lockout and rate limit\<close>

definition bruteforceWindow :: time where "bruteforceWindow = 60 * second"
definition bruteforceMaxFailures :: int where "bruteforceMaxFailures = 10"
definition bruteforceLockout :: time where "bruteforceLockout = 300 * second"
definition apikeyMutWindow :: time where "apikeyMutWindow = 60 * second"
definition apikeyMutMaxOps :: int where "apikeyMutMaxOps = 10"

definition clientIP :: "areq \<Rightarrow> string" where
  "clientIP r = (case SplitHostPort (rq_RemoteAddr r) of None \<Rightarrow> rq_RemoteAddr r | Some (host, _) \<Rightarrow> host)"

definition recordFailedAuth :: "time \<Rightarrow> areq \<Rightarrow> tracker \<Rightarrow> tracker" where
  "recordFailedAuth now r tr =
     (let ip = clientIP r; fresh = \<lparr>fs_count = 1, fs_windowStart = now, fs_lockedUntil = None\<rparr>
      in case failed tr ip of
           None \<Rightarrow> tr\<lparr>failed := (failed tr)(ip \<mapsto> fresh)\<rparr>
         | Some st \<Rightarrow>
             if now - fs_windowStart st > bruteforceWindow then tr\<lparr>failed := (failed tr)(ip \<mapsto> fresh)\<rparr>
             else (let st1 = st\<lparr>fs_count := fs_count st + 1\<rparr>;
                       st2 = (if fs_count st1 \<ge> bruteforceMaxFailures then st1\<lparr>fs_lockedUntil := Some (now + bruteforceLockout)\<rparr> else st1)
                   in tr\<lparr>failed := (failed tr)(ip \<mapsto> st2)\<rparr>))"

definition isBlockedIP :: "time \<Rightarrow> areq \<Rightarrow> tracker \<Rightarrow> bool" where
  "isBlockedIP now r tr =
     (case failed tr (clientIP r) of
        None \<Rightarrow> False
      | Some st \<Rightarrow> (case fs_lockedUntil st of None \<Rightarrow> False | Some u \<Rightarrow> \<not> now > u))"

text \<open>The caller is the authenticated identity, or the address when there is none.\<close>

definition allowAPIKeyMutation :: "time \<Rightarrow> string option \<Rightarrow> areq \<Rightarrow> tracker \<Rightarrow> bool \<times> tracker" where
  "allowAPIKeyMutation now ctx_who r tr =
     (let who0 = (case ctx_who of Some s \<Rightarrow> if s \<noteq> [] then s else ''unknown'' | None \<Rightarrow> ''unknown'');
          who = (if who0 = ''unknown'' then clientIP r else who0);
          hits = (\<lambda>k. case mut_hits tr k of
                        Some st \<Rightarrow> if now - ms_windowStart st > apikeyMutWindow * 2 then None else Some st
                      | None \<Rightarrow> None)
      in case hits who of
           None \<Rightarrow> (True, tr\<lparr>mut_hits := hits(who \<mapsto> \<lparr>ms_count = 1, ms_windowStart = now\<rparr>)\<rparr>)
         | Some st \<Rightarrow>
             if now - ms_windowStart st > apikeyMutWindow
             then (True, tr\<lparr>mut_hits := hits(who \<mapsto> \<lparr>ms_count = 1, ms_windowStart = now\<rparr>)\<rparr>)
             else (ms_count st + 1 \<le> apikeyMutMaxOps, tr\<lparr>mut_hits := hits(who \<mapsto> st\<lparr>ms_count := ms_count st + 1\<rparr>)\<rparr>))"

section \<open>The middleware\<close>

definition checkCSRF :: "areq \<Rightarrow> bool" where
  "checkCSRF r =
     (case rq_session_cookie r of
        None \<Rightarrow> True
      | Some v \<Rightarrow>
          if v = [] then True
          else if rq_Method r \<in> {''GET'', ''HEAD'', ''OPTIONS''} then True
          else (case rq_csrf_cookie r of
                  None \<Rightarrow> False
                | Some c \<Rightarrow> if c = [] \<or> rq_CSRF r = [] then False else rq_CSRF r = c))"

definition maybeRefreshSession :: "crypto \<Rightarrow> admin_cfg \<Rightarrow> time \<Rightarrow> areq \<Rightarrow> string \<Rightarrow> cookies option" where
  "maybeRefreshSession cr ad now r who =
     (case ad_secret ad of
        None \<Rightarrow> None
      | Some secret \<Rightarrow>
          if \<not> has_prefix who ''session:'' then None
          else (case resolveSessionCookieWithExp cr ad now r of
                  None \<Rightarrow> None
                | Some (_, expTs) \<Rightarrow>
                    if expTs * second - now > sessionTTL div 2 then None
                    else Some (issueSessionCookies cr secret now (trim_prefix who ''session:''))))"

datatype auth_answer =
    Served string "cookies option"
  | Unauthorized string
  | TooManyFailures
  | MissingScope string
  | BadCSRF

record admin_state =
  as_cache :: key_cache
  as_tracker :: tracker

definition www_authenticate :: "admin_cfg \<Rightarrow> string" where
  "www_authenticate ad =
     (if ad_BasicUser ad \<noteq> [] \<and> ad_BasicPass ad \<noteq> [] then ''Basic'' else ''Bearer'')"

definition authed ::
  "crypto \<Rightarrow> admin_cfg \<Rightarrow> key_record list option \<Rightarrow> time \<Rightarrow> areq \<Rightarrow> admin_state \<Rightarrow> auth_answer \<times> string option \<times> admin_state" where
  "authed cr ad listed now r st =
     (if noAuthConfigured ad then (Served ''anonymous'' None, None, st)
      else (case resolveScopes cr ad listed now r (as_cache st) of
              (None, cache, used) \<Rightarrow>
                (Unauthorized (www_authenticate ad), used,
                 st\<lparr>as_cache := cache, as_tracker := recordFailedAuth now r (as_tracker st)\<rparr>)
            | (Some (scopes, who), cache, used) \<Rightarrow>
                (let st1 = st\<lparr>as_cache := cache\<rparr>; need = RequiredScope (rq_Method r) (rq_Path r)
                 in if isBlockedIP now r (as_tracker st1) then (TooManyFailures, used, st1)
                    else if \<not> HasScope scopes need then (MissingScope need, used, st1)
                    else if \<not> checkCSRF r then (BadCSRF, used, st1)
                    else (Served who (maybeRefreshSession cr ad now r who), used, st1))))"

section \<open>Logging in\<close>

datatype session_answer =
    LoggedOut | MethodNotAllowed | SessionDisabled | BadBody | InvalidKey | TotpRequired | TotpInvalid
  | LoggedIn string cookies

text \<open>The body of \<^verbatim>\<open>POST /session\<close> is the key and the TOTP code, or \<open>None\<close> when it does not decode.\<close>

definition handleSession ::
  "crypto \<Rightarrow> admin_cfg \<Rightarrow> key_record list option \<Rightarrow> time \<Rightarrow> (string \<times> string) option \<Rightarrow> areq \<Rightarrow> admin_state
     \<Rightarrow> session_answer \<times> string option \<times> admin_state" where
  "handleSession cr ad listed now body r st =
     (if rq_Method r = ''DELETE'' then (LoggedOut, None, st)
      else if rq_Method r \<noteq> ''POST'' then (MethodNotAllowed, None, st)
      else (case ad_secret ad of
              None \<Rightarrow> (SessionDisabled, None, st)
            | Some secret \<Rightarrow>
                (case body of
                   None \<Rightarrow> (BadBody, None, st)
                 | Some (key, code) \<Rightarrow>
                     if key = [] then (BadBody, None, st)
                     else (case resolveScopes cr ad listed now (r\<lparr>rq_APIKey := key\<rparr>) (as_cache st) of
                             (None, cache, used) \<Rightarrow>
                               (InvalidKey, used, st\<lparr>as_cache := cache, as_tracker := recordFailedAuth now r (as_tracker st)\<rparr>)
                           | (Some (scopes, who), cache, used) \<Rightarrow>
                               (let st1 = st\<lparr>as_cache := cache\<rparr>
                                in if ad_TOTPSecret ad \<noteq> [] \<and> code = [] then (TotpRequired, used, st1)
                                   else if ad_TOTPSecret ad \<noteq> [] \<and> \<not> cr_totp cr code (ad_TOTPSecret ad) then
                                     (TotpInvalid, used, st1\<lparr>as_tracker := recordFailedAuth now r (as_tracker st1)\<rparr>)
                                   else (LoggedIn who (issueSessionCookies cr secret now who), used, st1))))))"

section \<open>Audit lines\<close>

definition redactSensitiveKeys :: "string list" where
  "redactSensitiveKeys = [''api_key'', ''apikey'', ''token'', ''secret'', ''password'', ''passwd'', ''access_token'',
     ''refresh_token'', ''x-api-key'']"

definition redact_part :: "string \<Rightarrow> string" where
  "redact_part p =
     (case index_byte p (CHR ''='') of
        None \<Rightarrow> p
      | Some eq \<Rightarrow>
          if eq = 0 then p
          else if to_lower (take eq p) \<in> set redactSensitiveKeys then take (eq + 1) p @ ''****'' else p)"

definition redactURL :: "string \<Rightarrow> string" where
  "redactURL s =
     (if s = [] then s
      else if CHR ''?'' \<notin> set s \<and> CHR ''='' \<notin> set s then s
      else (let (prefix, q) = (case index_byte s (CHR ''?'') of
                                 Some i \<Rightarrow> (take (i + 1) s, drop (i + 1) s) | None \<Rightarrow> ([], s))
            in prefix @ join_with ''&'' (map redact_part (split_on (CHR ''&'') q))))"

text \<open>The record of an action, with the identity the middleware put into the context; its time is in
  microseconds, as in the store.\<close>

definition audit_record :: "time \<Rightarrow> string option \<Rightarrow> string \<Rightarrow> string \<Rightarrow> string \<Rightarrow> audit_event" where
  "audit_record now ctx_who action target detail =
     \<lparr>ae_At = now div 1000, ae_Who = (case ctx_who of None \<Rightarrow> ''unknown'' | Some w \<Rightarrow> w), ae_Action = action,
      ae_Target = redactURL target, ae_Detail = redactURL detail\<rparr>"

section \<open>Lemmas: cookies\<close>

lemma b64_char_mem: "n < 64 \<Longrightarrow> b64_char RawURLEncoding n \<in> set (alphabet RawURLEncoding)"
  by (simp add: b64_char_def RawURLEncoding_def nth_mem del: set_simps list.set nth_Cons_numeral)

lemma b64_encode_alphabet: "set (b64_encode RawURLEncoding bs) \<subseteq> set (alphabet RawURLEncoding)"
proof -
  have np: "\<not> padded RawURLEncoding" by (simp add: RawURLEncoding_def)
  have four: "set (four_chars RawURLEncoding (pack x y z)) \<subseteq> set (alphabet RawURLEncoding)" for x y z
    using pack_less [of x y z] by (simp add: four_chars_def b64_char_mem div_less_iff_less_mult)
  show ?thesis
  proof (induction "RawURLEncoding" bs rule: b64_encode.induct)
    case (2 x)
    show ?case using four [of x 0 0] np by (auto dest: in_set_takeD)
  next
    case (3 x y)
    show ?case using four [of x y 0] np by (auto dest: in_set_takeD)
  qed (use four in auto)
qed

lemma dot_not_b64 [simp]: "CHR ''.'' \<notin> set (base64URLEncode b)"
proof -
  have "CHR ''.'' \<notin> set (alphabet RawURLEncoding)" by code_simp
  then show ?thesis using b64_encode_alphabet [of b] by (auto simp: base64URLEncode_def)
qed

lemma b64url_roundtrip [simp]: "base64URLDecode (base64URLEncode b) = Some b"
  by (simp add: base64URLDecode_def base64URLEncode_def b64_roundtrip)

lemma split_three:
  "CHR ''.'' \<notin> set a \<Longrightarrow> CHR ''.'' \<notin> set b \<Longrightarrow> split_n 3 (CHR ''.'') (a @ ''.'' @ b @ ''.'' @ c) = [a, b, c]"
  by (simp add: numeral_3_eq_3)

lemma split_three_conv:
  assumes "split_n 3 c v = [x, y, z]"
  shows "v = x @ c # y @ c # z"
proof -
  have sep: "s = take i s @ c # drop (Suc i) s" if "index_byte s c = Some i" for s i
    using index_byte_Some [OF that] id_take_nth_drop [of i s] by simp
  obtain i where i: "index_byte v c = Some i" using assms by (auto simp: numeral_3_eq_3 split: option.splits)
  then obtain j where j: "index_byte (drop (Suc i) v) c = Some j" using assms by (auto simp: numeral_3_eq_3 split: option.splits)
  from i j assms have "x = take i v" "y = take j (drop (Suc i) v)" "z = drop (Suc j) (drop (Suc i) v)"
    by (simp_all add: numeral_3_eq_3)
  with sep [OF i] sep [OF j] show ?thesis by metis
qed

text \<open>An issued cookie: the signature is right, whatever the MAC is, so only the expiry decides.\<close>

lemma resolve_issued:
  assumes "ad_secret ad = Some secret"
    and "rq_session_cookie r = Some (ck_session (issueSessionCookies cr secret t0 who))"
    and "int64_range (unix (t0 + sessionTTL))"
  shows "resolveSessionCookieWithExp cr ad now r =
           (if unix now \<le> unix (t0 + sessionTTL) then Some (''session:'' @ who, unix (t0 + sessionTTL)) else None)"
proof -
  let ?w = "base64URLEncode (bytes_of who)" and ?e = "base64URLEncode (bytes_of (itoa (unix (t0 + sessionTTL))))"
  have v: "ck_session (issueSessionCookies cr secret t0 who) = ?w @ ''.'' @ ?e @ ''.'' @ hmacSign cr secret (?w @ ''.'' @ ?e)"
    by (simp add: issueSessionCookies_def session_payload_def Let_def)
  have "split_n 3 (CHR ''.'') (?w @ ''.'' @ ?e @ ''.'' @ hmacSign cr secret (?w @ ''.'' @ ?e))
      = [?w, ?e, hmacSign cr secret (?w @ ''.'' @ ?e)]"
    by (rule split_three) simp_all
  then show ?thesis
    unfolding resolveSessionCookieWithExp_def assms(1,2) v prod.case option.case
    using assms(3) by (simp only: list.case b64url_roundtrip) simp
qed

lemma resolve_signed:
  assumes "resolveSessionCookieWithExp cr ad now r = Some (who, e)"
  obtains secret a b w where "ad_secret ad = Some secret"
    "rq_session_cookie r = Some (a @ ''.'' @ b @ ''.'' @ hmacSign cr secret (a @ ''.'' @ b))"
    "base64URLDecode a = Some w" "who = ''session:'' @ string_of w" "unix now \<le> e"
  using assms unfolding resolveSessionCookieWithExp_def
  by (auto split: option.splits if_splits list.splits dest!: split_three_conv)

section \<open>Lemmas: the middleware\<close>

lemma HasScope_iff: "HasScope have need \<longleftrightarrow> need \<in> set have"
  by (induction "have") auto

lemma RequiredScope_known: "RequiredScope m p \<in> set AllScopes"
  by (simp add: RequiredScope_def AllScopes_def)

lemma parse_scopes_loop_spec:
  assumes "set seen = set out" "distinct out" "set out \<subseteq> set AllScopes"
  shows "distinct (parse_scopes_loop seen out raw)"
    and "set (parse_scopes_loop seen out raw) = set out \<union> (set raw \<inter> set AllScopes)"
  using assms by (induction raw arbitrary: seen out) auto

lemma rebuild_map_of: "rebuildAPIKeyCache (Some keys) = map_of (rev (map (\<lambda>k. (kr_Hash k, k)) keys))"
proof -
  have "foldl (\<lambda>m k. m(kr_Hash k \<mapsto> k)) m0 keys = m0 ++ map_of (rev (map (\<lambda>k. (kr_Hash k, k)) keys))" for m0
    by (induction keys arbitrary: m0) (auto simp: map_add_def fun_eq_iff split: option.splits)
  then show ?thesis by (simp add: rebuildAPIKeyCache_def)
qed

lemma rebuild_sound: "rebuildAPIKeyCache (Some keys) h = Some k \<Longrightarrow> k \<in> set keys \<and> kr_Hash k = h"
  by (auto simp: rebuild_map_of dest!: map_of_SomeD)

lemma rebuild_complete:
  assumes "k \<in> set keys" "\<And>k'. k' \<in> set keys \<Longrightarrow> kr_Hash k' = kr_Hash k \<Longrightarrow> k' = k"
  shows "rebuildAPIKeyCache (Some keys) (kr_Hash k) = Some k"
proof -
  have "map_of (rev (map (\<lambda>k. (kr_Hash k, k)) keys)) (kr_Hash k) \<noteq> None"
    using assms(1) by (simp add: map_of_eq_None_iff image_image)
  then obtain k' where k': "rebuildAPIKeyCache (Some keys) (kr_Hash k) = Some k'" by (auto simp: rebuild_map_of)
  with rebuild_sound [OF k'] assms(2) show ?thesis by simp
qed

text \<open>The index is what a rebuild from the store would give, or is not built yet.\<close>

definition cache_coherent :: "key_record list option \<Rightarrow> key_cache \<Rightarrow> bool" where
  "cache_coherent listed cache \<longleftrightarrow> (case cache of None \<Rightarrow> True | Some m \<Rightarrow> m = rebuildAPIKeyCache listed)"

lemma lookup_coherent:
  "cache_coherent listed cache \<Longrightarrow> fst (lookupAPIKeyByHash listed h cache) = rebuildAPIKeyCache listed h"
  by (auto simp: cache_coherent_def lookupAPIKeyByHash_def Let_def split: option.splits)

lemma lookup_keeps_coherent:
  "cache_coherent listed cache \<Longrightarrow> cache_coherent listed (snd (lookupAPIKeyByHash listed h cache))"
  by (auto simp: cache_coherent_def lookupAPIKeyByHash_def Let_def split: option.splits)

text \<open>The static credentials of the configuration.\<close>

definition bootstrap_credential :: "admin_cfg \<Rightarrow> areq \<Rightarrow> bool" where
  "bootstrap_credential ad r \<longleftrightarrow>
     ad_Token ad \<noteq> [] \<and> rq_Authorization r = ''Bearer '' @ ad_Token ad
     \<or> ad_APIKey ad \<noteq> [] \<and> (rq_APIKey r = ad_APIKey ad \<or> rq_Authorization r = ''ApiKey '' @ ad_APIKey ad)
     \<or> ad_BasicUser ad \<noteq> [] \<and> ad_BasicPass ad \<noteq> [] \<and> http_BasicAuth (rq_Authorization r) = Some (ad_BasicUser ad, ad_BasicPass ad)"

text \<open>The raw key of a request, and a registered key that is usable.\<close>

definition raw_key :: "areq \<Rightarrow> string" where
  "raw_key r = (if rq_APIKey r = [] \<and> has_prefix (rq_Authorization r) ''Bearer '' then drop 7 (rq_Authorization r) else rq_APIKey r)"

definition live_key :: "time \<Rightarrow> key_record \<Rightarrow> bool" where
  "live_key now k \<longleftrightarrow> \<not> kr_Disabled k \<and> (case kr_ExpiresAt k of None \<Rightarrow> True | Some t \<Rightarrow> now \<le> t)"

lemma registry_sound:
  assumes "fst (registry_scopes cr (Some keys) now r cache) = Some (scopes, who)" "cache_coherent (Some keys) cache"
  obtains k where "k \<in> set keys" "kr_Hash k = hashAPIKey cr (raw_key r)" "raw_key r \<noteq> []" "live_key now k"
    "scopes = kr_Scopes k" "who = ''apikey:'' @ kr_Name k"
proof -
  have fst: "fst (lookupAPIKeyByHash (Some keys) (hashAPIKey cr (raw_key r)) cache)
      = rebuildAPIKeyCache (Some keys) (hashAPIKey cr (raw_key r))"
    by (rule lookup_coherent) fact
  from assms(1) obtain k where "rebuildAPIKeyCache (Some keys) (hashAPIKey cr (raw_key r)) = Some k"
    "raw_key r \<noteq> []" "live_key now k" "scopes = kr_Scopes k" "who = ''apikey:'' @ kr_Name k"
    unfolding registry_scopes_def raw_key_def [symmetric] Let_def fst [symmetric]
    by (auto simp: live_key_def split: if_splits prod.splits option.splits)
  with rebuild_sound that show ?thesis by blast
qed

lemma resolveScopes_cases:
  assumes "fst (resolveScopes cr ad listed now r cache) = Some (scopes, who)"
  obtains (session) e where "resolveSessionCookieWithExp cr ad now r = Some (who, e)" "scopes = AllScopes"
  | (bootstrap) "bootstrap_credential ad r" "scopes = AllScopes" "resolveSessionCookieWithExp cr ad now r = None"
  | (registry) "ad_hasKeys ad" "fst (registry_scopes cr listed now r cache) = Some (scopes, who)"
      "resolveSessionCookieWithExp cr ad now r = None"
  using assms unfolding resolveScopes_def resolveSessionCookie_def bootstrap_credential_def
  by (auto split: option.splits if_splits)

lemma authed_Served:
  assumes "fst (authed cr ad listed now r st) = Served who ck" "\<not> noAuthConfigured ad"
  obtains scopes where "fst (resolveScopes cr ad listed now r (as_cache st)) = Some (scopes, who)"
    "\<not> isBlockedIP now r (as_tracker st)" "RequiredScope (rq_Method r) (rq_Path r) \<in> set scopes" "checkCSRF r"
  using assms by (auto simp: authed_def Let_def HasScope_iff split: prod.splits option.splits if_splits)

lemma authed_serves:
  assumes "resolveScopes cr ad listed now r (as_cache st) = (Some (scopes, who), cache, used)"
    "\<not> isBlockedIP now r (as_tracker st)" "RequiredScope (rq_Method r) (rq_Path r) \<in> set scopes" "checkCSRF r"
  shows "\<exists>who' ck. fst (authed cr ad listed now r st) = Served who' ck"
  using assms by (auto simp: authed_def Let_def HasScope_iff)

lemma checkCSRF_double_submit:
  assumes "checkCSRF r" "rq_session_cookie r = Some v" "v \<noteq> []" "rq_Method r \<notin> {''GET'', ''HEAD'', ''OPTIONS''}"
  shows "rq_CSRF r \<noteq> []" "rq_csrf_cookie r = Some (rq_CSRF r)"
  using assms by (auto simp: checkCSRF_def split: option.splits if_splits)

text \<open>What a served request must carry. A session cookie is signed over its own payload, and the double
  submission of the CSRF token is required for methods that are not safe.\<close>

definition signed_session :: "crypto \<Rightarrow> admin_cfg \<Rightarrow> areq \<Rightarrow> bool" where
  "signed_session cr ad r \<longleftrightarrow>
     (\<exists>secret a b. ad_secret ad = Some secret
        \<and> rq_session_cookie r = Some (a @ ''.'' @ b @ ''.'' @ hmacSign cr secret (a @ ''.'' @ b)))"

definition csrf_submitted :: "areq \<Rightarrow> bool" where
  "csrf_submitted r \<longleftrightarrow>
     rq_Method r \<in> {''GET'', ''HEAD'', ''OPTIONS''} \<or> rq_CSRF r \<noteq> [] \<and> rq_csrf_cookie r = Some (rq_CSRF r)"

definition registered_credential :: "crypto \<Rightarrow> key_record list \<Rightarrow> time \<Rightarrow> areq \<Rightarrow> bool" where
  "registered_credential cr keys now r \<longleftrightarrow>
     list_ex (\<lambda>k. kr_Hash k = hashAPIKey cr (raw_key r) \<and> live_key now k
       \<and> RequiredScope (rq_Method r) (rq_Path r) \<in> set (kr_Scopes k)) keys"

definition valid_credential :: "crypto \<Rightarrow> admin_cfg \<Rightarrow> key_record list \<Rightarrow> time \<Rightarrow> areq \<Rightarrow> bool" where
  "valid_credential cr ad keys now r \<longleftrightarrow>
     signed_session cr ad r \<and> csrf_submitted r \<or> bootstrap_credential ad r \<or> registered_credential cr keys now r"

lemma served_credential:
  assumes "fst (authed cr ad (Some keys) now r st) = Served who ck"
    and "\<not> noAuthConfigured ad"
    and "cache_coherent (Some keys) (as_cache st)"
  shows "\<not> isBlockedIP now r (as_tracker st) \<and> valid_credential cr ad keys now r"
proof -
  obtain scopes where sc: "fst (resolveScopes cr ad (Some keys) now r (as_cache st)) = Some (scopes, who)"
    and ok: "\<not> isBlockedIP now r (as_tracker st)" "RequiredScope (rq_Method r) (rq_Path r) \<in> set scopes" "checkCSRF r"
    using authed_Served [OF assms(1,2)] .
  from sc have "valid_credential cr ad keys now r"
  proof (cases rule: resolveScopes_cases)
    case (session e)
    from resolve_signed [OF session(1)] obtain secret a b where c: "ad_secret ad = Some secret"
      "rq_session_cookie r = Some (a @ ''.'' @ b @ ''.'' @ hmacSign cr secret (a @ ''.'' @ b))" .
    with checkCSRF_double_submit [OF ok(3) c(2)] show ?thesis
      unfolding valid_credential_def signed_session_def csrf_submitted_def by blast
  next
    case bootstrap
    then show ?thesis by (simp add: valid_credential_def)
  next
    case registry
    from registry_sound [OF registry(2) assms(3)] obtain k where "k \<in> set keys" "kr_Hash k = hashAPIKey cr (raw_key r)"
      "live_key now k" "scopes = kr_Scopes k" .
    with ok(2) show ?thesis by (auto simp: valid_credential_def registered_credential_def list_ex_iff)
  qed
  with ok(1) show ?thesis by blast
qed

section \<open>Lemmas: lockout\<close>

fun failed_attempts :: "areq \<Rightarrow> time list \<Rightarrow> tracker \<Rightarrow> tracker" where
  "failed_attempts r [] tr = tr"
| "failed_attempts r (t # ts) tr = failed_attempts r ts (recordFailedAuth t r tr)"

lemma recordFailedAuth_other: "ip \<noteq> clientIP r \<Longrightarrow> failed (recordFailedAuth now r tr) ip = failed tr ip"
  by (auto simp: recordFailedAuth_def Let_def split: option.splits)

lemma recordFailedAuth_window:
  assumes "failed tr (clientIP r) = Some \<lparr>fs_count = n, fs_windowStart = t0, fs_lockedUntil = l\<rparr>" "t - t0 \<le> bruteforceWindow"
  shows "failed (recordFailedAuth t r tr) (clientIP r) =
     Some \<lparr>fs_count = n + 1, fs_windowStart = t0,
           fs_lockedUntil = (if n + 1 \<ge> bruteforceMaxFailures then Some (t + bruteforceLockout) else l)\<rparr>"
  using assms by (simp add: recordFailedAuth_def Let_def)

lemma failed_attempts_window:
  assumes "failed tr (clientIP r) = Some \<lparr>fs_count = n, fs_windowStart = t0, fs_lockedUntil = l\<rparr>"
    and "\<forall>t \<in> set ts. t - t0 \<le> bruteforceWindow" and "ts \<noteq> []"
  shows "\<exists>l'. failed (failed_attempts r ts tr) (clientIP r) =
     Some \<lparr>fs_count = n + int (length ts), fs_windowStart = t0, fs_lockedUntil = l'\<rparr>
     \<and> (n + int (length ts) \<ge> bruteforceMaxFailures \<longrightarrow> l' = Some (last ts + bruteforceLockout))
     \<and> (n + int (length ts) < bruteforceMaxFailures \<longrightarrow> l' = l)"
  using assms
proof (induction ts arbitrary: tr n l)
  case (Cons t ts)
  note step = recordFailedAuth_window [OF Cons.prems(1), of t]
  show ?case
  proof (cases "ts = []")
    case True
    with step Cons.prems(2) show ?thesis by simp
  next
    case False
    with Cons.prems(2) step Cons.IH [OF step] show ?thesis
      by (auto simp: algebra_simps)
  qed
qed simp

section \<open>Lemmas: redaction\<close>

lemma amp_not_redact: "CHR ''&'' \<notin> set p \<Longrightarrow> CHR ''&'' \<notin> set (redact_part p)"
  by (auto simp: redact_part_def split: option.splits dest: in_set_takeD)

lemma redact_part_masked:
  assumes "redact_part p = k @ ''='' @ v" "CHR ''='' \<notin> set k" "to_lower k \<in> set redactSensitiveKeys"
  shows "v = ''****''"
proof -
  have "[] \<notin> set redactSensitiveKeys" by (simp add: redactSensitiveKeys_def)
  then have k: "k \<noteq> []" using assms(3) by (auto simp: to_lower_def)
  show ?thesis
  proof (cases "index_byte p (CHR ''='')")
    case None
    then have "redact_part p = p" "CHR ''='' \<notin> set p" by (simp add: redact_part_def, simp add: index_byte_None)
    then show ?thesis using assms(1) by auto
  next
    case (Some i)
    note i = index_byte_Some [OF Some]
    then have p: "p = take i p @ ''='' @ drop (Suc i) p" using id_take_nth_drop [of i p] by simp
    obtain w where w: "redact_part p = take i p @ ''='' @ w" "w = drop (Suc i) p \<or> w = ''****''"
    proof -
      have "redact_part p = p \<or> redact_part p = take i p @ ''='' @ ''****''"
        using Some i by (auto simp: redact_part_def take_Suc_conv_app_nth)
      with p that show ?thesis by metis
    qed
    have "index_byte (redact_part p) (CHR ''='') = Some i" unfolding w(1) using i by simp
    moreover have "index_byte (redact_part p) (CHR ''='') = Some (length k)" unfolding assms(1) using assms(2) by simp
    ultimately have ik: "i = length k" by simp
    then have "take i p = k" using w(1) assms(1) i by (simp add: append_eq_append_conv)
    then have "redact_part p = take (i + 1) p @ ''****''" using Some assms(3) k ik by (simp add: redact_part_def)
    then show ?thesis using assms(1) i \<open>take i p = k\<close> by (simp add: take_Suc_conv_app_nth)
  qed
qed

text \<open>Everything up to and including the first question mark; the rest is the query.\<close>

definition url_prefix :: "string \<Rightarrow> string" where
  "url_prefix s = (case index_byte s (CHR ''?'') of Some i \<Rightarrow> take (i + 1) s | None \<Rightarrow> [])"

lemma redactURL_shape:
  "\<exists>q. s = url_prefix s @ q \<and> redactURL s = url_prefix s @ join_with ''&'' (map redact_part (split_on (CHR ''&'') q))"
proof (cases "CHR ''?'' \<notin> set s \<and> CHR ''='' \<notin> set s")
  case True
  then have "redact_part p = p" if "p \<in> set (split_on (CHR ''&'') s)" for p
  proof -
    have "set p \<subseteq> set s" using that
      by (induction s arbitrary: p) (fastforce split: if_splits list.splits)+
    with True have "index_byte p (CHR ''='') = None" by (auto simp: index_byte_None)
    then show ?thesis by (simp add: redact_part_def)
  qed
  then have "map redact_part (split_on (CHR ''&'') s) = split_on (CHR ''&'') s" by (simp add: map_idI)
  moreover have "index_byte s (CHR ''?'') = None" using True by (simp add: index_byte_None)
  ultimately show ?thesis using True by (simp add: redactURL_def url_prefix_def join_split)
next
  case False
  then have "redactURL s = url_prefix s @ join_with ''&'' (map redact_part (split_on (CHR ''&'') (drop (length (url_prefix s)) s)))"
    by (auto simp: redactURL_def url_prefix_def Let_def min_def split: option.splits dest: index_byte_Some)
  moreover have "s = url_prefix s @ drop (length (url_prefix s)) s"
    by (auto simp: url_prefix_def min_def split: option.splits dest: index_byte_Some)
  ultimately show ?thesis by blast
qed

section \<open>Properties\<close>

text \<open>Concrete primitives for the witnesses; the properties hold for all of them.\<close>

definition demo_crypto :: crypto where
  "demo_crypto = \<lparr>cr_hmac = (\<lambda>k m. take 3 (k @ m)), cr_sha256 = (\<lambda>b. b), cr_totp = (\<lambda>c s. c = s)\<rparr>"

definition demo_admin :: admin_cfg where
  "demo_admin = \<lparr>ad_Token = ''t0k'', ad_APIKey = [], ad_BasicUser = [], ad_BasicPass = [], ad_TOTPSecret = [],
     ad_UIEnabled = True, ad_hasKeys = True, ad_secret = Some [1, 2]\<rparr>"

definition demo_key :: key_record where
  "demo_key = \<lparr>kr_ID = ''k1'', kr_Name = ''ro'', kr_Hash = hashAPIKey demo_crypto ''raw'', kr_Prefix = ''raw'',
     kr_Scopes = [ScopeRead], kr_Disabled = False, kr_CreatedAt = 0, kr_LastUsedAt = None, kr_ExpiresAt = None\<rparr>"

definition demo_req :: areq where
  "demo_req = \<lparr>rq_Method = ''GET'', rq_Path = ''/status'', rq_Authorization = [], rq_APIKey = ''raw'', rq_CSRF = [],
     rq_session_cookie = None, rq_csrf_cookie = None, rq_RemoteAddr = ''10.0.0.1:555''\<rparr>"

definition demo_admin_state :: admin_state where
  "demo_admin_state = \<lparr>as_cache = None, as_tracker = \<lparr>failed = Map.empty, mut_hits = Map.empty\<rparr>\<rparr>"

text \<open>
  C30. Session cookies round-trip: the cookie that a login at time \<open>t0\<close> issues for an identity is
  accepted, under every secret and every MAC function, exactly as long as its 24 hours (counted in whole
  seconds) have not passed, and gives back that identity and expiry; afterwards it is refused.\<close>

theorem session_roundtrip:
  assumes "ad_secret ad = Some secret"
    and "rq_session_cookie r = Some (ck_session (issueSessionCookies cr secret t0 who))"
    and "int64_range (unix (t0 + sessionTTL))"
  shows "resolveSessionCookieWithExp cr ad now r =
           (if unix now \<le> unix (t0 + sessionTTL) then Some (''session:'' @ who, unix (t0 + sessionTTL)) else None)"
  using assms by (rule resolve_issued)

theorem session_roundtrip_witness:
  "resolveSessionCookieWithExp demo_crypto demo_admin 0
     (demo_req\<lparr>rq_session_cookie := Some (ck_session (issueSessionCookies demo_crypto [1, 2] 0 ''bob''))\<rparr>)
     = Some (''session:bob'', 86400)"
  using session_roundtrip [of demo_admin "[1, 2]"
      "demo_req\<lparr>rq_session_cookie := Some (ck_session (issueSessionCookies demo_crypto [1, 2] 0 ''bob''))\<rparr>"
      demo_crypto 0 "''bob''" 0]
  by (simp add: demo_admin_def unix_def sessionTTL_def second_def int64_range_def)

text \<open>
  C29. Soundness of the middleware: when authentication is configured, the index of API keys agrees with
  the store and a request is served, then its address is not locked out and one of three credentials is
  there: a session cookie that carries the MAC of its own payload under the server's secret and, unless the
  method is safe, a CSRF header equal to the CSRF cookie; one of the static credentials; or a raw key whose
  hash is the one of a stored, enabled, unexpired key that has the scope the method and path require.\<close>

theorem authed_sound:
  assumes "fst (authed cr ad (Some keys) now r st) = Served who ck"
    and "\<not> noAuthConfigured ad"
    and "cache_coherent (Some keys) (as_cache st)"
  shows "\<not> isBlockedIP now r (as_tracker st) \<and> valid_credential cr ad keys now r"
  using assms by (rule served_credential)

theorem authed_sound_witness:
  "fst (authed demo_crypto demo_admin (Some [demo_key]) 0 demo_req demo_admin_state) = Served ''apikey:ro'' None
   \<and> valid_credential demo_crypto demo_admin [demo_key] 0 demo_req"
proof -
  have s: "fst (authed demo_crypto demo_admin (Some [demo_key]) 0 demo_req demo_admin_state) = Served ''apikey:ro'' None"
    by code_simp
  have "\<not> noAuthConfigured demo_admin" by code_simp
  moreover have "cache_coherent (Some [demo_key]) (as_cache demo_admin_state)" by (simp add: cache_coherent_def demo_admin_state_def)
  ultimately show ?thesis using s authed_sound [OF s] by blast
qed

text \<open>
  A session grants every scope: whoever logs in through \<^verbatim>\<open>POST /session\<close>, with whatever credential (a
  registered key that only has the read scope included), gets a cookie that the middleware then accepts for
  every method and path, until it expires, whatever happens to the key in the store; only a locked-out
  address is refused.\<close>

lemma session_grants_all_scopes:
  assumes "fst (handleSession cr ad listed t0 body r0 st0) = LoggedIn who ck"
    and "rq_session_cookie r = Some (ck_session ck)" "rq_csrf_cookie r = Some (ck_csrf ck)"
    and "rq_CSRF r = ck_csrf ck" "ck_csrf ck \<noteq> []"
    and "unix now \<le> ck_exp ck" "int64_range (ck_exp ck)"
    and "\<not> noAuthConfigured ad" "\<not> isBlockedIP now r (as_tracker st)"
  shows "\<exists>ck'. fst (authed cr ad listed' now r st) = Served (''session:'' @ who) ck'"
proof -
  obtain secret where s: "ad_secret ad = Some secret" "ck = issueSessionCookies cr secret t0 who"
    using assms(1) by (auto simp: handleSession_def Let_def split: if_splits option.splits prod.splits)
  then have e: "ck_exp ck = unix (t0 + sessionTTL)" by (simp add: issueSessionCookies_def Let_def)
  have "resolveSessionCookieWithExp cr ad now r = Some (''session:'' @ who, ck_exp ck)"
    using resolve_issued [of ad secret r cr t0 who now] s assms(2,6,7) e by simp
  then have "resolveScopes cr ad listed' now r (as_cache st) = (Some (AllScopes, ''session:'' @ who), as_cache st, None)"
    by (simp add: resolveScopes_def resolveSessionCookie_def)
  moreover have "checkCSRF r" using assms(2-5) by (simp add: checkCSRF_def)
  ultimately show ?thesis using assms(8,9) RequiredScope_known [of "rq_Method r" "rq_Path r"]
    by (simp add: authed_def Let_def HasScope_iff)
qed

lemma session_grants_all_scopes_example:
  "\<exists>ck ck'. fst (handleSession demo_crypto demo_admin (Some [demo_key]) 0 (Some (''raw'', [])) (demo_req\<lparr>rq_Method := ''POST''\<rparr>) demo_admin_state)
       = LoggedIn ''apikey:ro'' ck \<and> kr_Scopes demo_key = [ScopeRead]
     \<and> fst (authed demo_crypto demo_admin (Some []) 0
          (demo_req\<lparr>rq_Method := ''DELETE'', rq_Path := ''/apikeys/k1'', rq_APIKey := [], rq_session_cookie := Some (ck_session ck),
             rq_csrf_cookie := Some (ck_csrf ck), rq_CSRF := ck_csrf ck\<rparr>) demo_admin_state) = Served ''session:apikey:ro'' ck'"
proof -
  let ?ck = "issueSessionCookies demo_crypto [1, 2] 0 ''apikey:ro''"
  have l: "fst (handleSession demo_crypto demo_admin (Some [demo_key]) 0 (Some (''raw'', [])) (demo_req\<lparr>rq_Method := ''POST''\<rparr>) demo_admin_state)
       = LoggedIn ''apikey:ro'' ?ck"
  proof -
    have "resolveScopes demo_crypto demo_admin (Some [demo_key]) 0 (demo_req\<lparr>rq_Method := ''POST'', rq_APIKey := ''raw''\<rparr>) None
        = (Some ([ScopeRead], ''apikey:ro''), Some (rebuildAPIKeyCache (Some [demo_key])), Some (hashAPIKey demo_crypto ''raw''))"
      by (simp add: resolveScopes_def resolveSessionCookie_def resolveSessionCookieWithExp_def registry_scopes_def
          lookupAPIKeyByHash_def rebuildAPIKeyCache_def demo_req_def demo_admin_def demo_key_def Let_def)
    then show ?thesis by (simp add: handleSession_def demo_admin_def demo_admin_state_def)
  qed
  have "ck_csrf ?ck \<noteq> []"
    by (simp add: issueSessionCookies_def Let_def hmacSign_def demo_crypto_def base64URLEncode_def bytes_of_def four_chars_def)
  moreover have "unix 0 \<le> ck_exp ?ck"
    by (simp add: issueSessionCookies_def Let_def unix_def sessionTTL_def second_def)
  moreover have "int64_range (ck_exp ?ck)"
    by (simp add: issueSessionCookies_def Let_def unix_def sessionTTL_def second_def int64_range_def)
  moreover have "\<not> noAuthConfigured demo_admin" by code_simp
  moreover have "\<not> isBlockedIP 0 r (as_tracker demo_admin_state)" for r by (simp add: isBlockedIP_def demo_admin_state_def)
  ultimately have "\<exists>ck'. fst (authed demo_crypto demo_admin (Some []) 0
          (demo_req\<lparr>rq_Method := ''DELETE'', rq_Path := ''/apikeys/k1'', rq_APIKey := [], rq_session_cookie := Some (ck_session ?ck),
             rq_csrf_cookie := Some (ck_csrf ?ck), rq_CSRF := ck_csrf ?ck\<rparr>) demo_admin_state) = Served (''session:'' @ ''apikey:ro'') ck'"
    by (intro session_grants_all_scopes [OF l]) simp_all
  moreover have "kr_Scopes demo_key = [ScopeRead]" by (simp add: demo_key_def)
  ultimately show ?thesis using l by auto
qed

text \<open>
  The brute-force lockout: attempts that fail from a fresh address within the 60 seconds after the
  first one lock the address out if and only if there are at least ten of them, and then for five minutes
  after the last.\<close>

lemma lockout_after_ten:
  assumes "failed tr (clientIP r) = None" "ts \<noteq> []"
    and "\<forall>t \<in> set ts. t - hd ts \<le> bruteforceWindow"
    and "now \<le> last ts + bruteforceLockout"
  shows "isBlockedIP now r (failed_attempts r ts tr) \<longleftrightarrow> 10 \<le> length ts"
proof -
  obtain t0 us where ts: "ts = t0 # us" using assms(2) by (cases ts) auto
  have f: "failed (recordFailedAuth t0 r tr) (clientIP r) = Some \<lparr>fs_count = 1, fs_windowStart = t0, fs_lockedUntil = None\<rparr>"
    using assms(1) by (simp add: recordFailedAuth_def Let_def)
  show ?thesis
  proof (cases "us = []")
    case True
    with f ts show ?thesis by (simp add: isBlockedIP_def)
  next
    case False
    with failed_attempts_window [OF f, of us] assms(3,4) ts show ?thesis
      by (auto simp: isBlockedIP_def bruteforceMaxFailures_def split: if_splits)
  qed
qed

lemma lockout_after_ten_example:
  "isBlockedIP 5 demo_req (failed_attempts demo_req (replicate 10 5) (as_tracker demo_admin_state))"
  using lockout_after_ten [of "as_tracker demo_admin_state" demo_req "replicate 10 5" 5]
  by (simp add: demo_admin_state_def bruteforceWindow_def bruteforceLockout_def second_def)

text \<open>
  The lockout does not survive its own window: for a locked-out address, one more failed attempt made
  more than 60 seconds after the window began starts a fresh window, and the address is no longer
  blocked, although the five minutes are not over.\<close>

lemma lockout_lifted_by_failure:
  assumes "failed tr (clientIP r) = Some st" "isBlockedIP now r tr"
    and "now - fs_windowStart st > bruteforceWindow" "now \<le> later"
  shows "\<not> isBlockedIP later r (recordFailedAuth now r tr)"
  using assms by (simp add: recordFailedAuth_def isBlockedIP_def Let_def)

lemma lockout_lifted_by_failure_example:
  "let tr = failed_attempts demo_req (replicate 10 0) (as_tracker demo_admin_state)
   in isBlockedIP (61 * second) demo_req tr \<and> \<not> isBlockedIP (61 * second) demo_req (recordFailedAuth (61 * second) demo_req tr)"
proof -
  let ?tr = "failed_attempts demo_req (replicate 10 0) (as_tracker demo_admin_state)"
  have "failed ?tr (clientIP demo_req) =
      Some \<lparr>fs_count = 10, fs_windowStart = 0, fs_lockedUntil = Some bruteforceLockout\<rparr>"
    by code_simp
  moreover from this have "isBlockedIP (61 * second) demo_req ?tr"
    by (simp add: isBlockedIP_def second_def bruteforceLockout_def)
  ultimately show ?thesis
    using lockout_lifted_by_failure [of ?tr demo_req _ "61 * second" "61 * second"]
    by (simp add: second_def bruteforceWindow_def)
qed

text \<open>
  Audit lines hide credentials: in the query part of a redacted string every parameter whose name,
  in any case, is one of the sensitive ones has the value of four asterisks.\<close>

lemma redactURL_masks:
  assumes "k @ ''='' @ v \<in> set (split_on (CHR ''&'') (drop (length (url_prefix s)) (redactURL s)))"
    and "CHR ''='' \<notin> set k" "to_lower k \<in> set redactSensitiveKeys"
  shows "v = ''****''"
proof -
  obtain q where "redactURL s = url_prefix s @ join_with ''&'' (map redact_part (split_on (CHR ''&'') q))"
    using redactURL_shape by blast
  moreover have "split_on (CHR ''&'') (join_with ''&'' (map redact_part (split_on (CHR ''&'') q))) = map redact_part (split_on (CHR ''&'') q)"
    by (rule split_join) (auto dest: split_on_no_sep amp_not_redact)
  ultimately obtain p where "redact_part p = k @ ''='' @ v" using assms(1) by auto
  then show ?thesis using assms(2,3) by (rule redact_part_masked)
qed

lemma redactURL_masks_example:
  "drop 13 (redactURL ''/x?a=1&Token=abc'') = ''****''"
proof (rule redactURL_masks)
  show "''Token'' @ ''='' @ drop 13 (redactURL ''/x?a=1&Token=abc'')
      \<in> set (split_on (CHR ''&'') (drop (length (url_prefix ''/x?a=1&Token=abc'')) (redactURL ''/x?a=1&Token=abc'')))"
    by code_simp
  show "CHR ''='' \<notin> set ''Token''" "to_lower ''Token'' \<in> set redactSensitiveKeys" by code_simp+
qed

end
