(* ===== verification/Go_Duration.thy ===== *)
theory Go_Duration
  imports Go_Base Float64
begin

text \<open>
  \<^verbatim>\<open>time.ParseDuration\<close> of the Go library, which the configuration and the admin API use for every
  duration: a sign, then numbers with units, each an integer part and an optional fraction. Integer
  parts are checked against overflow of 63 bits, the fraction goes through binary64 arithmetic.
  Durations are integers in nanoseconds; an error is \<open>None\<close>.
\<close>

section \<open>Operations\<close>

definition max63 :: nat where "max63 = 2 ^ 63"

fun leading_int :: "nat \<Rightarrow> string \<Rightarrow> (nat \<times> string) option" where
  "leading_int x [] = Some (x, [])"
| "leading_int x (c # r) =
     (if \<not> is_digit c then Some (x, c # r)
      else if x > max63 div 10 then None
      else if 10 * x + digit_val c > max63 then None
      else leading_int (10 * x + digit_val c) r)"

fun leading_fraction :: "nat \<Rightarrow> rat \<Rightarrow> bool \<Rightarrow> string \<Rightarrow> nat \<times> rat \<times> string" where
  "leading_fraction x scale overflow [] = (x, scale, [])"
| "leading_fraction x scale overflow (c # r) =
     (if \<not> is_digit c then (x, scale, c # r)
      else if overflow \<or> x > (max63 - 1) div 10 \<or> 10 * x + digit_val c > max63
      then leading_fraction x scale True r
      else leading_fraction (10 * x + digit_val c) (fmul scale 10) False r)"

definition unit_char :: "char \<Rightarrow> bool" where
  "unit_char c \<longleftrightarrow> c \<noteq> CHR ''.'' \<and> \<not> is_digit c"

definition unit_ns :: "string \<Rightarrow> nat option" where
  "unit_ns u =
     (if u = ''ns'' then Some 1
      else if u = ''us'' \<or> u = [char_of (0xC2 :: nat), char_of (0xB5 :: nat), CHR ''s'']
           \<or> u = [char_of (0xCE :: nat), char_of (0xBC :: nat), CHR ''s''] then Some 1000
      else if u = ''ms'' then Some 1000000 else if u = ''s'' then Some 1000000000
      else if u = ''m'' then Some 60000000000 else if u = ''h'' then Some 3600000000000 else None)"

text \<open>The optional fraction: its digits, their scale, whether there were any, and the rest.\<close>

definition frac_part :: "string \<Rightarrow> nat \<times> rat \<times> bool \<times> string" where
  "frac_part s =
     (case s of
        [] \<Rightarrow> (0, 1, False, s)
      | d # r \<Rightarrow>
          if d = CHR ''.''
          then (case leading_fraction 0 1 False r of (f, sc, r') \<Rightarrow> (f, sc, length r' \<noteq> length r, r'))
          else (0, 1, False, s))"

text \<open>The unit, with the value of the number before it: the nanoseconds and the rest of the text.\<close>

definition unit_part :: "nat \<Rightarrow> nat \<Rightarrow> rat \<Rightarrow> string \<Rightarrow> (nat \<times> string) option" where
  "unit_part v f scale s =
     (if takeWhile unit_char s = [] then None
      else (case unit_ns (takeWhile unit_char s) of
              None \<Rightarrow> None
            | Some u \<Rightarrow>
                if v > max63 div u then None
                else (let w = v * u + (if f > 0 then nat \<lfloor>fmul (f64 (of_nat f)) (fdiv (f64 (of_nat u)) scale)\<rfloor> else 0)
                      in if w > max63 then None else Some (w, dropWhile unit_char s))))"

definition dur_term :: "string \<Rightarrow> (nat \<times> string) option" where
  "dur_term s =
     (if s = [] \<or> (hd s \<noteq> CHR ''.'' \<and> \<not> is_digit (hd s)) then None
      else (case leading_int 0 s of
              None \<Rightarrow> None
            | Some (v, s1) \<Rightarrow>
                (case frac_part s1 of
                   (f, scale, post, s2) \<Rightarrow>
                     if length s1 = length s \<and> \<not> post then None else unit_part v f scale s2)))"

lemma leading_int_length: "leading_int x s = Some (v, r) \<Longrightarrow> length r \<le> length s"
  by (induction x s rule: leading_int.induct) (auto split: if_splits)

lemma leading_fraction_length: "leading_fraction x sc ov s = (f, sc', r) \<Longrightarrow> length r \<le> length s"
  by (induction x sc ov s rule: leading_fraction.induct) (auto split: if_splits)

lemma frac_part_length: "frac_part s = (f, sc, post, r) \<Longrightarrow> length r \<le> length s"
  by (auto simp: frac_part_def dest!: leading_fraction_length split: list.splits if_splits prod.splits)

lemma unit_part_length: "unit_part v f sc s = Some (w, r) \<Longrightarrow> length r < length s"
proof -
  have "length (dropWhile unit_char t) < length t" if "takeWhile unit_char t \<noteq> []" for t
    using that by (cases t) (auto simp: le_imp_less_Suc length_dropWhile_le split: if_splits)
  then show "unit_part v f sc s = Some (w, r) \<Longrightarrow> length r < length s"
    by (auto simp: unit_part_def Let_def split: if_splits option.splits)
qed

lemma dur_term_length: "dur_term s = Some (v, r) \<Longrightarrow> length r < length s"
  by (auto simp: dur_term_def split: if_splits option.splits prod.splits
      dest!: leading_int_length frac_part_length unit_part_length)

function dur_loop :: "nat \<Rightarrow> string \<Rightarrow> nat option" where
  "dur_loop d s =
     (if s = [] then Some d
      else (case dur_term s of
              None \<Rightarrow> None
            | Some (v, r) \<Rightarrow> if d + v > max63 then None else dur_loop (d + v) r))"
  by auto

termination
  by (relation "measure (\<lambda>(d, s). length s)") (auto dest!: dur_term_length)

declare dur_loop.simps [simp del]

definition ParseDuration :: "string \<Rightarrow> int option" where
  "ParseDuration s =
     (let (neg, t) = (case s of [] \<Rightarrow> (False, []) | c # r \<Rightarrow> if c = CHR ''-'' \<or> c = CHR ''+'' then (c = CHR ''-'', r) else (False, s))
      in if t = ''0'' then Some 0
         else if t = [] then None
         else (case dur_loop 0 t of
                 None \<Rightarrow> None
               | Some d \<Rightarrow> if neg then Some (- int d) else if d > max63 - 1 then None else Some (int d)))"

section \<open>Lemmas\<close>

lemma dur_loop_bound: "dur_loop d s = Some v \<Longrightarrow> d \<le> max63 \<Longrightarrow> v \<le> max63"
proof (induction d s rule: dur_loop.induct)
  case (1 d s)
  then show ?case
    by (subst (asm) (2) dur_loop.simps) (auto split: if_splits option.splits prod.splits)
qed

lemma ParseDuration_range: "ParseDuration s = Some d \<Longrightarrow> - (2 ^ 63) \<le> d \<and> d < 2 ^ 63"
proof -
  have b: "v \<le> 2 ^ 63" if "dur_loop 0 t = Some v" for t v using dur_loop_bound [OF that] by (simp add: max63_def)
  assume "ParseDuration s = Some d"
  then consider "d = 0" | t v where "dur_loop 0 t = Some v" "d = - int v" | t v where "dur_loop 0 t = Some v" "v \<le> max63 - 1" "d = int v"
    by (auto simp: ParseDuration_def Let_def split: list.splits if_splits option.splits)
  then show ?thesis
  proof cases
    case (2 t v)
    then have "int v \<le> 2 ^ 63" using b [OF 2(1)] by (simp add: int_le_real_less flip: of_nat_le_iff)
    with 2 show ?thesis by simp
  next
    case (3 t v)
    then have "v < 2 ^ 63" by (simp add: max63_def)
    then have "int v < 2 ^ 63" by (simp flip: of_nat_less_iff)
    with 3 show ?thesis by simp
  qed simp
qed

lemma parse_one_hour: "ParseDuration ''1h'' = Some 3600000000000"
proof -
  have c: "is_digit (CHR ''1'')" "\<not> is_digit (CHR ''h'')" "digit_val (CHR ''1'') = 1" by code_simp+
  have "dur_term ''1h'' = Some (3600000000000, [])"
    by (simp add: dur_term_def c max63_def frac_part_def unit_part_def unit_char_def unit_ns_def Let_def)
  then have "dur_loop 0 ''1h'' = Some 3600000000000" by (simp add: dur_loop.simps [of 0] dur_loop.simps [of _ "[]"] max63_def)
  then show ?thesis by (simp add: ParseDuration_def max63_def)
qed
end
