(* ===== verification/Admin_Keys.thy ===== *)
theory Admin_Keys
  imports Admin_Auth Go_Duration
begin

text \<open>
  The registry of API keys behind the admin server: the handlers of \<^verbatim>\<open>internal/admin/apikeys.go\<close>, written
  against the interface \<^verbatim>\<open>APIKeyStore\<close>, and the adapters of \<^verbatim>\<open>cmd/flarex/main.go\<close> that implement it on the
  persistent store. The interface is the locale \<open>apikey_store\<close>: what the handlers rely on after a put, a
  delete or a change of the disabled flag; the interpretation shows that the adapter keeps it for every
  bucket that behaves as the database documents. A request is handled at one instant; the bytes of the random
  generator are arguments, and \<open>None\<close> is its failure.
\<close>

section \<open>The interface\<close>

record 's key_ops =
  ko_Put :: "key_record \<Rightarrow> 's \<Rightarrow> store_err option \<times> 's"
  ko_List :: "'s \<Rightarrow> store_err option \<times> key_record list"
  ko_Get :: "string \<Rightarrow> 's \<Rightarrow> store_err + key_record"
  ko_Delete :: "string \<Rightarrow> 's \<Rightarrow> store_err option \<times> 's"
  ko_MarkUsed :: "time \<Rightarrow> string \<Rightarrow> 's \<Rightarrow> 's"
  ko_SetDisabled :: "string \<Rightarrow> bool \<Rightarrow> 's \<Rightarrow> store_err option \<times> 's"

text \<open>What the middleware gets from \<^verbatim>\<open>ListAPIKeys\<close>: the keys, or \<open>None\<close> on an error.\<close>

definition listed :: "'s key_ops \<Rightarrow> 's \<Rightarrow> key_record list option" where
  "listed ks s = (case ko_List ks s of (None, keys) \<Rightarrow> Some keys | (Some _, _) \<Rightarrow> None)"

section \<open>The adapters\<close>

definition toStateKey :: "key_record \<Rightarrow> api_key" where
  "toStateKey k =
     \<lparr>ak_ID = kr_ID k, ak_Name = kr_Name k, ak_Hash = kr_Hash k, ak_Prefix = kr_Prefix k, ak_Scopes = kr_Scopes k,
      ak_Disabled = kr_Disabled k, ak_CreatedAt = kr_CreatedAt k, ak_LastUsedAt = kr_LastUsedAt k, ak_ExpiresAt = None\<rparr>"

definition toAdminKey :: "api_key \<Rightarrow> key_record" where
  "toAdminKey k =
     \<lparr>kr_ID = ak_ID k, kr_Name = ak_Name k, kr_Hash = ak_Hash k, kr_Prefix = ak_Prefix k, kr_Scopes = ak_Scopes k,
      kr_Disabled = ak_Disabled k, kr_CreatedAt = ak_CreatedAt k, kr_LastUsedAt = ak_LastUsedAt k,
      kr_ExpiresAt = ak_ExpiresAt k\<rparr>"

definition apiKeyStoreAdapter :: "'b bucket_ops \<Rightarrow> api_key codec \<Rightarrow> bool \<Rightarrow> 'b store key_ops" where
  "apiKeyStoreAdapter bo cd commit =
     \<lparr>ko_Put = (\<lambda>k. PutAPIKey bo cd commit (toStateKey k)),
      ko_List = (\<lambda>st. case ListAPIKeys bo cd st of
                        (Some e, _) \<Rightarrow> (Some e, [])
                      | (None, raw) \<Rightarrow> (None, map toAdminKey raw)),
      ko_Get = (\<lambda>kid st. case GetAPIKey bo cd kid st of Inl e \<Rightarrow> Inl e | Inr k \<Rightarrow> Inr (toAdminKey k)),
      ko_Delete = DeleteAPIKey bo commit,
      ko_MarkUsed = MarkAPIKeyUsed bo cd commit,
      ko_SetDisabled = SetAPIKeyDisabled bo cd commit\<rparr>"

definition auditAdapter_Put :: "'b bucket_ops \<Rightarrow> audit_event codec \<Rightarrow> bool \<Rightarrow> audit_event \<Rightarrow> 'b store \<Rightarrow> 'b store" where
  "auditAdapter_Put bo cd commit ev st =
     snd (PutAudit bo cd commit
       \<lparr>ae_At = ae_At ev, ae_Who = ae_Who ev, ae_Action = ae_Action ev, ae_Target = ae_Target ev, ae_Detail = ae_Detail ev\<rparr> st)"

section \<open>New keys\<close>

definition generateRawKey :: "bytes option \<Rightarrow> string option" where
  "generateRawKey rng = map_option (\<lambda>b. ''flx_'' @ b64_encode RawURLEncoding b) rng"

definition hexNoDash_alpha :: string where "hexNoDash_alpha = ''0123456789abcdefghijklmnop''"

definition hexNoDash :: "bytes \<Rightarrow> string" where
  "hexNoDash b = map (\<lambda>i. hexNoDash_alpha ! (unat (b ! (i mod length b)) mod 26)) [0..<26]"

text \<open>Sixteen random bytes, of which the first six are overwritten by the milliseconds of the clock.\<close>

definition newULID :: "bytes \<Rightarrow> time \<Rightarrow> string" where
  "newULID rnd now =
     (let ts = now div 1000000
      in to_lower (hexNoDash (map (\<lambda>s. of_int (ts div 2 ^ s)) [40, 32, 24, 16, 8, 0] @ drop 6 rnd)))"

section \<open>The handlers\<close>

record 's api_state =
  ap_store :: 's
  ap_cache :: key_cache
  ap_tracker :: tracker

datatype key_answer =
    KNotFound | KDisabled | KMethodNotAllowed | KRateLimited | KBadRequest | KStoreError store_err | KConflict | KRngFailure
  | KList "(key_record \<times> bool) list" | KCreated key_record string | KShown key_record | KPatched string bool | KDeleted string

text \<open>The part of a request the handlers read beside \<open>areq\<close>: the identity the middleware resolved, the decoded
  bodies (\<open>None\<close>: the body does not decode) and the random bytes.\<close>

record key_env =
  ke_now :: time
  ke_who :: "string option"
  ke_create :: "(string \<times> string list \<times> string) option"
  ke_patch :: "bool option option"
  ke_rng24 :: "bytes option"
  ke_rng16 :: bytes

definition audit :: "(audit_event \<Rightarrow> 's \<Rightarrow> 's) option \<Rightarrow> time \<Rightarrow> string option \<Rightarrow> string \<Rightarrow> string \<Rightarrow> string \<Rightarrow> 's \<Rightarrow> 's" where
  "audit alog now who action target detail s =
     (case alog of None \<Rightarrow> s | Some put \<Rightarrow> put (audit_record now who action target detail) s)"

definition apiKeysList :: "'s key_ops \<Rightarrow> time \<Rightarrow> 's api_state \<Rightarrow> key_answer" where
  "apiKeysList ks now st =
     (case ko_List ks (ap_store st) of
        (Some e, _) \<Rightarrow> KStoreError e
      | (None, keys) \<Rightarrow> KList (map (\<lambda>k. (k, case kr_ExpiresAt k of None \<Rightarrow> False | Some t \<Rightarrow> now > t)) keys))"

definition apiKeysCreate ::
  "'s key_ops \<Rightarrow> (audit_event \<Rightarrow> 's \<Rightarrow> 's) option \<Rightarrow> crypto \<Rightarrow> key_env \<Rightarrow> 's api_state \<Rightarrow> key_answer \<times> 's api_state" where
  "apiKeysCreate ks alog cr ke st =
     (case ke_create ke of
        None \<Rightarrow> (KBadRequest, st)
      | Some (name, scopes0, expiresIn) \<Rightarrow>
          if name = [] then (KBadRequest, st)
          else (case ko_List ks (ap_store st) of
                  (Some e, _) \<Rightarrow> (KStoreError e, st)
                | (None, existing) \<Rightarrow>
                    if list_ex (\<lambda>k. kr_Name k = name) existing then (KConflict, st)
                    else (let scopes1 = ParseScopes scopes0; scopes = (if length scopes1 = 0 then [ScopeRead] else scopes1)
                          in case (if expiresIn = [] then Some None
                                   else (case ParseDuration expiresIn of
                                           None \<Rightarrow> None
                                         | Some d \<Rightarrow> if d \<le> 0 then None else Some (Some (ke_now ke + d)))) of
                               None \<Rightarrow> (KBadRequest, st)
                             | Some expiresAt \<Rightarrow>
                                 (case generateRawKey (ke_rng24 ke) of
                                    None \<Rightarrow> (KRngFailure, st)
                                  | Some raw \<Rightarrow>
                                      (let rec = \<lparr>kr_ID = newULID (ke_rng16 ke) (ke_now ke), kr_Name = name,
                                                  kr_Hash = hashAPIKey cr raw, kr_Prefix = take 12 raw, kr_Scopes = scopes,
                                                  kr_Disabled = False, kr_CreatedAt = ke_now ke, kr_LastUsedAt = None,
                                                  kr_ExpiresAt = expiresAt\<rparr>
                                       in case ko_Put ks rec (ap_store st) of
                                            (Some e, s') \<Rightarrow> (KStoreError e, st\<lparr>ap_store := s'\<rparr>)
                                          | (None, s') \<Rightarrow>
                                              (KCreated rec raw,
                                               st\<lparr>ap_store := audit alog (ke_now ke) (ke_who ke) ''apikey.create'' (kr_ID rec) (kr_Name rec) s',
                                                  ap_cache := InvalidateAPIKeyCache (ap_cache st)\<rparr>))))))"

definition apiKeysGet :: "'s key_ops \<Rightarrow> string \<Rightarrow> 's api_state \<Rightarrow> key_answer" where
  "apiKeysGet ks kid st = (case ko_Get ks kid (ap_store st) of Inl _ \<Rightarrow> KNotFound | Inr k \<Rightarrow> KShown k)"

definition apiKeysPatch ::
  "'s key_ops \<Rightarrow> (audit_event \<Rightarrow> 's \<Rightarrow> 's) option \<Rightarrow> key_env \<Rightarrow> string \<Rightarrow> 's api_state \<Rightarrow> key_answer \<times> 's api_state" where
  "apiKeysPatch ks alog ke kid st =
     (case ke_patch ke of
        None \<Rightarrow> (KBadRequest, st)
      | Some None \<Rightarrow> (KBadRequest, st)
      | Some (Some disabled) \<Rightarrow>
          (case ko_SetDisabled ks kid disabled (ap_store st) of
             (Some e, s') \<Rightarrow> (KStoreError e, st\<lparr>ap_store := s'\<rparr>)
           | (None, s') \<Rightarrow>
               (KPatched kid disabled,
                st\<lparr>ap_store := audit alog (ke_now ke) (ke_who ke) (if disabled then ''apikey.disable'' else ''apikey.enable'') kid [] s',
                   ap_cache := InvalidateAPIKeyCache (ap_cache st)\<rparr>)))"

definition apiKeysDelete ::
  "'s key_ops \<Rightarrow> (audit_event \<Rightarrow> 's \<Rightarrow> 's) option \<Rightarrow> key_env \<Rightarrow> string \<Rightarrow> 's api_state \<Rightarrow> key_answer \<times> 's api_state" where
  "apiKeysDelete ks alog ke kid st =
     (case ko_Delete ks kid (ap_store st) of
        (Some e, s') \<Rightarrow> (KStoreError e, st\<lparr>ap_store := s'\<rparr>)
      | (None, s') \<Rightarrow>
          (KDeleted kid,
           st\<lparr>ap_store := audit alog (ke_now ke) (ke_who ke) ''apikey.revoke'' kid [] s',
              ap_cache := InvalidateAPIKeyCache (ap_cache st)\<rparr>))"

text \<open>The rate limit guards each mutation: its tracker is updated whether or not the call is allowed.\<close>

definition rate_limited ::
  "key_env \<Rightarrow> areq \<Rightarrow> ('s api_state \<Rightarrow> key_answer \<times> 's api_state) \<Rightarrow> 's api_state \<Rightarrow> key_answer \<times> 's api_state" where
  "rate_limited ke r h st =
     (let (ok, tr) = allowAPIKeyMutation (ke_now ke) (ke_who ke) r (ap_tracker st); st1 = st\<lparr>ap_tracker := tr\<rparr>
      in if \<not> ok then (KRateLimited, st1) else h st1)"

definition handleAPIKeys ::
  "bool \<Rightarrow> 's key_ops option \<Rightarrow> (audit_event \<Rightarrow> 's \<Rightarrow> 's) option \<Rightarrow> crypto \<Rightarrow> key_env \<Rightarrow> areq \<Rightarrow> 's api_state
     \<Rightarrow> key_answer \<times> 's api_state" where
  "handleAPIKeys ui keys alog cr ke r st =
     (if \<not> ui then (KNotFound, st)
      else (case keys of
              None \<Rightarrow> (KDisabled, st)
            | Some ks \<Rightarrow>
                (let kid = trim_prefix (trim_prefix (rq_Path r) ''/apikeys'') ''/''
                 in if kid = [] then
                      (if rq_Method r = ''GET'' then (apiKeysList ks (ke_now ke) st, st)
                       else if rq_Method r = ''POST'' then rate_limited ke r (apiKeysCreate ks alog cr ke) st
                       else (KMethodNotAllowed, st))
                    else if rq_Method r = ''DELETE'' then rate_limited ke r (apiKeysDelete ks alog ke kid) st
                    else if rq_Method r = ''PATCH'' then rate_limited ke r (apiKeysPatch ks alog ke kid) st
                    else if rq_Method r = ''GET'' then (apiKeysGet ks kid st, st)
                    else (KMethodNotAllowed, st))))"

section \<open>The contract of the store, and what the handlers get from it\<close>

definition keys_of :: "'s key_ops \<Rightarrow> 's api_state \<Rightarrow> key_record set" where
  "keys_of ks st = set (snd (ko_List ks (ap_store st)))"

lemma registry_accepts:
  assumes "lookupAPIKeyByHash keys (hashAPIKey cr (raw_key r)) cache = (Some k, c')" "live_key now k" "raw_key r \<noteq> []"
  shows "fst (registry_scopes cr keys now r cache) = Some (kr_Scopes k, ''apikey:'' @ kr_Name k)"
  unfolding registry_scopes_def raw_key_def [symmetric] Let_def assms(1)
  using assms(2,3) by (simp add: live_key_def split: option.splits)

locale apikey_store =
  fixes ks :: "'s key_ops" and alog :: "(audit_event \<Rightarrow> 's \<Rightarrow> 's) option" and inv :: "'s \<Rightarrow> bool"
    and ok :: "key_record \<Rightarrow> bool" and stored :: "key_record \<Rightarrow> key_record"
  assumes list_ok: "inv s \<Longrightarrow> fst (ko_List ks s) = None"
    and put_ok: "inv s \<Longrightarrow> ok k \<Longrightarrow> ko_Put ks k s = (None, s') \<Longrightarrow>
      inv s' \<and> set (snd (ko_List ks s')) = insert (stored k) {x \<in> set (snd (ko_List ks s)). kr_ID x \<noteq> kr_ID k}"
    and delete_ok: "inv s \<Longrightarrow> ko_Delete ks kid s = (None, s') \<Longrightarrow>
      inv s' \<and> set (snd (ko_List ks s')) = {x \<in> set (snd (ko_List ks s)). kr_ID x \<noteq> kid}"
    and disable_ok: "inv s \<Longrightarrow> ko_SetDisabled ks kid d s = (None, s') \<Longrightarrow>
      inv s' \<and> set (snd (ko_List ks s')) = (\<lambda>x. if kr_ID x = kid then x\<lparr>kr_Disabled := d\<rparr> else x) ` set (snd (ko_List ks s))"
    and put_failed: "ko_Put ks k s = (Some e, s') \<Longrightarrow> s' = s"
    and delete_failed: "ko_Delete ks kid s = (Some e, s') \<Longrightarrow> s' = s"
    and disable_failed: "ko_SetDisabled ks kid d s = (Some e, s') \<Longrightarrow> s' = s"
    and audit_ok: "alog = Some put \<Longrightarrow> inv s \<Longrightarrow> inv (put ev s) \<and> ko_List ks (put ev s) = ko_List ks s"
    and stored_same: "kr_ID (stored k) = kr_ID k" "kr_Name (stored k) = kr_Name k" "kr_Hash (stored k) = kr_Hash k"
      "kr_Scopes (stored k) = kr_Scopes k" "kr_Disabled (stored k) = kr_Disabled k"
begin

lemma audit_same:
  "inv s \<Longrightarrow> inv (audit alog now who action target detail s) \<and> ko_List ks (audit alog now who action target detail s) = ko_List ks s"
  by (auto simp: audit_def audit_ok split: option.split)

lemma listed_keys: "inv (ap_store st) \<Longrightarrow> \<exists>l. listed ks (ap_store st) = Some l \<and> set l = keys_of ks st"
  using list_ok [of "ap_store st"] by (auto simp: listed_def keys_of_def split: prod.splits option.splits)

lemma created:
  assumes "apiKeysCreate ks alog cr ke st = (KCreated rec raw, st')" "inv (ap_store st)" "ok rec"
  shows "inv (ap_store st')" "ap_cache st' = None" "keys_of ks st' = insert (stored rec) {x \<in> keys_of ks st. kr_ID x \<noteq> kr_ID rec}"
    "kr_Name rec \<notin> kr_Name ` keys_of ks st" "kr_Hash rec = hashAPIKey cr raw" "\<not> kr_Disabled rec" "raw \<noteq> []"
proof -
  obtain s' where s': "ko_Put ks rec (ap_store st) = (None, s')"
    and st': "ap_store st' = audit alog (ke_now ke) (ke_who ke) ''apikey.create'' (kr_ID rec) (kr_Name rec) s'" "ap_cache st' = None"
    and n: "\<forall>k \<in> keys_of ks st. kr_Name k \<noteq> kr_Name rec" and r: "kr_Hash rec = hashAPIKey cr raw" "\<not> kr_Disabled rec" "raw \<noteq> []"
    using assms(1)
    by (auto simp: apiKeysCreate_def Let_def InvalidateAPIKeyCache_def generateRawKey_def keys_of_def list_ex_iff
        split: option.splits prod.splits if_splits)
  note p = put_ok [OF assms(2,3) s']
  with audit_same st' show "inv (ap_store st')" "keys_of ks st' = insert (stored rec) {x \<in> keys_of ks st. kr_ID x \<noteq> kr_ID rec}"
    by (simp_all add: keys_of_def)
  show "kr_Name rec \<notin> kr_Name ` keys_of ks st" using n by auto
  show "ap_cache st' = None" "kr_Hash rec = hashAPIKey cr raw" "\<not> kr_Disabled rec" "raw \<noteq> []"
    by fact+
qed

lemma deleted:
  assumes "apiKeysDelete ks alog ke kid st = (KDeleted i, st')" "inv (ap_store st)"
  shows "inv (ap_store st')" "ap_cache st' = None" "keys_of ks st' = {x \<in> keys_of ks st. kr_ID x \<noteq> kid}"
proof -
  obtain s' where s': "ko_Delete ks kid (ap_store st) = (None, s')"
    and st': "ap_store st' = audit alog (ke_now ke) (ke_who ke) ''apikey.revoke'' kid [] s'" "ap_cache st' = None"
    using assms(1) by (auto simp: apiKeysDelete_def InvalidateAPIKeyCache_def split: option.splits prod.splits)
  with delete_ok [OF assms(2) s'] audit_same
  show "inv (ap_store st')" "ap_cache st' = None" "keys_of ks st' = {x \<in> keys_of ks st. kr_ID x \<noteq> kid}"
    by (simp_all add: keys_of_def)
qed

lemma patched:
  assumes "apiKeysPatch ks alog ke kid st = (KPatched i d, st')" "inv (ap_store st)"
  shows "inv (ap_store st')" "ap_cache st' = None"
    "keys_of ks st' = (\<lambda>x. if kr_ID x = kid then x\<lparr>kr_Disabled := d\<rparr> else x) ` keys_of ks st"
proof -
  obtain s' where s': "ko_SetDisabled ks kid d (ap_store st) = (None, s')"
    and st': "ap_store st' = audit alog (ke_now ke) (ke_who ke) (if d then ''apikey.disable'' else ''apikey.enable'') kid [] s'"
      "ap_cache st' = None"
    using assms(1) by (auto simp: apiKeysPatch_def InvalidateAPIKeyCache_def split: option.splits prod.splits)
  with disable_ok [OF assms(2) s'] audit_same
  show "inv (ap_store st')" "ap_cache st' = None" "keys_of ks st' = (\<lambda>x. if kr_ID x = kid then x\<lparr>kr_Disabled := d\<rparr> else x) ` keys_of ks st"
    by (simp_all add: keys_of_def)
qed

text \<open>With an empty index the registry answers from the store.\<close>

lemma fresh_cache_refuses:
  assumes "inv (ap_store st)" "ap_cache st = None"
    and "\<And>k. k \<in> keys_of ks st \<Longrightarrow> kr_Hash k = hashAPIKey cr (raw_key r) \<Longrightarrow> kr_Disabled k"
  shows "fst (registry_scopes cr (listed ks (ap_store st)) now r (ap_cache st)) = None"
proof (rule ccontr)
  obtain l where l: "listed ks (ap_store st) = Some l" "set l = keys_of ks st" using listed_keys [OF assms(1)] by blast
  assume "fst (registry_scopes cr (listed ks (ap_store st)) now r (ap_cache st)) \<noteq> None"
  then obtain sc who where "fst (registry_scopes cr (Some l) now r (ap_cache st)) = Some (sc, who)" unfolding l(1) by auto
  from registry_sound [OF this] assms(2) obtain k where
    "k \<in> set l" "kr_Hash k = hashAPIKey cr (raw_key r)" "live_key now k" by (auto simp: cache_coherent_def)
  with assms(3) l(2) show False by (auto simp: live_key_def)
qed

lemma fresh_cache_accepts:
  assumes "inv (ap_store st)" "ap_cache st = None" "k \<in> keys_of ks st" "live_key now k"
    and "\<And>k'. k' \<in> keys_of ks st \<Longrightarrow> kr_Hash k' = kr_Hash k \<Longrightarrow> k' = k"
    and "kr_Hash k = hashAPIKey cr (raw_key r)" "raw_key r \<noteq> []"
  shows "fst (registry_scopes cr (listed ks (ap_store st)) now r (ap_cache st)) = Some (kr_Scopes k, ''apikey:'' @ kr_Name k)"
proof -
  obtain l where l: "listed ks (ap_store st) = Some l" "set l = keys_of ks st" using listed_keys [OF assms(1)] by blast
  have "rebuildAPIKeyCache (Some l) (kr_Hash k) = Some k"
    by (rule rebuild_complete) (use assms(3,5) l(2) in blast)+
  then have "lookupAPIKeyByHash (Some l) (hashAPIKey cr (raw_key r)) None = (Some k, Some (rebuildAPIKeyCache (Some l)))"
    by (simp add: lookupAPIKeyByHash_def Let_def assms(6) [symmetric])
  then show ?thesis unfolding l(1) assms(2) using assms(4,7) by (rule registry_accepts)
qed

text \<open>Every answer but success leaves the store alone, and names stay distinct.\<close>

definition names_ok :: "'s api_state \<Rightarrow> bool" where
  "names_ok st \<longleftrightarrow> inv (ap_store st) \<and> inj_on kr_Name (keys_of ks st)"

lemma names_ok_same: "ap_store st' = ap_store st \<Longrightarrow> names_ok st' = names_ok st"
  by (simp add: names_ok_def keys_of_def)

lemma create_keeps:
  assumes "apiKeysCreate ks alog cr ke st = (ans, st')" "names_ok st" "\<And>rec raw. ans = KCreated rec raw \<Longrightarrow> ok rec"
  shows "names_ok st'"
proof (cases "\<exists>rec raw. ans = KCreated rec raw")
  case True
  then obtain rec raw where a: "ans = KCreated rec raw" by blast
  from assms(2) have i: "inv (ap_store st)" by (simp add: names_ok_def)
  note c = created [OF assms(1) [unfolded a] i assms(3) [OF a]]
  have "inj_on kr_Name {x \<in> keys_of ks st. kr_ID x \<noteq> kr_ID rec}" using assms(2) by (auto simp: names_ok_def inj_on_def)
  with c(1,3,4) show ?thesis by (auto simp: names_ok_def stored_same inj_on_insert)
next
  case False
  then have "ap_store st' = ap_store st" using assms(1)
    by (auto simp: apiKeysCreate_def Let_def dest: put_failed split: option.splits prod.splits if_splits)
  with assms(2) names_ok_same [of st' st] show ?thesis by simp
qed

lemma delete_keeps:
  assumes "apiKeysDelete ks alog ke kid st = (ans, st')" "names_ok st"
  shows "names_ok st'"
proof (cases "\<exists>i. ans = KDeleted i")
  case True
  then obtain i where "ans = KDeleted i" by blast
  with deleted [of ke kid st i st'] assms show ?thesis by (auto simp: names_ok_def inj_on_def)
next
  case False
  then have "ap_store st' = ap_store st" using assms(1)
    by (auto simp: apiKeysDelete_def dest: delete_failed split: option.splits prod.splits)
  with assms(2) names_ok_same [of st' st] show ?thesis by simp
qed

lemma patch_keeps:
  assumes "apiKeysPatch ks alog ke kid st = (ans, st')" "names_ok st"
  shows "names_ok st'"
proof (cases "\<exists>i d. ans = KPatched i d")
  case True
  then obtain i d where a: "ans = KPatched i d" by blast
  from assms(2) have i: "inv (ap_store st)" by (simp add: names_ok_def)
  note p = patched [OF assms(1) [unfolded a] i]
  have "kr_Name ((if kr_ID x = kid then x\<lparr>kr_Disabled := d\<rparr> else x)) = kr_Name x" for x :: key_record by simp
  then have "inj_on kr_Name ((\<lambda>x. if kr_ID x = kid then x\<lparr>kr_Disabled := d\<rparr> else x) ` keys_of ks st)"
    using assms(2) unfolding names_ok_def inj_on_def by (metis (no_types, lifting) imageE)
  with p show ?thesis by (simp add: names_ok_def)
next
  case False
  then have "ap_store st' = ap_store st" using assms(1)
    by (auto simp: apiKeysPatch_def dest: disable_failed split: option.splits prod.splits)
  with assms(2) names_ok_same [of st' st] show ?thesis by simp
qed

lemma limited_keeps:
  assumes "rate_limited ke r h st = (ans, st')" "names_ok st" "\<And>st0. names_ok st0 \<Longrightarrow> h st0 = (ans, st') \<Longrightarrow> names_ok st'"
  shows "names_ok st'"
proof -
  obtain allowed tr where a: "allowAPIKeyMutation (ke_now ke) (ke_who ke) r (ap_tracker st) = (allowed, tr)" by force
  have n: "names_ok (st\<lparr>ap_tracker := tr\<rparr>)" using assms(2) names_ok_same [of "st\<lparr>ap_tracker := tr\<rparr>" st] by simp
  show ?thesis
  proof (cases allowed)
    case True
    then show ?thesis using assms(1) a by (intro assms(3) [OF n]) (simp add: rate_limited_def)
  next
    case False
    then show ?thesis using assms(1) a n by (simp add: rate_limited_def)
  qed
qed

lemma handle_keeps:
  assumes "handleAPIKeys ui (Some ks) alog cr ke r st = (ans, st')" "names_ok st" "\<And>rec raw. ans = KCreated rec raw \<Longrightarrow> ok rec"
  shows "names_ok st'"
proof -
  consider "st' = st" | "rate_limited ke r (apiKeysCreate ks alog cr ke) st = (ans, st')"
    | kid where "rate_limited ke r (apiKeysDelete ks alog ke kid) st = (ans, st')"
    | kid where "rate_limited ke r (apiKeysPatch ks alog ke kid) st = (ans, st')"
    using assms(1) by (auto simp: handleAPIKeys_def Let_def split: if_splits)
  then show ?thesis
  proof cases
    case 1
    then show ?thesis using assms(2) by simp
  next
    case 2
    then show ?thesis using assms(2) by (rule limited_keeps) (rule create_keeps [OF _ _ assms(3)])
  next
    case 3
    then show ?thesis using assms(2) by (rule limited_keeps) (rule delete_keeps)
  next
    case 4
    then show ?thesis using assms(2) by (rule limited_keeps) (rule patch_keeps)
  qed
qed

end

section \<open>The adapter keeps the contract\<close>

text \<open>Rows that decode to what was encoded, also with the disabled flag changed.\<close>

definition codes :: "api_key codec \<Rightarrow> api_key \<Rightarrow> bool" where
  "codes cd r \<longleftrightarrow> (\<forall>d. unmarshal cd (marshal cd (r\<lparr>ak_Disabled := d\<rparr>)) = Some (r\<lparr>ak_Disabled := d\<rparr>))"

definition row_ok :: "api_key codec \<Rightarrow> string \<times> bytes \<Rightarrow> bool" where
  "row_ok cd kv \<longleftrightarrow> (case unmarshal cd (snd kv) of None \<Rightarrow> False | Some r \<Rightarrow> ak_ID r = fst kv \<and> codes cd r)"

definition adapter_inv :: "'b bucket_ops \<Rightarrow> api_key codec \<Rightarrow> 'b store \<Rightarrow> bool" where
  "adapter_inv bo cd st \<longleftrightarrow> bucket_ok bo \<and> list_all (row_ok cd) (bo_items bo (bucketAPIKeys st))"

lemma decode_rows_ok:
  "list_all (row_ok cd) kvs \<Longrightarrow> decode_rows cd kvs = (None, map (\<lambda>kv. the (unmarshal cd (snd kv))) kvs)"
  by (induction kvs) (auto simp: row_ok_def split: option.splits prod.splits)

lemma items_mem: "bucket_ok bo \<Longrightarrow> (k, v) \<in> set (bo_items bo b) \<longleftrightarrow> map_of (bo_items bo b) k = Some v"
  by (metis bucket_ok_def map_of_eq_Some_iff strict_sorted_iff)

lemma items_put:
  "bucket_ok bo \<Longrightarrow> set (bo_items bo (bo_put bo k v b)) = insert (k, v) {kv \<in> set (bo_items bo b). fst kv \<noteq> k}"
  by (auto simp: items_mem) (auto simp: bucket_ok_def split: if_splits)

lemma items_delete:
  "bucket_ok bo \<Longrightarrow> set (bo_items bo (bo_delete bo k b)) = {kv \<in> set (bo_items bo b). fst kv \<noteq> k}"
  by (auto simp: items_mem) (auto simp: bucket_ok_def split: if_splits)

definition row_key :: "api_key codec \<Rightarrow> string \<times> bytes \<Rightarrow> key_record" where
  "row_key cd kv = toAdminKey (the (unmarshal cd (snd kv)))"

lemma adapter_list:
  assumes "adapter_inv bo cd st"
  shows "ko_List (apiKeyStoreAdapter bo cd commit) st = (None, map (row_key cd) (bo_items bo (bucketAPIKeys st)))"
  using assms decode_rows_ok [of cd "bo_items bo (bucketAPIKeys st)"]
  by (simp add: adapter_inv_def apiKeyStoreAdapter_def ListAPIKeys_def row_key_def)

lemma row_key_ID: "row_ok cd kv \<Longrightarrow> kr_ID (row_key cd kv) = fst kv"
  by (auto simp: row_ok_def row_key_def toAdminKey_def split: option.splits)

lemma row_keys_without:
  assumes "list_all (row_ok cd) kvs"
  shows "row_key cd ` {kv \<in> set kvs. fst kv \<noteq> k} = {x \<in> row_key cd ` set kvs. kr_ID x \<noteq> k}"
  using assms by (auto simp: list_all_iff row_key_ID)

lemma row_of_code:
  assumes "codes cd r"
  shows "unmarshal cd (marshal cd r) = Some r" "row_ok cd (ak_ID r, marshal cd r)" "row_key cd (ak_ID r, marshal cd r) = toAdminKey r"
proof -
  have "unmarshal cd (marshal cd (r\<lparr>ak_Disabled := ak_Disabled r\<rparr>)) = Some (r\<lparr>ak_Disabled := ak_Disabled r\<rparr>)"
    using assms unfolding codes_def by blast
  then show u: "unmarshal cd (marshal cd r) = Some r" by simp
  with assms show "row_ok cd (ak_ID r, marshal cd r)" "row_key cd (ak_ID r, marshal cd r) = toAdminKey r"
    by (simp_all add: row_ok_def row_key_def)
qed

lemma put_row:
  assumes "adapter_inv bo cd st" "codes cd r"
  defines "st' \<equiv> st\<lparr>bucketAPIKeys := bo_put bo (ak_ID r) (marshal cd r) (bucketAPIKeys st)\<rparr>"
  shows "adapter_inv bo cd st'"
    and "row_key cd ` set (bo_items bo (bucketAPIKeys st')) =
           insert (toAdminKey r) {x \<in> row_key cd ` set (bo_items bo (bucketAPIKeys st)). kr_ID x \<noteq> ak_ID r}"
proof -
  have b: "bucket_ok bo" and l: "list_all (row_ok cd) (bo_items bo (bucketAPIKeys st))" using assms(1) by (simp_all add: adapter_inv_def)
  show "adapter_inv bo cd st'"
    using b l row_of_code(2) [OF assms(2)] by (auto simp: adapter_inv_def st'_def list_all_iff items_put)
  show "row_key cd ` set (bo_items bo (bucketAPIKeys st')) =
           insert (toAdminKey r) {x \<in> row_key cd ` set (bo_items bo (bucketAPIKeys st)). kr_ID x \<noteq> ak_ID r}"
    unfolding row_keys_without [OF l, symmetric] using row_of_code(3) [OF assms(2)] by (simp add: st'_def items_put [OF b])
qed

lemma image_update:
  assumes "k0 \<in> K" "g k0" "\<And>x. x \<in> K \<Longrightarrow> g x \<Longrightarrow> x = k0"
  shows "(\<lambda>x. if g x then h x else x) ` K = insert (h k0) {x \<in> K. \<not> g x}"
proof
  show "(\<lambda>x. if g x then h x else x) ` K \<subseteq> insert (h k0) {x \<in> K. \<not> g x}" using assms(3) by auto
  show "insert (h k0) {x \<in> K. \<not> g x} \<subseteq> (\<lambda>x. if g x then h x else x) ` K" using assms(1,2) by (auto intro: rev_image_eqI)
qed

lemma adapter_disable:
  assumes "adapter_inv bo cd st" "SetAPIKeyDisabled bo cd commit kid d st = (None, st')"
  shows "adapter_inv bo cd st' \<and> row_key cd ` set (bo_items bo (bucketAPIKeys st')) =
     (\<lambda>x. if kr_ID x = kid then x\<lparr>kr_Disabled := d\<rparr> else x) ` row_key cd ` set (bo_items bo (bucketAPIKeys st))"
proof -
  have b: "bucket_ok bo" and l: "list_all (row_ok cd) (bo_items bo (bucketAPIKeys st))" using assms(1) by (simp_all add: adapter_inv_def)
  obtain v r where v: "map_of (bo_items bo (bucketAPIKeys st)) kid = Some v" "unmarshal cd v = Some r"
    and st': "st' = st\<lparr>bucketAPIKeys := bo_put bo kid (marshal cd (r\<lparr>ak_Disabled := d\<rparr>)) (bucketAPIKeys st)\<rparr>"
    using assms(2) by (auto simp: SetAPIKeyDisabled_def bo_get_def update_tx_def split: option.splits if_splits)
  have m: "(kid, v) \<in> set (bo_items bo (bucketAPIKeys st))" using v(1) by (simp add: items_mem [OF b])
  with l v(2) have r: "ak_ID r = kid" "codes cd r" by (force simp: list_all_iff row_ok_def)+
  then have c: "codes cd (r\<lparr>ak_Disabled := d\<rparr>)" "ak_ID (r\<lparr>ak_Disabled := d\<rparr>) = kid" by (simp_all add: codes_def)
  have u: "kv = (kid, v)" if "kv \<in> set (bo_items bo (bucketAPIKeys st))" "fst kv = kid" for kv
    using that v(1) items_mem [OF b, of "fst kv" "snd kv" "bucketAPIKeys st"] by (metis option.inject prod.collapse)
  have k: "row_key cd (kid, v) = toAdminKey r" using v(2) by (simp add: row_key_def)
  have "row_key cd ` set (bo_items bo (bucketAPIKeys st')) =
      insert (toAdminKey (r\<lparr>ak_Disabled := d\<rparr>)) {x \<in> row_key cd ` set (bo_items bo (bucketAPIKeys st)). kr_ID x \<noteq> kid}"
    using put_row(2) [OF assms(1) c(1)] c(2) st' by simp
  also have "\<dots> = (\<lambda>x. if kr_ID x = kid then x\<lparr>kr_Disabled := d\<rparr> else x) ` row_key cd ` set (bo_items bo (bucketAPIKeys st))"
  proof -
    have h: "toAdminKey (r\<lparr>ak_Disabled := d\<rparr>) = (row_key cd (kid, v))\<lparr>kr_Disabled := d\<rparr>" by (simp add: k toAdminKey_def)
    have i: "kr_ID (row_key cd kv) = fst kv" if "kv \<in> set (bo_items bo (bucketAPIKeys st))" for kv
      using that l row_key_ID by (auto simp: list_all_iff)
    have "x = row_key cd (kid, v)" if "x \<in> row_key cd ` set (bo_items bo (bucketAPIKeys st))" "kr_ID x = kid" for x
      using that i u by fastforce
    moreover have "row_key cd (kid, v) \<in> row_key cd ` set (bo_items bo (bucketAPIKeys st))" using m by (rule imageI)
    moreover have "kr_ID (row_key cd (kid, v)) = kid" using i [OF m] by simp
    ultimately show ?thesis unfolding h by (intro image_update [symmetric])
  qed
  finally show ?thesis using put_row(1) [OF assms(1) c(1)] c(2) st' by simp
qed

interpretation bolt: apikey_store "apiKeyStoreAdapter bo cd commit" "Some (auditAdapter_Put bo acd commit)" "adapter_inv bo cd"
    "\<lambda>k. codes cd (toStateKey k)" "\<lambda>k. k\<lparr>kr_ExpiresAt := None\<rparr>" for bo cd acd commit
proof (unfold_locales, goal_cases)
  case (1 s)
  then show ?case by (simp add: adapter_list)
next
  case (2 s k s')
  let ?r = "toStateKey k"
  have s': "s' = s\<lparr>bucketAPIKeys := bo_put bo (ak_ID ?r) (marshal cd ?r) (bucketAPIKeys s)\<rparr>"
    using 2(3) by (simp add: apiKeyStoreAdapter_def PutAPIKey_def update_tx_def split: if_splits)
  have "toAdminKey ?r = k\<lparr>kr_ExpiresAt := None\<rparr>" "ak_ID ?r = kr_ID k" by (simp_all add: toAdminKey_def toStateKey_def)
  with put_row [OF 2(1,2)] s' 2(1) show ?case by (simp add: adapter_list)
next
  case (3 s kid s')
  then have b: "bucket_ok bo" and l: "list_all (row_ok cd) (bo_items bo (bucketAPIKeys s))" by (simp_all add: adapter_inv_def)
  have s': "s' = s\<lparr>bucketAPIKeys := bo_delete bo kid (bucketAPIKeys s)\<rparr>"
    using 3(2) by (simp add: apiKeyStoreAdapter_def DeleteAPIKey_def update_tx_def split: if_splits)
  then have "adapter_inv bo cd s'" using b l by (auto simp: adapter_inv_def list_all_iff items_delete)
  with 3(1) s' show ?case by (simp add: adapter_list items_delete [OF b] row_keys_without [OF l])
next
  case (4 s kid d s')
  then have "SetAPIKeyDisabled bo cd commit kid d s = (None, s')" by (simp add: apiKeyStoreAdapter_def)
  from adapter_disable [OF 4(1) this] 4(1) show ?case by (simp add: adapter_list)
next
  case (8 put s ev)
  then have "bucketAPIKeys (put ev s) = bucketAPIKeys s" by (auto simp: auditAdapter_Put_def PutAudit_def update_tx_def)
  with 8(2) show ?case by (simp add: adapter_inv_def apiKeyStoreAdapter_def ListAPIKeys_def)
qed (auto simp: apiKeyStoreAdapter_def PutAPIKey_def DeleteAPIKey_def SetAPIKeyDisabled_def update_tx_def split: if_splits option.splits)

section \<open>Properties\<close>

text \<open>A codec that stores the disabled flag of one record, enough for the witnesses.\<close>

definition demo_row :: "api_key \<Rightarrow> api_key codec" where
  "demo_row r = \<lparr>marshal = (\<lambda>k. if ak_Disabled k then [1] else [0]), unmarshal = (\<lambda>b. Some (r\<lparr>ak_Disabled := (b = [1])\<rparr>))\<rparr>"

lemma demo_row_codes [simp]: "codes (demo_row r) r"
  by (simp add: codes_def demo_row_def)

definition demo_env :: key_env where
  "demo_env = \<lparr>ke_now = 0, ke_who = Some ''bootstrap:token'', ke_create = Some (''k'', [], ''1h''), ke_patch = Some (Some True),
     ke_rng24 = Some [7], ke_rng16 = replicate 16 0\<rparr>"

definition demo_new_key :: key_record where
  "demo_new_key = \<lparr>kr_ID = newULID (replicate 16 0) 0, kr_Name = ''k'', kr_Hash = hashAPIKey demo_crypto (''flx_'' @ b64_encode RawURLEncoding [7]),
     kr_Prefix = take 12 (''flx_'' @ b64_encode RawURLEncoding [7]), kr_Scopes = [ScopeRead], kr_Disabled = False, kr_CreatedAt = 0,
     kr_LastUsedAt = None, kr_ExpiresAt = Some (3600 * second)\<rparr>"

definition demo_api_state :: "(string \<times> bytes) list \<Rightarrow> (string \<times> bytes) list store api_state" where
  "demo_api_state rows = \<lparr>ap_store = empty_store\<lparr>bucketAPIKeys := rows\<rparr>, ap_cache = None, ap_tracker = \<lparr>failed = Map.empty, mut_hits = Map.empty\<rparr>\<rparr>"

lemma list_bucket_nil [simp]: "bo_items list_bucket [] = []"
  by (simp add: list_bucket_def)

lemma list_bucket_single [simp]: "bo_items list_bucket [(k, v)] = [(k, v)]"
  by (simp add: list_bucket_def)


text \<open>
  A created key works at once and never expires: after the handler answered with a new key, whatever
  the index held before, every request that carries that raw key is authenticated with exactly the recorded
  scopes and name, at every later time, also past the expiry the caller asked for and was shown (the adapter
  to the store drops it). The row must survive its own encoding, and no other key may have the same hash.\<close>

lemma created_key_never_expires:
  assumes "apiKeysCreate (apiKeyStoreAdapter bo cd commit) (Some (auditAdapter_Put bo acd commit)) cr ke st = (KCreated rec raw, st')"
    and "adapter_inv bo cd (ap_store st)" "codes cd (toStateKey rec)"
    and "\<And>k. k \<in> keys_of (apiKeyStoreAdapter bo cd commit) st \<Longrightarrow> kr_Hash k \<noteq> kr_Hash rec"
    and "rq_APIKey r = raw"
  shows "fst (registry_scopes cr (listed (apiKeyStoreAdapter bo cd commit) (ap_store st')) now r (ap_cache st'))
           = Some (kr_Scopes rec, ''apikey:'' @ kr_Name rec)"
proof -
  note c = bolt.created [OF assms(1-3)]
  let ?k = "rec\<lparr>kr_ExpiresAt := None\<rparr>"
  have raw: "raw_key r = raw" using assms(5) c(7) by (simp add: raw_key_def)
  have "fst (registry_scopes cr (listed (apiKeyStoreAdapter bo cd commit) (ap_store st')) now r (ap_cache st'))
      = Some (kr_Scopes ?k, ''apikey:'' @ kr_Name ?k)"
  proof (rule bolt.fresh_cache_accepts)
    show "?k \<in> keys_of (apiKeyStoreAdapter bo cd commit) st'" using c(3) by simp
    fix k' assume "k' \<in> keys_of (apiKeyStoreAdapter bo cd commit) st'" "kr_Hash k' = kr_Hash ?k"
    then show "k' = ?k" using c(3) assms(4) by auto
  qed (use c raw in \<open>simp_all add: live_key_def\<close>)
  then show ?thesis by simp
qed

lemma created_key_never_expires_example:
  "let ks = apiKeyStoreAdapter list_bucket (demo_row (toStateKey demo_new_key)) True; raw = ''flx_'' @ b64_encode RawURLEncoding [7];
       res = apiKeysCreate ks (Some (auditAdapter_Put list_bucket demo_codec True)) demo_crypto demo_env (demo_api_state [])
   in fst res = KCreated demo_new_key raw \<and> kr_ExpiresAt demo_new_key = Some (3600 * second) \<and>
      fst (registry_scopes demo_crypto (listed ks (ap_store (snd res))) (7200 * second) (demo_req\<lparr>rq_APIKey := raw\<rparr>) (ap_cache (snd res)))
        = Some ([ScopeRead], ''apikey:k'')"
proof -
  let ?ks = "apiKeyStoreAdapter list_bucket (demo_row (toStateKey demo_new_key)) True" and ?raw = "''flx_'' @ b64_encode RawURLEncoding [7]"
  let ?res = "apiKeysCreate ?ks (Some (auditAdapter_Put list_bucket demo_codec True)) demo_crypto demo_env (demo_api_state [])"
  note d = parse_one_hour
  have l: "ko_List ?ks (ap_store (demo_api_state [])) = (None, [])"
    by (simp add: apiKeyStoreAdapter_def ListAPIKeys_def demo_api_state_def)
  have "fst ?res = KCreated demo_new_key ?raw"
    by (simp add: apiKeysCreate_def demo_env_def d ParseScopes_def generateRawKey_def Let_def demo_new_key_def second_def
        apiKeyStoreAdapter_def PutAPIKey_def update_tx_def ListAPIKeys_def demo_api_state_def)
  then have r: "?res = (KCreated demo_new_key ?raw, snd ?res)" by (metis prod.collapse)
  have i: "adapter_inv list_bucket (demo_row (toStateKey demo_new_key)) (ap_store (demo_api_state []))"
    by (simp add: adapter_inv_def demo_api_state_def)
  have n: "k \<in> keys_of ?ks (demo_api_state []) \<Longrightarrow> kr_Hash k \<noteq> kr_Hash demo_new_key" for k by (simp add: keys_of_def l)
  have "fst (registry_scopes demo_crypto (listed ?ks (ap_store (snd ?res))) (7200 * second) (demo_req\<lparr>rq_APIKey := ?raw\<rparr>) (ap_cache (snd ?res)))
      = Some (kr_Scopes demo_new_key, ''apikey:'' @ kr_Name demo_new_key)"
    by (rule created_key_never_expires [OF r i demo_row_codes n]) simp_all
  with \<open>fst ?res = KCreated demo_new_key ?raw\<close> show ?thesis unfolding Let_def by (simp add: demo_new_key_def)
qed

text \<open>
  C31. Revocation takes effect at once: after a key is deleted or disabled, a request that carries it is
  refused by the registry, whatever the in-memory index held before, because the handler drops the index.
  (Only another stored key with the same hash could let it in.)\<close>

theorem revoked_key_refused:
  assumes "adapter_inv bo cd (ap_store st)"
    and "apiKeysDelete (apiKeyStoreAdapter bo cd commit) (Some (auditAdapter_Put bo acd commit)) ke kid st = (KDeleted i, st')
      \<or> apiKeysPatch (apiKeyStoreAdapter bo cd commit) (Some (auditAdapter_Put bo acd commit)) ke kid st = (KPatched i True, st')"
    and "\<And>k. k \<in> keys_of (apiKeyStoreAdapter bo cd commit) st \<Longrightarrow> kr_Hash k = hashAPIKey cr (raw_key r) \<Longrightarrow> kr_ID k = kid"
  shows "fst (registry_scopes cr (listed (apiKeyStoreAdapter bo cd commit) (ap_store st')) now r (ap_cache st')) = None"
  using assms(2)
proof
  assume "apiKeysDelete (apiKeyStoreAdapter bo cd commit) (Some (auditAdapter_Put bo acd commit)) ke kid st = (KDeleted i, st')"
  note d = bolt.deleted [OF this assms(1)]
  show ?thesis by (rule bolt.fresh_cache_refuses [OF d(1,2)]) (use d(3) assms(3) in blast)
next
  assume "apiKeysPatch (apiKeyStoreAdapter bo cd commit) (Some (auditAdapter_Put bo acd commit)) ke kid st = (KPatched i True, st')"
  note p = bolt.patched [OF this assms(1)]
  show ?thesis
  proof (rule bolt.fresh_cache_refuses [OF p(1,2)])
    fix k assume "k \<in> keys_of (apiKeyStoreAdapter bo cd commit) st'" and h: "kr_Hash k = hashAPIKey cr (raw_key r)"
    then obtain x where x: "x \<in> keys_of (apiKeyStoreAdapter bo cd commit) st" "k = (if kr_ID x = kid then x\<lparr>kr_Disabled := True\<rparr> else x)"
      using p(3) by blast
    then have "kr_ID x = kid" using assms(3) [OF x(1)] h by (simp split: if_splits)
    with x(2) show "kr_Disabled k" by simp
  qed
qed

theorem revoked_key_refused_witness:
  "let ks = apiKeyStoreAdapter list_bucket (demo_row (toStateKey demo_key)) True;
       res = apiKeysDelete ks (Some (auditAdapter_Put list_bucket demo_codec True)) demo_env ''k1'' (demo_api_state [(''k1'', [0])])
   in fst res = KDeleted ''k1'' \<and>
      fst (registry_scopes demo_crypto (listed ks (ap_store (snd res))) 0 demo_req (ap_cache (snd res))) = None"
proof -
  let ?ks = "apiKeyStoreAdapter list_bucket (demo_row (toStateKey demo_key)) True" and ?st = "demo_api_state [(''k1'', [0])]"
  let ?res = "apiKeysDelete ?ks (Some (auditAdapter_Put list_bucket demo_codec True)) demo_env ''k1'' ?st"
  have "fst ?res = KDeleted ''k1''"
    by (simp add: apiKeysDelete_def apiKeyStoreAdapter_def DeleteAPIKey_def update_tx_def)
  then have r: "?res = (KDeleted ''k1'', snd ?res)" by (metis prod.collapse)
  have i: "adapter_inv list_bucket (demo_row (toStateKey demo_key)) (ap_store ?st)"
    by (simp add: adapter_inv_def demo_api_state_def row_ok_def demo_row_def codes_def toStateKey_def demo_key_def)
  have "kr_ID k = ''k1''" if "k \<in> keys_of ?ks ?st" for k
    using that i by (simp add: keys_of_def adapter_list demo_api_state_def row_key_def demo_row_def toAdminKey_def toStateKey_def demo_key_def)
  then have "fst (registry_scopes demo_crypto (listed ?ks (ap_store (snd ?res))) 0 demo_req (ap_cache (snd ?res))) = None"
    by (intro revoked_key_refused [OF i disjI1 [OF r]])
  with \<open>fst ?res = KDeleted ''k1''\<close> show ?thesis unfolding Let_def by simp
qed

text \<open>
  Names of API keys stay distinct, and the stored rows readable, under every request to the endpoint,
  whatever its method, body and answer: creation refuses a name in use, and no other operation renames
  a key.\<close>

lemma key_names_distinct:
  assumes "handleAPIKeys ui (Some (apiKeyStoreAdapter bo cd commit)) (Some (auditAdapter_Put bo acd commit)) cr ke r st = (ans, st')"
    and "adapter_inv bo cd (ap_store st)" "inj_on kr_Name (keys_of (apiKeyStoreAdapter bo cd commit) st)"
    and "\<And>rec raw. ans = KCreated rec raw \<Longrightarrow> codes cd (toStateKey rec)"
  shows "adapter_inv bo cd (ap_store st') \<and> inj_on kr_Name (keys_of (apiKeyStoreAdapter bo cd commit) st')"
  using bolt.handle_keeps [OF assms(1) _ assms(4)] assms(2,3) by (auto simp: bolt.names_ok_def)

lemma key_names_distinct_example:
  "let ks = apiKeyStoreAdapter list_bucket (demo_row (toStateKey demo_key)) True;
       st' = snd (handleAPIKeys True (Some ks) (Some (auditAdapter_Put list_bucket demo_codec True)) demo_crypto demo_env
               (demo_req\<lparr>rq_Method := ''GET'', rq_Path := ''/apikeys''\<rparr>) (demo_api_state [(''k1'', [0])]))
   in adapter_inv list_bucket (demo_row (toStateKey demo_key)) (ap_store st') \<and> inj_on kr_Name (keys_of ks st')"
proof -
  let ?cd = "demo_row (toStateKey demo_key)"
  let ?ks = "apiKeyStoreAdapter list_bucket ?cd True" and ?st = "demo_api_state [(''k1'', [0])]"
  let ?h = "handleAPIKeys True (Some ?ks) (Some (auditAdapter_Put list_bucket demo_codec True)) demo_crypto demo_env
               (demo_req\<lparr>rq_Method := ''GET'', rq_Path := ''/apikeys''\<rparr>) ?st"
  have h: "?h = (apiKeysList ?ks 0 ?st, ?st)" by (simp add: handleAPIKeys_def trim_prefix_def has_prefix_def demo_env_def)
  have i: "adapter_inv list_bucket ?cd (ap_store ?st)"
    by (simp add: adapter_inv_def demo_api_state_def row_ok_def demo_row_def codes_def toStateKey_def demo_key_def)
  have n: "inj_on kr_Name (keys_of ?ks ?st)" using i by (simp add: keys_of_def adapter_list demo_api_state_def)
  have "apiKeysList ?ks 0 ?st \<noteq> KCreated rec raw" for rec raw by (simp add: apiKeysList_def split: prod.splits option.splits)
  with key_names_distinct [OF h i n] show ?thesis unfolding Let_def h by simp
qed

text \<open>Identifiers are meant to sort by creation time; each byte is taken modulo 26, so they do not.\<close>

lemma newULID_not_chronological:
  "newULID (replicate 16 0) (26 * 1000000) < newULID (replicate 16 0) (25 * 1000000)"
  by code_simp

end
