(* ===== verification/Config_Load.thy ===== *)
theory Config_Load
  imports Go_Duration Ip_Filter
begin

text \<open>
  Loading the configuration (\<^verbatim>\<open>internal/config/config.go\<close> and \<^verbatim>\<open>timeouts.go\<close>). The nested structs of
  the source are one record whose fields are named after section and field. The YAML reader (koanf)
  is not part of the repository: what it unmarshals is the argument of \<open>Load\<close>. The environment is a
  function from names to values, with the empty string for a variable that is not set. Durations are
  in nanoseconds.
\<close>

section \<open>Timeouts\<close>

record timeouts_cfg =
  tc_Dial :: string
  tc_Probe :: string
  tc_ProbeFetch :: string
  tc_TLSHandshake :: string
  tc_IdleConn :: string
  tc_H2ReadIdle :: string
  tc_H2Ping :: string
  tc_HealthCheckInterval :: string
  tc_HealthCheckTimeout :: string
  tc_DNSCacheTTL :: string
  tc_CFBlockedCacheTTL :: string
  tc_PrewarmAttempt :: string
  tc_BreakerInterval :: string
  tc_BreakerOpen :: string
  tc_CFAPI :: string
  tc_DestroyOnExit :: string
  tc_AdminShutdown :: string
  tc_AdminTokenOp :: string
  tc_DrainTimeout :: string
  tc_DrainPoll :: string
  tc_PrewarmRetries :: int

record timeouts =
  to_Dial :: int
  to_Probe :: int
  to_ProbeFetch :: int
  to_TLSHandshake :: int
  to_IdleConn :: int
  to_H2ReadIdle :: int
  to_H2Ping :: int
  to_HealthCheckInterval :: int
  to_HealthCheckTimeout :: int
  to_DNSCacheTTL :: int
  to_CFBlockedCacheTTL :: int
  to_PrewarmAttempt :: int
  to_BreakerInterval :: int
  to_BreakerOpen :: int
  to_CFAPI :: int
  to_DestroyOnExit :: int
  to_AdminShutdown :: int
  to_AdminTokenOp :: int
  to_DrainTimeout :: int
  to_DrainPoll :: int
  to_PrewarmRetries :: int

type_synonym environ = "string \<Rightarrow> string"

definition parseDur :: "string \<Rightarrow> int \<Rightarrow> int" where
  "parseDur s def =
     (if s = [] then def
      else (case ParseDuration s of None \<Rightarrow> def | Some d \<Rightarrow> if d \<le> 0 then def else d))"

definition envDur :: "environ \<Rightarrow> string \<Rightarrow> int \<Rightarrow> int" where
  "envDur env name fallback =
     (let v = env (''FLX_TIMEOUT_'' @ name)
      in if v \<noteq> [] then (case ParseDuration v of Some d \<Rightarrow> if d > 0 then d else fallback | None \<Rightarrow> fallback) else fallback)"

definition envInt :: "environ \<Rightarrow> string \<Rightarrow> int \<Rightarrow> int" where
  "envInt env name fallback =
     (let v = env (''FLX_TIMEOUT_'' @ name)
      in if v \<noteq> [] then (case atoi v of Some n \<Rightarrow> if n \<ge> 0 then n else fallback | None \<Rightarrow> fallback) else fallback)"

definition defaultInt :: "int \<Rightarrow> int \<Rightarrow> int" where
  "defaultInt v def = (if v \<le> 0 then def else v)"

definition Resolve :: "environ \<Rightarrow> timeouts_cfg \<Rightarrow> timeouts" where
  "Resolve env t =
     \<lparr>to_Dial = envDur env ''DIAL'' (parseDur (tc_Dial t) 15000000000),
      to_Probe = envDur env ''PROBE'' (parseDur (tc_Probe t) 800000000),
      to_ProbeFetch = envDur env ''PROBE_FETCH'' (parseDur (tc_ProbeFetch t) 1500000000),
      to_TLSHandshake = envDur env ''TLS_HANDSHAKE'' (parseDur (tc_TLSHandshake t) 10000000000),
      to_IdleConn = envDur env ''IDLE_CONN'' (parseDur (tc_IdleConn t) 120000000000),
      to_H2ReadIdle = envDur env ''H2_READ_IDLE'' (parseDur (tc_H2ReadIdle t) 30000000000),
      to_H2Ping = envDur env ''H2_PING'' (parseDur (tc_H2Ping t) 10000000000),
      to_HealthCheckInterval = envDur env ''HEALTH_CHECK_INTERVAL'' (parseDur (tc_HealthCheckInterval t) 30000000000),
      to_HealthCheckTimeout = envDur env ''HEALTH_CHECK_TIMEOUT'' (parseDur (tc_HealthCheckTimeout t) 5000000000),
      to_DNSCacheTTL = envDur env ''DNS_CACHE_TTL'' (parseDur (tc_DNSCacheTTL t) 300000000000),
      to_CFBlockedCacheTTL = envDur env ''CF_BLOCKED_CACHE_TTL'' (parseDur (tc_CFBlockedCacheTTL t) 600000000000),
      to_PrewarmAttempt = envDur env ''PREWARM_ATTEMPT'' (parseDur (tc_PrewarmAttempt t) 3000000000),
      to_BreakerInterval = envDur env ''BREAKER_INTERVAL'' (parseDur (tc_BreakerInterval t) 60000000000),
      to_BreakerOpen = envDur env ''BREAKER_OPEN'' (parseDur (tc_BreakerOpen t) 30000000000),
      to_CFAPI = envDur env ''CF_API'' (parseDur (tc_CFAPI t) 30000000000),
      to_DestroyOnExit = envDur env ''DESTROY_ON_EXIT'' (parseDur (tc_DestroyOnExit t) 60000000000),
      to_AdminShutdown = envDur env ''ADMIN_SHUTDOWN'' (parseDur (tc_AdminShutdown t) 2000000000),
      to_AdminTokenOp = envDur env ''ADMIN_TOKEN_OP'' (parseDur (tc_AdminTokenOp t) 120000000000),
      to_DrainTimeout = envDur env ''DRAIN_TIMEOUT'' (parseDur (tc_DrainTimeout t) 30000000000),
      to_DrainPoll = envDur env ''DRAIN_POLL'' (parseDur (tc_DrainPoll t) 100000000),
      to_PrewarmRetries = envInt env ''PREWARM_RETRIES'' (defaultInt (tc_PrewarmRetries t) 5)\<rparr>"

definition durations :: "timeouts \<Rightarrow> int list" where
  "durations t = [to_Dial t, to_Probe t, to_ProbeFetch t, to_TLSHandshake t, to_IdleConn t, to_H2ReadIdle t, to_H2Ping t, to_HealthCheckInterval t, to_HealthCheckTimeout t, to_DNSCacheTTL t, to_CFBlockedCacheTTL t, to_PrewarmAttempt t, to_BreakerInterval t, to_BreakerOpen t, to_CFAPI t, to_DestroyOnExit t, to_AdminShutdown t, to_AdminTokenOp t, to_DrainTimeout t, to_DrainPoll t]"

section \<open>The configuration\<close>

record account_cfg =
  ac_ID :: string
  ac_Name :: string
  ac_Token :: string
  ac_Subdomain :: string

record config =
  Log_Level :: string
  Log_JSON :: bool
  Listen_Socks5 :: string
  Listen_HTTP :: string
  Listen_AuthUser :: string
  Listen_AuthPass :: string
  Listen_UnixPerms :: "32 word"
  Tokens :: "string list"
  Accounts :: "account_cfg list"
  Worker_NamePrefix :: string
  Worker_Count :: int
  Worker_DeployTimeout :: int
  Worker_TemplatePath :: string
  Worker_RotateIntervalS :: int
  Worker_RotateMaxAgeSec :: int
  Worker_RotateMaxReq :: u64
  Worker_DeployBackend :: string
  Worker_PreferIPv4 :: bool
  Worker_NamePrefixDefaulted :: bool
  Filter_DenyCIDRs :: "string list"
  Filter_AllowPorts :: "port_any list"
  Pool_Strategy :: string
  Pool_MaxRetries :: int
  Pool_BackoffMs :: int
  Pool_HedgeAfterMs :: int
  Pool_GoroutineSize :: int
  Pool_ProxyMode :: string
  Pool_DisableProbe :: bool
  Pool_TLSRewrap :: bool
  Security_HMACSecret :: string
  RateLimit_PerHostQPS :: rat
  RateLimit_PerHostBurst :: int
  Admin_Addr :: string
  Admin_Token :: string
  Admin_APIKey :: string
  Admin_BasicUser :: string
  Admin_BasicPass :: string
  Admin_EnablePprof :: bool
  Admin_UI :: bool
  Admin_TOTPSecret :: string
  State_Path :: string
  Quota_DailyLimit :: u64
  Quota_WarnPercent :: int
  Quota_SeedFromCloudflare :: bool
  Alerts_CooldownSec :: int
  Alerts_HTTPWebhooks :: "(string \<times> (string \<times> string) list) list"
  Alerts_DiscordURL :: string
  Alerts_DiscordName :: string
  Tracing_Endpoint :: string
  Tracing_Insecure :: bool
  Timeouts :: timeouts_cfg
  ResolvedTimeouts :: timeouts

datatype load_err = UnmarshalFailed | AccountNeedsToken nat | HMACSecretRequired

section \<open>Operations\<close>

text \<open>The pattern \<^verbatim>\<open>if field == "" { field = default }\<close> for text and for numbers.\<close>

definition or_default :: "'a \<Rightarrow> 'a \<Rightarrow> 'a \<Rightarrow> 'a" where
  "or_default zero v d = (if v = zero then d else v)"

definition default_ports :: "port_any list" where
  "default_ports = [PInt 80, PInt 443, PInt 8080, PInt 8443]"

definition applyDefaults :: "config \<Rightarrow> config" where
  "applyDefaults c =
     c\<lparr>Log_Level := or_default [] (Log_Level c) ''info'',
       Listen_Socks5 := or_default [] (Listen_Socks5 c) ''tcp://127.0.0.1:1080'',
       Listen_UnixPerms := or_default 0 (Listen_UnixPerms c) 384,
       Worker_NamePrefix := or_default [] (Worker_NamePrefix c) ''flarex-'',
       Worker_NamePrefixDefaulted := (if Worker_NamePrefix c = [] then True else Worker_NamePrefixDefaulted c),
       Worker_DeployBackend := or_default [] (Worker_DeployBackend c) ''auto'',
       Worker_Count := or_default 0 (Worker_Count c) 10,
       Worker_DeployTimeout := or_default 0 (Worker_DeployTimeout c) 30,
       Filter_AllowPorts := or_default [] (Filter_AllowPorts c) default_ports,
       Pool_Strategy := or_default [] (Pool_Strategy c) ''round_robin'',
       Pool_MaxRetries := or_default 0 (Pool_MaxRetries c) 3,
       Pool_BackoffMs := or_default 0 (Pool_BackoffMs c) 50,
       Pool_ProxyMode := or_default [] (Pool_ProxyMode c) ''hybrid'',
       RateLimit_PerHostBurst := or_default 0 (RateLimit_PerHostBurst c) 10,
       State_Path := or_default [] (State_Path c) ''./flarex.db'',
       Quota_DailyLimit := or_default 0 (Quota_DailyLimit c) 100000,
       Quota_WarnPercent := or_default 0 (Quota_WarnPercent c) 80,
       Alerts_CooldownSec := or_default 0 (Alerts_CooldownSec c) 900\<rparr>"

definition cfg_space :: "char \<Rightarrow> bool" where
  "cfg_space c \<longleftrightarrow> c = CHR '' '' \<or> c = char_of (9 :: nat)"

definition trimSpace :: "string \<Rightarrow> string" where
  "trimSpace s = rev (dropWhile cfg_space (rev (dropWhile cfg_space s)))"

definition flush_csv :: "string list \<Rightarrow> string \<Rightarrow> string list" where
  "flush_csv out cur = (let t = trimSpace cur in if t \<noteq> [] then out @ [t] else out)"

fun splitCSV_loop :: "string \<Rightarrow> string list \<Rightarrow> string \<Rightarrow> string list" where
  "splitCSV_loop cur out [] = flush_csv out cur"
| "splitCSV_loop cur out (r # rs) =
     (if r = CHR '','' then splitCSV_loop [] (flush_csv out cur) rs else splitCSV_loop (cur @ [r]) out rs)"

definition splitCSV :: "string \<Rightarrow> string list" where
  "splitCSV s = splitCSV_loop [] [] s"

text \<open>The pattern \<^verbatim>\<open>if v := os.Getenv(name); v != "" { field = v }\<close>.\<close>

definition env_or :: "environ \<Rightarrow> string \<Rightarrow> string \<Rightarrow> string" where
  "env_or env name v = (if env name \<noteq> [] then env name else v)"

definition equal_fold :: "string \<Rightarrow> string \<Rightarrow> bool" where
  "equal_fold a b \<longleftrightarrow> to_lower a = to_lower b"

definition applyEnvOverrides :: "environ \<Rightarrow> config \<Rightarrow> config" where
  "applyEnvOverrides env c =
     c\<lparr>Security_HMACSecret := env_or env ''FLX_HMAC_SECRET'' (Security_HMACSecret c),
       Tokens := Tokens c @ (if env ''FLX_TOKENS'' \<noteq> [] then splitCSV (env ''FLX_TOKENS'') else []),
       Listen_Socks5 := env_or env ''FLX_LISTEN_SOCKS5'' (Listen_Socks5 c),
       Listen_HTTP := env_or env ''FLX_LISTEN_HTTP'' (Listen_HTTP c),
       Listen_AuthUser := env_or env ''FLX_LISTEN_AUTH_USER'' (Listen_AuthUser c),
       Listen_AuthPass := env_or env ''FLX_LISTEN_AUTH_PASS'' (Listen_AuthPass c),
       Admin_Addr := env_or env ''FLX_ADMIN_ADDR'' (Admin_Addr c),
       Admin_APIKey := env_or env ''FLX_ADMIN_API_KEY'' (Admin_APIKey c),
       Admin_Token := env_or env ''FLX_ADMIN_TOKEN'' (Admin_Token c),
       Admin_BasicUser := env_or env ''FLX_ADMIN_BASIC_USER'' (Admin_BasicUser c),
       Admin_BasicPass := env_or env ''FLX_ADMIN_BASIC_PASS'' (Admin_BasicPass c),
       Admin_UI := (let v = env ''FLX_ADMIN_UI''
                    in if v \<noteq> [] then v = ''1'' \<or> equal_fold v ''true'' \<or> equal_fold v ''yes'' else Admin_UI c),
       Admin_TOTPSecret := env_or env ''FLX_ADMIN_TOTP_SECRET'' (Admin_TOTPSecret c),
       Alerts_DiscordURL := env_or env ''FLX_DISCORD_WEBHOOK_URL'' (Alerts_DiscordURL c),
       Worker_Count := (case sscanf_d (env ''FLX_WORKER_COUNT'') of
                          Some n \<Rightarrow> if n > 0 then n else Worker_Count c | None \<Rightarrow> Worker_Count c),
       Worker_NamePrefix := env_or env ''FLX_WORKER_PREFIX'' (Worker_NamePrefix c),
       Worker_DeployBackend := env_or env ''FLX_WORKER_BACKEND'' (Worker_DeployBackend c),
       Log_Level := env_or env ''FLX_LOG_LEVEL'' (Log_Level c),
       State_Path := env_or env ''FLX_STATE_PATH'' (State_Path c)\<rparr>"

fun find_tokenless :: "nat \<Rightarrow> account_cfg list \<Rightarrow> nat option" where
  "find_tokenless i [] = None"
| "find_tokenless i (a # as) = (if ac_Token a = [] then Some i else find_tokenless (Suc i) as)"

definition validate_cfg :: "config \<Rightarrow> load_err option" where
  "validate_cfg c =
     (case find_tokenless 0 (Accounts c) of
        Some i \<Rightarrow> Some (AccountNeedsToken i)
      | None \<Rightarrow> if Security_HMACSecret c = [] then Some HMACSecretRequired else None)"

definition Load :: "environ \<Rightarrow> config option \<Rightarrow> config option \<times> load_err option" where
  "Load env parsed =
     (case parsed of
        None \<Rightarrow> (None, Some UnmarshalFailed)
      | Some c \<Rightarrow>
          (let c1 = applyDefaults (applyEnvOverrides env c); c2 = c1\<lparr>ResolvedTimeouts := Resolve env (Timeouts c1)\<rparr>
           in (Some c2, validate_cfg c2)))"

definition ValidateForDeploy :: "config \<Rightarrow> bool" where
  "ValidateForDeploy c \<longleftrightarrow> \<not> (Accounts c = [] \<and> Tokens c = [])"

definition ValidateForServer :: "config \<Rightarrow> bool" where
  "ValidateForServer c \<longleftrightarrow> (Admin_BasicUser c \<noteq> []) = (Admin_BasicPass c \<noteq> [])"

section \<open>Lemmas\<close>

lemma or_default_nonzero [simp]: "d \<noteq> zero \<Longrightarrow> or_default zero v d \<noteq> zero"
  by (simp add: or_default_def)

lemma parseDur_pos: "0 < def \<Longrightarrow> 0 < parseDur s def"
  by (simp add: parseDur_def split: option.split)

lemma envDur_pos: "0 < f \<Longrightarrow> 0 < envDur env name f"
  by (simp add: envDur_def Let_def split: option.split)

lemma Resolve_pos: "list_all (\<lambda>d. 0 < d) (durations (Resolve env t))"
  by (simp add: durations_def Resolve_def envDur_pos parseDur_pos)

lemma find_tokenless_None: "find_tokenless i as = None \<longleftrightarrow> list_all (\<lambda>a. ac_Token a \<noteq> []) as"
  by (induction i as rule: find_tokenless.induct) simp_all

lemma splitCSV_loop_split:
  "splitCSV_loop cur out s = out @ filter (\<lambda>t. t \<noteq> []) (map trimSpace ((cur @ hd (split_on (CHR '','') s)) # tl (split_on (CHR '','') s)))"
proof (induction s arbitrary: cur out)
  case Nil
  then show ?case by (simp add: flush_csv_def Let_def)
next
  case (Cons r rs)
  obtain p ps where sp: "split_on (CHR '','') rs = p # ps" using split_on_nonempty by (meson neq_Nil_conv)
  then show ?case using Cons.IH by (simp add: flush_csv_def Let_def)
qed

section \<open>Properties\<close>


definition empty_timeouts_cfg :: timeouts_cfg where
  "empty_timeouts_cfg = \<lparr>tc_Dial = [], tc_Probe = [], tc_ProbeFetch = [], tc_TLSHandshake = [], tc_IdleConn = [], tc_H2ReadIdle = [], tc_H2Ping = [], tc_HealthCheckInterval = [], tc_HealthCheckTimeout = [], tc_DNSCacheTTL = [], tc_CFBlockedCacheTTL = [], tc_PrewarmAttempt = [], tc_BreakerInterval = [], tc_BreakerOpen = [], tc_CFAPI = [], tc_DestroyOnExit = [], tc_AdminShutdown = [], tc_AdminTokenOp = [], tc_DrainTimeout = [], tc_DrainPoll = [], tc_PrewarmRetries = 0\<rparr>"

definition empty_config :: config where
  "empty_config = \<lparr>Log_Level = [], Log_JSON = False, Listen_Socks5 = [], Listen_HTTP = [], Listen_AuthUser = [], Listen_AuthPass = [], Listen_UnixPerms = 0, Tokens = [], Accounts = [], Worker_NamePrefix = [], Worker_Count = 0, Worker_DeployTimeout = 0, Worker_TemplatePath = [], Worker_RotateIntervalS = 0, Worker_RotateMaxAgeSec = 0, Worker_RotateMaxReq = 0, Worker_DeployBackend = [], Worker_PreferIPv4 = False, Worker_NamePrefixDefaulted = False, Filter_DenyCIDRs = [], Filter_AllowPorts = [], Pool_Strategy = [], Pool_MaxRetries = 0, Pool_BackoffMs = 0, Pool_HedgeAfterMs = 0, Pool_GoroutineSize = 0, Pool_ProxyMode = [], Pool_DisableProbe = False, Pool_TLSRewrap = False, Security_HMACSecret = [], RateLimit_PerHostQPS = 0, RateLimit_PerHostBurst = 0, Admin_Addr = [], Admin_Token = [], Admin_APIKey = [], Admin_BasicUser = [], Admin_BasicPass = [], Admin_EnablePprof = False, Admin_UI = False, Admin_TOTPSecret = [], State_Path = [], Quota_DailyLimit = 0, Quota_WarnPercent = 0, Quota_SeedFromCloudflare = False, Alerts_CooldownSec = 0, Alerts_HTTPWebhooks = [], Alerts_DiscordURL = [], Alerts_DiscordName = [], Tracing_Endpoint = [], Tracing_Insecure = False, Timeouts = empty_timeouts_cfg, ResolvedTimeouts = Resolve (\<lambda>_. []) empty_timeouts_cfg\<rparr>"


text \<open>
  The hand-written comma splitter is the obvious one: it gives the non-empty trimmed fields
  between the commas, in order.
\<close>

lemma splitCSV_reference:
  "splitCSV s = filter (\<lambda>t. t \<noteq> []) (map trimSpace (split_on (CHR '','') s))"
  using splitCSV_loop_split [of "[]" "[]" s] split_on_nonempty [of "CHR '',''" s] by (simp add: splitCSV_def)

text \<open>
  Precedence of a time-out: a valid positive value of the environment wins, then a valid
  positive value of the file, then the default; an invalid or non-positive value never takes effect.
\<close>

lemma timeout_precedence:
  "envDur env name (parseDur s def) =
     (case filter (\<lambda>d. 0 < d) (List.map_filter ParseDuration (filter (\<lambda>t. t \<noteq> []) [env (''FLX_TIMEOUT_'' @ name), s])) of
        d # _ \<Rightarrow> d | [] \<Rightarrow> def)"
  by (auto simp: envDur_def parseDur_def Let_def map_filter_simps split: option.split)

end
