(* ===== verification/Config_Update.thy ===== *)
theory Config_Update
  imports Config_Load Proxy_Server
begin

text \<open>
  Runtime configuration edits (\<^verbatim>\<open>cmd/flarex/config_update.go\<close>): the coercions of a decoded JSON value
  and the dispatcher \<^verbatim>\<open>applyConfigUpdate\<close>, which writes the configuration and, for the fields that can
  be swapped live, the running proxy server and its filter. The scanner for floating-point text is
  the argument \<open>sscanf_f\<close>.
\<close>

section \<open>Values and coercions\<close>

datatype any = ANil | ABool bool | AFloat rat | AInt int | AInt64 int | AStr string | AArr "any list" | AMap

datatype upd_err = ExpectedInteger | NegativeValue | ExpectedNumber | ExpectedString | ExpectedBool | ExpectedArray
  | Item nat upd_err | OutOfRange string | NotOneOf string | EmptyPrefix | NotHttps | PortsRefused filter_err | UnknownPath string

text \<open>Conversions of a binary64 value, toward zero; a value out of range gives the smallest integer,
  as on amd64.\<close>

definition rtrunc :: "rat \<Rightarrow> int" where
  "rtrunc x = (if x < 0 then \<lceil>x\<rceil> else \<lfloor>x\<rfloor>)"

definition go_int :: "rat \<Rightarrow> int" where
  "go_int x = (if int64_range (rtrunc x) then rtrunc x else - (2 ^ 63))"

definition go_uint64 :: "rat \<Rightarrow> u64" where
  "go_uint64 x = (if \<lfloor>x\<rfloor> < 2 ^ 64 then of_int \<lfloor>x\<rfloor> else of_int (2 ^ 63))"

definition sscanf_u :: "string \<Rightarrow> u64 option" where
  "sscanf_u v =
     (let ds = takeWhile is_digit (dropWhile (\<lambda>c. is_space c \<and> of_char c \<noteq> (10 :: nat)) v)
      in if ds = [] \<or> undec ds \<ge> 2 ^ 64 then None else Some (of_nat (undec ds)))"

definition asInt :: "any \<Rightarrow> upd_err + int" where
  "asInt v =
     (case v of
        AFloat x \<Rightarrow> Inr (go_int x)
      | AInt x \<Rightarrow> Inr x
      | AInt64 x \<Rightarrow> Inr x
      | AStr x \<Rightarrow> (case sscanf_d x of None \<Rightarrow> Inl ExpectedInteger | Some n \<Rightarrow> Inr n)
      | _ \<Rightarrow> Inl ExpectedInteger)"

definition asUint64 :: "any \<Rightarrow> upd_err + u64" where
  "asUint64 v =
     (case v of
        AFloat x \<Rightarrow> if x < 0 then Inl NegativeValue else Inr (go_uint64 x)
      | AStr x \<Rightarrow> (case sscanf_u x of None \<Rightarrow> Inl ExpectedInteger | Some n \<Rightarrow> Inr n)
      | _ \<Rightarrow> Inl ExpectedNumber)"

definition asFloat :: "(string \<Rightarrow> rat option) \<Rightarrow> any \<Rightarrow> upd_err + rat" where
  "asFloat sscanf_f v =
     (case v of
        AFloat x \<Rightarrow> Inr x
      | AInt x \<Rightarrow> Inr (if x < 0 then - f64 (of_int (- x)) else f64 (of_int x))
      | AStr x \<Rightarrow> (case sscanf_f x of None \<Rightarrow> Inl ExpectedNumber | Some f \<Rightarrow> Inr f)
      | _ \<Rightarrow> Inl ExpectedNumber)"

text \<open>\<^verbatim>\<open>asString\<close> returns its zero value together with an error; callers that ignore the error go on
  with the empty string.\<close>

definition asString :: "any \<Rightarrow> string \<times> upd_err option" where
  "asString v = (case v of ANil \<Rightarrow> ([], None) | AStr s \<Rightarrow> (s, None) | _ \<Rightarrow> ([], Some ExpectedString))"

definition asBool :: "any \<Rightarrow> upd_err + bool" where
  "asBool v = (case v of ABool b \<Rightarrow> Inr b | _ \<Rightarrow> Inl ExpectedBool)"

fun int_items :: "nat \<Rightarrow> any list \<Rightarrow> upd_err + int list" where
  "int_items i [] = Inr []"
| "int_items i (x # xs) =
     (case asInt x of
        Inl e \<Rightarrow> Inl (Item i e)
      | Inr n \<Rightarrow> (case int_items (Suc i) xs of Inl e \<Rightarrow> Inl e | Inr ns \<Rightarrow> Inr (n # ns)))"

definition asIntSlice :: "any \<Rightarrow> upd_err + int list" where
  "asIntSlice v = (case v of AArr xs \<Rightarrow> int_items 0 xs | _ \<Rightarrow> Inl ExpectedArray)"

fun string_items :: "nat \<Rightarrow> any list \<Rightarrow> upd_err + string list" where
  "string_items i [] = Inr []"
| "string_items i (x # xs) =
     (case asString x of
        (s, Some e) \<Rightarrow> Inl (Item i e)
      | (s, None) \<Rightarrow> (case string_items (Suc i) xs of Inl e \<Rightarrow> Inl e | Inr ss \<Rightarrow> Inr (s # ss)))"

definition asStringSlice :: "any \<Rightarrow> upd_err + string list" where
  "asStringSlice v = (case v of AArr xs \<Rightarrow> string_items 0 xs | _ \<Rightarrow> Inl ExpectedArray)"

section \<open>The dispatcher\<close>

record 's running =
  run_cfg :: config
  run_srv :: "'s server option"
  run_filt :: "'s IPFilter option"

type_synonym 's upd = "(upd_err + bool \<times> bool) \<times> 's running"

definition set_cfg :: "(config \<Rightarrow> config) \<Rightarrow> 's running \<Rightarrow> 's running" where
  "set_cfg f r = r\<lparr>run_cfg := f (run_cfg r)\<rparr>"

definition set_srv :: "('s server \<Rightarrow> 's server) \<Rightarrow> 's running \<Rightarrow> 's running" where
  "set_srv f r = r\<lparr>run_srv := map_option f (run_srv r)\<rparr>"

text \<open>The filter is one object that the server holds too.\<close>

definition set_filt :: "'s IPFilter \<Rightarrow> 's running \<Rightarrow> 's running" where
  "set_filt f r = set_srv (\<lambda>v. v\<lparr>sv_Filter := f\<rparr>) (r\<lparr>run_filt := Some f\<rparr>)"

text \<open>The pattern of a case: coerce, check, write.\<close>

definition coerce :: "(upd_err + 'v) \<Rightarrow> 's running \<Rightarrow> ('v \<Rightarrow> 's upd) \<Rightarrow> 's upd" where
  "coerce x r k = (case x of Inl e \<Rightarrow> (Inl e, r) | Inr v \<Rightarrow> k v)"

definition to_sum :: "string \<times> upd_err option \<Rightarrow> upd_err + string" where
  "to_sum x = (case x of (s, Some e) \<Rightarrow> Inl e | (s, None) \<Rightarrow> Inr s)"

definition refuse :: "upd_err \<Rightarrow> 's running \<Rightarrow> 's upd" where
  "refuse e r = (Inl e, r)"

definition live :: "'s running \<Rightarrow> 's upd" where "live r = (Inr (True, False), r)"

definition restart :: "'s running \<Rightarrow> 's upd" where "restart r = (Inr (True, True), r)"

text \<open>The cases of one section each; the last case refuses the path.\<close>

definition update_worker :: "string \<Rightarrow> any \<Rightarrow> 's running \<Rightarrow> 's upd \<Rightarrow> 's upd" where
  "update_worker path val r otherwise =
     (if path = ''worker.count'' then
        coerce (asInt val) r (\<lambda>n. if n < 0 \<or> n > 500 then refuse (OutOfRange ''count'') r
                                     else live (set_cfg (\<lambda>c. c\<lparr>Worker_Count := n\<rparr>) r))
      else if path = ''worker.name_prefix'' then
        coerce (to_sum (asString val)) r (\<lambda>s. if s = [] then refuse EmptyPrefix r
          else live (set_cfg (\<lambda>c. c\<lparr>Worker_NamePrefix := s, Worker_NamePrefixDefaulted := False\<rparr>) r))
      else if path = ''worker.deploy_backend'' then
        coerce (to_sum (asString val)) r (\<lambda>s.
          if s \<notin> {''workers_dev'', ''custom_domain'', ''auto''} then refuse (NotOneOf ''deploy_backend'') r
          else live (set_cfg (\<lambda>c. c\<lparr>Worker_DeployBackend := s\<rparr>) r))
      else if path = ''worker.rotate_interval_sec'' then
        coerce (asInt val) r (\<lambda>n. restart (set_cfg (\<lambda>c. c\<lparr>Worker_RotateIntervalS := n\<rparr>) r))
      else if path = ''worker.rotate_max_age_sec'' then
        coerce (asInt val) r (\<lambda>n. restart (set_cfg (\<lambda>c. c\<lparr>Worker_RotateMaxAgeSec := n\<rparr>) r))
      else if path = ''worker.rotate_max_req'' then
        coerce (asUint64 val) r (\<lambda>n. restart (set_cfg (\<lambda>c. c\<lparr>Worker_RotateMaxReq := n\<rparr>) r))
      else otherwise)"

definition update_access :: "string \<Rightarrow> any \<Rightarrow> 's running \<Rightarrow> 's upd \<Rightarrow> 's upd" where
  "update_access path val r otherwise =
     (if path = ''listen.auth_user'' then restart (set_cfg (\<lambda>c. c\<lparr>Listen_AuthUser := fst (asString val)\<rparr>) r)
      else if path = ''listen.auth_pass'' then restart (set_cfg (\<lambda>c. c\<lparr>Listen_AuthPass := fst (asString val)\<rparr>) r)
      else if path = ''admin.api_key'' then restart (set_cfg (\<lambda>c. c\<lparr>Admin_APIKey := fst (asString val)\<rparr>) r)
      else if path = ''admin.enable_pprof'' then
        coerce (asBool val) r (\<lambda>b. restart (set_cfg (\<lambda>c. c\<lparr>Admin_EnablePprof := b\<rparr>) r))
      else if path = ''filter.allow_ports'' then
        coerce (asIntSlice val) r (\<lambda>ports.
          let wire = map PInt ports; r1 = set_cfg (\<lambda>c. c\<lparr>Filter_AllowPorts := wire\<rparr>) r
          in case run_filt r1 of
               None \<Rightarrow> live r1
             | Some f \<Rightarrow>
                 (case SetAllowPorts wire f of
                    (Some e, f') \<Rightarrow> refuse (PortsRefused e) (set_filt f' r1)
                  | (None, f') \<Rightarrow> live (set_filt f' r1)))
      else if path = ''filter.deny_cidrs'' then
        coerce (asStringSlice val) r (\<lambda>s. restart (set_cfg (\<lambda>c. c\<lparr>Filter_DenyCIDRs := s\<rparr>) r))
      else otherwise)"

definition update_pool :: "string \<Rightarrow> any \<Rightarrow> 's running \<Rightarrow> 's upd \<Rightarrow> 's upd" where
  "update_pool path val r otherwise =
     (if path = ''pool.proxy_mode'' then
        (let s = fst (asString val)
         in if s \<notin> {''socket'', ''fetch'', ''hybrid''} then refuse (NotOneOf ''proxy_mode'') r
            else live (set_srv (SetProxyMode s) (set_cfg (\<lambda>c. c\<lparr>Pool_ProxyMode := s\<rparr>) r)))
      else if path = ''pool.strategy'' then
        (let s = fst (asString val)
         in if s \<notin> {''round_robin'', ''least_inflight''} then refuse (NotOneOf ''strategy'') r
            else restart (set_cfg (\<lambda>c. c\<lparr>Pool_Strategy := s\<rparr>) r))
      else if path = ''pool.max_retries'' then
        coerce (asInt val) r (\<lambda>n. live (set_srv (\<lambda>v. v\<lparr>sv_MaxRetries := n\<rparr>) (set_cfg (\<lambda>c. c\<lparr>Pool_MaxRetries := n\<rparr>) r)))
      else if path = ''pool.backoff_ms'' then
        coerce (asInt val) r (\<lambda>n. live (set_srv (\<lambda>v. v\<lparr>sv_BaseBackoff := wrap64 (n * 1000000)\<rparr>)
                                            (set_cfg (\<lambda>c. c\<lparr>Pool_BackoffMs := n\<rparr>) r)))
      else if path = ''pool.hedge_after_ms'' then
        coerce (asInt val) r (\<lambda>n. live (set_srv (\<lambda>v. v\<lparr>sv_HedgeAfter := wrap64 (n * 1000000)\<rparr>)
                                            (set_cfg (\<lambda>c. c\<lparr>Pool_HedgeAfterMs := n\<rparr>) r)))
      else if path = ''pool.tls_rewrap'' then
        coerce (asBool val) r (\<lambda>b. live (set_srv (\<lambda>v. v\<lparr>sv_TLSRewrap := b\<rparr>) (set_cfg (\<lambda>c. c\<lparr>Pool_TLSRewrap := b\<rparr>) r)))
      else if path = ''pool.disable_probe'' then
        coerce (asBool val) r (\<lambda>b. restart (set_cfg (\<lambda>c. c\<lparr>Pool_DisableProbe := b\<rparr>) r))
      else otherwise)"

definition update_limits :: "(string \<Rightarrow> rat option) \<Rightarrow> string \<Rightarrow> any \<Rightarrow> 's running \<Rightarrow> 's upd \<Rightarrow> 's upd" where
  "update_limits sscanf_f path val r otherwise =
     (if path = ''rate_limit.per_host_qps'' then
        coerce (asFloat sscanf_f val) r (\<lambda>f. restart (set_cfg (\<lambda>c. c\<lparr>RateLimit_PerHostQPS := f\<rparr>) r))
      else if path = ''rate_limit.per_host_burst'' then
        coerce (asInt val) r (\<lambda>n. restart (set_cfg (\<lambda>c. c\<lparr>RateLimit_PerHostBurst := n\<rparr>) r))
      else if path = ''quota.daily_limit'' then
        coerce (asUint64 val) r (\<lambda>n. restart (set_cfg (\<lambda>c. c\<lparr>Quota_DailyLimit := n\<rparr>) r))
      else if path = ''quota.warn_percent'' then
        coerce (asInt val) r (\<lambda>n. if n < 0 \<or> n > 100 then refuse (OutOfRange ''warn_percent'') r
                                     else live (set_cfg (\<lambda>c. c\<lparr>Quota_WarnPercent := n\<rparr>) r))
      else if path = ''alerts.cooldown_sec'' then
        coerce (asInt val) r (\<lambda>n. restart (set_cfg (\<lambda>c. c\<lparr>Alerts_CooldownSec := n\<rparr>) r))
      else if path = ''alerts.discord_webhook_url'' then
        (let s = fst (asString val)
         in if s \<noteq> [] \<and> \<not> has_prefix s ''https://'' then refuse NotHttps r
            else restart (set_cfg (\<lambda>c. c\<lparr>Alerts_DiscordURL := s\<rparr>) r))
      else if path = ''log.level'' then
        (let s = fst (asString val)
         in if s \<notin> {''trace'', ''debug'', ''info'', ''warn'', ''error''} then refuse (NotOneOf ''log.level'') r
            else restart (set_cfg (\<lambda>c. c\<lparr>Log_Level := s\<rparr>) r))
      else otherwise)"

definition applyConfigUpdate :: "(string \<Rightarrow> rat option) \<Rightarrow> string \<Rightarrow> any \<Rightarrow> 's running \<Rightarrow> 's upd" where
  "applyConfigUpdate sscanf_f path val r =
     update_worker path val r (update_access path val r (update_pool path val r
       (update_limits sscanf_f path val r (refuse (UnknownPath path) r))))"

section \<open>Lemmas\<close>

lemmas upd_simps = coerce_def refuse_def live_def restart_def set_cfg_def set_srv_def Let_def

lemma parse_ports_ints: "\<exists>ps' all'. parse_ports (map PInt ns) ps all = Inr (ps', all')"
  by (induction ns arbitrary: ps all) simp_all

lemma SetAllowPorts_ints: "fst (SetAllowPorts (map PInt ns) f) = None"
  using parse_ports_ints [of ns "{}" False] by (auto simp: SetAllowPorts_def)

lemma update_sections_error:
  "update_worker path val r other = (Inl e, r') \<Longrightarrow> r' = r \<or> other = (Inl e, r')"
  "update_access path val r other = (Inl e, r') \<Longrightarrow> r' = r \<or> other = (Inl e, r')"
  "update_pool path val r other = (Inl e, r') \<Longrightarrow> r' = r \<or> other = (Inl e, r')"
  "update_limits sf path val r other = (Inl e, r') \<Longrightarrow> r' = r \<or> other = (Inl e, r')"
proof -
  show "update_worker path val r other = (Inl e, r') \<Longrightarrow> r' = r \<or> other = (Inl e, r')"
    by (auto simp: update_worker_def upd_simps split: if_splits sum.splits)
  show "update_pool path val r other = (Inl e, r') \<Longrightarrow> r' = r \<or> other = (Inl e, r')"
    by (auto simp: update_pool_def upd_simps split: if_splits sum.splits)
  show "update_limits sf path val r other = (Inl e, r') \<Longrightarrow> r' = r \<or> other = (Inl e, r')"
    by (auto simp: update_limits_def upd_simps split: if_splits sum.splits)
  have "SetAllowPorts (map PInt ns) f \<noteq> (Some x, f')" for ns f x f'
    using SetAllowPorts_ints [of ns f] by auto
  then show "update_access path val r other = (Inl e, r') \<Longrightarrow> r' = r \<or> other = (Inl e, r')"
    by (auto simp: update_access_def upd_simps split: if_splits sum.splits option.splits prod.splits)
qed

text \<open>The running server agrees with the configuration on everything that is swapped live.\<close>

definition synced :: "'s running \<Rightarrow> bool" where
  "synced r \<longleftrightarrow>
     (case run_srv r of
        None \<Rightarrow> True
      | Some v \<Rightarrow>
          GetProxyMode v = Pool_ProxyMode (run_cfg r) \<and> sv_MaxRetries v = Pool_MaxRetries (run_cfg r) \<and>
          sv_BaseBackoff v = wrap64 (Pool_BackoffMs (run_cfg r) * 1000000) \<and>
          sv_HedgeAfter v = wrap64 (Pool_HedgeAfterMs (run_cfg r) * 1000000) \<and>
          sv_TLSRewrap v = Pool_TLSRewrap (run_cfg r) \<and> run_filt r = Some (sv_Filter v))"

lemma snd_answers [simp]: "snd (live r) = r" "snd (restart r) = r" "snd (refuse e r) = r"
  by (simp_all add: live_def restart_def refuse_def)

lemma synced_coerce: "synced r \<Longrightarrow> (\<And>v. synced (snd (k v))) \<Longrightarrow> synced (snd (coerce x r k))"
  by (simp add: coerce_def split: sum.split)

definition pool_part :: "config \<Rightarrow> string \<times> int \<times> int \<times> int \<times> bool" where
  "pool_part c = (Pool_ProxyMode c, Pool_MaxRetries c, Pool_BackoffMs c, Pool_HedgeAfterMs c, Pool_TLSRewrap c)"

lemma synced_cfg: "synced r \<Longrightarrow> pool_part (f (run_cfg r)) = pool_part (run_cfg r) \<Longrightarrow> synced (set_cfg f r)"
  by (cases "run_srv r") (simp_all add: synced_def set_cfg_def pool_part_def)

lemma synced_filt: "synced r \<Longrightarrow> synced (set_filt f r)"
  by (cases "run_srv r") (simp_all add: synced_def set_filt_def set_srv_def GetProxyMode_def)

lemma synced_pool:
  "synced r \<Longrightarrow> synced (set_srv (SetProxyMode m) (set_cfg (\<lambda>c. c\<lparr>Pool_ProxyMode := m\<rparr>) r))"
  "synced r \<Longrightarrow> synced (set_srv (\<lambda>v. v\<lparr>sv_MaxRetries := n\<rparr>) (set_cfg (\<lambda>c. c\<lparr>Pool_MaxRetries := n\<rparr>) r))"
  "synced r \<Longrightarrow> synced (set_srv (\<lambda>v. v\<lparr>sv_BaseBackoff := wrap64 (n * 1000000)\<rparr>) (set_cfg (\<lambda>c. c\<lparr>Pool_BackoffMs := n\<rparr>) r))"
  "synced r \<Longrightarrow> synced (set_srv (\<lambda>v. v\<lparr>sv_HedgeAfter := wrap64 (n * 1000000)\<rparr>) (set_cfg (\<lambda>c. c\<lparr>Pool_HedgeAfterMs := n\<rparr>) r))"
  "synced r \<Longrightarrow> synced (set_srv (\<lambda>v. v\<lparr>sv_TLSRewrap := b\<rparr>) (set_cfg (\<lambda>c. c\<lparr>Pool_TLSRewrap := b\<rparr>) r))"
  by (cases "run_srv r"; simp add: synced_def set_srv_def set_cfg_def GetProxyMode_def SetProxyMode_def)+

lemma synced_if: "synced (snd x) \<Longrightarrow> synced (snd y) \<Longrightarrow> synced (snd (if b then x else y))"
  by simp

lemma synced_sections:
  assumes "synced r" "synced (snd other)"
  shows "synced (snd (update_worker path val r other))" "synced (snd (update_access path val r other))"
    "synced (snd (update_pool path val r other))" "synced (snd (update_limits sf path val r other))"
proof -
  note facts = assms synced_cfg synced_pool pool_part_def
  have filt: "synced (snd (case run_filt r1 of None \<Rightarrow> live r1 | Some f \<Rightarrow>
       (case SetAllowPorts wire f of (Some e, f') \<Rightarrow> refuse (PortsRefused e) (set_filt f' r1) | (None, f') \<Rightarrow> live (set_filt f' r1))))"
    if "synced r1" for r1 wire using that by (auto intro!: synced_filt split: option.split prod.split)
  show "synced (snd (update_worker path val r other))"
    unfolding update_worker_def by (intro synced_if synced_coerce) (simp_all add: facts)
  show "synced (snd (update_access path val r other))"
    unfolding update_access_def Let_def by (intro synced_if synced_coerce filt) (simp_all add: facts)
  show "synced (snd (update_pool path val r other))"
    unfolding update_pool_def Let_def by (intro synced_if synced_coerce) (simp_all add: facts)
  show "synced (snd (update_limits sf path val r other))"
    unfolding update_limits_def Let_def by (intro synced_if synced_coerce) (simp_all add: facts)
qed

lemma synced_update: "synced r \<Longrightarrow> synced (snd (applyConfigUpdate sf path val r))"
  by (simp add: applyConfigUpdate_def synced_sections)

section \<open>Properties\<close>

text \<open>
  C36. A refused update changes nothing: whenever \<^verbatim>\<open>applyConfigUpdate\<close> answers with an error, for any
  path and val, the configuration, the running server and the filter are as before.
\<close>

theorem update_error_atomic:
  assumes "applyConfigUpdate sscanf_f path val r = (Inl e, r')"
  shows "r' = r"
  using assms unfolding applyConfigUpdate_def
  by (auto dest!: update_sections_error simp: refuse_def)

definition demo_running :: "prefix list running" where
  "demo_running = \<lparr>run_cfg = empty_config, run_srv = None, run_filt = None\<rparr>"

theorem update_error_atomic_witness:
  "\<exists>e r'. applyConfigUpdate (\<lambda>_. None) ''worker.count'' (AInt 501) demo_running = (Inl e, r') \<and> r' = demo_running"
proof -
  have "applyConfigUpdate (\<lambda>_. None) ''worker.count'' (AInt 501) demo_running = (Inl (OutOfRange ''count''), demo_running)"
    by (simp add: applyConfigUpdate_def update_worker_def coerce_def asInt_def refuse_def)
  with update_error_atomic [OF this] show ?thesis by blast
qed

text \<open>
  The running server never drifts from the configuration: if its mode, retries, back-off,
  hedge delay, TLS rewrap and filter agree with the configuration, they still do after any sequence
  of updates, accepted or refused.
\<close>

lemma updates_stay_synced:
  assumes "synced r"
  shows "synced (foldl (\<lambda>r (path, val). snd (applyConfigUpdate sscanf_f path val r)) r us)"
  using assms by (induction us arbitrary: r) (auto simp: synced_update)

lemma updates_stay_synced_example:
  "synced (foldl (\<lambda>r (path, val). snd (applyConfigUpdate (\<lambda>_. None) path val r)) demo_running
     [(''pool.max_retries'', AInt 5), (''nope'', ANil)])"
  by (rule updates_stay_synced) (simp add: synced_def demo_running_def)

text \<open>
  A value of the wrong type is not refused for the credentials but clears them: setting the
  admin key, the proxy user or the proxy password to anything that is not a string is accepted and
  stores the empty string, which turns the authentication off at the next start.
\<close>

lemma wrong_type_clears_credentials:
  assumes "val \<notin> range AStr"
  shows "\<exists>r1 r2 r3. applyConfigUpdate sscanf_f ''admin.api_key'' val r = (Inr (True, True), r1) \<and> Admin_APIKey (run_cfg r1) = [] \<and>
           applyConfigUpdate sscanf_f ''listen.auth_user'' val r = (Inr (True, True), r2) \<and> Listen_AuthUser (run_cfg r2) = [] \<and>
           applyConfigUpdate sscanf_f ''listen.auth_pass'' val r = (Inr (True, True), r3) \<and> Listen_AuthPass (run_cfg r3) = []"
proof -
  have "fst (asString val) = []" using assms by (cases val) (auto simp: asString_def)
  then show ?thesis
    by (simp add: applyConfigUpdate_def update_worker_def update_access_def restart_def set_cfg_def)
qed

lemma wrong_type_clears_credentials_example:
  "\<exists>r1. applyConfigUpdate (\<lambda>_. None) ''admin.api_key'' (AFloat 7) demo_running = (Inr (True, True), r1) \<and> Admin_APIKey (run_cfg r1) = []"
  using wrong_type_clears_credentials [of "AFloat 7" "\<lambda>_. None" demo_running] by blast

text \<open>
  The back-off is not range-checked: after a negative \<^verbatim>\<open>pool.backoff_ms\<close> has been accepted, the
  next dial that fails makes the process panic, since the jitter is drawn from a negative range.
\<close>

lemma negative_backoff_panics:
  "\<exists>r v. applyConfigUpdate (\<lambda>_. None) ''pool.backoff_ms'' (AInt (- 5)) (demo_running\<lparr>run_srv := Some demo_server\<rparr>)
       = (Inr (True, False), r) \<and> run_srv r = Some v \<and>
     fst (run_dial v (demo_env r1 r2) (\<lambda>_. demo_attempt [] (Inl ErrCtx)) (dial_policy v ''ex'' 443 []) ''ex'' 443 True demo_state) = DPanic"
proof -
  let ?v = "demo_server\<lparr>sv_BaseBackoff := - 5000000\<rparr>"
  have u: "\<exists>r. applyConfigUpdate (\<lambda>_. None) ''pool.backoff_ms'' (AInt (- 5)) (demo_running\<lparr>run_srv := Some demo_server\<rparr>)
       = (Inr (True, False), r) \<and> run_srv r = Some ?v"
    by (simp add: applyConfigUpdate_def update_worker_def update_access_def update_pool_def coerce_def asInt_def live_def
        set_srv_def set_cfg_def wrap64_def)
  let ?pol = "dial_policy ?v ''ex'' 443 []"
  have p: "MaxRetries ?pol = 2" "BaseBackoff ?pol = - 5000000" "HedgeAfter ?pol = 0" "SessionID ?pol = []" "\<not> AutoFetchFallback ?pol"
    by (simp_all add: dial_policy_def demo_server_def)
  then have n: "normalize_policy ?pol = ?pol" by (simp add: normalize_policy_def)
  have g: "g_heap (s_guard demo_state) = demo_heap" "g_pool (s_guard demo_state) = pool_New [3, 4]" "sv_Scheduler ?v = leastInflight_Next"
    by (simp_all add: demo_state_def demo_server_def)
  have "fst (run_dial ?v (demo_env r1 r2) (\<lambda>_. demo_attempt [] (Inl ErrCtx)) ?pol ''ex'' 443 True demo_state) = DPanic"
    by (simp add: run_dial_def g DialWithPolicy_def n p Let_def numeral_2_eq_2 dial_attempt_def pick_worker_def demo_pick
        dialOnceWithHedge_def demo_attempt_def dialBreak_def after_dial_def back_off_def split: prod.split)
  with u show ?thesis by blast
qed

end
