(* ===== verification/Admin_Server.thy ===== *)
theory Admin_Server
  imports Admin_Keys Config_Update Health_Check
begin

text \<open>
  The admin HTTP server (\<^verbatim>\<open>internal/admin/server.go\<close>, \<^verbatim>\<open>workers.go\<close>, \<^verbatim>\<open>alerts.go\<close>, \<^verbatim>\<open>testreq.go\<close> and the account
  handlers of \<^verbatim>\<open>apikeys.go\<close>): the routes, the handlers behind the middleware and their composition \<open>serve\<close>. The
  server reaches the rest of the program through the function-valued fields of its struct; they are the record
  \<open>hooks\<close>, each an optional function on the state of the program, as the code has them (nil is \<open>None\<close>). That
  state extends the worker pool, which the server uses directly. JSON bodies arrive decoded, and a reply is a
  status code and the data that is encoded into the body. Time-outs of the hooks are part of the hooks.
\<close>

section \<open>State, hooks and requests\<close>

record world =
  wd_heap :: heap
  wd_pool :: pool

type_synonym 'a fallible = "string + 'a"

record alert =
  al_status :: string
  al_labels :: "string \<rightharpoonup> string"
  al_annotations :: "string \<rightharpoonup> string"

record alert_payload =
  ap_receiver :: string
  ap_status :: string
  ap_alerts :: "alert list"

record test_result =
  tr_worker :: string
  tr_report :: string

record 's hooks =
  hk_AddToken :: "(string \<Rightarrow> int \<Rightarrow> 's \<Rightarrow> string list fallible \<times> 's) option"
  hk_RemoveToken :: "(string \<Rightarrow> string \<Rightarrow> 's \<Rightarrow> string list fallible \<times> 's) option"
  hk_LogTail :: "(string \<Rightarrow> 's \<Rightarrow> string list fallible) option"
  hk_QuotaHistory :: "(int \<Rightarrow> string \<Rightarrow> 's \<Rightarrow> string list fallible) option"
  hk_ConfigDump :: "('s \<Rightarrow> string) option"
  hk_RecycleWorker :: "(string \<Rightarrow> 's \<Rightarrow> string fallible \<times> 's) option"
  hk_APIKeys :: "'s key_ops option"
  hk_Audit :: "(audit_event \<Rightarrow> 's \<Rightarrow> 's) option"
  hk_ListAudit :: "int \<Rightarrow> 's \<Rightarrow> audit_event list fallible"
  hk_Series :: "('s \<Rightarrow> string) option"
  hk_TestRequest :: "(string \<Rightarrow> 's \<Rightarrow> test_result fallible \<times> 's) option"
  hk_SetProxyMode :: "(string \<Rightarrow> 's \<Rightarrow> unit fallible \<times> 's) option"
  hk_PutHistory :: "(time \<Rightarrow> string \<Rightarrow> test_result \<Rightarrow> 's \<Rightarrow> 's) option"
  hk_ListHistory :: "int \<Rightarrow> 's \<Rightarrow> bytes list fallible"
  hk_Alert :: "(string \<Rightarrow> string \<Rightarrow> string \<Rightarrow> string \<Rightarrow> 's \<Rightarrow> 's) option"
  hk_AccountNames :: "('s \<Rightarrow> string \<rightharpoonup> string) option"
  hk_DeployMore :: "(string \<Rightarrow> int \<Rightarrow> 's \<Rightarrow> string list fallible \<times> 's) option"
  hk_DestroyAll :: "('s \<Rightarrow> string list fallible \<times> 's) option"
  hk_Clean :: "(bool \<Rightarrow> 's \<Rightarrow> (string list \<times> string list) fallible \<times> 's) option"
  hk_ListWorkers :: "('s \<Rightarrow> string list fallible) option"
  hk_UpdateConfig :: "(string \<Rightarrow> any \<Rightarrow> 's \<Rightarrow> (bool \<times> bool) fallible \<times> 's) option"

record sreq =
  sr_req :: areq
  sr_query :: "string \<Rightarrow> string"
  sr_env :: key_env
  sr_token :: "(string \<times> int) option"
  sr_config :: "(string \<times> any) option"
  sr_deploy :: "string \<times> int"
  sr_dry_run :: bool
  sr_alerts :: "alert_payload option"
  sr_url :: "string option"
  sr_mode :: "string option"
  sr_session :: "(string \<times> string) option"

record acc_row =
  ar_ID :: string
  ar_Name :: string
  ar_Workers :: int
  ar_Healthy :: int
  ar_QuotaPaused :: int

record worker_status =
  ws_Name :: string
  ws_URL :: string
  ws_Account :: string
  ws_Healthy :: bool
  ws_QuotaPaused :: bool
  ws_Breaker :: string
  ws_Inflight :: int
  ws_Requests :: u64
  ws_Errors :: u64
  ws_ErrRate :: rat
  ws_AgeSec :: int
  ws_Colo :: string

datatype body = BEmpty | BErr string | BText string | BNames string "string list" | BStatus nat "worker_status list"
  | BAccounts "acc_row list" | BPatched string bool bool | BPair string string | BHistory int string "string list"
  | BKeys key_answer | BPaused string bool nat | BReceived nat | BAudit "audit_event list" | BClean bool "string list" "string list"
  | BStream "string list" | BRuns "bytes list" | BSession session_answer | BAuth auth_answer

type_synonym 's handler = "sreq \<Rightarrow> 's api_state \<Rightarrow> (nat \<times> body) \<times> 's api_state"

definition now_of :: "sreq \<Rightarrow> time" where "now_of sq = ke_now (sr_env sq)"

definition rmethod :: "sreq \<Rightarrow> string" where "rmethod sq = rq_Method (sr_req sq)"

text \<open>A handler's audit line, and the sentence with a count that several of them write.\<close>

definition audit_line :: "'s hooks \<Rightarrow> sreq \<Rightarrow> string \<Rightarrow> string \<Rightarrow> string \<Rightarrow> 's api_state \<Rightarrow> 's api_state" where
  "audit_line hk sq action target detail st =
     st\<lparr>ap_store := audit (hk_Audit hk) (now_of sq) (ke_who (sr_env sq)) action target detail (ap_store st)\<rparr>"

definition n_workers :: "'a list \<Rightarrow> string" where "n_workers xs = dec (length xs) @ '' workers''"

text \<open>Running a hook on the state.\<close>

definition run_hook :: "('s \<Rightarrow> 'a \<times> 's) \<Rightarrow> 's api_state \<Rightarrow> 'a \<times> 's api_state" where
  "run_hook f st = (let (a, s') = f (ap_store st) in (a, st\<lparr>ap_store := s'\<rparr>))"

section \<open>Reading handlers\<close>

definition query_int :: "int \<Rightarrow> int \<Rightarrow> string \<Rightarrow> int" where
  "query_int dflt hi v = (if v \<noteq> [] then (case atoi v of Some n \<Rightarrow> if n > 0 \<and> n \<le> hi then n else dflt | None \<Rightarrow> dflt) else dflt)"

definition handleAudit :: "'s hooks \<Rightarrow> 's handler" where
  "handleAudit hk sq st =
     (if hk_Audit hk = None then ((503, BErr ''audit log disabled''), st)
      else (case hk_ListAudit hk (query_int 200 5000 (sr_query sq ''limit'')) (ap_store st) of
              Inl e \<Rightarrow> ((500, BErr e), st)
            | Inr rows \<Rightarrow> ((200, BAudit rows), st)))"

text \<open>Truncation of \<^verbatim>\<open>Duration.Seconds()\<close>, a binary64 value.\<close>

definition age_seconds :: "time \<Rightarrow> int" where
  "age_seconds d =
     (let f = fadd (f64 (of_int (sgn d * (\<bar>d\<bar> div second)))) (fdiv (f64 (of_int (sgn d * (\<bar>d\<bar> mod second)))) (f64 (of_int second)))
      in rtrunc f)"

definition breaker_text :: "breaker_state \<Rightarrow> string" where
  "breaker_text b = (case b of StateClosed \<Rightarrow> ''closed'' | StateHalfOpen \<Rightarrow> ''half-open'' | StateOpen \<Rightarrow> ''open'')"

definition status_row :: "(ref \<Rightarrow> breaker_state) \<Rightarrow> time \<Rightarrow> heap \<Rightarrow> ref \<Rightarrow> worker_status" where
  "status_row brk now h w =
     \<lparr>ws_Name = Name (h w), ws_URL = URL (h w), ws_Account = AccountID (h w), ws_Healthy = Healthy (h w),
      ws_QuotaPaused = QuotaPaused (h w), ws_Breaker = breaker_text (brk w), ws_Inflight = Inflight (h w),
      ws_Requests = Requests (h w), ws_Errors = Errors (h w), ws_ErrRate = EWMAErrRate (h w),
      ws_AgeSec = age_seconds (now - CreatedAt (h w)), ws_Colo = ColoString (h w)\<rparr>"

definition handleStatus :: "(ref \<Rightarrow> breaker_state) \<Rightarrow> 'm world_scheme handler" where
  "handleStatus brk sq st =
     (let p = wd_pool (ap_store st)
      in ((200, BStatus (pool_Size p) (map (status_row brk (now_of sq) (wd_heap (ap_store st))) (pool_All p))), st))"

text \<open>The rows per account; the code collects them in a map, so their order is not specified, and the model
  keeps the order in which the accounts are first met.\<close>

definition bump :: "worker \<Rightarrow> acc_row \<Rightarrow> acc_row" where
  "bump w r =
     r\<lparr>ar_Workers := ar_Workers r + 1, ar_Healthy := ar_Healthy r + (if Healthy w then 1 else 0),
       ar_QuotaPaused := ar_QuotaPaused r + (if QuotaPaused w then 1 else 0)\<rparr>"

fun account_add :: "(string \<rightharpoonup> string) \<Rightarrow> worker \<Rightarrow> acc_row list \<Rightarrow> acc_row list" where
  "account_add names w [] =
     [bump w \<lparr>ar_ID = AccountID w, ar_Name = (case names (AccountID w) of Some n \<Rightarrow> n | None \<Rightarrow> []), ar_Workers = 0, ar_Healthy = 0, ar_QuotaPaused = 0\<rparr>]"
| "account_add names w (r # rs) = (if ar_ID r = AccountID w then bump w r # rs else r # account_add names w rs)"

definition handleAccounts :: "'m world_scheme hooks \<Rightarrow> 'm world_scheme handler" where
  "handleAccounts hk sq st =
     (let names = (case hk_AccountNames hk of Some f \<Rightarrow> f (ap_store st) | None \<Rightarrow> Map.empty); h = wd_heap (ap_store st)
      in ((200, BAccounts (foldl (\<lambda>acc w. account_add names (h w) acc) [] (pool_All (wd_pool (ap_store st))))), st))"

definition handleQuotaHistory :: "'s hooks \<Rightarrow> 's handler" where
  "handleQuotaHistory hk sq st =
     (case hk_QuotaHistory hk of
        None \<Rightarrow> ((503, BErr ''history not enabled''), st)
      | Some f \<Rightarrow>
          (let days = query_int 7 365 (sr_query sq ''days''); account = sr_query sq ''account''
           in case f days account (ap_store st) of
                Inl e \<Rightarrow> ((500, BErr e), st)
              | Inr rows \<Rightarrow> ((200, BHistory days account rows), st)))"

definition handleMetricsSeries :: "bool \<Rightarrow> 's hooks \<Rightarrow> 's handler" where
  "handleMetricsSeries ui hk sq st =
     (if \<not> ui then ((404, BEmpty), st)
      else (case hk_Series hk of
              None \<Rightarrow> ((503, BErr ''series not initialized''), st)
            | Some f \<Rightarrow> ((200, BText (f (ap_store st))), st)))"

definition handleTestHistory :: "'s hooks \<Rightarrow> 's handler" where
  "handleTestHistory hk sq st =
     (if rmethod sq \<noteq> ''GET'' then ((405, BErr ''method not allowed''), st)
      else if hk_PutHistory hk = None then ((200, BRuns []), st)
      else (case hk_ListHistory hk 100 (ap_store st) of
              Inl e \<Rightarrow> ((500, BErr e), st)
            | Inr raws \<Rightarrow> ((200, BRuns raws), st)))"

definition handleWorkersList :: "'s hooks \<Rightarrow> 's handler" where
  "handleWorkersList hk sq st =
     (case hk_ListWorkers hk of
        None \<Rightarrow> ((503, BErr ''list workers disabled''), st)
      | Some f \<Rightarrow> (case f (ap_store st) of Inl e \<Rightarrow> ((502, BErr e), st) | Inr ws \<Rightarrow> ((200, BNames ''workers'' ws), st)))"

section \<open>Changing handlers\<close>

text \<open>The shape they share: a missing hook is 503; otherwise the hook runs, and its error or its result is
  audited and answered.\<close>

definition with_hook :: "'h option \<Rightarrow> string \<Rightarrow> ('h \<Rightarrow> 's api_state \<Rightarrow> (nat \<times> body) \<times> 's api_state) \<Rightarrow> 's api_state \<Rightarrow> (nat \<times> body) \<times> 's api_state" where
  "with_hook h msg k st = (case h of None \<Rightarrow> ((503, BErr msg), st) | Some f \<Rightarrow> k f st)"

definition add_token_status :: "string \<Rightarrow> nat" where
  "add_token_status msg =
     (if contains_str msg ''already registered'' then 409
      else if contains_str msg ''Invalid access token'' \<or> contains_str msg ''token validation failed'' \<or> contains_str msg ''needs Account.Workers'' then 401
      else if contains_str msg ''is empty'' then 400 else 502)"

definition handleAddToken :: "'s hooks \<Rightarrow> 's handler" where
  "handleAddToken hk sq st =
     with_hook (hk_AddToken hk) ''runtime token add disabled''
       (\<lambda>f st. case sr_token sq of
          None \<Rightarrow> ((400, BErr ''body must be {token}''), st)
        | Some (token, cnt) \<Rightarrow>
            if token = [] then ((400, BErr ''body must be {token}''), st)
            else (case run_hook (f token cnt) st of
                    (Inl e, st1) \<Rightarrow> ((add_token_status e, BErr e), audit_line hk sq ''token.add.failed'' [] e st1)
                  | (Inr names, st1) \<Rightarrow>
                      ((200, BNames ''deployed_workers'' names),
                       audit_line hk sq ''token.add'' (join_with '','' names) (''count='' @ itoa cnt) st1))) st"

definition handleRemoveToken :: "'s hooks \<Rightarrow> 's handler" where
  "handleRemoveToken hk sq st =
     with_hook (hk_RemoveToken hk) ''runtime token remove disabled''
       (\<lambda>f st. let accountID = sr_query sq ''account''; token = sr_query sq ''token''
          in if accountID = [] \<and> token = [] then ((400, BErr ''account or token required''), st)
             else (case run_hook (f accountID token) st of
                     (Inl e, st1) \<Rightarrow> ((502, BErr e), audit_line hk sq ''token.remove.failed'' accountID e st1)
                   | (Inr names, st1) \<Rightarrow>
                       ((200, BNames ''removed_workers'' names), audit_line hk sq ''token.remove'' accountID (n_workers names) st1))) st"

definition handleTokens :: "'s hooks \<Rightarrow> 's handler" where
  "handleTokens hk sq st =
     (if rmethod sq = ''POST'' then handleAddToken hk sq st
      else if rmethod sq = ''DELETE'' then handleRemoveToken hk sq st
      else ((405, BErr ''POST or DELETE required''), st))"

definition bool_text :: "bool \<Rightarrow> string" where "bool_text b = (if b then ''true'' else ''false'')"

definition handleConfigPatch :: "'s hooks \<Rightarrow> 's handler" where
  "handleConfigPatch hk sq st =
     with_hook (hk_UpdateConfig hk) ''runtime config updates disabled''
       (\<lambda>f st. case sr_config sq of
          None \<Rightarrow> ((400, BErr ''body must be {path,value}''), st)
        | Some (path, val) \<Rightarrow>
            if path = [] then ((400, BErr ''body must be {path,value}''), st)
            else (case run_hook (f path val) st of
                    (Inl e, st1) \<Rightarrow> ((400, BErr e), audit_line hk sq ''config.update.failed'' path e st1)
                  | (Inr (applied, needsRestart), st1) \<Rightarrow>
                      ((200, BPatched path applied needsRestart),
                       audit_line hk sq ''config.update'' path (''applied='' @ bool_text applied @ '' restart='' @ bool_text needsRestart) st1))) st"

definition handleConfig :: "'s hooks \<Rightarrow> 's handler" where
  "handleConfig hk sq st =
     (if rmethod sq = ''PATCH'' then handleConfigPatch hk sq st
      else (case hk_ConfigDump hk of
              None \<Rightarrow> ((503, BErr ''config dump disabled''), st)
            | Some f \<Rightarrow> ((200, BText (f (ap_store st))), st)))"

text \<open>The arrow in the audit detail is three bytes of UTF-8.\<close>

definition arrow :: string where "arrow = map char_of [0xE2, 0x86, 0x92 :: nat]"

definition handleWorkerRecycle :: "'s hooks \<Rightarrow> string \<Rightarrow> 's handler" where
  "handleWorkerRecycle hk name sq st =
     (if rmethod sq \<noteq> ''POST'' then ((405, BErr ''POST required''), st)
      else with_hook (hk_RecycleWorker hk) ''recycle disabled''
        (\<lambda>f st. case run_hook (f name) st of
           (Inl e, st1) \<Rightarrow> ((502, BErr e), audit_line hk sq ''worker.recycle.failed'' name e st1)
         | (Inr new, st1) \<Rightarrow> ((200, BPair name new), audit_line hk sq ''worker.recycle'' name (arrow @ new) st1)) st)"

definition handleWorkersDestroyAll :: "'s hooks \<Rightarrow> 's handler" where
  "handleWorkersDestroyAll hk sq st =
     with_hook (hk_DestroyAll hk) ''destroy disabled''
       (\<lambda>f st. if sr_query sq ''confirm'' \<noteq> ''true'' then ((400, BErr ''add ?confirm=true''), st)
          else (case run_hook f st of
                  (Inl e, st1) \<Rightarrow> ((502, BErr e), audit_line hk sq ''workers.destroy_all.failed'' [] e st1)
                | (Inr names, st1) \<Rightarrow>
                    ((200, BNames ''removed_workers'' names), audit_line hk sq ''workers.destroy_all'' [] (n_workers names) st1))) st"

definition handleWorkersRoot :: "'s hooks \<Rightarrow> 's handler" where
  "handleWorkersRoot hk sq st =
     (if rmethod sq = ''GET'' then handleWorkersList hk sq st
      else if rmethod sq = ''DELETE'' then handleWorkersDestroyAll hk sq st
      else ((405, BErr ''GET or DELETE required''), st))"

definition handleWorkersDeploy :: "'s hooks \<Rightarrow> 's handler" where
  "handleWorkersDeploy hk sq st =
     (if rmethod sq \<noteq> ''POST'' then ((405, BErr ''POST required''), st)
      else with_hook (hk_DeployMore hk) ''deploy disabled''
        (\<lambda>f st. let (account, cnt) = sr_deploy sq
           in if trim_space account = [] then ((400, BErr ''body must include {account,count}''), st)
              else (case run_hook (f account cnt) st of
                      (Inl e, st1) \<Rightarrow> ((502, BErr e), audit_line hk sq ''workers.deploy.failed'' account e st1)
                    | (Inr names, st1) \<Rightarrow>
                        ((200, BNames account names), audit_line hk sq ''workers.deploy'' account (n_workers names) st1))) st)"

definition handleWorkersClean :: "'s hooks \<Rightarrow> 's handler" where
  "handleWorkersClean hk sq st =
     (if rmethod sq \<noteq> ''POST'' then ((405, BErr ''POST required''), st)
      else with_hook (hk_Clean hk) ''clean disabled''
        (\<lambda>f st. case run_hook (f (sr_dry_run sq)) st of
           (Inl e, st1) \<Rightarrow> ((502, BErr e), audit_line hk sq ''workers.clean.failed'' [] e st1)
         | (Inr (workers, dns), st1) \<Rightarrow>
             ((200, BClean (sr_dry_run sq) workers dns),
              if sr_dry_run sq then st1
              else audit_line hk sq ''workers.clean'' [] (dec (length workers) @ '' workers '' @ dec (length dns) @ '' dns'') st1)) st)"

text \<open>The log stream is the lines its channel delivers before it closes.\<close>

definition handleWorkerSub :: "'s hooks \<Rightarrow> 's handler" where
  "handleWorkerSub hk sq st =
     (let path = trim_prefix (rq_Path (sr_req sq)) ''/workers/''
      in if path = ''deploy'' then handleWorkersDeploy hk sq st
         else if path = ''clean'' then handleWorkersClean hk sq st
         else (case split_n 2 (CHR ''/'') path of
                 [name, sub] \<Rightarrow>
                   if sub = ''recycle'' then handleWorkerRecycle hk name sq st
                   else if sub \<noteq> ''logs'' then ((404, BErr ''not found''), st)
                   else (case hk_LogTail hk of
                           None \<Rightarrow> ((503, BErr ''log tail disabled''), st)
                         | Some f \<Rightarrow> (case f name (ap_store st) of
                                        Inl e \<Rightarrow> ((200, BErr e), st) | Inr msgs \<Rightarrow> ((200, BStream msgs), st)))
               | _ \<Rightarrow> ((400, BErr ''use /workers/{name}/logs''), st)))"

definition handleAccountDeploy :: "'s hooks \<Rightarrow> string \<Rightarrow> 's handler" where
  "handleAccountDeploy hk acc sq st =
     with_hook (hk_DeployMore hk) ''deploy hook not wired''
       (\<lambda>f st. case run_hook (f acc (snd (sr_deploy sq))) st of
          (Inl e, st1) \<Rightarrow> ((500, BErr e), audit_line hk sq ''account.deploy.failed'' acc e st1)
        | (Inr names, st1) \<Rightarrow> ((200, BNames acc names), audit_line hk sq ''account.deploy'' acc (n_workers names) st1)) st"

definition pause_account :: "'m world_scheme hooks \<Rightarrow> string \<Rightarrow> bool \<Rightarrow> 'm world_scheme handler" where
  "pause_account hk acc paused sq st =
     (let w = ap_store st; (n, h') = SetAccountPaused acc paused (wd_heap w) (wd_pool w)
      in ((200, BPaused acc paused n),
          audit_line hk sq (if paused then ''account.pause'' else ''account.resume'') acc (dec n @ '' workers'')
            (st\<lparr>ap_store := w\<lparr>wd_heap := h'\<rparr>\<rparr>)))"

definition handleAccountAction :: "bool \<Rightarrow> 'm world_scheme hooks \<Rightarrow> 'm world_scheme handler" where
  "handleAccountAction ui hk sq st =
     (if \<not> ui then ((404, BEmpty), st)
      else if rmethod sq \<noteq> ''POST'' then ((405, BErr ''POST required''), st)
      else (case split_n 2 (CHR ''/'') (trim_prefix (rq_Path (sr_req sq)) ''/accounts/'') of
              [acc, action] \<Rightarrow>
                if action = ''deploy'' then handleAccountDeploy hk acc sq st
                else if action = ''pause'' then pause_account hk acc True sq st
                else if action = ''resume'' then pause_account hk acc False sq st
                else ((400, BErr ''unknown action''), st)
            | _ \<Rightarrow> ((400, BErr ''use /accounts/{id}/pause or /accounts/{id}/resume''), st)))"

fun firstNonEmpty :: "string list \<Rightarrow> string" where
  "firstNonEmpty [] = []"
| "firstNonEmpty (v # vs) = (if v \<noteq> [] then v else firstNonEmpty vs)"

definition lookup_str :: "(string \<rightharpoonup> string) \<Rightarrow> string \<Rightarrow> string" where
  "lookup_str m k = (case m k of Some v \<Rightarrow> v | None \<Rightarrow> [])"

definition forward_alert :: "(string \<Rightarrow> string \<Rightarrow> string \<Rightarrow> string \<Rightarrow> 's \<Rightarrow> 's) \<Rightarrow> alert_payload \<Rightarrow> alert \<Rightarrow> 's \<Rightarrow> 's" where
  "forward_alert f p a =
     f (firstNonEmpty [ap_receiver p, ''alertmanager''])
       (firstNonEmpty [lookup_str (al_annotations a) ''summary'', lookup_str (al_annotations a) ''description'',
          lookup_str (al_labels a) ''alertname'', ''(no summary)''])
       (firstNonEmpty [lookup_str (al_labels a) ''severity'', ''info''])
       (firstNonEmpty [al_status a, ap_status p, ''firing''])"

definition handleAlertsWebhook :: "'s hooks \<Rightarrow> 's handler" where
  "handleAlertsWebhook hk sq st =
     (if rmethod sq \<noteq> ''POST'' then ((405, BErr ''method not allowed''), st)
      else with_hook (hk_Alert hk) ''alert hook not wired''
        (\<lambda>f st. case sr_alerts sq of
           None \<Rightarrow> ((400, BErr ''bad request''), st)
         | Some p \<Rightarrow>
             ((200, BReceived (length (ap_alerts p))),
              audit_line hk sq ''alertmanager.webhook'' (ap_receiver p) []
                (st\<lparr>ap_store := foldl (\<lambda>s a. forward_alert f p a s) (ap_store st) (ap_alerts p)\<rparr>))) st)"

text \<open>The URL parser of the standard library is the argument \<open>parse_url\<close>: scheme and host, or an error.\<close>

definition handleTestRequest :: "(string \<Rightarrow> (string \<times> string) option) \<Rightarrow> 's hooks \<Rightarrow> 's handler" where
  "handleTestRequest parse_url hk sq st =
     (if rmethod sq \<noteq> ''POST'' then ((405, BErr ''method not allowed''), st)
      else with_hook (hk_TestRequest hk) ''test request not wired''
        (\<lambda>f st. case sr_url sq of
           None \<Rightarrow> ((400, BErr ''bad request''), st)
         | Some u0 \<Rightarrow>
             (let u = trim_space u0
              in if u = [] then ((400, BErr ''url required''), st)
                 else (case parse_url u of
                         None \<Rightarrow> ((400, BErr ''url must be an absolute http(s) URL''), st)
                       | Some (scheme, host) \<Rightarrow>
                           if (scheme \<noteq> ''http'' \<and> scheme \<noteq> ''https'') \<or> host = [] then
                             ((400, BErr ''url must be an absolute http(s) URL''), st)
                           else (case run_hook (f u) st of
                                   (Inl e, st1) \<Rightarrow> ((502, BErr e), audit_line hk sq ''test.request.failed'' u e st1)
                                 | (Inr res, st1) \<Rightarrow>
                                     (let st2 = audit_line hk sq ''test.request'' u (tr_worker res) st1
                                      in ((200, BText (tr_report res)),
                                          case hk_PutHistory hk of
                                            None \<Rightarrow> st2
                                          | Some put \<Rightarrow> st2\<lparr>ap_store := put (now_of sq) u res (ap_store st2)\<rparr>)))))) st)"

definition handleProxyMode :: "'s hooks \<Rightarrow> 's handler" where
  "handleProxyMode hk sq st =
     (if rmethod sq \<noteq> ''POST'' then ((405, BErr ''method not allowed''), st)
      else with_hook (hk_SetProxyMode hk) ''proxy-mode switch not wired''
        (\<lambda>f st. case sr_mode sq of
           None \<Rightarrow> ((400, BErr ''bad request''), st)
         | Some mode \<Rightarrow>
             if mode \<notin> {''socket'', ''fetch'', ''hybrid''} then ((400, BErr ''mode must be one of: socket, fetch, hybrid''), st)
             else (case run_hook (f mode) st of
                     (Inl e, st1) \<Rightarrow> ((500, BErr e), audit_line hk sq ''proxy.mode.failed'' mode e st1)
                   | (Inr _, st1) \<Rightarrow> ((200, BText mode), audit_line hk sq ''proxy.mode'' mode [] st1))) st)"

section \<open>Routes\<close>

text \<open>The multiplexer of the standard library redirects a path that is not clean (empty, dot or dot-dot
  segments), except for CONNECT, and then takes the longest pattern that matches: an exact path, or a prefix
  that ends with a slash.\<close>

datatype route = RMoved | RRoot | RMetrics | RStatus | RHealth | RTokens | RWorkers | RWorkerSub | RHistory | RSeries
  | RAccounts | RAccountAction | RConfig | RKeys | RAudit | RTestRequest | RTestHistory | RProxyMode | RAlerts | RSession | RSPA | RPprof

definition clean_url_path :: "string \<Rightarrow> bool" where
  "clean_url_path p =
     (case p of
        [] \<Rightarrow> False
      | c # r \<Rightarrow> c = CHR ''/'' \<and> list_all (\<lambda>s. s \<notin> {[], ''.'', ''..''}) (butlast (split_on (CHR ''/'') r))
                 \<and> last (split_on (CHR ''/'') r) \<notin> {''.'', ''..''})"

definition exact_routes :: "bool \<Rightarrow> (string \<times> route) list" where
  "exact_routes ui =
     [(''/metrics'', RMetrics), (''/status'', RStatus), (''/health'', RHealth), (''/tokens'', RTokens), (''/workers'', RWorkers),
      (''/metrics/history'', RHistory), (''/metrics/series'', RSeries), (''/accounts'', RAccounts), (''/config'', RConfig),
      (''/apikeys'', RKeys), (''/audit'', RAudit), (''/alerts/webhook'', RAlerts), (''/session'', RSession)] @
     (if ui then [(''/test-request'', RTestRequest), (''/test-history'', RTestHistory), (''/config/proxy-mode'', RProxyMode), (''/ui'', RSPA)] else [])"

definition prefix_routes :: "bool \<Rightarrow> bool \<Rightarrow> (string \<times> route) list" where
  "prefix_routes ui pprof =
     [(''/workers/'', RWorkerSub), (''/accounts/'', RAccountAction), (''/apikeys/'', RKeys)] @
     (if ui then [(''/ui/'', RSPA)] else []) @ (if pprof then [(''/debug/pprof/'', RPprof)] else [])"

definition route_of :: "bool \<Rightarrow> bool \<Rightarrow> string \<Rightarrow> string \<Rightarrow> route" where
  "route_of ui pprof meth path =
     (if meth \<noteq> ''CONNECT'' \<and> \<not> clean_url_path path then RMoved
      else (case map_of (exact_routes ui) path of
              Some rt \<Rightarrow> rt
            | None \<Rightarrow>
                (case find (\<lambda>pr. has_prefix path (fst pr)) (prefix_routes ui pprof) of
                   Some pr \<Rightarrow> snd pr
                 | None \<Rightarrow> if pprof \<and> path = ''/debug/pprof'' then RMoved else RRoot)))"

definition key_status :: "string \<Rightarrow> key_answer \<Rightarrow> nat" where
  "key_status meth a =
     (case a of KNotFound \<Rightarrow> 404 | KDisabled \<Rightarrow> 503 | KMethodNotAllowed \<Rightarrow> 405 | KRateLimited \<Rightarrow> 429 | KBadRequest \<Rightarrow> 400
      | KStoreError _ \<Rightarrow> (if meth = ''PATCH'' \<or> meth = ''DELETE'' then 502 else 500) | KConflict \<Rightarrow> 409 | KRngFailure \<Rightarrow> 500 | _ \<Rightarrow> 200)"

text \<open>What is behind the middleware. The Prometheus text and the profiler come from packages outside the
  repository and only read.\<close>

definition handler ::
  "(ref \<Rightarrow> breaker_state) \<Rightarrow> (string \<Rightarrow> (string \<times> string) option) \<Rightarrow> crypto \<Rightarrow> bool \<Rightarrow> 'm world_scheme hooks \<Rightarrow> route \<Rightarrow> 'm world_scheme handler" where
  "handler brk parse_url cr ui hk rt sq st =
     (case rt of
        RStatus \<Rightarrow> handleStatus brk sq st
      | RTokens \<Rightarrow> handleTokens hk sq st
      | RWorkers \<Rightarrow> handleWorkersRoot hk sq st
      | RWorkerSub \<Rightarrow> handleWorkerSub hk sq st
      | RHistory \<Rightarrow> handleQuotaHistory hk sq st
      | RSeries \<Rightarrow> handleMetricsSeries ui hk sq st
      | RAccounts \<Rightarrow> handleAccounts hk sq st
      | RAccountAction \<Rightarrow> handleAccountAction ui hk sq st
      | RConfig \<Rightarrow> handleConfig hk sq st
      | RKeys \<Rightarrow> (let (a, st') = handleAPIKeys ui (hk_APIKeys hk) (hk_Audit hk) cr (sr_env sq) (sr_req sq) st in ((key_status (rmethod sq) a, BKeys a), st'))
      | RAudit \<Rightarrow> handleAudit hk sq st
      | RTestRequest \<Rightarrow> handleTestRequest parse_url hk sq st
      | RTestHistory \<Rightarrow> handleTestHistory hk sq st
      | RProxyMode \<Rightarrow> handleProxyMode hk sq st
      | RAlerts \<Rightarrow> handleAlertsWebhook hk sq st
      | _ \<Rightarrow> ((200, BEmpty), st))"

definition session_status :: "session_answer \<Rightarrow> nat" where
  "session_status a =
     (case a of LoggedOut \<Rightarrow> 200 | MethodNotAllowed \<Rightarrow> 405 | SessionDisabled \<Rightarrow> 503 | BadBody \<Rightarrow> 400 | LoggedIn _ _ \<Rightarrow> 200 | _ \<Rightarrow> 401)"

definition auth_status :: "auth_answer \<Rightarrow> nat" where
  "auth_status a = (case a of Served _ _ \<Rightarrow> 200 | Unauthorized _ \<Rightarrow> 401 | TooManyFailures \<Rightarrow> 429 | MissingScope _ \<Rightarrow> 403 | BadCSRF \<Rightarrow> 403)"

definition registry :: "'s hooks \<Rightarrow> 's \<Rightarrow> key_record list option" where
  "registry hk s = (case hk_APIKeys hk of None \<Rightarrow> None | Some ks \<Rightarrow> listed ks s)"

definition with_who :: "string \<Rightarrow> sreq \<Rightarrow> sreq" where
  "with_who who sq = sq\<lparr>sr_env := (sr_env sq)\<lparr>ke_who := Some who\<rparr>\<rparr>"

text \<open>One request: the reply, the hash whose last use is recorded in the background, and the state.\<close>

definition serve ::
  "(ref \<Rightarrow> breaker_state) \<Rightarrow> (string \<Rightarrow> (string \<times> string) option) \<Rightarrow> crypto \<Rightarrow> admin_cfg \<Rightarrow> bool \<Rightarrow> 'm world_scheme hooks \<Rightarrow> sreq
     \<Rightarrow> 'm world_scheme api_state \<Rightarrow> (nat \<times> body) \<times> string option \<times> 'm world_scheme api_state" where
  "serve brk parse_url cr ad0 pprof hk sq st =
     (let ad = ad0\<lparr>ad_hasKeys := hk_APIKeys hk \<noteq> None\<rparr>; r = sr_req sq; keys = registry hk (ap_store st); ui = ad_UIEnabled ad;
          ast = \<lparr>as_cache = ap_cache st, as_tracker = ap_tracker st\<rparr>; rt = route_of ui pprof (rq_Method r) (rq_Path r);
          back = (\<lambda>ast. st\<lparr>ap_cache := as_cache ast, ap_tracker := as_tracker ast\<rparr>)
      in if rt = RMoved then ((301, BEmpty), None, st)
         else if rt = RRoot then ((if rq_Path r \<noteq> ''/'' then 404 else if ui then 302 else 200, BEmpty), None, st)
         else if rt = RHealth then ((200, BText ''ok''), None, st)
         else if rt = RSPA then ((200, BEmpty), None, st)
         else if rt = RSession then
           (case handleSession cr ad keys (now_of sq) (sr_session sq) r ast of
              (a, used, ast') \<Rightarrow> ((session_status a, BSession a), used, back ast'))
         else (case authed cr ad keys (now_of sq) r ast of
                 (Served who ck, used, ast') \<Rightarrow>
                   (let (rep, st') = handler brk parse_url cr ui hk rt (with_who who sq) (back ast') in (rep, used, st'))
               | (a, used, ast') \<Rightarrow> ((auth_status a, BAuth a), used, back ast')))"

section \<open>Lemmas: only mutating methods change the state\<close>

lemma with_hook_store:
  "(\<And>f. h = Some f \<Longrightarrow> ap_store (snd (k f st)) = ap_store st) \<Longrightarrow> ap_store (snd (with_hook h msg k st)) = ap_store st"
  by (cases h) (simp_all add: with_hook_def)

definition mutating :: "string \<Rightarrow> bool" where
  "mutating m \<longleftrightarrow> m \<in> {''POST'', ''DELETE'', ''PATCH''}"

lemma keys_read_only:
  assumes "\<not> mutating (rq_Method r)"
  shows "snd (handleAPIKeys ui keys alog cr ke r st) = st"
  using assms by (auto simp: mutating_def handleAPIKeys_def Let_def split: option.split)

text \<open>With a method that does not mutate, every handler leaves the whole state alone.\<close>

lemma handler_read_only:
  assumes "\<not> mutating (rmethod sq)"
  shows "snd (handler brk parse_url cr ui hk rt sq st) = st"
proof -
  have m: "rmethod sq \<noteq> ''POST''" "rmethod sq \<noteq> ''DELETE''" "rmethod sq \<noteq> ''PATCH''" using assms by (auto simp: mutating_def)
  have k: "snd (handleAPIKeys ui (hk_APIKeys hk) (hk_Audit hk) cr (sr_env sq) (sr_req sq) st) = st"
    using keys_read_only assms unfolding rmethod_def .
  note reads = handleStatus_def handleQuotaHistory_def handleMetricsSeries_def handleAccounts_def handleAudit_def handleTestHistory_def
    handleWorkersList_def
  note writes = handleTokens_def handleWorkersRoot_def handleWorkersDeploy_def handleWorkersClean_def handleWorkerRecycle_def
    handleAccountAction_def handleConfig_def handleTestRequest_def handleProxyMode_def handleAlertsWebhook_def
  have w: "snd (handleWorkerSub hk sq st) = st"
    using m by (auto simp: handleWorkerSub_def writes Let_def split: list.split option.split sum.split)
  show ?thesis
    using m k w by (cases rt) (auto simp: handler_def reads writes Let_def split: list.split option.split sum.split prod.splits)
qed

lemma prefix_clash: "has_prefix p a \<Longrightarrow> has_prefix p b \<Longrightarrow> length a \<le> length b \<Longrightarrow> take (length a) b = a"
  by (metis has_prefix_def min.absorb1 take_take)

text \<open>A path that reaches a handler other than the profiler's does not lie under the profiler's prefix.\<close>

lemma route_not_pprof:
  assumes "route_of ui pprof m p = rt" "rt \<notin> {RMoved, RRoot, RPprof}"
  shows "\<not> has_prefix p ''/debug/pprof/''"
proof
  assume d: "has_prefix p ''/debug/pprof/''"
  have "list_all (\<lambda>ui. list_all (\<lambda>pr. \<not> has_prefix (fst pr) ''/debug/pprof/'') (exact_routes ui)) [True, False]" by code_simp
  then have "list_all (\<lambda>pr. \<not> has_prefix (fst pr) ''/debug/pprof/'') (exact_routes ui)" by (cases ui) simp_all
  then have n: "map_of (exact_routes ui) p = None" using d by (auto simp: map_of_eq_None_iff list_all_iff)
  have "\<not> has_prefix p ''/workers/''" "\<not> has_prefix p ''/accounts/''" "\<not> has_prefix p ''/apikeys/''" "\<not> has_prefix p ''/ui/''"
    using prefix_clash [OF _ d, of "''/workers/''"] prefix_clash [OF _ d, of "''/accounts/''"]
      prefix_clash [OF _ d, of "''/apikeys/''"] prefix_clash [OF _ d, of "''/ui/''"] by auto
  then have "find (\<lambda>pr. has_prefix p (fst pr)) (prefix_routes ui pprof) = (if pprof then Some (''/debug/pprof/'', RPprof) else None)"
    using d by (simp add: prefix_routes_def)
  then show False using n assms by (auto simp: route_of_def split: if_splits)
qed

lemma mutating_scope:
  assumes "mutating m" "\<not> has_prefix p ''/debug/pprof/''"
  shows "RequiredScope m p \<in> {ScopeWrite, ScopeAPIKeys}"
  using assms by (auto simp: RequiredScope_def mutating_def)

lemma credential_hasKeys [simp]:
  "noAuthConfigured (ad\<lparr>ad_hasKeys := b\<rparr>) = noAuthConfigured ad"
  "valid_credential cr (ad\<lparr>ad_hasKeys := b\<rparr>) keys now r = valid_credential cr ad keys now r"
  by (simp_all add: noAuthConfigured_def valid_credential_def signed_session_def bootstrap_credential_def)

lemma serve_changed:
  assumes "serve brk parse_url cr ad pprof hk sq st = (rep, used, st')" "ap_store st' \<noteq> ap_store st"
  obtains who ck where
    "fst (authed cr (ad\<lparr>ad_hasKeys := hk_APIKeys hk \<noteq> None\<rparr>) (registry hk (ap_store st)) (now_of sq) (sr_req sq)
       \<lparr>as_cache = ap_cache st, as_tracker = ap_tracker st\<rparr>) = Served who ck"
    "mutating (rmethod sq)" "RequiredScope (rmethod sq) (rq_Path (sr_req sq)) \<in> {ScopeWrite, ScopeAPIKeys}"
proof -
  let ?ad = "ad\<lparr>ad_hasKeys := hk_APIKeys hk \<noteq> None\<rparr>" and ?ui = "ad_UIEnabled ad"
  let ?ast = "\<lparr>as_cache = ap_cache st, as_tracker = ap_tracker st\<rparr>"
  let ?rt = "route_of ?ui pprof (rq_Method (sr_req sq)) (rq_Path (sr_req sq))"
  obtain a u ast' where a: "authed cr ?ad (registry hk (ap_store st)) (now_of sq) (sr_req sq) ?ast = (a, u, ast')" by (metis prod_cases3)
  let ?st = "st\<lparr>ap_cache := as_cache ast', ap_tracker := as_tracker ast'\<rparr>"
  have rt: "?rt \<notin> {RMoved, RRoot}" using assms by (auto simp: serve_def Let_def)
  obtain who ck where s: "a = Served who ck" and h: "st' = snd (handler brk parse_url cr ?ui hk ?rt (with_who who sq) ?st)"
    using assms a by (auto simp: serve_def Let_def split: if_splits auth_answer.splits prod.splits)
  have w: "rmethod (with_who who sq) = rmethod sq" by (simp add: rmethod_def with_who_def)
  have m: "mutating (rmethod sq)"
  proof (rule ccontr)
    assume "\<not> mutating (rmethod sq)"
    then have "st' = ?st" unfolding h by (intro handler_read_only) (simp add: w)
    with assms(2) show False by simp
  qed
  have "?rt \<noteq> RPprof" using assms(2) h by (auto simp: handler_def)
  with rt have "\<not> has_prefix (rq_Path (sr_req sq)) ''/debug/pprof/''" by (intro route_not_pprof) auto
  then have "RequiredScope (rmethod sq) (rq_Path (sr_req sq)) \<in> {ScopeWrite, ScopeAPIKeys}" by (rule mutating_scope [OF m])
  with that [of who ck] a s m show ?thesis by simp
qed

section \<open>Properties\<close>


text \<open>A pool of one worker, no hooks but a registry with one key, and a request that pauses the account.\<close>

definition demo_world :: world where
  "demo_world = \<lparr>wd_heap = (\<lambda>_. NewWorker 0 ''a'' ''w'' ''u''), wd_pool = pool_New [0]\<rparr>"

definition demo_keys :: "world key_ops" where
  "demo_keys = \<lparr>ko_Put = (\<lambda>k s. (Some TxFailed, s)), ko_List = (\<lambda>s. (None, [demo_key])), ko_Get = (\<lambda>i s. Inl KeyNotFound),
     ko_Delete = (\<lambda>i s. (Some TxFailed, s)), ko_MarkUsed = (\<lambda>t h s. s), ko_SetDisabled = (\<lambda>i d s. (Some TxFailed, s))\<rparr>"

definition demo_hooks :: "world hooks" where
  "demo_hooks = \<lparr>hk_AddToken = None, hk_RemoveToken = None, hk_LogTail = None, hk_QuotaHistory = None, hk_ConfigDump = None,
     hk_RecycleWorker = None, hk_APIKeys = Some demo_keys, hk_Audit = None, hk_ListAudit = (\<lambda>n s. Inr []), hk_Series = None,
     hk_TestRequest = None, hk_SetProxyMode = None, hk_PutHistory = None, hk_ListHistory = (\<lambda>n s. Inr []), hk_Alert = None,
     hk_AccountNames = None, hk_DeployMore = None, hk_DestroyAll = None, hk_Clean = None, hk_ListWorkers = None, hk_UpdateConfig = None\<rparr>"

definition demo_pause :: sreq where
  "demo_pause = \<lparr>sr_req = demo_req\<lparr>rq_Method := ''POST'', rq_Path := ''/accounts/a/pause'', rq_APIKey := [], rq_Authorization := ''Bearer t0k''\<rparr>,
     sr_query = (\<lambda>_. []), sr_env = demo_env, sr_token = None, sr_config = None, sr_deploy = ([], 0), sr_dry_run = False, sr_alerts = None,
     sr_url = None, sr_mode = None, sr_session = None\<rparr>"

definition demo_server_state :: "world api_state" where
  "demo_server_state = \<lparr>ap_store = demo_world, ap_cache = None, ap_tracker = \<lparr>failed = Map.empty, mut_hits = Map.empty\<rparr>\<rparr>"

lemma demo_pause_serve:
  "ap_store (snd (snd (serve (\<lambda>_. StateClosed) (\<lambda>_. None) demo_crypto demo_admin False demo_hooks demo_pause demo_server_state))) \<noteq> demo_world"
proof -
  let ?ad = "demo_admin\<lparr>ad_hasKeys := True\<rparr>" and ?r = "sr_req demo_pause"
  have rt: "route_of True False ''POST'' ''/accounts/a/pause'' = RAccountAction" by code_simp
  have au: "authed demo_crypto ?ad (Some [demo_key]) 0 ?r \<lparr>as_cache = None, as_tracker = \<lparr>failed = Map.empty, mut_hits = Map.empty\<rparr>\<rparr>
      = (Served ''bootstrap:token'' None, None, \<lparr>as_cache = None, as_tracker = \<lparr>failed = Map.empty, mut_hits = Map.empty\<rparr>\<rparr>)"
    by (simp add: authed_def resolveScopes_def resolveSessionCookie_def resolveSessionCookieWithExp_def noAuthConfigured_def
        demo_pause_def demo_req_def demo_admin_def isBlockedIP_def HasScope_iff RequiredScope_known checkCSRF_def maybeRefreshSession_def
        has_prefix_def Let_def)
  have k: "registry demo_hooks demo_world = Some [demo_key]" by (simp add: registry_def demo_hooks_def demo_keys_def listed_def)
  have p: "rq_Method ?r = ''POST''" "rq_Path ?r = ''/accounts/a/pause''" "now_of demo_pause = 0" "ad_UIEnabled demo_admin"
    by (simp_all add: demo_pause_def now_of_def demo_env_def demo_admin_def)
  have sp: "split_n 2 (CHR ''/'') (trim_prefix ''/accounts/a/pause'' ''/accounts/'') = [''a'', ''pause'']" by code_simp
  have "ap_store (snd (snd (serve (\<lambda>_. StateClosed) (\<lambda>_. None) demo_crypto demo_admin False demo_hooks demo_pause demo_server_state)))
      = demo_world\<lparr>wd_heap := snd (SetAccountPaused ''a'' True (wd_heap demo_world) (wd_pool demo_world))\<rparr>"
    using rt au k p sp
    by (simp add: serve_def Let_def demo_server_state_def demo_hooks_def [THEN arg_cong [where f = hk_APIKeys]] handler_def
        handleAccountAction_def rmethod_def with_who_def pause_account_def audit_line_def audit_def
        demo_hooks_def [THEN arg_cong [where f = hk_Audit]] split: prod.splits)
  moreover have "Healthy (wd_heap demo_world 0)" "\<not> Healthy (snd (SetAccountPaused ''a'' True (wd_heap demo_world) (wd_pool demo_world)) 0)"
    by (simp_all add: demo_world_def SetAccountPaused_def ByAccount_def pool_New_def pool_load_def NewWorker_def Let_def)
  ultimately show ?thesis by (auto dest: arg_cong [where f = wd_heap])
qed


end
