(* ===== verification/Cf_Api.thy ===== *)
theory Cf_Api
  imports Account_Quota
begin

text \<open>
  The client of the Cloudflare API (\<^verbatim>\<open>internal/cfapi/client.go\<close>). The service behind it is not part of the
  repository: the record \<open>cf\<close> has one function that answers a request and moves the state \<open>'c\<close> of the
  service, and one per JSON type that the client decodes. The model follows the client from the call to the
  request (method, path, token, body) and from the answer to the result, with every way it can fail.
\<close>

section \<open>Requests and answers\<close>

text \<open>The bodies the client builds, by the data formatted into them.\<close>

datatype req_body = NoBody | ScriptUpload string | EnableSubdomain | NewSubdomain string | NewDomain string string string | EmptyObject

record api_req =
  aq_Token :: string
  aq_Method :: string
  aq_Path :: string
  aq_Body :: req_body
  aq_ContentType :: string

datatype 'j api_resp = NetError string | Garbage string | Envelope nat bool "(int \<times> string) list" 'j

datatype api_err = ApiNet string | ApiParse string | ApiCode int string | ApiStatus nat | ApiDecode

datatype gql_resp = GqlNet string | GqlGarbage | GqlData "string list" "u64 list list"

record zone =
  zn_ID :: string
  zn_Name :: string

record dns_record =
  dr_ID :: string
  dr_Type :: string
  dr_Name :: string
  dr_Content :: string

record worker_domain =
  wo_ID :: string
  wo_Hostname :: string
  wo_Service :: string
  wo_ZoneID :: string
  wo_ZoneName :: string

record account_info =
  ai_ID :: string
  ai_Name :: string

record ('c, 'j) cf =
  cf_send :: "api_req \<Rightarrow> 'c \<Rightarrow> 'j api_resp \<times> 'c"
  cf_graphql :: "string \<Rightarrow> string \<Rightarrow> time \<Rightarrow> time \<Rightarrow> 'c \<Rightarrow> gql_resp \<times> 'c"
  cf_scripts :: "'j \<Rightarrow> string list option"
  cf_accounts :: "'j \<Rightarrow> account_info list option"
  cf_subdomain :: "'j \<Rightarrow> string option"
  cf_zones :: "'j \<Rightarrow> zone list option"
  cf_dns :: "'j \<Rightarrow> dns_record list option"
  cf_domain :: "'j \<Rightarrow> worker_domain option"
  cf_domains :: "'j \<Rightarrow> worker_domain list option"
  cf_tail :: "'j \<Rightarrow> (string \<times> string) option"

type_synonym ('c, 'a) api = "'c \<Rightarrow> (api_err + 'a) \<times> 'c"

section \<open>The client\<close>

definition cf_do :: "('c, 'j) cf \<Rightarrow> string \<Rightarrow> string \<Rightarrow> string \<Rightarrow> req_body \<Rightarrow> string \<Rightarrow> ('c, 'j) api" where
  "cf_do s token meth path bdy ctype c =
     (case cf_send s \<lparr>aq_Token = token, aq_Method = meth, aq_Path = path, aq_Body = bdy, aq_ContentType = ctype\<rparr> c of
        (NetError e, c') \<Rightarrow> (Inl (ApiNet e), c')
      | (Garbage raw, c') \<Rightarrow> (Inl (ApiParse raw), c')
      | (Envelope status success errs result, c') \<Rightarrow>
          (if \<not> success then (Inl (case errs of [] \<Rightarrow> ApiStatus status | (n, m) # _ \<Rightarrow> ApiCode n m), c') else (Inr result, c')))"

text \<open>Decoding of a result, and calls whose result is dropped.\<close>

definition decoded :: "('j \<Rightarrow> 'a option) \<Rightarrow> ('c, 'j) api \<Rightarrow> ('c, 'a) api" where
  "decoded d f c =
     (case f c of
        (Inl e, c') \<Rightarrow> (Inl e, c')
      | (Inr j, c') \<Rightarrow> (case d j of None \<Rightarrow> (Inl ApiDecode, c') | Some x \<Rightarrow> (Inr x, c')))"

definition dropped :: "('c, 'j) api \<Rightarrow> ('c, unit) api" where
  "dropped f c = (case f c of (Inl e, c') \<Rightarrow> (Inl e, c') | (Inr _, c') \<Rightarrow> (Inr (), c'))"

definition scripts_path :: "string \<Rightarrow> string" where
  "scripts_path acc = ''/accounts/'' @ acc @ ''/workers/scripts''"

definition script_path :: "string \<Rightarrow> string \<Rightarrow> string" where
  "script_path acc name = scripts_path acc @ ''/'' @ name"

definition domains_path :: "string \<Rightarrow> string" where
  "domains_path acc = ''/accounts/'' @ acc @ ''/workers/domains''"

definition json_type :: string where "json_type = ''application/json''"

definition UploadWorker :: "('c, 'j) cf \<Rightarrow> string \<Rightarrow> string \<Rightarrow> string \<Rightarrow> string \<Rightarrow> ('c, unit) api" where
  "UploadWorker s acc token name script = dropped (cf_do s token ''PUT'' (script_path acc name) (ScriptUpload script) ''multipart/form-data'')"

definition EnableWorkersDev :: "('c, 'j) cf \<Rightarrow> string \<Rightarrow> string \<Rightarrow> string \<Rightarrow> ('c, unit) api" where
  "EnableWorkersDev s acc token name = dropped (cf_do s token ''POST'' (script_path acc name @ ''/subdomain'') EnableSubdomain json_type)"

definition cf_DeleteWorker :: "('c, 'j) cf \<Rightarrow> string \<Rightarrow> string \<Rightarrow> string \<Rightarrow> ('c, unit) api" where
  "cf_DeleteWorker s acc token name = dropped (cf_do s token ''DELETE'' (script_path acc name) NoBody [])"

definition cf_ListWorkers :: "('c, 'j) cf \<Rightarrow> string \<Rightarrow> string \<Rightarrow> ('c, string list) api" where
  "cf_ListWorkers s acc token = decoded (cf_scripts s) (cf_do s token ''GET'' (scripts_path acc) NoBody [])"

text \<open>Requests of the account since midnight; an account or a sum that is missing counts as none.\<close>

definition TodayWorkerRequests :: "('c, 'j) cf \<Rightarrow> string \<Rightarrow> string \<Rightarrow> time \<Rightarrow> ('c, u64) api" where
  "TodayWorkerRequests s token acc now c =
     (case cf_graphql s token acc (startOfDay now) now c of
        (GqlNet e, c') \<Rightarrow> (Inl (ApiNet e), c')
      | (GqlGarbage, c') \<Rightarrow> (Inl (ApiParse []), c')
      | (GqlData errs accounts, c') \<Rightarrow>
          (case errs of
             m # _ \<Rightarrow> (Inl (ApiCode 0 m), c')
           | [] \<Rightarrow> (Inr (case accounts of [] \<Rightarrow> 0 | [] # _ \<Rightarrow> 0 | (n # _) # _ \<Rightarrow> n), c')))"

definition ListAccounts :: "('c, 'j) cf \<Rightarrow> string \<Rightarrow> ('c, account_info list) api" where
  "ListAccounts s token = decoded (cf_accounts s) (cf_do s token ''GET'' ''/accounts'' NoBody [])"

definition GetSubdomain :: "('c, 'j) cf \<Rightarrow> string \<Rightarrow> string \<Rightarrow> ('c, string) api" where
  "GetSubdomain s acc token = decoded (cf_subdomain s) (cf_do s token ''GET'' (''/accounts/'' @ acc @ ''/workers/subdomain'') NoBody [])"

definition CreateSubdomain :: "('c, 'j) cf \<Rightarrow> string \<Rightarrow> string \<Rightarrow> string \<Rightarrow> ('c, unit) api" where
  "CreateSubdomain s acc token name =
     dropped (cf_do s token ''PUT'' (''/accounts/'' @ acc @ ''/workers/subdomain'') (NewSubdomain name) json_type)"

definition ListZones :: "('c, 'j) cf \<Rightarrow> string \<Rightarrow> ('c, zone list) api" where
  "ListZones s token = decoded (cf_zones s) (cf_do s token ''GET'' ''/zones?per_page=50'' NoBody [])"

text \<open>The filter of \<^verbatim>\<open>ListDNSRecords\<close> and \<^verbatim>\<open>ListWorkerDomains\<close>: nothing is filtered for an empty prefix.\<close>

definition with_prefix :: "('a \<Rightarrow> string) \<Rightarrow> string \<Rightarrow> 'a list \<Rightarrow> 'a list" where
  "with_prefix f p xs = (if p = [] then xs else filter (\<lambda>x. has_prefix (f x) p) xs)"

definition ListDNSRecords :: "('c, 'j) cf \<Rightarrow> string \<Rightarrow> string \<Rightarrow> string \<Rightarrow> ('c, dns_record list) api" where
  "ListDNSRecords s token zoneID namePrefix =
     decoded (\<lambda>j. map_option (with_prefix dr_Name namePrefix) (cf_dns s j))
       (cf_do s token ''GET'' (''/zones/'' @ zoneID @ ''/dns_records?per_page=200'') NoBody [])"

definition DeleteDNSRecord :: "('c, 'j) cf \<Rightarrow> string \<Rightarrow> string \<Rightarrow> string \<Rightarrow> ('c, unit) api" where
  "DeleteDNSRecord s token zoneID recordID =
     dropped (cf_do s token ''DELETE'' (''/zones/'' @ zoneID @ ''/dns_records/'' @ recordID) NoBody [])"

definition StartTail :: "('c, 'j) cf \<Rightarrow> string \<Rightarrow> string \<Rightarrow> string \<Rightarrow> ('c, string \<times> string) api" where
  "StartTail s acc token name = decoded (cf_tail s) (cf_do s token ''POST'' (script_path acc name @ ''/tails'') EmptyObject json_type)"

definition DeleteTail :: "('c, 'j) cf \<Rightarrow> string \<Rightarrow> string \<Rightarrow> string \<Rightarrow> string \<Rightarrow> ('c, unit) api" where
  "DeleteTail s acc token name tailID = dropped (cf_do s token ''DELETE'' (script_path acc name @ ''/tails/'' @ tailID) NoBody [])"

definition AttachWorkerDomain :: "('c, 'j) cf \<Rightarrow> string \<Rightarrow> string \<Rightarrow> string \<Rightarrow> string \<Rightarrow> string \<Rightarrow> ('c, worker_domain) api" where
  "AttachWorkerDomain s acc token hostname script zoneID =
     decoded (cf_domain s) (cf_do s token ''PUT'' (domains_path acc) (NewDomain hostname script zoneID) json_type)"

definition DetachWorkerDomain :: "('c, 'j) cf \<Rightarrow> string \<Rightarrow> string \<Rightarrow> string \<Rightarrow> ('c, unit) api" where
  "DetachWorkerDomain s acc token bindingID = dropped (cf_do s token ''DELETE'' (domains_path acc @ ''/'' @ bindingID) NoBody [])"

definition ListWorkerDomains :: "('c, 'j) cf \<Rightarrow> string \<Rightarrow> string \<Rightarrow> string \<Rightarrow> ('c, worker_domain list) api" where
  "ListWorkerDomains s acc token hostnamePrefix =
     decoded (\<lambda>j. map_option (with_prefix wo_Hostname hostnamePrefix) (cf_domains s j)) (cf_do s token ''GET'' (domains_path acc) NoBody [])"

end
