(* ===== verification/Deploy_Backends.thy ===== *)
theory Deploy_Backends
  imports Cf_Api "HOL-Library.Char_ord"
begin

text \<open>
  Where workers are deployed (\<^verbatim>\<open>internal/backend\<close>): the interface \<^verbatim>\<open>Backend\<close> as a record of operations, its two
  implementations on workers.dev and on custom domains, and \<^verbatim>\<open>Pick\<close>. The locale \<open>deploy_backends\<close> is what the
  deployment code relies on: the names a backend has live, what each operation does to them, and that the
  backends of different accounts do not interfere. It is interpreted on the workers.dev backend over every
  service that behaves as the API documents (\<open>scripts_service\<close>).
\<close>

section \<open>The interface\<close>

record deployed =
  de_Name :: string
  de_URL :: string
  de_AccountID :: string
  de_Backend :: string
  de_Hostname :: string
  de_ZoneID :: string
  de_RecordID :: string

datatype dep_err = UploadErr api_err | EnableErr api_err | AttachErr api_err | ApiErr api_err | NoSubdomain | NoZones
  | UnknownMode string | Cancelled

record 'c backend =
  be_Name :: string
  be_AccountID :: string
  be_Deploy :: "string \<Rightarrow> string \<Rightarrow> 'c \<Rightarrow> (dep_err + deployed) \<times> 'c"
  be_Delete :: "deployed \<Rightarrow> 'c \<Rightarrow> (dep_err + unit) \<times> 'c"
  be_List :: "string \<Rightarrow> 'c \<Rightarrow> (dep_err + deployed list) \<times> 'c"

text \<open>The error pattern: wrap the error of a call and return, or go on with its result.\<close>

definition calling :: "(api_err \<Rightarrow> dep_err) \<Rightarrow> (api_err + 'a) \<times> 'c \<Rightarrow> ('a \<Rightarrow> 'c \<Rightarrow> (dep_err + 'r) \<times> 'c) \<Rightarrow> (dep_err + 'r) \<times> 'c" where
  "calling wrap res k = (case res of (Inl e, c) \<Rightarrow> (Inl (wrap e), c) | (Inr x, c) \<Rightarrow> k x c)"

section \<open>workers.dev\<close>

definition workers_dev_host :: "string \<Rightarrow> string \<Rightarrow> string" where
  "workers_dev_host name sub = name @ ''.'' @ sub @ ''.workers.dev''"

definition workers_dev_deployed :: "string \<Rightarrow> string \<Rightarrow> string \<Rightarrow> deployed" where
  "workers_dev_deployed acc sub name =
     \<lparr>de_Name = name, de_URL = ''https://'' @ workers_dev_host name sub, de_AccountID = acc, de_Backend = ''workers_dev'',
      de_Hostname = workers_dev_host name sub, de_ZoneID = [], de_RecordID = []\<rparr>"

definition workers_dev_Deploy :: "('c, 'j) cf \<Rightarrow> string \<Rightarrow> string \<Rightarrow> string \<Rightarrow> string \<Rightarrow> string \<Rightarrow> 'c \<Rightarrow> (dep_err + deployed) \<times> 'c" where
  "workers_dev_Deploy s acc token sub name script c =
     calling UploadErr (UploadWorker s acc token name script c) (\<lambda>_ c.
       calling EnableErr (EnableWorkersDev s acc token name c) (\<lambda>_ c. (Inr (workers_dev_deployed acc sub name), c)))"

definition workers_dev_List :: "('c, 'j) cf \<Rightarrow> string \<Rightarrow> string \<Rightarrow> string \<Rightarrow> string \<Rightarrow> 'c \<Rightarrow> (dep_err + deployed list) \<times> 'c" where
  "workers_dev_List s acc token sub prefix c =
     calling ApiErr (cf_ListWorkers s acc token c) (\<lambda>scripts c.
       (Inr (map (workers_dev_deployed acc sub) (filter (\<lambda>n. has_prefix n prefix) scripts)), c))"

definition NewWorkersDev :: "('c, 'j) cf \<Rightarrow> string \<Rightarrow> string \<Rightarrow> string \<Rightarrow> 'c backend" where
  "NewWorkersDev s acc token sub =
     \<lparr>be_Name = ''workers_dev'', be_AccountID = acc, be_Deploy = workers_dev_Deploy s acc token sub,
      be_Delete = (\<lambda>d c. calling ApiErr (cf_DeleteWorker s acc token (de_Name d) c) (\<lambda>_ c. (Inr (), c))),
      be_List = workers_dev_List s acc token sub\<rparr>"

section \<open>Custom domains\<close>

definition custom_deployed :: "string \<Rightarrow> string \<Rightarrow> string \<Rightarrow> string \<Rightarrow> string \<Rightarrow> deployed" where
  "custom_deployed acc zoneID name hostname rec =
     \<lparr>de_Name = name, de_URL = ''https://'' @ hostname, de_AccountID = acc, de_Backend = ''custom_domain'',
      de_Hostname = hostname, de_ZoneID = zoneID, de_RecordID = rec\<rparr>"

definition custom_Deploy :: "('c, 'j) cf \<Rightarrow> string \<Rightarrow> string \<Rightarrow> zone \<Rightarrow> string \<Rightarrow> string \<Rightarrow> 'c \<Rightarrow> (dep_err + deployed) \<times> 'c" where
  "custom_Deploy s acc token z name script c =
     calling UploadErr (UploadWorker s acc token name script c) (\<lambda>_ c.
       let hostname = name @ ''.'' @ zn_Name z
       in case AttachWorkerDomain s acc token hostname name (zn_ID z) c of
            (Inl e, c) \<Rightarrow> (Inl (AttachErr e), snd (cf_DeleteWorker s acc token name c))
          | (Inr wd, c) \<Rightarrow> (Inr (custom_deployed acc (zn_ID z) name hostname (wo_ID wd)), c))"

definition custom_Delete :: "('c, 'j) cf \<Rightarrow> string \<Rightarrow> string \<Rightarrow> deployed \<Rightarrow> 'c \<Rightarrow> (dep_err + unit) \<times> 'c" where
  "custom_Delete s acc token d c =
     (let c1 = (if de_RecordID d \<noteq> [] then snd (DetachWorkerDomain s acc token (de_RecordID d) c) else c)
      in calling ApiErr (cf_DeleteWorker s acc token (de_Name d) c1) (\<lambda>_ c. (Inr (), c)))"

definition in_zone :: "zone \<Rightarrow> worker_domain \<Rightarrow> bool" where
  "in_zone z b \<longleftrightarrow> wo_ZoneID b = zn_ID z \<and> (has_suffix (wo_Hostname b) (''.'' @ zn_Name z) \<or> wo_Hostname b = zn_Name z)"

definition custom_List :: "('c, 'j) cf \<Rightarrow> string \<Rightarrow> string \<Rightarrow> zone \<Rightarrow> string \<Rightarrow> 'c \<Rightarrow> (dep_err + deployed list) \<times> 'c" where
  "custom_List s acc token z prefix c =
     calling ApiErr (ListWorkerDomains s acc token prefix c) (\<lambda>bindings c.
       (Inr (map (\<lambda>b. custom_deployed acc (zn_ID z) (wo_Service b) (wo_Hostname b) (wo_ID b)) (filter (in_zone z) bindings)), c))"

definition NewCustomDomain :: "('c, 'j) cf \<Rightarrow> string \<Rightarrow> string \<Rightarrow> zone \<Rightarrow> 'c backend" where
  "NewCustomDomain s acc token z =
     \<lparr>be_Name = ''custom_domain'', be_AccountID = acc, be_Deploy = custom_Deploy s acc token z,
      be_Delete = custom_Delete s acc token, be_List = custom_List s acc token z\<rparr>"

section \<open>Pick\<close>

definition listZonesForAccount :: "('c, 'j) cf \<Rightarrow> string \<Rightarrow> string \<Rightarrow> ('c, zone list) api" where
  "listZonesForAccount s token acc = ListZones s token"

definition Pick :: "('c, 'j) cf \<Rightarrow> string \<Rightarrow> string \<Rightarrow> string \<Rightarrow> string \<Rightarrow> 'c \<Rightarrow> (dep_err + 'c backend list) \<times> 'c" where
  "Pick s mode acc token sub c =
     (if mode = ''workers_dev'' then (if sub = [] then (Inl NoSubdomain, c) else (Inr [NewWorkersDev s acc token sub], c))
      else if mode = ''custom_domain'' then
        calling ApiErr (listZonesForAccount s token acc c) (\<lambda>zones c.
          if zones = [] then (Inl NoZones, c) else (Inr (map (NewCustomDomain s acc token) zones), c))
      else if mode = ''auto'' \<or> mode = [] then
        (case listZonesForAccount s token acc c of
           (Inr (z # zones), c) \<Rightarrow> (Inr (map (NewCustomDomain s acc token) (z # zones)), c)
         | (_, c) \<Rightarrow> if sub = [] then (Inl NoSubdomain, c) else (Inr [NewWorkersDev s acc token sub], c))
      else (Inl (UnknownMode mode), c))"

section \<open>The contract\<close>

locale deploy_backends =
  fixes member :: "'c backend \<Rightarrow> bool" and good :: "string \<Rightarrow> bool" and live :: "'c \<Rightarrow> string \<Rightarrow> string set" and inv :: "'c \<Rightarrow> bool"
  assumes deploy_ok: "member b \<Longrightarrow> inv c \<Longrightarrow> good n \<Longrightarrow> be_Deploy b n s c = (Inr d, c') \<Longrightarrow>
      inv c' \<and> de_Name d = n \<and> live c' = (live c)(be_AccountID b := insert n (live c (be_AccountID b)))"
    and deploy_failed: "member b \<Longrightarrow> inv c \<Longrightarrow> good n \<Longrightarrow> be_Deploy b n s c = (Inl e, c') \<Longrightarrow>
      inv c' \<and> (live c' = live c \<or> live c' = (live c)(be_AccountID b := insert n (live c (be_AccountID b))))"
    and delete_ok: "member b \<Longrightarrow> inv c \<Longrightarrow> good (de_Name d) \<Longrightarrow> be_Delete b d c = (Inr (), c') \<Longrightarrow>
      inv c' \<and> live c' = (live c)(be_AccountID b := live c (be_AccountID b) - {de_Name d})"
    and delete_failed: "member b \<Longrightarrow> inv c \<Longrightarrow> good (de_Name d) \<Longrightarrow> be_Delete b d c = (Inl e, c') \<Longrightarrow>
      inv c' \<and> (live c' = live c \<or> live c' = (live c)(be_AccountID b := live c (be_AccountID b) - {de_Name d}))"
    and list_ok: "member b \<Longrightarrow> inv c \<Longrightarrow> be_List b p c = (Inr ds, c') \<Longrightarrow>
      inv c' \<and> live c' = live c \<and> list_all good (map de_Name ds) \<and> distinct (map de_Name ds) \<and> de_Name ` set ds = {n \<in> live c (be_AccountID b). has_prefix n p}"
    and list_failed: "member b \<Longrightarrow> inv c \<Longrightarrow> be_List b p c = (Inl e, c') \<Longrightarrow> inv c' \<and> live c' = live c"
begin

lemma deploy_live:
  assumes "member b" "inv c" "good n" "be_Deploy b n s c = (r, c')"
  shows "inv c'" "live c a \<subseteq> live c' a" "live c' a \<subseteq> live c a \<union> {n}"
proof -
  have "inv c' \<and> (live c' = live c \<or> live c' = (live c)(be_AccountID b := insert n (live c (be_AccountID b))))"
  proof (cases r)
    case (Inl e)
    then show ?thesis using deploy_failed [OF assms(1-3), of s e c'] assms(4) by simp
  next
    case (Inr d)
    then show ?thesis using deploy_ok [OF assms(1-3), of s d c'] assms(4) by simp
  qed
  then show "inv c'" "live c a \<subseteq> live c' a" "live c' a \<subseteq> live c a \<union> {n}" by (auto split: if_splits)
qed

lemma delete_live:
  assumes "member b" "inv c" "good (de_Name d)" "be_Delete b d c = (r, c')"
  shows "inv c'" "live c' a \<subseteq> live c a" "live c a \<subseteq> live c' a \<union> {de_Name d}"
proof -
  have "inv c' \<and> (live c' = live c \<or> live c' = (live c)(be_AccountID b := live c (be_AccountID b) - {de_Name d}))"
  proof (cases r)
    case (Inl e)
    then show ?thesis using delete_failed [OF assms(1-3), of e c'] assms(4) by simp
  next
    case (Inr u)
    then show ?thesis using delete_ok [OF assms(1-3), of c'] assms(4) by simp
  qed
  then show "inv c'" "live c' a \<subseteq> live c a" "live c a \<subseteq> live c' a \<union> {de_Name d}" by (auto split: if_splits)
qed

lemma list_live: "member b \<Longrightarrow> inv c \<Longrightarrow> be_List b p c = (r, c') \<Longrightarrow> inv c' \<and> live c' = live c"
  using list_ok list_failed by (cases r) blast+

end

section \<open>workers.dev keeps the contract\<close>

text \<open>Account identifiers and script names as the service issues and accepts them: they are parts of a path, so other
  characters could make one path mean two scripts.\<close>

definition plain_char :: "char \<Rightarrow> bool" where
  "plain_char c \<longleftrightarrow> c = CHR ''-'' \<or> c = CHR ''_'' \<or> is_digit c \<or> (CHR ''a'' \<le> c \<and> c \<le> CHR ''z'') \<or> (CHR ''A'' \<le> c \<and> c \<le> CHR ''Z'')"

definition plain :: "string \<Rightarrow> bool" where
  "plain s \<longleftrightarrow> s \<noteq> [] \<and> list_all plain_char s"

text \<open>What the API documents of scripts, for a view of the service as the scripts of each account: a read changes
  nothing and lists them, a successful upload adds, a successful delete removes, enabling changes none; a call that fails
  did nothing or all of it.\<close>

definition upd_or_same :: "bool \<Rightarrow> 'v \<Rightarrow> 'v \<Rightarrow> 'v \<Rightarrow> bool" where
  "upd_or_same ok old new res \<longleftrightarrow> res = new \<or> (\<not> ok \<and> res = old)"

definition scripts_service :: "('c, 'j) cf \<Rightarrow> ('c \<Rightarrow> string \<Rightarrow> string set) \<Rightarrow> bool" where
  "scripts_service s scripts \<longleftrightarrow>
     (\<forall>c acc tok n sc r c'. plain acc \<longrightarrow> plain n \<longrightarrow> UploadWorker s acc tok n sc c = (r, c') \<longrightarrow>
        upd_or_same (\<not> isl r) (scripts c) ((scripts c)(acc := insert n (scripts c acc))) (scripts c')) \<and>
     (\<forall>c acc tok n r c'. plain acc \<longrightarrow> plain n \<longrightarrow> EnableWorkersDev s acc tok n c = (r, c') \<longrightarrow> scripts c' = scripts c) \<and>
     (\<forall>c acc tok n r c'. plain acc \<longrightarrow> plain n \<longrightarrow> cf_DeleteWorker s acc tok n c = (r, c') \<longrightarrow>
        upd_or_same (\<not> isl r) (scripts c) ((scripts c)(acc := scripts c acc - {n})) (scripts c')) \<and>
     (\<forall>c acc tok r c'. plain acc \<longrightarrow> cf_ListWorkers s acc tok c = (r, c') \<longrightarrow>
        scripts c' = scripts c \<and> (\<forall>ns. r = Inr ns \<longrightarrow> list_all plain ns \<and> distinct ns \<and> set ns = scripts c acc))"

definition is_workers_dev :: "('c, 'j) cf \<Rightarrow> 'c backend \<Rightarrow> bool" where
  "is_workers_dev s b \<longleftrightarrow> plain (be_AccountID b) \<and> (\<exists>tok sub. b = NewWorkersDev s (be_AccountID b) tok sub)"

lemma is_workers_dev_New [simp]: "is_workers_dev s (NewWorkersDev s acc tok sub) = plain acc"
  by (auto simp: is_workers_dev_def NewWorkersDev_def)

lemma workers_dev_conv:
  assumes "is_workers_dev s b"
  obtains tok sub where "plain (be_AccountID b)" "be_Deploy b = workers_dev_Deploy s (be_AccountID b) tok sub"
    "be_Delete b = (\<lambda>d c. calling ApiErr (cf_DeleteWorker s (be_AccountID b) tok (de_Name d) c) (\<lambda>_ c. (Inr (), c)))"
    "be_List b = workers_dev_List s (be_AccountID b) tok sub"
proof -
  from assms obtain tok sub where b: "b = NewWorkersDev s (be_AccountID b) tok sub" by (auto simp: is_workers_dev_def)
  have "plain (be_AccountID b)" using assms by (simp add: is_workers_dev_def)
  then show ?thesis by (rule that [of tok sub]) (subst b, simp add: NewWorkersDev_def)+
qed

lemma scripts_serviceD:
  assumes "scripts_service s scripts" "plain acc"
  shows "plain n \<Longrightarrow> UploadWorker s acc tok n sc c = (r, c') \<Longrightarrow>
      upd_or_same (\<not> isl r) (scripts c) ((scripts c)(acc := insert n (scripts c acc))) (scripts c')"
    and "plain n \<Longrightarrow> EnableWorkersDev s acc tok n c = (r, c') \<Longrightarrow> scripts c' = scripts c"
    and "plain n \<Longrightarrow> cf_DeleteWorker s acc tok n c = (r, c') \<Longrightarrow>
      upd_or_same (\<not> isl r) (scripts c) ((scripts c)(acc := scripts c acc - {n})) (scripts c')"
    and "cf_ListWorkers s acc tok c = (l, c') \<Longrightarrow> scripts c' = scripts c"
    and "cf_ListWorkers s acc tok c = (Inr ns, c') \<Longrightarrow> list_all plain ns \<and> distinct ns \<and> set ns = scripts c acc"
proof -
  have 1: "\<forall>c acc tok n sc r c'. plain acc \<longrightarrow> plain n \<longrightarrow> UploadWorker s acc tok n sc c = (r, c') \<longrightarrow>
      upd_or_same (\<not> isl r) (scripts c) ((scripts c)(acc := insert n (scripts c acc))) (scripts c')"
    and 2: "\<forall>c acc tok n r c'. plain acc \<longrightarrow> plain n \<longrightarrow> EnableWorkersDev s acc tok n c = (r, c') \<longrightarrow> scripts c' = scripts c"
    and 3: "\<forall>c acc tok n r c'. plain acc \<longrightarrow> plain n \<longrightarrow> cf_DeleteWorker s acc tok n c = (r, c') \<longrightarrow>
      upd_or_same (\<not> isl r) (scripts c) ((scripts c)(acc := scripts c acc - {n})) (scripts c')"
    and 4: "\<forall>c acc tok r c'. plain acc \<longrightarrow> cf_ListWorkers s acc tok c = (r, c') \<longrightarrow>
      scripts c' = scripts c \<and> (\<forall>ns. r = Inr ns \<longrightarrow> list_all plain ns \<and> distinct ns \<and> set ns = scripts c acc)"
    using assms(1) unfolding scripts_service_def by simp_all
  show "plain n \<Longrightarrow> UploadWorker s acc tok n sc c = (r, c') \<Longrightarrow>
      upd_or_same (\<not> isl r) (scripts c) ((scripts c)(acc := insert n (scripts c acc))) (scripts c')"
    using 1 assms(2) by simp
  show "plain n \<Longrightarrow> EnableWorkersDev s acc tok n c = (r, c') \<Longrightarrow> scripts c' = scripts c" using 2 assms(2) by simp
  show "plain n \<Longrightarrow> cf_DeleteWorker s acc tok n c = (r, c') \<Longrightarrow>
      upd_or_same (\<not> isl r) (scripts c) ((scripts c)(acc := scripts c acc - {n})) (scripts c')"
    using 3 assms(2) by simp
  show "cf_ListWorkers s acc tok c = (l, c') \<Longrightarrow> scripts c' = scripts c" using 4 assms(2) by simp
  show "cf_ListWorkers s acc tok c = (Inr ns, c') \<Longrightarrow> list_all plain ns \<and> distinct ns \<and> set ns = scripts c acc"
    using 4 assms(2) by simp
qed

lemma workers_dev_deploy:
  assumes "scripts_service s scripts" "plain acc" "plain n" "workers_dev_Deploy s acc tok sub n sc c = (r, c')"
  shows "upd_or_same (\<not> isl r) (scripts c) ((scripts c)(acc := insert n (scripts c acc))) (scripts c')"
    and "r = Inr d \<Longrightarrow> de_Name d = n"
proof -
  obtain u c1 where u: "UploadWorker s acc tok n sc c = (u, c1)" by force
  note 1 = scripts_serviceD(1) [OF assms(1-3) u]
  obtain e c2 where e: "EnableWorkersDev s acc tok n c1 = (e, c2)" by force
  note 2 = scripts_serviceD(2) [OF assms(1-3) e]
  show "upd_or_same (\<not> isl r) (scripts c) ((scripts c)(acc := insert n (scripts c acc))) (scripts c')"
    using assms(4) u e 1 2 by (auto simp: workers_dev_Deploy_def calling_def upd_or_same_def split: sum.splits)
  show "r = Inr d \<Longrightarrow> de_Name d = n"
    using assms(4) by (auto simp: workers_dev_Deploy_def calling_def workers_dev_deployed_def split: sum.splits prod.splits)
qed

interpretation workers_dev: deploy_backends "is_workers_dev s" plain scripts "\<lambda>c. scripts_service s scripts" for s scripts
proof (unfold_locales, goal_cases)
  case (1 b c n sc d c')
  obtain tok sub where "plain (be_AccountID b)" "be_Deploy b = workers_dev_Deploy s (be_AccountID b) tok sub" using workers_dev_conv [OF 1(1)] .
  with workers_dev_deploy(1) [OF 1(2) _ 1(3), of "be_AccountID b" tok sub sc c "Inr d" c']
    workers_dev_deploy(2) [OF 1(2) _ 1(3), of "be_AccountID b" tok sub sc c "Inr d" c' d] 1 show ?case by (simp add: upd_or_same_def)
next
  case (2 b c n sc e c')
  obtain tok sub where "plain (be_AccountID b)" "be_Deploy b = workers_dev_Deploy s (be_AccountID b) tok sub" using workers_dev_conv [OF 2(1)] .
  with workers_dev_deploy(1) [OF 2(2) _ 2(3), of "be_AccountID b" tok sub sc c "Inl e" c'] 2 show ?case by (auto simp: upd_or_same_def)
next
  case (3 b c d c')
  obtain tok where p: "plain (be_AccountID b)"
    and "be_Delete b = (\<lambda>d c. calling ApiErr (cf_DeleteWorker s (be_AccountID b) tok (de_Name d) c) (\<lambda>_ c. (Inr (), c)))"
    using workers_dev_conv [OF 3(1)] .
  with 3(4) obtain q where "cf_DeleteWorker s (be_AccountID b) tok (de_Name d) c = (Inr q, c')"
    by (auto simp: calling_def split: prod.splits sum.splits)
  from scripts_serviceD(3) [OF 3(2) p 3(3) this] 3(2) show ?case by (simp add: upd_or_same_def)
next
  case (4 b c d e c')
  obtain tok where p: "plain (be_AccountID b)"
    and "be_Delete b = (\<lambda>d c. calling ApiErr (cf_DeleteWorker s (be_AccountID b) tok (de_Name d) c) (\<lambda>_ c. (Inr (), c)))"
    using workers_dev_conv [OF 4(1)] .
  with 4(4) obtain q where "cf_DeleteWorker s (be_AccountID b) tok (de_Name d) c = (Inl q, c')"
    by (auto simp: calling_def split: prod.splits sum.splits)
  from scripts_serviceD(3) [OF 4(2) p 4(3) this] 4(2) show ?case by (auto simp: upd_or_same_def)
next
  case (5 b c p ds c')
  obtain tok sub where pl: "plain (be_AccountID b)" and b: "be_List b = workers_dev_List s (be_AccountID b) tok sub"
    using workers_dev_conv [OF 5(1)] .
  with 5(3) obtain ns where ns: "cf_ListWorkers s (be_AccountID b) tok c = (Inr ns, c')"
    and ds: "ds = map (workers_dev_deployed (be_AccountID b) sub) (filter (\<lambda>n. has_prefix n p) ns)"
    by (auto simp: workers_dev_List_def calling_def split: prod.splits sum.splits)
  have "map de_Name ds = filter (\<lambda>n. has_prefix n p) ns" by (simp add: ds comp_def workers_dev_deployed_def)
  moreover from this have "de_Name ` set ds = {n \<in> set ns. has_prefix n p}" by (metis list.set_map set_filter)
  ultimately show ?case using scripts_serviceD(4,5) [OF 5(2) pl ns] 5(2) by (simp add: list_all_iff)
next
  case (6 b c p e c')
  obtain tok sub where pl: "plain (be_AccountID b)" and "be_List b = workers_dev_List s (be_AccountID b) tok sub"
    using workers_dev_conv [OF 6(1)] .
  with 6(3) obtain q where "cf_ListWorkers s (be_AccountID b) tok c = (Inl q, c')"
    by (auto simp: workers_dev_List_def calling_def split: prod.splits sum.splits)
  from scripts_serviceD(4) [OF 6(2) pl this] 6(2) show ?case by simp
qed

section \<open>A concrete service\<close>

text \<open>The scripts as pairs of account and name; a request is read back from its method and the segments of its path.\<close>

definition demo_send :: "api_req \<Rightarrow> (string \<times> string) list \<Rightarrow> string list api_resp \<times> (string \<times> string) list" where
  "demo_send r c =
     (case split_on (CHR ''/'') (aq_Path r) of
        [_, _, a, _, _, n] \<Rightarrow>
          if aq_Method r = ''PUT'' then (Envelope 200 True [] [], (a, n) # c)
          else if aq_Method r = ''DELETE'' then (Envelope 200 True [] [], filter (\<lambda>x. x \<noteq> (a, n)) c)
          else (NetError [], c)
      | [_, _, a, _, _] \<Rightarrow> (Envelope 200 True [] (remdups (filter plain (map snd (filter (\<lambda>x. fst x = a) c)))), c)
      | _ \<Rightarrow> (Envelope 200 True [] [], c))"

definition demo_cf :: "((string \<times> string) list, string list) cf" where
  "demo_cf = \<lparr>cf_send = demo_send, cf_graphql = (\<lambda>t a s n c. (GqlData [] [], c)), cf_scripts = Some, cf_accounts = (\<lambda>_. None),
     cf_subdomain = (\<lambda>_. None), cf_zones = (\<lambda>_. Some []), cf_dns = (\<lambda>_. Some []), cf_domain = (\<lambda>_. None), cf_domains = (\<lambda>_. Some []),
     cf_tail = (\<lambda>_. None)\<rparr>"

definition demo_scripts :: "(string \<times> string) list \<Rightarrow> string \<Rightarrow> string set" where
  "demo_scripts c a = {n. plain n \<and> (a, n) \<in> set c}"

lemma plain_no_slash: "plain s \<Longrightarrow> CHR ''/'' \<notin> set s"
proof -
  have "\<not> plain_char (CHR ''/'')" by code_simp
  then show "plain s \<Longrightarrow> CHR ''/'' \<notin> set s" by (auto simp: plain_def list_all_iff)
qed

lemma split_seg: "CHR ''/'' \<notin> set a \<Longrightarrow> split_on (CHR ''/'') (a @ CHR ''/'' # r) = a # split_on (CHR ''/'') r"
  by (rule split_on_append_sep)

lemma split_paths:
  assumes "plain acc"
  shows "split_on (CHR ''/'') (scripts_path acc) = [[], ''accounts'', acc, ''workers'', ''scripts'']"
    and "plain n \<Longrightarrow> split_on (CHR ''/'') (script_path acc n) = [[], ''accounts'', acc, ''workers'', ''scripts'', n]"
    and "plain n \<Longrightarrow> split_on (CHR ''/'') (script_path acc n @ ''/subdomain'') = [[], ''accounts'', acc, ''workers'', ''scripts'', n, ''subdomain'']"
  using plain_no_slash [OF assms] plain_no_slash [of n]
  by (simp_all add: script_path_def scripts_path_def split_seg split_on_atom)

lemma demo_service: "scripts_service demo_cf demo_scripts"
proof -
  have up: "UploadWorker demo_cf acc tok n sc c = (Inr (), (acc, n) # c)" if "plain acc" "plain n" for acc tok n sc c
    using that by (simp add: UploadWorker_def dropped_def cf_do_def demo_cf_def demo_send_def split_paths)
  have en: "EnableWorkersDev demo_cf acc tok n c = (Inr (), c)" if "plain acc" "plain n" for acc tok n c
    using that by (simp add: EnableWorkersDev_def dropped_def cf_do_def demo_cf_def demo_send_def split_paths)
  have de: "cf_DeleteWorker demo_cf acc tok n c = (Inr (), filter (\<lambda>x. x \<noteq> (acc, n)) c)" if "plain acc" "plain n" for acc tok n c
    using that by (simp add: cf_DeleteWorker_def dropped_def cf_do_def demo_cf_def demo_send_def split_paths)
  have li: "cf_ListWorkers demo_cf acc tok c = (Inr (remdups (filter plain (map snd (filter (\<lambda>x. fst x = acc) c)))), c)"
    if "plain acc" for acc tok c
    using that by (simp add: cf_ListWorkers_def decoded_def cf_do_def demo_cf_def demo_send_def split_paths)
  show ?thesis
    unfolding scripts_service_def upd_or_same_def
    by (intro conjI allI impI) (auto simp: up en de li demo_scripts_def fun_eq_iff list_all_iff intro: rev_image_eqI)
qed

end
