(* ===== verification/Worker_Deploy.thy ===== *)
theory Worker_Deploy
  imports Deploy_Backends Config_Load State_Store Admin_Auth
begin

text \<open>
  Deploying, listing, destroying and rotating workers (\<^verbatim>\<open>internal/worker\<close>: \<^verbatim>\<open>embed.go\<close>, \<^verbatim>\<open>deploy.go\<close>,
  \<^verbatim>\<open>rotator.go\<close>). The operations run over the backends of \<open>Deploy_Backends\<close>, the store and the pool. The goroutines of an
  error group are modelled in the schedule where each runs to its end when it is started; the first error cancels
  the group, and a call with a cancelled context fails without reaching the service. Random bytes, the file
  reader and the URL parser are arguments.
\<close>

section \<open>The script\<close>

definition backslash :: char where "backslash = char_of (92 :: nat)"
definition dquote :: char where "dquote = char_of (34 :: nat)"

definition esc_char :: "char \<Rightarrow> string" where
  "esc_char c = (if c = backslash then [backslash, backslash] else if c = dquote then [backslash, dquote] else [c])"

definition escapeJS :: "string \<Rightarrow> string" where
  "escapeJS s = concat (map esc_char s)"

text \<open>\<^verbatim>\<open>strings.ReplaceAll\<close> with a pattern that is not empty.\<close>

function replace_all :: "string \<Rightarrow> string \<Rightarrow> string \<Rightarrow> string" where
  "replace_all old new s =
     (case s of
        [] \<Rightarrow> []
      | x # xs \<Rightarrow>
          if old \<noteq> [] \<and> has_prefix (x # xs) old then new @ replace_all old new (drop (length old) (x # xs))
          else x # replace_all old new xs)"
  by auto

termination
  by (relation "measure (\<lambda>(old, new, s). length s)") (auto simp: has_prefix_def)

declare replace_all.simps [simp del]

definition template_text :: "(string \<Rightarrow> string option) \<Rightarrow> string \<Rightarrow> string \<Rightarrow> string option" where
  "template_text read_file defaultTemplate path = (if path \<noteq> [] then read_file path else Some defaultTemplate)"

definition TemplateHash :: "crypto \<Rightarrow> (string \<Rightarrow> string option) \<Rightarrow> string \<Rightarrow> string \<Rightarrow> string option" where
  "TemplateHash cr read_file defaultTemplate path =
     map_option (\<lambda>tpl. hex_encode (cr_sha256 cr (bytes_of tpl))) (template_text read_file defaultTemplate path)"

definition Render :: "crypto \<Rightarrow> (string \<Rightarrow> string option) \<Rightarrow> string \<Rightarrow> string \<Rightarrow> string \<Rightarrow> string option" where
  "Render cr read_file defaultTemplate hmacSecret path =
     map_option
       (\<lambda>tpl. replace_all ''__TEMPLATE_HASH__'' (hex_encode (cr_sha256 cr (bytes_of tpl)))
          (replace_all ''__HMAC_SECRET__'' (escapeJS hmacSecret) tpl))
       (template_text read_file defaultTemplate path)"

section \<open>Records\<close>

definition workerFromDeployed :: "time \<Rightarrow> deployed \<Rightarrow> worker" where
  "workerFromDeployed now d =
     (NewWorker now (de_AccountID d) (de_Name d) (de_URL d))
       \<lparr>Backend := de_Backend d, Hostname := de_Hostname d, ZoneID := de_ZoneID d, RecordID := de_RecordID d\<rparr>"

definition workerRec :: "deployed \<Rightarrow> time \<Rightarrow> worker_rec" where
  "workerRec d createdAt =
     \<lparr>wr_Name = de_Name d, wr_AccountID = de_AccountID d, wr_URL = de_URL d, wr_CreatedAt = createdAt, wr_Requests = 0,
      wr_Backend = de_Backend d, wr_Hostname = de_Hostname d, wr_ZoneID = de_ZoneID d, wr_RecordID = de_RecordID d\<rparr>"

definition hostnameFromURL :: "(string \<Rightarrow> string option) \<Rightarrow> string \<Rightarrow> string" where
  "hostnameFromURL url_host u = (case url_host u of None \<Rightarrow> [] | Some h \<Rightarrow> h)"

definition worker_of_rec :: "(string \<Rightarrow> string option) \<Rightarrow> time \<Rightarrow> worker_rec \<Rightarrow> worker" where
  "worker_of_rec url_host now r =
     (NewWorker now (wr_AccountID r) (wr_Name r) (wr_URL r))
       \<lparr>CreatedAt := wr_CreatedAt r, Backend := wr_Backend r,
        Hostname := (if wr_Hostname r = [] then hostnameFromURL url_host (wr_URL r) else wr_Hostname r),
        ZoneID := wr_ZoneID r, RecordID := wr_RecordID r\<rparr>"

definition LoadFromState ::
  "'b bucket_ops \<Rightarrow> worker_rec codec \<Rightarrow> (string \<Rightarrow> string option) \<Rightarrow> time \<Rightarrow> 'b store \<Rightarrow> store_err + worker list" where
  "LoadFromState bo cd url_host now st =
     (case ListWorkers bo cd st of
        (Some e, _) \<Rightarrow> Inl e
      | (None, recs) \<Rightarrow> Inr (map (worker_of_rec url_host now) recs))"

definition randHex :: "bytes \<Rightarrow> string" where "randHex b = hex_encode b"

text \<open>The store is optional; its errors are ignored here.\<close>

record 'b persist =
  pe_ops :: "'b bucket_ops"
  pe_codec :: "worker_rec codec"
  pe_commit :: bool

definition put_worker :: "'b persist \<Rightarrow> worker_rec \<Rightarrow> 'b store option \<Rightarrow> 'b store option" where
  "put_worker pe r st = map_option (\<lambda>s. snd (PutWorker (pe_ops pe) (pe_codec pe) (pe_commit pe) r s)) st"

definition delete_worker :: "'b persist \<Rightarrow> string \<Rightarrow> 'b store option \<Rightarrow> 'b store option" where
  "delete_worker pe n st = map_option (\<lambda>s. snd (DeleteWorker_rec (pe_ops pe) (pe_commit pe) n s)) st"

section \<open>Deploying\<close>

datatype group_err = RenderFailed | PickFailed string dep_err | JobFailed dep_err

record ('c, 'b) dep =
  dp_cloud :: 'c
  dp_store :: "'b store option"
  dp_workers :: "worker list"
  dp_jobs :: nat
  dp_failed :: "dep_err option"

record 'b denv =
  dv_cfg :: config
  dv_pe :: "'b persist"
  dv_rnd :: "nat \<Rightarrow> bytes"
  dv_now :: time
  dv_script :: string

definition add_worker :: "'b denv \<Rightarrow> deployed \<Rightarrow> ('c, 'b) dep \<Rightarrow> ('c, 'b) dep" where
  "add_worker dv d dp =
     dp\<lparr>dp_workers := dp_workers dp @ [workerFromDeployed (dv_now dv) d], dp_store := put_worker (dv_pe dv) (workerRec d (dv_now dv)) (dp_store dp)\<rparr>"

definition new_name :: "'b denv \<Rightarrow> nat \<Rightarrow> string" where
  "new_name dv k = Worker_NamePrefix (dv_cfg dv) @ randHex (dv_rnd dv k)"

definition deploy_job :: "'b denv \<Rightarrow> 'c backend \<Rightarrow> ('c, 'b) dep \<Rightarrow> ('c, 'b) dep" where
  "deploy_job dv b dp =
     (let dp0 = dp\<lparr>dp_jobs := Suc (dp_jobs dp)\<rparr>
      in if dp_failed dp \<noteq> None then dp0
         else (case be_Deploy b (new_name dv (dp_jobs dp)) (dv_script dv) (dp_cloud dp) of
                 (Inl e, c) \<Rightarrow> dp0\<lparr>dp_cloud := c, dp_failed := Some e\<rparr>
               | (Inr d, c) \<Rightarrow> add_worker dv d (dp0\<lparr>dp_cloud := c\<rparr>)))"

definition list_existing :: "'b denv \<Rightarrow> 'c backend \<Rightarrow> ('c, 'b) dep \<Rightarrow> deployed list \<times> ('c, 'b) dep" where
  "list_existing dv b dp =
     (if dp_failed dp \<noteq> None then ([], dp)
      else (case be_List b (Worker_NamePrefix (dv_cfg dv)) (dp_cloud dp) of
              (Inl e, c) \<Rightarrow> ([], dp\<lparr>dp_cloud := c\<rparr>)
            | (Inr ds, c) \<Rightarrow> (ds, dp\<lparr>dp_cloud := c\<rparr>)))"

definition fill_backend :: "'b denv \<Rightarrow> 'c backend \<Rightarrow> ('c, 'b) dep \<Rightarrow> ('c, 'b) dep" where
  "fill_backend dv b dp =
     (let (existing, dp1) = list_existing dv b dp; dp2 = foldl (\<lambda>dp d. add_worker dv d dp) dp1 existing;
          have = int (length existing); want = Worker_Count (dv_cfg dv)
      in if have \<ge> want then dp2 else (deploy_job dv b ^^ nat (want - have)) dp2)"

type_synonym 'c picker = "account_cfg \<Rightarrow> 'c \<Rightarrow> (dep_err + 'c backend list) \<times> 'c"

definition pick_of :: "('c, 'j) cf \<Rightarrow> config \<Rightarrow> 'c picker" where
  "pick_of s cfg a = Pick s (Worker_DeployBackend cfg) (ac_ID a) (ac_Token a) (ac_Subdomain a)"

fun deploy_accounts :: "'b denv \<Rightarrow> 'c picker \<Rightarrow> account_cfg list \<Rightarrow> ('c, 'b) dep \<Rightarrow> group_err option \<times> ('c, 'b) dep" where
  "deploy_accounts dv pick [] dp = (map_option JobFailed (dp_failed dp), dp)"
| "deploy_accounts dv pick (a # as) dp =
     (case pick a (dp_cloud dp) of
        (Inl e, c) \<Rightarrow> (Some (PickFailed (ac_ID a) e), dp\<lparr>dp_cloud := c\<rparr>)
      | (Inr bs, c) \<Rightarrow> deploy_accounts dv pick as (foldl (\<lambda>dp b. fill_backend dv b dp) (dp\<lparr>dp_cloud := c\<rparr>) bs))"

definition start_dep :: "'c \<Rightarrow> 'b store option \<Rightarrow> ('c, 'b) dep" where
  "start_dep c st = \<lparr>dp_cloud = c, dp_store = st, dp_workers = [], dp_jobs = 0, dp_failed = None\<rparr>"

definition DeployAll :: "string option \<Rightarrow> 'b denv \<Rightarrow> 'c picker \<Rightarrow> 'c \<Rightarrow> 'b store option \<Rightarrow> group_err option \<times> ('c, 'b) dep" where
  "DeployAll rendered dv pick c st =
     (case rendered of
        None \<Rightarrow> (Some RenderFailed, start_dep c st)
      | Some script \<Rightarrow> deploy_accounts (dv\<lparr>dv_script := script\<rparr>) pick (Accounts (dv_cfg dv)) (start_dep c st))"

definition DeployOnAccount ::
  "string option \<Rightarrow> 'b denv \<Rightarrow> 'c picker \<Rightarrow> account_cfg \<Rightarrow> int \<Rightarrow> 'c \<Rightarrow> 'b store option \<Rightarrow> group_err option \<times> ('c, 'b) dep" where
  "DeployOnAccount rendered dv pick a cnt0 c st =
     (let cnt = (if cnt0 \<le> 0 then Worker_Count (dv_cfg dv) else cnt0); dp = start_dep c st
      in case rendered of
           None \<Rightarrow> (Some RenderFailed, dp)
         | Some script \<Rightarrow>
             (case pick a c of
                (Inl e, c) \<Rightarrow> (Some (PickFailed [] e), dp\<lparr>dp_cloud := c\<rparr>)
              | (Inr bs, c) \<Rightarrow>
                  (let dp' = foldl (\<lambda>dp b. (deploy_job (dv\<lparr>dv_script := script\<rparr>) b ^^ nat cnt) dp) (dp\<lparr>dp_cloud := c\<rparr>) bs
                   in (map_option JobFailed (dp_failed dp'), dp'))))"

section \<open>Destroying and listing\<close>

definition destroy_one :: "'b persist \<Rightarrow> 'c backend \<Rightarrow> 'c \<times> 'b store option \<Rightarrow> deployed \<Rightarrow> 'c \<times> 'b store option" where
  "destroy_one pe b s d =
     (case be_Delete b d (fst s) of
        (Inl e, c) \<Rightarrow> (c, snd s)
      | (Inr _, c) \<Rightarrow> (c, delete_worker pe (de_Name d) (snd s)))"

definition destroy_backend :: "'b persist \<Rightarrow> string \<Rightarrow> 'c \<times> 'b store option \<Rightarrow> 'c backend \<Rightarrow> 'c \<times> 'b store option" where
  "destroy_backend pe prefix s b =
     (case be_List b prefix (fst s) of
        (Inl e, c) \<Rightarrow> (c, snd s)
      | (Inr ds, c) \<Rightarrow> foldl (destroy_one pe b) (c, snd s) ds)"

fun destroy_accounts :: "'b persist \<Rightarrow> string \<Rightarrow> 'c picker \<Rightarrow> account_cfg list \<Rightarrow> 'c \<times> 'b store option \<Rightarrow> dep_err option \<times> 'c \<times> 'b store option" where
  "destroy_accounts pe prefix pick [] s = (None, s)"
| "destroy_accounts pe prefix pick (a # as) s =
     (case pick a (fst s) of
        (Inl e, c) \<Rightarrow> (Some e, c, snd s)
      | (Inr bs, c) \<Rightarrow> destroy_accounts pe prefix pick as (foldl (destroy_backend pe prefix) (c, snd s) bs))"

definition DestroyAll :: "config \<Rightarrow> 'b persist \<Rightarrow> 'c picker \<Rightarrow> 'c \<Rightarrow> 'b store option \<Rightarrow> dep_err option \<times> 'c \<times> 'b store option" where
  "DestroyAll cfg pe pick c st = destroy_accounts pe (Worker_NamePrefix cfg) pick (Accounts cfg) (c, st)"

fun list_backends :: "string \<Rightarrow> time \<Rightarrow> 'c backend list \<Rightarrow> 'c \<Rightarrow> dep_err option \<times> worker list \<times> 'c" where
  "list_backends prefix now [] c = (None, [], c)"
| "list_backends prefix now (b # bs) c =
     (case be_List b prefix c of
        (Inl e, c) \<Rightarrow> (Some e, [], c)
      | (Inr ds, c) \<Rightarrow>
          (case list_backends prefix now bs c of (e, ws, c) \<Rightarrow> (e, map (workerFromDeployed now) ds @ ws, c)))"

fun list_accounts :: "string \<Rightarrow> time \<Rightarrow> 'c picker \<Rightarrow> account_cfg list \<Rightarrow> 'c \<Rightarrow> dep_err option \<times> worker list \<times> 'c" where
  "list_accounts prefix now pick [] c = (None, [], c)"
| "list_accounts prefix now pick (a # as) c =
     (case pick a c of
        (Inl e, c) \<Rightarrow> (Some e, [], c)
      | (Inr bs, c) \<Rightarrow>
          (case list_backends prefix now bs c of
             (Some e, ws, c) \<Rightarrow> (Some e, ws, c)
           | (None, ws, c) \<Rightarrow> (case list_accounts prefix now pick as c of (e, ws', c) \<Rightarrow> (e, ws @ ws', c))))"

definition ListAll :: "config \<Rightarrow> time \<Rightarrow> 'c picker \<Rightarrow> 'c \<Rightarrow> dep_err option \<times> worker list \<times> 'c" where
  "ListAll cfg now pick c = list_accounts (Worker_NamePrefix cfg) now pick (Accounts cfg) c"

section \<open>Rotation\<close>

definition shouldRecycle :: "time \<Rightarrow> time \<Rightarrow> u64 \<Rightarrow> worker \<Rightarrow> bool" where
  "shouldRecycle now maxAge maxReq w =
     (if maxAge > 0 \<and> now - CreatedAt w > maxAge then True else if maxReq > 0 \<and> Requests w > maxReq then True else False)"

text \<open>A pass of the rotator: the workers it starts to recycle.\<close>

definition tick :: "time \<Rightarrow> time \<Rightarrow> u64 \<Rightarrow> string option \<Rightarrow> heap \<Rightarrow> pool \<Rightarrow> ref list" where
  "tick now maxAge maxReq rendered h p =
     (if maxAge = 0 \<and> maxReq = 0 then []
      else if rendered = None then [] else filter (\<lambda>w. shouldRecycle now maxAge maxReq (h w)) (pool_All p))"

text \<open>The template check: what each worker's health page reports. A hash shorter than twelve bytes makes the log line
  panic.\<close>

fun verify_loop :: "string \<Rightarrow> (ref \<Rightarrow> string option) \<Rightarrow> ref list \<Rightarrow> ref list option" where
  "verify_loop expected got [] = Some []"
| "verify_loop expected got (w # ws) =
     (case got w of
        None \<Rightarrow> verify_loop expected got ws
      | Some g \<Rightarrow>
          if g = [] \<or> g = expected then verify_loop expected got ws
          else if length g < 12 \<or> length expected < 12 then None
          else map_option (\<lambda>r. w # r) (verify_loop expected got ws))"

text \<open>Draining polls the in-flight count: at each poll the clock, the count and whether the context is over. The answer says
  whether the worker is idle, or \<open>None\<close> when the polls given do not decide.\<close>

fun drain :: "time \<Rightarrow> (time \<times> int \<times> bool) list \<Rightarrow> bool option" where
  "drain deadline [] = None"
| "drain deadline ((now, inflight, cancelled) # polls) =
     (if \<not> now < deadline then Some False
      else if inflight = 0 then Some True
      else if cancelled then Some False else drain deadline polls)"

record ('c, 'b) plane =
  pl_cloud :: 'c
  pl_store :: "'b store option"
  pl_heap :: heap
  pl_pool :: pool
  pl_fresh :: ref

datatype recycle_err = NoAccount | NoBackendPicked "dep_err option" | DeployFailed dep_err | NoScript

definition recycle_backend :: "'c backend list \<Rightarrow> worker \<Rightarrow> 'c backend" where
  "recycle_backend bs old =
     (case (if Backend old \<noteq> [] then find (\<lambda>b. be_Name b = Backend old) bs else None) of Some b \<Rightarrow> b | None \<Rightarrow> hd bs)"

definition old_deployed :: "worker \<Rightarrow> deployed" where
  "old_deployed w =
     \<lparr>de_Name = Name w, de_URL = [], de_AccountID = AccountID w, de_Backend = Backend w, de_Hostname = Hostname w,
      de_ZoneID = ZoneID w, de_RecordID = RecordID w\<rparr>"

text \<open>The swap of a worker once its replacement is deployed.\<close>

definition swap_in :: "'b denv \<Rightarrow> 'c backend list \<Rightarrow> ref \<Rightarrow> string \<Rightarrow> deployed \<Rightarrow> ('c, 'b) plane \<Rightarrow> ('c, 'b) plane" where
  "swap_in dv bs old newName d pl =
     (let ow = pl_heap pl old;
          nw = (NewWorker (dv_now dv) (AccountID ow) newName (de_URL d))
                 \<lparr>Backend := de_Backend d, Hostname := de_Hostname d, ZoneID := de_ZoneID d, RecordID := de_RecordID d\<rparr>;
          new = pl_fresh pl;
          h = (pl_heap pl)(new := nw, old := ow\<lparr>Healthy := False\<rparr>);
          c = (case find (\<lambda>b. be_Name b = Backend ow) bs of
                 None \<Rightarrow> pl_cloud pl
               | Some b \<Rightarrow> snd (be_Delete b (old_deployed ow) (pl_cloud pl)));
          rec = \<lparr>wr_Name = newName, wr_AccountID = AccountID ow, wr_URL = de_URL d, wr_CreatedAt = dv_now dv, wr_Requests = 0,
                 wr_Backend = de_Backend d, wr_Hostname = de_Hostname d, wr_ZoneID = de_ZoneID d, wr_RecordID = de_RecordID d\<rparr>
      in pl\<lparr>pl_heap := h, pl_fresh := Suc new, pl_pool := pool_Replace old new (pl_pool pl), pl_cloud := c,
            pl_store := put_worker (dv_pe dv) rec (delete_worker (dv_pe dv) (Name ow) (pl_store pl))\<rparr>)"

definition RecyclePublic :: "'b denv \<Rightarrow> 'c picker \<Rightarrow> string option \<Rightarrow> ref \<Rightarrow> ('c, 'b) plane \<Rightarrow> (recycle_err + string) \<times> ('c, 'b) plane" where
  "RecyclePublic dv pick rendered old pl =
     (case (if dv_script dv = [] then rendered else Some (dv_script dv)) of
        None \<Rightarrow> (Inl NoScript, pl)
      | Some script \<Rightarrow>
          (case find (\<lambda>a. ac_ID a = AccountID (pl_heap pl old)) (Accounts (dv_cfg dv)) of
             None \<Rightarrow> (Inl NoAccount, pl)
           | Some acc \<Rightarrow>
               (case pick acc (pl_cloud pl) of
                  (Inl e, c) \<Rightarrow> (Inl (NoBackendPicked (Some e)), pl\<lparr>pl_cloud := c\<rparr>)
                | (Inr bs, c) \<Rightarrow>
                    if bs = [] then (Inl (NoBackendPicked None), pl\<lparr>pl_cloud := c\<rparr>)
                    else (let newName = new_name dv 0;
                              b = (case find (\<lambda>b. be_Name b = Backend (pl_heap pl old)) bs of Some b \<Rightarrow> b | None \<Rightarrow> hd bs)
                          in case be_Deploy b newName script c of
                               (Inl e, c) \<Rightarrow> (Inl (DeployFailed e), pl\<lparr>pl_cloud := c\<rparr>)
                             | (Inr d, c) \<Rightarrow> (Inr newName, swap_in dv bs old newName d (pl\<lparr>pl_cloud := c\<rparr>))))))"

definition recycle :: "'b denv \<Rightarrow> 'c picker \<Rightarrow> ref \<Rightarrow> ('c, 'b) plane \<Rightarrow> ('c, 'b) plane" where
  "recycle dv pick old pl =
     (case find (\<lambda>a. ac_ID a = AccountID (pl_heap pl old)) (Accounts (dv_cfg dv)) of
        None \<Rightarrow> pl
      | Some acc \<Rightarrow>
          (case pick acc (pl_cloud pl) of
             (Inl e, c) \<Rightarrow> pl\<lparr>pl_cloud := c\<rparr>
           | (Inr bs, c) \<Rightarrow>
               if bs = [] then pl\<lparr>pl_cloud := c\<rparr>
               else (case be_Deploy (recycle_backend bs (pl_heap pl old)) (new_name dv 0) (dv_script dv) c of
                       (Inl e, c) \<Rightarrow> pl\<lparr>pl_cloud := c\<rparr>
                     | (Inr d, c) \<Rightarrow> swap_in dv bs old (new_name dv 0) d (pl\<lparr>pl_cloud := c\<rparr>))))"

end
