(* ===== verification/Account_Discovery.thy ===== *)
theory Account_Discovery
  imports Worker_Deploy
begin

text \<open>
  From API tokens to accounts: \<^verbatim>\<open>internal/discovery\<close> and the functions of \<^verbatim>\<open>cmd/flarex/main.go\<close> that use it or list
  accounts themselves (\<^verbatim>\<open>resolveBareTokens\<close>, \<^verbatim>\<open>seedQuotaFromCF\<close>, \<^verbatim>\<open>lookupAccountNames\<close>). The random names of subdomains are an argument; a Go map
  that is walked is given with the order of the walk.
\<close>

section \<open>Discovery\<close>

record account_details =
  dt_Token :: string
  dt_ID :: string
  dt_Name :: string
  dt_Subdomain :: string

datatype discovery_err = ListFailed api_err | NoAccounts | NoWorkersDev string | CreateFailed string api_err

fun resolve_each ::
  "('c, 'j) cf \<Rightarrow> string \<Rightarrow> bool \<Rightarrow> (nat \<Rightarrow> bytes) \<Rightarrow> nat \<Rightarrow> account_info list \<Rightarrow> 'c \<Rightarrow> (discovery_err + account_details list) \<times> 'c" where
  "resolve_each s token createMissing rnd i [] c = (Inr [], c)"
| "resolve_each s token createMissing rnd i (a # as) c =
     (let next = (\<lambda>sub c. case resolve_each s token createMissing rnd (Suc i) as c of
                    (Inl e, c) \<Rightarrow> (Inl e, c)
                  | (Inr ds, c) \<Rightarrow> (Inr (\<lparr>dt_Token = token, dt_ID = ai_ID a, dt_Name = ai_Name a, dt_Subdomain = sub\<rparr> # ds), c));
          create = (\<lambda>c. if \<not> createMissing then (Inl (NoWorkersDev (ai_ID a)), c)
                        else (let newSub = ''cft-'' @ randHex (rnd i)
                              in case CreateSubdomain s (ai_ID a) token newSub c of
                                   (Inl e, c) \<Rightarrow> (Inl (CreateFailed (ai_ID a) e), c)
                                 | (Inr _, c) \<Rightarrow> next newSub c))
      in case GetSubdomain s (ai_ID a) token c of
           (Inl _, c) \<Rightarrow> create c
         | (Inr sub, c) \<Rightarrow> if sub = [] then create c else next sub c)"

definition Resolve_token ::
  "('c, 'j) cf \<Rightarrow> string \<Rightarrow> bool \<Rightarrow> (nat \<Rightarrow> bytes) \<Rightarrow> 'c \<Rightarrow> (discovery_err + account_details list) \<times> 'c" where
  "Resolve_token s token createMissing rnd c =
     (case ListAccounts s token c of
        (Inl e, c) \<Rightarrow> (Inl (ListFailed e), c)
      | (Inr as, c) \<Rightarrow> if as = [] then (Inl NoAccounts, c) else resolve_each s token createMissing rnd 0 as c)"

section \<open>Tokens of the configuration\<close>

definition account_key :: "string \<Rightarrow> string \<Rightarrow> string" where
  "account_key aid token = aid @ ''|'' @ token"

definition account_of_details :: "account_details \<Rightarrow> account_cfg" where
  "account_of_details d = \<lparr>ac_ID = dt_ID d, ac_Name = dt_Name d, ac_Token = dt_Token d, ac_Subdomain = dt_Subdomain d\<rparr>"

text \<open>The inner loop: an account is added unless its key is known.\<close>

fun merge_details :: "string set \<Rightarrow> account_details list \<Rightarrow> account_cfg list \<Rightarrow> string set \<times> account_cfg list" where
  "merge_details known [] accs = (known, accs)"
| "merge_details known (d # ds) accs =
     (let key = account_key (dt_ID d) (dt_Token d)
      in if key \<in> known then merge_details known ds accs
         else merge_details (insert key known) ds (accs @ [account_of_details d]))"

fun resolve_tokens ::
  "('c, 'j) cf \<Rightarrow> (string \<Rightarrow> nat \<Rightarrow> bytes) \<Rightarrow> string set \<Rightarrow> string list \<Rightarrow> account_cfg list \<Rightarrow> 'c \<Rightarrow> discovery_err option \<times> account_cfg list \<times> 'c" where
  "resolve_tokens s rnd known [] accs c = (None, accs, c)"
| "resolve_tokens s rnd known (t # ts) accs c =
     (case Resolve_token s t True (rnd t) c of
        (Inl e, c) \<Rightarrow> (Some e, accs, c)
      | (Inr ds, c) \<Rightarrow> (let (known', accs') = merge_details known ds accs in resolve_tokens s rnd known' ts accs' c))"

definition known_accounts :: "account_cfg list \<Rightarrow> string set" where
  "known_accounts accs = set (map (\<lambda>a. account_key (ac_ID a) (ac_Token a)) (filter (\<lambda>a. ac_ID a \<noteq> []) accs))"

definition resolveBareTokens ::
  "('c, 'j) cf \<Rightarrow> (string \<Rightarrow> nat \<Rightarrow> bytes) \<Rightarrow> config \<Rightarrow> 'c \<Rightarrow> discovery_err option \<times> config \<times> 'c" where
  "resolveBareTokens s rnd cfg c =
     (case resolve_tokens s rnd (known_accounts (Accounts cfg)) (Tokens cfg) (Accounts cfg) c of
        (e, accs, c) \<Rightarrow> (e, cfg\<lparr>Accounts := accs\<rparr>, c))"

section \<open>Seeding the quotas\<close>

text \<open>A token for each account: the first one found wins.\<close>

definition note_token :: "string \<Rightarrow> string \<Rightarrow> (string \<rightharpoonup> string) \<Rightarrow> (string \<rightharpoonup> string)" where
  "note_token tok aid m = (if m aid = None then m(aid \<mapsto> tok) else m)"

definition tokens_of_listing :: "('c, 'j) cf \<Rightarrow> string \<Rightarrow> (string \<rightharpoonup> string) \<times> 'c \<Rightarrow> (string \<rightharpoonup> string) \<times> 'c" where
  "tokens_of_listing s t mc =
     (case mc of (m, c) \<Rightarrow>
        if t = [] then (m, c)
        else (case ListAccounts s t c of
                (Inl _, c) \<Rightarrow> (m, c)
              | (Inr as, c) \<Rightarrow> (fold (\<lambda>a. note_token t (ai_ID a)) as m, c)))"

definition token_for :: "('c, 'j) cf \<Rightarrow> config \<Rightarrow> 'c \<Rightarrow> (string \<rightharpoonup> string) \<times> 'c" where
  "token_for s cfg c =
     (case fold (tokens_of_listing s) (Tokens cfg) (Map.empty, c) of
        (m, c) \<Rightarrow> (fold (\<lambda>a m. if ac_Token a \<noteq> [] \<and> ac_ID a \<noteq> [] then note_token (ac_Token a) (ac_ID a) m else m) (Accounts cfg) m, c))"

definition seed_one ::
  "('c, 'j) cf \<Rightarrow> time \<Rightarrow> (string \<rightharpoonup> string) \<Rightarrow> string \<Rightarrow> (string \<rightharpoonup> quota) \<times> 'c \<Rightarrow> (string \<rightharpoonup> quota) \<times> 'c" where
  "seed_one s now tokens acc qc =
     (case qc of (qs, c) \<Rightarrow>
        (case qs acc of
           None \<Rightarrow> (qs, c)
         | Some q \<Rightarrow>
             (let tok = (case tokens acc of None \<Rightarrow> [] | Some t \<Rightarrow> t)
              in if tok = [] then (qs, c)
                 else (case TodayWorkerRequests s tok acc now c of
                         (Inl _, c) \<Rightarrow> (qs, c)
                       | (Inr used, c) \<Rightarrow> (qs(acc \<mapsto> quota_Seed now used q), c)))))"

definition seedQuotaFromCF ::
  "('c, 'j) cf \<Rightarrow> time \<Rightarrow> config \<Rightarrow> string list \<Rightarrow> (string \<rightharpoonup> quota) \<Rightarrow> 'c \<Rightarrow> (string \<rightharpoonup> quota) \<times> 'c" where
  "seedQuotaFromCF s now cfg order qs c =
     (case token_for s cfg c of (tokens, c) \<Rightarrow> fold (seed_one s now tokens) order (qs, c))"

section \<open>Names of accounts\<close>

fun names_of_tokens :: "('c, 'j) cf \<Rightarrow> string set \<Rightarrow> string list \<Rightarrow> (string \<rightharpoonup> string) \<Rightarrow> 'c \<Rightarrow> (string \<rightharpoonup> string) \<times> 'c" where
  "names_of_tokens s seen [] m c = (m, c)"
| "names_of_tokens s seen (t # ts) m c =
     (if t = [] \<or> t \<in> seen then names_of_tokens s seen ts m c
      else (case ListAccounts s t c of
              (Inl _, c) \<Rightarrow> names_of_tokens s (insert t seen) ts m c
            | (Inr as, c) \<Rightarrow> names_of_tokens s (insert t seen) ts (fold (\<lambda>a m. m(ai_ID a \<mapsto> ai_Name a)) as m) c))"

definition lookupAccountNames :: "('c, 'j) cf \<Rightarrow> config \<Rightarrow> 'c \<Rightarrow> (string \<rightharpoonup> string) \<times> 'c" where
  "lookupAccountNames s cfg c = names_of_tokens s {} (Tokens cfg @ map ac_Token (Accounts cfg)) Map.empty c"

section \<open>Lemmas\<close>

text \<open>Discovery reports every account of the listing, each with a subdomain.\<close>

lemma resolve_each_sound:
  "resolve_each s token cm rnd i as c = (Inr ds, c') \<Longrightarrow>
     map dt_ID ds = map ai_ID as \<and> list_all (\<lambda>d. dt_Subdomain d \<noteq> [] \<and> dt_Token d = token) ds"
  by (induction as arbitrary: i c ds) (auto simp: Let_def split: prod.splits sum.splits if_splits)

lemma Resolve_token_sound:
  "Resolve_token s token cm rnd c = (Inr ds, c') \<Longrightarrow> ds \<noteq> [] \<and> list_all (\<lambda>d. dt_Subdomain d \<noteq> [] \<and> dt_Token d = token) ds"
  using resolve_each_sound [of s token cm rnd 0 _ _ ds c'] by (fastforce simp: Resolve_token_def split: prod.splits sum.splits if_splits)

definition acc_key :: "account_cfg \<Rightarrow> string" where
  "acc_key a = account_key (ac_ID a) (ac_Token a)"

text \<open>Merging keeps the accounts, adds only details, and adds no key twice.\<close>

lemma merge_details_spec:
  assumes "merge_details known ds accs = (known', accs')"
  obtains new where "accs' = accs @ new" "distinct (map acc_key new)" "set (map acc_key new) \<inter> known = {}"
    "known' = known \<union> set (map acc_key new)" "known' = known \<union> (\<lambda>d. account_key (dt_ID d) (dt_Token d)) ` set ds"
    "set new \<subseteq> account_of_details ` set ds"
  using assms
proof (induction ds arbitrary: known accs thesis)
  case (Cons d ds)
  let ?key = "account_key (dt_ID d) (dt_Token d)"
  have k: "acc_key (account_of_details d) = ?key" by (simp add: acc_key_def account_of_details_def)
  show ?case
  proof (cases "?key \<in> known")
    case True
    with Cons.prems(2) have "merge_details known ds accs = (known', accs')" by simp
    then show ?thesis by (rule Cons.IH [rotated]) (use True Cons.prems(1) in \<open>auto simp: insert_absorb\<close>)
  next
    case False
    with Cons.prems(2) have "merge_details (insert ?key known) ds (accs @ [account_of_details d]) = (known', accs')" by simp
    then show ?thesis
    proof (rule Cons.IH [rotated])
      fix new
      assume "accs' = (accs @ [account_of_details d]) @ new" "distinct (map acc_key new)" "set (map acc_key new) \<inter> insert ?key known = {}"
        "known' = insert ?key known \<union> set (map acc_key new)" "known' = insert ?key known \<union> (\<lambda>d. account_key (dt_ID d) (dt_Token d)) ` set ds"
        "set new \<subseteq> account_of_details ` set ds"
      then show ?thesis using False k by (intro Cons.prems(1) [of "account_of_details d # new"]) auto
    qed
  qed
qed simp

lemma resolve_tokens_spec:
  assumes "resolve_tokens s rnd known ts accs c = (e, accs', c')"
  shows "\<exists>new. accs' = accs @ new \<and> distinct (map acc_key new) \<and> set (map acc_key new) \<inter> known = {} \<and>
    list_all (\<lambda>a. ac_Subdomain a \<noteq> [] \<and> ac_Token a \<in> set ts) new"
  using assms
proof (induction ts arbitrary: known accs c)
  case (Cons t ts)
  show ?case
  proof (cases "Resolve_token s t True (rnd t) c")
    case r: (Pair q c1)
    show ?thesis
    proof (cases q)
      case (Inl x)
      then show ?thesis using Cons.prems r by simp
    next
      case (Inr ds)
      obtain known1 accs1 where m: "merge_details known ds accs = (known1, accs1)" by force
      from Cons.prems r Inr m have rest: "resolve_tokens s rnd known1 ts accs1 c1 = (e, accs', c')" by simp
      obtain new1 where n1: "accs1 = accs @ new1" "distinct (map acc_key new1)" "set (map acc_key new1) \<inter> known = {}"
        "known1 = known \<union> set (map acc_key new1)" "set new1 \<subseteq> account_of_details ` set ds"
        by (rule merge_details_spec [OF m]) (rule that)
      from Cons.IH [OF rest] obtain new2 where n2: "accs' = accs1 @ new2" "distinct (map acc_key new2)" "set (map acc_key new2) \<inter> known1 = {}"
        "list_all (\<lambda>a. ac_Subdomain a \<noteq> [] \<and> ac_Token a \<in> set ts) new2" by blast
      have "list_all (\<lambda>d. dt_Subdomain d \<noteq> [] \<and> dt_Token d = t) ds" using Resolve_token_sound [of s t True "rnd t" c ds c1] r Inr by simp
      then have "list_all (\<lambda>a. ac_Subdomain a \<noteq> [] \<and> ac_Token a = t) new1"
        unfolding list_all_iff using n1(5) by (fastforce simp: account_of_details_def)
      then have "accs' = accs @ (new1 @ new2) \<and> distinct (map acc_key (new1 @ new2)) \<and> set (map acc_key (new1 @ new2)) \<inter> known = {} \<and>
          list_all (\<lambda>a. ac_Subdomain a \<noteq> [] \<and> ac_Token a \<in> set (t # ts)) (new1 @ new2)"
        using n1 n2 by (auto simp: list_all_iff)
      then show ?thesis by blast
    qed
  qed
qed simp

section \<open>Properties\<close>

text \<open>
  Resolving tokens only adds accounts. Also when it fails half-way, \<^verbatim>\<open>resolveBareTokens\<close> keeps every configured account in place and adds accounts behind them; each
  added one carries a token of the list and a workers.dev subdomain, and no pair of account and token is there twice or was configured already.
\<close>

lemma resolveBareTokens_extends:
  "case resolveBareTokens s rnd cfg c of (e, cfg', c') \<Rightarrow>
     \<exists>new. cfg' = cfg\<lparr>Accounts := Accounts cfg @ new\<rparr> \<and> distinct (map acc_key new) \<and> set (map acc_key new) \<inter> known_accounts (Accounts cfg) = {} \<and>
       list_all (\<lambda>a. ac_Subdomain a \<noteq> [] \<and> ac_Token a \<in> set (Tokens cfg)) new"
proof -
  obtain e accs' c' where r: "resolve_tokens s rnd (known_accounts (Accounts cfg)) (Tokens cfg) (Accounts cfg) c = (e, accs', c')"
    by (metis prod_cases3)
  from resolve_tokens_spec [OF r] show ?thesis by (auto simp: resolveBareTokens_def r)
qed

text \<open>Seeding touches only the counts: every account keeps its quota and its limit.\<close>

lemma seed_keeps_limits:
  "map_option Limit \<circ> fst (seedQuotaFromCF s now cfg order qs c) = map_option Limit \<circ> qs"
proof -
  have one: "map_option Limit \<circ> fst (seed_one s now tokens acc qc) = map_option Limit \<circ> fst qc" for tokens acc qc
    by (cases qc) (auto simp: seed_one_def quota_Seed_def Let_def fun_eq_iff split: option.splits prod.splits sum.splits)
  have "map_option Limit \<circ> fst (fold (seed_one s now tokens) order qc) = map_option Limit \<circ> fst qc" for tokens qc
    by (induction order arbitrary: qc) (simp_all add: one)
  then show ?thesis by (simp add: seedQuotaFromCF_def split: prod.split)
qed

end
