(* ===== verification/Worker_Fleet.thy ===== *)
theory Worker_Fleet
  imports Worker_Deploy
begin

text \<open>
  What deploying, destroying and rotating workers does to the scripts of the accounts. The locale
  \<open>fleet\<close> extends the contract of the backends by how they are picked for an account; its lemmas follow the
  operations of \<open>Worker_Deploy\<close> from one backend to all accounts. It is interpreted on \<^verbatim>\<open>Pick\<close> in workers.dev
  mode. The first section is about the script: the secret stays inside its string literal.
\<close>

section \<open>The secret in the script\<close>

text \<open>A double-quoted JavaScript literal read up to its closing quote, with the two escapes that \<^verbatim>\<open>escapeJS\<close> writes: the
  value and the text after the literal.\<close>

definition line_break :: "char \<Rightarrow> bool" where
  "line_break c \<longleftrightarrow> c = char_of (10 :: nat) \<or> c = char_of (13 :: nat)"

fun js_literal :: "string \<Rightarrow> (string \<times> string) option" where
  "js_literal [] = None"
| "js_literal (x # xs) =
     (if x = dquote then Some ([], xs)
      else if line_break x then None
      else if x = backslash then
        (case xs of
           [] \<Rightarrow> None
         | e # r \<Rightarrow> if e = backslash \<or> e = dquote then map_option (\<lambda>(s, q). (e # s, q)) (js_literal r) else None)
      else map_option (\<lambda>(s, q). (x # s, q)) (js_literal xs))"

lemma special_chars [simp]:
  "backslash \<noteq> dquote" "dquote \<noteq> backslash" "\<not> line_break backslash" "\<not> line_break dquote"
  by code_simp+

lemma js_literal_escaped:
  "js_literal (escapeJS s @ dquote # rest) = (if list_ex line_break s then None else Some (s, rest))"
  by (induction s) (auto simp: escapeJS_def esc_char_def)

fun occurs_before :: "string \<Rightarrow> string \<Rightarrow> string \<Rightarrow> bool" where
  "occurs_before old [] rest \<longleftrightarrow> False"
| "occurs_before old (x # pre) rest \<longleftrightarrow> has_prefix (x # pre @ rest) old \<or> occurs_before old pre rest"

lemma replace_all_skip: "\<not> occurs_before old pre rest \<Longrightarrow> replace_all old new (pre @ rest) = pre @ replace_all old new rest"
  by (induction pre) (auto simp: replace_all.simps [of old new "_ # _"])

lemma replace_all_hit: "old \<noteq> [] \<Longrightarrow> replace_all old new (old @ rest) = new @ replace_all old new rest"
  by (cases old) (auto simp: replace_all.simps [of _ new "_ # _"] has_prefix_def)

text \<open>
  C24. The worker's script carries the HMAC secret as a string literal. For a template with one place for it, in double quotes,
  and a secret without line breaks in which the marker of the template hash does not occur, the literal of the rendered script reads back as exactly
  the secret and the rest of the script follows it: no secret can end the literal early and become code.
\<close>

theorem Render_secret_literal:
  assumes tpl: "template_text read_file deflt path = Some (pre @ dquote # ''__HMAC_SECRET__'' @ dquote # post)"
    and "\<not> occurs_before ''__HMAC_SECRET__'' (pre @ [dquote]) (''__HMAC_SECRET__'' @ dquote # post)"
    and "\<not> occurs_before ''__HMAC_SECRET__'' (dquote # post) []"
    and "\<not> occurs_before ''__TEMPLATE_HASH__'' (pre @ dquote # escapeJS secret @ [dquote]) post"
    and "\<not> list_ex line_break secret"
  shows "\<exists>rest. Render cr read_file deflt secret path = Some (pre @ dquote # escapeJS secret @ dquote # rest) \<and>
    js_literal (escapeJS secret @ dquote # rest) = Some (secret, rest)"
proof -
  have end_: "replace_all ''__HMAC_SECRET__'' (escapeJS secret) (dquote # post) = dquote # post"
    using replace_all_skip [OF assms(3)] by (simp add: replace_all.simps [of _ _ "[]"])
  have "replace_all ''__HMAC_SECRET__'' (escapeJS secret) (pre @ dquote # ''__HMAC_SECRET__'' @ dquote # post) =
      pre @ dquote # escapeJS secret @ dquote # post"
    using replace_all_skip [OF assms(2), of "escapeJS secret"] replace_all_hit [of "''__HMAC_SECRET__''" "escapeJS secret" "dquote # post"] end_
    by simp
  moreover have "replace_all ''__TEMPLATE_HASH__'' h (pre @ dquote # escapeJS secret @ dquote # post) =
      pre @ dquote # escapeJS secret @ dquote # replace_all ''__TEMPLATE_HASH__'' h post" for h
    using replace_all_skip [OF assms(4), of h] by simp
  ultimately show ?thesis using tpl assms(5) by (simp add: Render_def js_literal_escaped)
qed

theorem Render_secret_literal_witness:
  "\<exists>rest. Render \<lparr>cr_hmac = (\<lambda>k m. k), cr_sha256 = id, cr_totp = (\<lambda>s t. False)\<rparr> (\<lambda>_. None)
      (''let k = '' @ dquote # ''__HMAC_SECRET__'' @ dquote # ''; let h = __TEMPLATE_HASH__;'') (''a'' @ [dquote]) [] =
      Some (''let k = '' @ dquote # escapeJS (''a'' @ [dquote]) @ dquote # rest) \<and>
    js_literal (escapeJS (''a'' @ [dquote]) @ dquote # rest) = Some (''a'' @ [dquote], rest)"
  by (rule Render_secret_literal [where post = "''; let h = __TEMPLATE_HASH__;''"]) (simp add: template_text_def, code_simp+)

section \<open>The contract of a fleet\<close>

text \<open>What changed between two views of the scripts: names may only be lost, and each that is lost satisfies \<open>P\<close>.\<close>

definition only_lost :: "(string \<Rightarrow> string \<Rightarrow> bool) \<Rightarrow> (string \<Rightarrow> string set) \<Rightarrow> (string \<Rightarrow> string set) \<Rightarrow> bool" where
  "only_lost P L L' \<longleftrightarrow> (\<forall>a. L' a \<subseteq> L a \<and> (\<forall>n \<in> L a - L' a. P a n))"

lemma only_lost_refl [simp]: "only_lost P L L"
  by (simp add: only_lost_def)

lemma only_lost_trans: "only_lost P L1 L2 \<Longrightarrow> only_lost P L2 L3 \<Longrightarrow> only_lost P L1 L3"
  unfolding only_lost_def by blast

lemma only_lost_keeps: "only_lost P L L' \<Longrightarrow> n \<in> L a \<Longrightarrow> \<not> P a n \<Longrightarrow> n \<in> L' a"
  unfolding only_lost_def by blast

lemma only_lost_upd: "P a n \<Longrightarrow> L' = L \<or> L' = L(a := L a - {n}) \<Longrightarrow> only_lost P L L'"
  by (auto simp: only_lost_def split: if_splits)

locale fleet = deploy_backends +
  fixes pick :: "'a picker" and acct :: "account_cfg \<Rightarrow> bool" and reliable :: bool
  assumes pick_live: "acct a \<Longrightarrow> inv c \<Longrightarrow> pick a c = (r, c') \<Longrightarrow> inv c' \<and> live c' = live c"
    and pick_member: "acct a \<Longrightarrow> inv c \<Longrightarrow> pick a c = (Inr bs, c') \<Longrightarrow> b \<in> set bs \<Longrightarrow> member b \<and> be_AccountID b = ac_ID a"
    and pick_one: "reliable \<Longrightarrow> acct a \<Longrightarrow> inv c \<Longrightarrow> ac_Subdomain a \<noteq> [] \<Longrightarrow> \<exists>b c'. pick a c = (Inr [b], c')"
    and reliable_deploy: "reliable \<Longrightarrow> member b \<Longrightarrow> inv c \<Longrightarrow> good n \<Longrightarrow> \<not> isl (fst (be_Deploy b n s c))"
    and reliable_list: "reliable \<Longrightarrow> member b \<Longrightarrow> inv c \<Longrightarrow> \<not> isl (fst (be_List b p c))"
    and reliable_delete: "reliable \<Longrightarrow> member b \<Longrightarrow> inv c \<Longrightarrow> good (de_Name d) \<Longrightarrow> \<not> isl (fst (be_Delete b d c))"
begin

lemma delete_lost:
  assumes "member b" "inv c" "good (de_Name d)" "be_Delete b d c = (r, c')" "P (be_AccountID b) (de_Name d)"
  shows "inv c' \<and> only_lost P (live c) (live c')"
proof -
  have "inv c' \<and> (live c' = live c \<or> live c' = (live c)(be_AccountID b := live c (be_AccountID b) - {de_Name d}))"
    using delete_ok [OF assms(1-3), of c'] delete_failed [OF assms(1-3), of _ c'] assms(4) by (cases r) simp_all
  then show ?thesis using only_lost_upd [of P, OF assms(5)] by simp
qed

lemma foldl_lost:
  assumes "\<And>x s. x \<in> set xs \<Longrightarrow> inv (fst s) \<Longrightarrow> inv (fst (f s x)) \<and> only_lost P (live (fst s)) (live (fst (f s x)))" "inv (fst s)"
  shows "inv (fst (foldl f s xs)) \<and> only_lost P (live (fst s)) (live (fst (foldl f s xs)))"
  using assms
proof (induction xs arbitrary: s)
  case (Cons x xs)
  have 1: "inv (fst (f s x)) \<and> only_lost P (live (fst s)) (live (fst (f s x)))" using Cons.prems by simp
  have "inv (fst (foldl f (f s x) xs)) \<and> only_lost P (live (fst (f s x))) (live (fst (foldl f (f s x) xs)))"
    using Cons.IH [of "f s x"] Cons.prems(1) 1 by simp
  with 1 show ?case using only_lost_trans [of P] by auto
qed simp

lemma destroy_one_lost:
  assumes "member b" "inv (fst s)" "good (de_Name d)" "P (be_AccountID b) (de_Name d)"
  shows "inv (fst (destroy_one pe b s d)) \<and> only_lost P (live (fst s)) (live (fst (destroy_one pe b s d)))"
proof -
  obtain r c' where r: "be_Delete b d (fst s) = (r, c')" by force
  then have "fst (destroy_one pe b s d) = c'" by (auto simp: destroy_one_def split: sum.splits)
  then show ?thesis using delete_lost [where P = P, OF assms(1-3) r assms(4)] by simp
qed

lemma destroy_backend_lost:
  assumes "member b" "inv (fst s)" "\<forall>n. has_prefix n prefix \<longrightarrow> P (be_AccountID b) n"
  shows "inv (fst (destroy_backend pe prefix s b)) \<and> only_lost P (live (fst s)) (live (fst (destroy_backend pe prefix s b)))"
proof (cases "be_List b prefix (fst s)")
  case (Pair r c)
  note l = list_live [OF assms(1,2) Pair]
  show ?thesis
  proof (cases r)
    case (Inl e)
    then show ?thesis using l Pair by (simp add: destroy_backend_def)
  next
    case (Inr ds)
    then have "\<forall>d \<in> set ds. good (de_Name d) \<and> P (be_AccountID b) (de_Name d)"
      using list_ok [OF assms(1,2), of prefix ds c] Pair assms(3) by (auto simp: list_all_iff)
    then have step: "inv (fst (destroy_one pe b t d)) \<and> only_lost P (live (fst t)) (live (fst (destroy_one pe b t d)))"
      if "d \<in> set ds" "inv (fst t)" for d and t :: "'a \<times> 'b store option"
      using that by (intro destroy_one_lost [where P = P, OF assms(1)]) simp_all
    from foldl_lost [where xs = ds and s = "(c, snd s)", OF step] show ?thesis using l Pair Inr by (simp add: destroy_backend_def)
  qed
qed

lemma destroy_accounts_lost:
  assumes "inv (fst s)" "\<forall>a \<in> set as. acct a \<and> (\<forall>n. has_prefix n prefix \<longrightarrow> P (ac_ID a) n)"
    "destroy_accounts pe prefix pick as s = (e, s')"
  shows "inv (fst s') \<and> only_lost P (live (fst s)) (live (fst s'))"
  using assms
proof (induction as arbitrary: s)
  case (Cons a as)
  obtain r c where r: "pick a (fst s) = (r, c)" by force
  note l = pick_live [OF _ Cons.prems(1) r]
  show ?case
  proof (cases r)
    case (Inl x)
    then show ?thesis using Cons.prems l r by auto
  next
    case (Inr bs)
    let ?s = "foldl (destroy_backend pe prefix) (c, snd s) bs"
    have m: "member b \<and> be_AccountID b = ac_ID a" if "b \<in> set bs" for b
      using pick_member [of a "fst s" bs c b] Cons.prems(1,2) r Inr that by simp
    have step: "inv (fst (destroy_backend pe prefix t b)) \<and> only_lost P (live (fst t)) (live (fst (destroy_backend pe prefix t b)))"
      if "b \<in> set bs" "inv (fst t)" for b and t :: "'a \<times> 'b store option"
      using m [OF that(1)] that(2) Cons.prems(2) by (intro destroy_backend_lost [where P = P]) simp_all
    from foldl_lost [where xs = bs and s = "(c, snd s)", OF step] have "inv (fst ?s) \<and> only_lost P (live (fst s)) (live (fst ?s))"
      using l Cons.prems(2) by simp
    with Cons.IH [of ?s] Cons.prems r Inr show ?thesis using only_lost_trans [of P] by auto
  qed
qed auto

end

section \<open>Deploying to a fleet\<close>

lemma add_workers_frame [simp]:
  "dp_cloud (foldl (\<lambda>dp d. add_worker dv d dp) dp ds) = dp_cloud dp"
  "dp_failed (foldl (\<lambda>dp d. add_worker dv d dp) dp ds) = dp_failed dp"
  "dp_jobs (foldl (\<lambda>dp d. add_worker dv d dp) dp ds) = dp_jobs dp"
  by (induction ds arbitrary: dp) (simp_all add: add_worker_def)

lemma new_name_prefix: "has_prefix (new_name dv k) (Worker_NamePrefix (dv_cfg dv))"
  by (simp add: new_name_def has_prefix_def)

text \<open>The names of the jobs with numbers \<open>i\<close> to \<open>j - 1\<close>, and what is asked of them: they are accepted by the service, differ, and are not in use.\<close>

definition names_fresh :: "(nat \<Rightarrow> string) \<Rightarrow> (string \<Rightarrow> string set) \<Rightarrow> nat \<Rightarrow> nat \<Rightarrow> bool" where
  "names_fresh nm L i j \<longleftrightarrow> inj_on nm {i..<j} \<and> (\<forall>k \<in> {i..<j}. \<forall>a. nm k \<notin> L a)"

lemma names_fresh_later:
  "names_fresh nm L i j \<Longrightarrow> names_fresh nm (L(a := L a \<union> nm ` {i..<i + k})) (i + k) j"
proof -
  assume f: "names_fresh nm L i j"
  then have inj: "inj_on nm {i..<j}" by (simp add: names_fresh_def)
  have "nm m \<notin> nm ` {i..<i + k}" if "m \<in> {i + k..<j}" for m
  proof
    assume "nm m \<in> nm ` {i..<i + k}"
    then obtain x where "x \<in> {i..<i + k}" "nm m = nm x" by auto
    with inj_onD [OF inj, of m x] that show False by auto
  qed
  then show ?thesis using f inj_on_subset [OF inj, of "{i + k..<j}"] by (simp add: names_fresh_def)
qed

lemma names_fresh_mono: "names_fresh nm L i j \<Longrightarrow> j' \<le> j \<Longrightarrow> names_fresh nm L i j'"
  unfolding names_fresh_def by (auto intro: inj_on_subset)

definition prefixed :: "string \<Rightarrow> string set \<Rightarrow> string set" where
  "prefixed p A = {n \<in> A. has_prefix n p}"

lemma card_prefixed_new:
  assumes "names_fresh nm L i (i + k)" "\<forall>j. has_prefix (nm j) p" "finite (prefixed p (L a))"
  shows "card (prefixed p (L a \<union> nm ` {i..<i + k})) = card (prefixed p (L a)) + k"
proof -
  have "prefixed p (L a \<union> nm ` {i..<i + k}) = prefixed p (L a) \<union> nm ` {i..<i + k}"
    using assms(2) by (auto simp: prefixed_def)
  moreover have "prefixed p (L a) \<inter> nm ` {i..<i + k} = {}"
    using assms(1) by (auto simp: names_fresh_def prefixed_def)
  moreover have "card (nm ` {i..<i + k}) = k" using assms(1) by (simp add: names_fresh_def card_image)
  ultimately show ?thesis using assms(3) by (simp add: card_Un_disjoint)
qed

context fleet
begin

lemma deploy_job_live:
  assumes "reliable" "member b" "inv (dp_cloud dp)" "good (new_name dv (dp_jobs dp))" "dp_failed dp = None"
  shows "inv (dp_cloud (deploy_job dv b dp)) \<and> dp_failed (deploy_job dv b dp) = None \<and>
    dp_jobs (deploy_job dv b dp) = Suc (dp_jobs dp) \<and>
    live (dp_cloud (deploy_job dv b dp)) =
      (live (dp_cloud dp))(be_AccountID b := insert (new_name dv (dp_jobs dp)) (live (dp_cloud dp) (be_AccountID b)))"
proof -
  obtain d c where "be_Deploy b (new_name dv (dp_jobs dp)) (dv_script dv) (dp_cloud dp) = (Inr d, c)"
    using reliable_deploy [OF assms(1-4), of "dv_script dv"] by (metis prod.collapse sum.collapse(2))
  with deploy_ok [OF assms(2-4) this] assms(5) show ?thesis by (simp add: deploy_job_def add_worker_def Let_def)
qed

lemma deploy_jobs_live:
  assumes "reliable" "member b" "inv (dp_cloud dp)" "\<forall>j \<in> {dp_jobs dp..<dp_jobs dp + k}. good (new_name dv j)" "dp_failed dp = None"
  shows "inv (dp_cloud ((deploy_job dv b ^^ k) dp)) \<and> dp_failed ((deploy_job dv b ^^ k) dp) = None \<and>
    dp_jobs ((deploy_job dv b ^^ k) dp) = dp_jobs dp + k \<and>
    live (dp_cloud ((deploy_job dv b ^^ k) dp)) =
      (live (dp_cloud dp))(be_AccountID b := live (dp_cloud dp) (be_AccountID b) \<union> new_name dv ` {dp_jobs dp..<dp_jobs dp + k})"
  using assms(4)
proof (induction k)
  case 0
  then show ?case using assms by simp
next
  case (Suc k)
  let ?d = "(deploy_job dv b ^^ k) dp"
  have IH: "inv (dp_cloud ?d)" "dp_failed ?d = None" "dp_jobs ?d = dp_jobs dp + k"
    "live (dp_cloud ?d) = (live (dp_cloud dp))(be_AccountID b := live (dp_cloud dp) (be_AccountID b) \<union> new_name dv ` {dp_jobs dp..<dp_jobs dp + k})"
    using Suc.IH Suc.prems by force+
  have "good (new_name dv (dp_jobs ?d))" using Suc.prems IH(3) by simp
  from deploy_job_live [OF assms(1,2) IH(1) this IH(2)] show ?case
    unfolding IH(3,4) by (simp add: atLeastLessThanSuc)
qed

text \<open>Filling one backend: nothing happens when it is full, and otherwise it is full afterwards.\<close>

lemma fill_backend_full:
  assumes "reliable" "member b" "inv (dp_cloud dp)" "dp_failed dp = None"
    "Worker_Count (dv_cfg dv) \<le> int (card (prefixed (Worker_NamePrefix (dv_cfg dv)) (live (dp_cloud dp) (be_AccountID b))))"
  shows "inv (dp_cloud (fill_backend dv b dp)) \<and> dp_failed (fill_backend dv b dp) = None \<and>
    dp_jobs (fill_backend dv b dp) = dp_jobs dp \<and> live (dp_cloud (fill_backend dv b dp)) = live (dp_cloud dp)"
proof -
  obtain ds c where l: "be_List b (Worker_NamePrefix (dv_cfg dv)) (dp_cloud dp) = (Inr ds, c)"
    using reliable_list [OF assms(1-3)] by (metis prod.collapse sum.collapse(2))
  note ok = list_ok [OF assms(2,3) l]
  then have "int (length ds) = card (prefixed (Worker_NamePrefix (dv_cfg dv)) (live (dp_cloud dp) (be_AccountID b)))"
    by (metis distinct_card length_map list.set_map prefixed_def)
  then show ?thesis using l ok assms(4,5) by (simp add: fill_backend_def list_existing_def Let_def)
qed

lemma fill_backend_fills:
  assumes "reliable" "member b" "inv (dp_cloud dp)" "dp_failed dp = None"
    and "\<forall>j < N. good (new_name dv j)" "names_fresh (new_name dv) (live (dp_cloud dp)) (dp_jobs dp) N"
    and "dp_jobs dp + nat (Worker_Count (dv_cfg dv)) \<le> N"
  obtains k where "k \<le> nat (Worker_Count (dv_cfg dv))" "inv (dp_cloud (fill_backend dv b dp))" "dp_failed (fill_backend dv b dp) = None"
    "dp_jobs (fill_backend dv b dp) = dp_jobs dp + k"
    "live (dp_cloud (fill_backend dv b dp)) =
      (live (dp_cloud dp))(be_AccountID b := live (dp_cloud dp) (be_AccountID b) \<union> new_name dv ` {dp_jobs dp..<dp_jobs dp + k})"
    "card (prefixed (Worker_NamePrefix (dv_cfg dv)) (live (dp_cloud (fill_backend dv b dp)) (be_AccountID b))) =
      max (card (prefixed (Worker_NamePrefix (dv_cfg dv)) (live (dp_cloud dp) (be_AccountID b)))) (nat (Worker_Count (dv_cfg dv)))"
proof -
  let ?p = "Worker_NamePrefix (dv_cfg dv)" and ?w = "Worker_Count (dv_cfg dv)" and ?L = "live (dp_cloud dp)" and ?a = "be_AccountID b"
  obtain ds c where l: "be_List b ?p (dp_cloud dp) = (Inr ds, c)"
    using reliable_list [OF assms(1-3)] by (metis prod.collapse sum.collapse(2))
  note ok = list_ok [OF assms(2,3) l]
  then have pre: "prefixed ?p (?L ?a) = set (map de_Name ds)" by (simp add: prefixed_def)
  then have len: "length ds = card (prefixed ?p (?L ?a))" using ok distinct_card [of "map de_Name ds"] by simp
  define dp2 where "dp2 = foldl (\<lambda>dp d. add_worker dv d dp) (dp\<lparr>dp_cloud := c\<rparr>) ds"
  define k where "k = nat (?w - int (length ds))"
  have dp2: "inv (dp_cloud dp2)" "dp_failed dp2 = None" "dp_jobs dp2 = dp_jobs dp" "live (dp_cloud dp2) = ?L"
    using ok assms(4) by (simp_all add: dp2_def)
  have fb: "fill_backend dv b dp = (deploy_job dv b ^^ k) dp2"
    using l assms(4) by (simp add: fill_backend_def list_existing_def Let_def dp2_def k_def)
  have k: "k \<le> nat ?w" by (simp add: k_def)
  have "\<forall>j \<in> {dp_jobs dp2..<dp_jobs dp2 + k}. good (new_name dv j)" using assms(5,7) k dp2(3) by simp
  note jobs = deploy_jobs_live [OF assms(1,2) dp2(1) this dp2(2), folded fb, unfolded dp2(3,4)]
  have "names_fresh (new_name dv) ?L (dp_jobs dp) (dp_jobs dp + k)"
    using names_fresh_mono [OF assms(6)] assms(7) k by simp
  from card_prefixed_new [OF this, of ?p ?a] new_name_prefix [of dv] pre
  have "card (prefixed ?p (?L ?a \<union> new_name dv ` {dp_jobs dp..<dp_jobs dp + k})) = card (prefixed ?p (?L ?a)) + k" by simp
  also have "\<dots> = max (card (prefixed ?p (?L ?a))) (nat ?w)" using len by (auto simp: k_def)
  finally have "card (prefixed ?p (live (dp_cloud (fill_backend dv b dp)) ?a)) = max (card (prefixed ?p (?L ?a))) (nat ?w)"
    using jobs by simp
  with jobs k show ?thesis by (intro that [of k]) simp_all
qed

lemma deploy_accounts_step:
  assumes "reliable" "inv (dp_cloud dp)" "acct a" "ac_Subdomain a \<noteq> []"
  obtains b c where "member b" "be_AccountID b = ac_ID a" "inv c" "live c = live (dp_cloud dp)"
    "deploy_accounts dv pick (a # as) dp = deploy_accounts dv pick as (fill_backend dv b (dp\<lparr>dp_cloud := c\<rparr>))"
proof -
  obtain b c where p: "pick a (dp_cloud dp) = (Inr [b], c)" using pick_one [OF assms(1,3,2,4)] by blast
  with pick_live [OF assms(3,2) p] pick_member [OF assms(3,2) p, of b] show ?thesis by (intro that [of b c]) simp_all
qed

lemma deploy_accounts_full:
  assumes "reliable" "\<forall>a \<in> set as. acct a \<and> ac_Subdomain a \<noteq> [] \<and>
      Worker_Count (dv_cfg dv) \<le> int (card (prefixed (Worker_NamePrefix (dv_cfg dv)) (live (dp_cloud dp) (ac_ID a))))"
    "inv (dp_cloud dp)" "dp_failed dp = None" "deploy_accounts dv pick as dp = (e, dp')"
  shows "e = None \<and> dp_jobs dp' = dp_jobs dp \<and> live (dp_cloud dp') = live (dp_cloud dp)"
  using assms(2-5)
proof (induction as arbitrary: dp)
  case (Cons a as)
  have a: "acct a" "ac_Subdomain a \<noteq> []" using Cons.prems(1) by simp_all
  obtain b c where b: "member b" "be_AccountID b = ac_ID a" "inv c" "live c = live (dp_cloud dp)"
    and d: "deploy_accounts dv pick (a # as) dp = deploy_accounts dv pick as (fill_backend dv b (dp\<lparr>dp_cloud := c\<rparr>))"
    using deploy_accounts_step [OF assms(1) Cons.prems(2) a, where as = as] .
  have "inv (dp_cloud (fill_backend dv b (dp\<lparr>dp_cloud := c\<rparr>))) \<and> dp_failed (fill_backend dv b (dp\<lparr>dp_cloud := c\<rparr>)) = None \<and>
      dp_jobs (fill_backend dv b (dp\<lparr>dp_cloud := c\<rparr>)) = dp_jobs dp \<and> live (dp_cloud (fill_backend dv b (dp\<lparr>dp_cloud := c\<rparr>))) = live (dp_cloud dp)"
    using fill_backend_full [OF assms(1) b(1), of "dp\<lparr>dp_cloud := c\<rparr>" dv] b Cons.prems by simp
  with Cons.IH [of "fill_backend dv b (dp\<lparr>dp_cloud := c\<rparr>)"] Cons.prems d show ?case by simp
qed auto

lemma deploy_accounts_fills:
  assumes "reliable" "\<forall>a \<in> set as. acct a \<and> ac_Subdomain a \<noteq> []" "distinct (map ac_ID as)" "\<forall>j < N. good (new_name dv j)"
    and "inv (dp_cloud dp)" "dp_failed dp = None" "names_fresh (new_name dv) (live (dp_cloud dp)) (dp_jobs dp) N"
    and "dp_jobs dp + length as * nat (Worker_Count (dv_cfg dv)) \<le> N" "deploy_accounts dv pick as dp = (e, dp')"
  shows "e = None \<and> inv (dp_cloud dp') \<and> (\<forall>x. live (dp_cloud dp) x \<subseteq> live (dp_cloud dp') x) \<and>
    (\<forall>x. x \<notin> ac_ID ` set as \<longrightarrow> live (dp_cloud dp') x = live (dp_cloud dp) x) \<and>
    (\<forall>a \<in> set as. card (prefixed (Worker_NamePrefix (dv_cfg dv)) (live (dp_cloud dp') (ac_ID a))) =
       max (card (prefixed (Worker_NamePrefix (dv_cfg dv)) (live (dp_cloud dp) (ac_ID a)))) (nat (Worker_Count (dv_cfg dv))))"
  using assms(2,3,5-9)
proof (induction as arbitrary: dp)
  case (Cons a as)
  let ?p = "Worker_NamePrefix (dv_cfg dv)" and ?w = "nat (Worker_Count (dv_cfg dv))" and ?L = "live (dp_cloud dp)"
  have a: "acct a" "ac_Subdomain a \<noteq> []" using Cons.prems(1) by simp_all
  obtain b c where b: "member b" "be_AccountID b = ac_ID a" "inv c" "live c = ?L"
    and d: "deploy_accounts dv pick (a # as) dp = deploy_accounts dv pick as (fill_backend dv b (dp\<lparr>dp_cloud := c\<rparr>))"
    using deploy_accounts_step [OF assms(1) Cons.prems(3) a, where as = as] .
  let ?dp = "fill_backend dv b (dp\<lparr>dp_cloud := c\<rparr>)"
  obtain k where k: "k \<le> ?w" "inv (dp_cloud ?dp)" "dp_failed ?dp = None" "dp_jobs ?dp = dp_jobs dp + k"
    and L: "live (dp_cloud ?dp) = ?L(ac_ID a := ?L (ac_ID a) \<union> new_name dv ` {dp_jobs dp..<dp_jobs dp + k})"
    and card: "card (prefixed ?p (live (dp_cloud ?dp) (ac_ID a))) = max (card (prefixed ?p (?L (ac_ID a)))) ?w"
    using fill_backend_fills [OF assms(1) b(1), of "dp\<lparr>dp_cloud := c\<rparr>" N dv] b Cons.prems assms(4) by auto
  have "names_fresh (new_name dv) (live (dp_cloud ?dp)) (dp_jobs ?dp) N"
    using names_fresh_later [OF Cons.prems(5), of "ac_ID a" k] L k(4) by simp
  then have IH: "e = None \<and> inv (dp_cloud dp') \<and> (\<forall>x. live (dp_cloud ?dp) x \<subseteq> live (dp_cloud dp') x) \<and>
    (\<forall>x. x \<notin> ac_ID ` set as \<longrightarrow> live (dp_cloud dp') x = live (dp_cloud ?dp) x) \<and>
    (\<forall>a \<in> set as. card (prefixed ?p (live (dp_cloud dp') (ac_ID a))) = max (card (prefixed ?p (live (dp_cloud ?dp) (ac_ID a)))) ?w)"
    using Cons.IH [of ?dp] Cons.prems k d by simp
  have sub: "?L x \<subseteq> live (dp_cloud ?dp) x" for x by (simp add: L)
  have other: "live (dp_cloud ?dp) x = ?L x" if "x \<noteq> ac_ID a" for x using that by (simp add: L)
  have nin: "ac_ID a \<notin> ac_ID ` set as" using Cons.prems(2) by simp
  have "card (prefixed ?p (live (dp_cloud dp') (ac_ID x))) = max (card (prefixed ?p (?L (ac_ID x)))) ?w" if "x \<in> set (a # as)" for x
  proof (cases "ac_ID x = ac_ID a")
    case True
    then show ?thesis using IH card nin by simp
  next
    case False
    then show ?thesis using IH other that by auto
  qed
  moreover have "?L x \<subseteq> live (dp_cloud dp') x" for x using IH sub [of x] by (meson subset_trans)
  ultimately show ?case using IH other by simp
qed auto

text \<open>The deletion that ends a swap: at most the old name is gone, from its own account.\<close>

lemma swap_in_live:
  assumes "inv (pl_cloud pl)" "good (Name (pl_heap pl old))" "\<forall>b \<in> set bs. member b \<and> be_AccountID b = AccountID (pl_heap pl old)"
  shows "only_lost (\<lambda>a n. a = AccountID (pl_heap pl old) \<and> n = Name (pl_heap pl old)) (live (pl_cloud pl))
    (live (pl_cloud (swap_in dv bs old newName d pl)))"
proof (cases "find (\<lambda>b. be_Name b = Backend (pl_heap pl old)) bs")
  case None
  then show ?thesis by (simp add: swap_in_def Let_def)
next
  case (Some b)
  then have b: "member b" "be_AccountID b = AccountID (pl_heap pl old)" using assms(3) by (auto simp: find_Some_iff)
  obtain r c' where r: "be_Delete b (old_deployed (pl_heap pl old)) (pl_cloud pl) = (r, c')" by force
  have "only_lost (\<lambda>a n. a = AccountID (pl_heap pl old) \<and> n = Name (pl_heap pl old)) (live (pl_cloud pl)) (live c')"
    using delete_lost [OF b(1) assms(1) _ r] assms(2) b(2) by (simp add: old_deployed_def)
  then show ?thesis using Some r by (simp add: swap_in_def Let_def)
qed

text \<open>Recycling one worker: when it fails only the service has moved, and otherwise the new script is there and only the old one may be
  gone.\<close>

lemma RecyclePublic_live:
  assumes "\<forall>a \<in> set (Accounts (dv_cfg dv)). acct a" "inv (pl_cloud pl)" "good (new_name dv 0)" "good (Name (pl_heap pl old))"
    and "RecyclePublic dv pick rendered old pl = (r, pl')"
  shows "case r of
      Inl e \<Rightarrow> pl' = pl\<lparr>pl_cloud := pl_cloud pl'\<rparr> \<and>
        (\<forall>a. live (pl_cloud pl) a \<subseteq> live (pl_cloud pl') a \<and> live (pl_cloud pl') a \<subseteq> live (pl_cloud pl) a \<union> {new_name dv 0})
    | Inr n \<Rightarrow> n = new_name dv 0 \<and> (\<exists>c bs d. pl' = swap_in dv bs old n d (pl\<lparr>pl_cloud := c\<rparr>) \<and> de_Name d = n) \<and>
        only_lost (\<lambda>a m. a = AccountID (pl_heap pl old) \<and> m = Name (pl_heap pl old))
          ((live (pl_cloud pl))(AccountID (pl_heap pl old) := insert n (live (pl_cloud pl) (AccountID (pl_heap pl old))))) (live (pl_cloud pl'))"
proof (cases "if dv_script dv = [] then rendered else Some (dv_script dv)")
  case None
  then show ?thesis using assms(5) by (auto simp: RecyclePublic_def)
next
  case script: (Some s)
  show ?thesis
  proof (cases "find (\<lambda>a. ac_ID a = AccountID (pl_heap pl old)) (Accounts (dv_cfg dv))")
    case None
    then show ?thesis using assms(5) script by (auto simp: RecyclePublic_def)
  next
    case a: (Some a)
    then have aa: "acct a" "ac_ID a = AccountID (pl_heap pl old)" using assms(1) by (auto simp: find_Some_iff)
    obtain q c where p: "pick a (pl_cloud pl) = (q, c)" by force
    note pl = pick_live [OF aa(1) assms(2) p]
    show ?thesis
    proof (cases q)
      case (Inl e)
      then show ?thesis using assms(5) script a p pl by (auto simp: RecyclePublic_def)
    next
      case bs: (Inr bs)
      define b where "b = (case find (\<lambda>b. be_Name b = Backend (pl_heap pl old)) bs of Some b \<Rightarrow> b | None \<Rightarrow> hd bs)"
      have m: "\<forall>b \<in> set bs. member b \<and> be_AccountID b = AccountID (pl_heap pl old)"
        using pick_member [OF aa(1) assms(2), of bs c] p bs aa(2) by simp
      show ?thesis
      proof (cases "bs = []")
        case True
        then show ?thesis using assms(5) script a p bs pl by (auto simp: RecyclePublic_def)
      next
        case False
        then have "b \<in> set bs" by (auto simp: b_def find_Some_iff split: option.splits)
        with m have b: "member b" "be_AccountID b = AccountID (pl_heap pl old)" by simp_all
        have cc: "inv c" using pl by simp
        obtain x c1 where x: "be_Deploy b (new_name dv 0) s c = (x, c1)" by force
        note live = deploy_live [OF b(1) cc assms(3) x]
        have R: "(r, pl') = (case x of Inl e \<Rightarrow> (Inl (DeployFailed e), pl\<lparr>pl_cloud := c1\<rparr>)
            | Inr d \<Rightarrow> (Inr (new_name dv 0), swap_in dv bs old (new_name dv 0) d (pl\<lparr>pl_cloud := c1\<rparr>)))"
          using assms(5) script a p bs False x by (simp add: RecyclePublic_def Let_def b_def split: sum.splits)
        show ?thesis
        proof (cases x)
          case (Inl e)
          then show ?thesis using R live pl by simp
        next
          case (Inr d)
          have "de_Name d = new_name dv 0 \<and> live c1 = (live (pl_cloud pl))(AccountID (pl_heap pl old) := insert (new_name dv 0) (live (pl_cloud pl) (AccountID (pl_heap pl old))))"
            using deploy_ok [OF b(1) cc assms(3), of s d c1] x Inr b(2) pl by simp
          moreover have "only_lost (\<lambda>a n. a = AccountID (pl_heap pl old) \<and> n = Name (pl_heap pl old)) (live c1)
              (live (pl_cloud (swap_in dv bs old (new_name dv 0) d (pl\<lparr>pl_cloud := c1\<rparr>))))"
            using swap_in_live [of "pl\<lparr>pl_cloud := c1\<rparr>" old bs dv "new_name dv 0" d] live(1) assms(4) m by simp
          ultimately show ?thesis using R Inr by (auto simp del: fun_upd_apply)
        qed
      qed
    qed
  qed
qed

end

section \<open>Destroying a fleet on a service that does not fail\<close>

lemma prefixed_minus [simp]: "prefixed p (A - prefixed p A) = {}"
  by (auto simp: prefixed_def)

lemma prefixed_mono: "A \<subseteq> B \<Longrightarrow> prefixed p B = {} \<Longrightarrow> prefixed p A = {}"
  by (auto simp: prefixed_def)

context fleet
begin

lemma destroy_each_gone:
  assumes "reliable" "member b" "inv (fst s)" "\<forall>d \<in> set ds. good (de_Name d)"
  shows "inv (fst (foldl (destroy_one pe b) s ds)) \<and>
    live (fst (foldl (destroy_one pe b) s ds)) = (live (fst s))(be_AccountID b := live (fst s) (be_AccountID b) - de_Name ` set ds)"
  using assms(3,4)
proof (induction ds arbitrary: s)
  case (Cons d ds)
  have d: "good (de_Name d)" using Cons.prems by simp
  obtain c where "be_Delete b d (fst s) = (Inr (), c)"
    using reliable_delete [OF assms(1,2) Cons.prems(1) d] by (metis (full_types) old.unit.exhaust prod.collapse sum.collapse(2))
  with delete_ok [OF assms(2) Cons.prems(1) d this]
  have 1: "inv (fst (destroy_one pe b s d))"
    "live (fst (destroy_one pe b s d)) = (live (fst s))(be_AccountID b := live (fst s) (be_AccountID b) - {de_Name d})"
    by (simp_all add: destroy_one_def)
  have "\<forall>d \<in> set ds. good (de_Name d)" using Cons.prems by simp
  from Cons.IH [OF 1(1) this] show ?case unfolding 1(2) by (auto simp: fun_eq_iff)
qed simp

lemma destroy_backend_gone:
  assumes "reliable" "member b" "inv (fst s)"
  shows "prefixed prefix (live (fst (destroy_backend pe prefix s b)) (be_AccountID b)) = {}"
proof -
  obtain ds c where l: "be_List b prefix (fst s) = (Inr ds, c)"
    using reliable_list [OF assms(1-3)] by (metis prod.collapse sum.collapse(2))
  note ok = list_ok [OF assms(2,3) l]
  then have "\<forall>d \<in> set ds. good (de_Name d)" "de_Name ` set ds = prefixed prefix (live c (be_AccountID b))"
    by (auto simp: list_all_iff prefixed_def)
  with destroy_each_gone [OF assms(1,2), of "(c, snd s)" ds pe] ok l show ?thesis
    by (simp add: destroy_backend_def prefixed_def)
qed

lemma destroy_accounts_gone:
  assumes "reliable" "\<forall>a \<in> set as. acct a \<and> ac_Subdomain a \<noteq> []" "inv (fst s)" "destroy_accounts pe prefix pick as s = (e, s')"
  shows "e = None \<and> (\<forall>a \<in> set as. prefixed prefix (live (fst s') (ac_ID a)) = {})"
  using assms(2-4)
proof (induction as arbitrary: s)
  case (Cons a as)
  have a: "acct a" "ac_Subdomain a \<noteq> []" using Cons.prems by simp_all
  obtain b c where p: "pick a (fst s) = (Inr [b], c)" using pick_one [OF assms(1) a(1) Cons.prems(2) a(2)] by blast
  have b: "member b" "be_AccountID b = ac_ID a" using pick_member [OF a(1) Cons.prems(2) p, of b] by simp_all
  have c: "inv c" using pick_live [OF a(1) Cons.prems(2) p] by simp
  let ?s = "destroy_backend pe prefix (c, snd s) b"
  have i: "inv (fst ?s)" using destroy_backend_lost [where P = "\<lambda>_ _. True", OF b(1), of "(c, snd s)" prefix pe] c by simp
  have d: "destroy_accounts pe prefix pick as ?s = (e, s')" using Cons.prems(3) p by simp
  have all: "\<forall>a \<in> set as. acct a \<and> ac_Subdomain a \<noteq> []" using Cons.prems(1) by simp
  have "only_lost (\<lambda>_ _. True) (live (fst ?s)) (live (fst s'))"
    using destroy_accounts_lost [where P = "\<lambda>_ _. True", OF i _ d] all by simp
  then have sub: "live (fst s') (ac_ID a) \<subseteq> live (fst ?s) (ac_ID a)" by (simp add: only_lost_def)
  have "prefixed prefix (live (fst s') (ac_ID a)) = {}"
    using prefixed_mono [OF sub] destroy_backend_gone [OF assms(1) b(1), of "(c, snd s)" prefix pe] c b(2) by simp
  with Cons.IH [OF all i d] show ?case by simp
qed auto

end

section \<open>workers.dev is a fleet\<close>

definition reliable_service :: "('c, 'j) cf \<Rightarrow> bool" where
  "reliable_service s \<longleftrightarrow>
     (\<forall>c acc tok n sc. plain acc \<longrightarrow> plain n \<longrightarrow>
        \<not> isl (fst (UploadWorker s acc tok n sc c)) \<and> \<not> isl (fst (EnableWorkersDev s acc tok n c)) \<and>
        \<not> isl (fst (cf_DeleteWorker s acc tok n c))) \<and>
     (\<forall>c acc tok. plain acc \<longrightarrow> \<not> isl (fst (cf_ListWorkers s acc tok c)))"

definition on_workers_dev :: "config \<Rightarrow> account_cfg \<Rightarrow> bool" where
  "on_workers_dev cfg a \<longleftrightarrow> plain (ac_ID a) \<and> Worker_DeployBackend cfg = ''workers_dev''"

lemma pick_workers_dev:
  "on_workers_dev cfg a \<Longrightarrow> pick_of s cfg a c =
     (if ac_Subdomain a = [] then (Inl NoSubdomain, c) else (Inr [NewWorkersDev s (ac_ID a) (ac_Token a) (ac_Subdomain a)], c))"
  by (simp add: pick_of_def Pick_def on_workers_dev_def)

lemma NewWorkersDev_account [simp]: "be_AccountID (NewWorkersDev s acc tok sub) = acc"
  by (simp add: NewWorkersDev_def)

lemma calling_ok: "isl (fst (calling w r k)) \<longleftrightarrow> isl (fst r) \<or> isl (fst (k (projr (fst r)) (snd r)))"
  by (auto simp: calling_def split: prod.splits sum.splits)

interpretation wd_fleet: fleet "is_workers_dev s" plain scripts "\<lambda>c. scripts_service s scripts" "pick_of s cfg" "on_workers_dev cfg" "reliable_service s"
  for s scripts cfg
proof (unfold_locales, goal_cases)
  case (4 b c n sc)
  obtain tok sub where "plain (be_AccountID b)" "be_Deploy b = workers_dev_Deploy s (be_AccountID b) tok sub" using workers_dev_conv [OF 4(2)] .
  with 4 show ?case by (auto simp: workers_dev_Deploy_def calling_ok reliable_service_def)
next
  case (5 b c p)
  obtain tok sub where "plain (be_AccountID b)" "be_List b = workers_dev_List s (be_AccountID b) tok sub" using workers_dev_conv [OF 5(2)] .
  with 5 show ?case by (auto simp: workers_dev_List_def calling_ok reliable_service_def)
next
  case (6 b c d)
  obtain tok where "plain (be_AccountID b)"
    "be_Delete b = (\<lambda>d c. calling ApiErr (cf_DeleteWorker s (be_AccountID b) tok (de_Name d) c) (\<lambda>_ c. (Inr (), c)))"
    using workers_dev_conv [OF 6(2)] .
  with 6 show ?case by (auto simp: calling_ok reliable_service_def)
qed (auto simp: pick_workers_dev on_workers_dev_def split: if_splits)

section \<open>What the operations do to the accounts\<close>

definition fleet_account :: account_cfg where
  "fleet_account = \<lparr>ac_ID = ''acc1'', ac_Name = [], ac_Token = ''tok'', ac_Subdomain = ''sub''\<rparr>"

definition fleet_config :: config where
  "fleet_config = empty_config\<lparr>Accounts := [fleet_account], Worker_NamePrefix := ''flx-'', Worker_Count := 2, Worker_DeployBackend := ''workers_dev''\<rparr>"

definition fleet_codec :: "worker_rec codec" where
  "fleet_codec = \<lparr>marshal = (\<lambda>r. bytes_of (wr_Name r)),
     unmarshal = (\<lambda>b. Some (workerRec (workers_dev_deployed ''acc1'' ''sub'' (string_of b)) 5))\<rparr>"

definition fleet_env :: "(string \<times> bytes) list denv" where
  "fleet_env = \<lparr>dv_cfg = fleet_config, dv_pe = \<lparr>pe_ops = list_bucket, pe_codec = fleet_codec, pe_commit = True\<rparr>,
     dv_rnd = (\<lambda>k. [of_nat k]), dv_now = 5, dv_script = ''code''\<rparr>"

lemma demo_reliable: "reliable_service demo_cf"
proof -
  have up: "UploadWorker demo_cf acc tok n sc c = (Inr (), (acc, n) # c)" if "plain acc" "plain n" for acc tok n sc c
    using that by (simp add: UploadWorker_def dropped_def cf_do_def demo_cf_def demo_send_def split_paths)
  have en: "EnableWorkersDev demo_cf acc tok n c = (Inr (), c)" if "plain acc" "plain n" for acc tok n c
    using that by (simp add: EnableWorkersDev_def dropped_def cf_do_def demo_cf_def demo_send_def split_paths)
  have de: "cf_DeleteWorker demo_cf acc tok n c = (Inr (), filter (\<lambda>x. x \<noteq> (acc, n)) c)" if "plain acc" "plain n" for acc tok n c
    using that by (simp add: cf_DeleteWorker_def dropped_def cf_do_def demo_cf_def demo_send_def split_paths)
  have li: "\<not> isl (fst (cf_ListWorkers demo_cf acc tok c))" if "plain acc" for acc tok c
    using that by (simp add: cf_ListWorkers_def decoded_def cf_do_def demo_cf_def demo_send_def split_paths)
  show ?thesis unfolding reliable_service_def using up en de li by simp
qed

lemma demo_on_workers_dev: "on_workers_dev fleet_config fleet_account" "ac_Subdomain fleet_account \<noteq> []"
  by (simp_all add: on_workers_dev_def fleet_config_def fleet_account_def plain_def) code_simp

text \<open>
  C16. Destroying is confined to what was deployed. Whatever calls fail, \<^verbatim>\<open>DestroyAll\<close> in workers.dev mode creates no script and removes only scripts
  whose names have the configured prefix, in configured accounts; and on a service that does not fail, none of them is left in any configured account.
\<close>

theorem DestroyAll_confined:
  assumes "scripts_service s scripts" "\<forall>a \<in> set (Accounts cfg). on_workers_dev cfg a"
    and "DestroyAll cfg pe (pick_of s cfg) c st = (e, c', st')"
  shows "only_lost (\<lambda>a n. a \<in> ac_ID ` set (Accounts cfg) \<and> has_prefix n (Worker_NamePrefix cfg)) (scripts c) (scripts c') \<and>
    (reliable_service s \<and> list_all (\<lambda>a. ac_Subdomain a \<noteq> []) (Accounts cfg) \<longrightarrow>
       e = None \<and> (\<forall>a \<in> set (Accounts cfg). prefixed (Worker_NamePrefix cfg) (scripts c' (ac_ID a)) = {}))"
proof -
  let ?P = "\<lambda>a n. a \<in> ac_ID ` set (Accounts cfg) \<and> has_prefix n (Worker_NamePrefix cfg)"
  have d: "destroy_accounts pe (Worker_NamePrefix cfg) (pick_of s cfg) (Accounts cfg) (c, st) = (e, c', st')"
    using assms(3) by (simp add: DestroyAll_def)
  have acc: "\<forall>a \<in> set (Accounts cfg). on_workers_dev cfg a \<and> (\<forall>n. has_prefix n (Worker_NamePrefix cfg) \<longrightarrow> ?P (ac_ID a) n)"
    using assms(2) by simp
  have "only_lost ?P (scripts c) (scripts c')"
    using wd_fleet.destroy_accounts_lost [where P = ?P, OF _ acc d] assms(1) by simp
  moreover have "e = None \<and> (\<forall>a \<in> set (Accounts cfg). prefixed (Worker_NamePrefix cfg) (scripts c' (ac_ID a)) = {})"
    if "reliable_service s" "list_all (\<lambda>a. ac_Subdomain a \<noteq> []) (Accounts cfg)"
    using wd_fleet.destroy_accounts_gone [OF that(1) _ _ d, of scripts] that(2) assms(1,2) by (simp add: list_all_iff)
  ultimately show ?thesis by blast
qed

theorem DestroyAll_confined_witness:
  "\<exists>e c' st'. DestroyAll fleet_config (dv_pe fleet_env) (pick_of demo_cf fleet_config) [(''acc1'', ''flx-1''), (''acc1'', ''site'')] None = (e, c', st') \<and>
     prefixed ''flx-'' (demo_scripts c' ''acc1'') = {} \<and> e = None"
proof -
  let ?c = "[(''acc1'', ''flx-1''), (''acc1'', ''site'')]"
  obtain e c' st' where d: "DestroyAll fleet_config (dv_pe fleet_env) (pick_of demo_cf fleet_config) ?c None = (e, c', st')"
    by (metis prod_cases3)
  have "\<forall>a \<in> set (Accounts fleet_config). on_workers_dev fleet_config a" "list_all (\<lambda>a. ac_Subdomain a \<noteq> []) (Accounts fleet_config)"
    using demo_on_workers_dev by (simp_all add: fleet_config_def)
  with DestroyAll_confined [OF demo_service this(1) d] demo_reliable d show ?thesis
    by (auto simp: fleet_config_def fleet_account_def)
qed

lemma new_name_script [simp]: "new_name (dv\<lparr>dv_script := x\<rparr>) = new_name dv"
  by (simp add: new_name_def fun_eq_iff)

text \<open>
  C21. Deployment reaches its target and stays there. On a service that does not fail, with fresh distinct names for the jobs, \<^verbatim>\<open>DeployAll\<close> in workers.dev mode
  removes nothing and leaves in each configured account exactly the configured number of scripts with the prefix, or as many as there were when there were more.
  Running it again, with any other random bytes and any script, starts no job and changes no script.
\<close>

theorem DeployAll_fills:
  fixes dv :: "'b denv"
  assumes service: "scripts_service s scripts" "reliable_service s"
    and accounts: "\<forall>a \<in> set (Accounts (dv_cfg dv)). on_workers_dev (dv_cfg dv) a \<and> ac_Subdomain a \<noteq> []" "distinct (map ac_ID (Accounts (dv_cfg dv)))"
    and names: "\<forall>j < length (Accounts (dv_cfg dv)) * nat (Worker_Count (dv_cfg dv)). plain (new_name dv j)"
      "names_fresh (new_name dv) (scripts c) 0 (length (Accounts (dv_cfg dv)) * nat (Worker_Count (dv_cfg dv)))"
    and run: "DeployAll (Some script) dv (pick_of s (dv_cfg dv)) c st = (e, dp)"
  shows "e = None \<and> (\<forall>x. scripts c x \<subseteq> scripts (dp_cloud dp) x) \<and>
    (\<forall>a \<in> set (Accounts (dv_cfg dv)). card (prefixed (Worker_NamePrefix (dv_cfg dv)) (scripts (dp_cloud dp) (ac_ID a))) =
       max (card (prefixed (Worker_NamePrefix (dv_cfg dv)) (scripts c (ac_ID a)))) (nat (Worker_Count (dv_cfg dv)))) \<and>
    (\<forall>script2 rnd now pe (st2 :: 'b store option). case DeployAll (Some script2) (dv\<lparr>dv_rnd := rnd, dv_now := now, dv_pe := pe\<rparr>) (pick_of s (dv_cfg dv)) (dp_cloud dp) st2 of
       (e2, dp2) \<Rightarrow> e2 = None \<and> dp_jobs dp2 = 0 \<and> scripts (dp_cloud dp2) = scripts (dp_cloud dp))"
proof -
  have "deploy_accounts (dv\<lparr>dv_script := script\<rparr>) (pick_of s (dv_cfg dv)) (Accounts (dv_cfg dv)) (start_dep c st) = (e, dp)"
    using run by (simp add: DeployAll_def)
  from wd_fleet.deploy_accounts_fills [OF service(2) accounts _ _ _ _ _ this, of _ scripts] names service(1)
  have fills: "e = None \<and> (\<forall>x. scripts c x \<subseteq> scripts (dp_cloud dp) x) \<and>
    (\<forall>a \<in> set (Accounts (dv_cfg dv)). card (prefixed (Worker_NamePrefix (dv_cfg dv)) (scripts (dp_cloud dp) (ac_ID a))) =
       max (card (prefixed (Worker_NamePrefix (dv_cfg dv)) (scripts c (ac_ID a)))) (nat (Worker_Count (dv_cfg dv))))"
    by (simp add: start_dep_def)
  then have full: "\<forall>a \<in> set (Accounts (dv_cfg dv)). Worker_Count (dv_cfg dv) \<le>
      int (card (prefixed (Worker_NamePrefix (dv_cfg dv)) (scripts (dp_cloud dp) (ac_ID a))))"
    by (simp add: of_nat_max)
  have "e2 = None \<and> dp_jobs dp2 = 0 \<and> scripts (dp_cloud dp2) = scripts (dp_cloud dp)"
    if "DeployAll (Some script2) (dv\<lparr>dv_rnd := rnd, dv_now := now, dv_pe := pe\<rparr>) (pick_of s (dv_cfg dv)) (dp_cloud dp) st2 = (e2, dp2)"
    for script2 rnd now pe e2 dp2 and st2 :: "'b store option"
    using wd_fleet.deploy_accounts_full [OF service(2), of "Accounts (dv_cfg dv)" "dv_cfg dv"
        "dv\<lparr>dv_rnd := rnd, dv_now := now, dv_pe := pe, dv_script := script2\<rparr>" scripts "start_dep (dp_cloud dp) st2" e2 dp2] that full accounts service(1)
    by (simp add: DeployAll_def start_dep_def)
  with fills show ?thesis by (simp split: prod.split)
qed

theorem DeployAll_fills_witness:
  "\<exists>e dp. DeployAll (Some ''code'') fleet_env (pick_of demo_cf fleet_config) [(''acc1'', ''site'')] None = (e, dp) \<and> e = None \<and>
     card (prefixed ''flx-'' (demo_scripts (dp_cloud dp) ''acc1'')) = 2"
proof -
  let ?c = "[(''acc1'', ''site'')]"
  obtain e dp where d: "DeployAll (Some ''code'') fleet_env (pick_of demo_cf (dv_cfg fleet_env)) ?c None = (e, dp)" by force
  have cfg: "dv_cfg fleet_env = fleet_config" "Accounts fleet_config = [fleet_account]" "Worker_Count fleet_config = 2"
    "Worker_NamePrefix fleet_config = ''flx-''"
    by (simp_all add: fleet_env_def fleet_config_def)
  have n: "new_name fleet_env 0 = ''flx-00''" "new_name fleet_env (Suc 0) = ''flx-01''"
    by (simp_all add: new_name_def cfg randHex_def fleet_env_def) code_simp+
  have j: "j < 2 \<longleftrightarrow> j = 0 \<or> j = Suc 0" for j :: nat by auto
  have "plain ''flx-00''" "plain ''flx-01''" by code_simp+
  then have p: "\<forall>j < length (Accounts (dv_cfg fleet_env)) * nat (Worker_Count (dv_cfg fleet_env)). plain (new_name fleet_env j)"
    by (simp add: cfg n j)
  have none: "prefixed ''flx-'' (demo_scripts ?c ''acc1'') = {}"
    by (auto simp: prefixed_def demo_scripts_def has_prefix_def)
  have "names_fresh (new_name fleet_env) (demo_scripts ?c) 0 (length (Accounts (dv_cfg fleet_env)) * nat (Worker_Count (dv_cfg fleet_env)))"
    by (auto simp: names_fresh_def cfg n j inj_on_def demo_scripts_def)
  from DeployAll_fills [OF demo_service demo_reliable _ _ p this d] demo_on_workers_dev none show ?thesis
    using d unfolding cfg by (auto simp: fleet_account_def)
qed

text \<open>
  C22. A recycled worker is replaced, never lost. When \<^verbatim>\<open>RecyclePublic\<close> fails, only the service may have moved, by gaining the script of the new name. When it succeeds with a
  name, that script is in the account of the old worker, no other script than the old one may be gone, the new worker is at the old one's place in
  the pool, has the new name and the old account, the old one is marked unhealthy, and no other worker changed.
\<close>

theorem RecyclePublic_replaces:
  assumes "scripts_service s scripts" "\<forall>a \<in> set (Accounts (dv_cfg dv)). on_workers_dev (dv_cfg dv) a"
    and "plain (new_name dv 0)" "plain (Name (pl_heap pl old))" "new_name dv 0 \<noteq> Name (pl_heap pl old)"
    and "old \<in> set (pool_load (pl_pool pl))" "pl_fresh pl \<noteq> old"
    and run: "RecyclePublic dv (pick_of s (dv_cfg dv)) rendered old pl = (r, pl')"
  shows "case r of
      Inl e \<Rightarrow> pl' = pl\<lparr>pl_cloud := pl_cloud pl'\<rparr> \<and>
        (\<forall>a. scripts (pl_cloud pl) a \<subseteq> scripts (pl_cloud pl') a \<and> scripts (pl_cloud pl') a \<subseteq> scripts (pl_cloud pl) a \<union> {new_name dv 0})
    | Inr n \<Rightarrow>
        n \<in> scripts (pl_cloud pl') (AccountID (pl_heap pl old)) \<and>
        (\<forall>a. scripts (pl_cloud pl) a - {Name (pl_heap pl old)} \<subseteq> scripts (pl_cloud pl') a) \<and>
        (\<exists>i < pool_Size (pl_pool pl). pool_load (pl_pool pl) ! i = old \<and> pool_load (pl_pool pl') = (pool_load (pl_pool pl))[i := pl_fresh pl]) \<and>
        Name (pl_heap pl' (pl_fresh pl)) = n \<and> AccountID (pl_heap pl' (pl_fresh pl)) = AccountID (pl_heap pl old) \<and>
        \<not> Healthy (pl_heap pl' old) \<and> (\<forall>w. w \<noteq> old \<and> w \<noteq> pl_fresh pl \<longrightarrow> pl_heap pl' w = pl_heap pl w)"
proof (cases r)
  case (Inl e)
  then show ?thesis using wd_fleet.RecyclePublic_live [OF assms(2,1,3,4) run] by simp
next
  case (Inr n)
  let ?o = "pl_heap pl old" and ?L = "scripts (pl_cloud pl)"
  from wd_fleet.RecyclePublic_live [OF assms(2,1,3,4) run] Inr obtain c bs d
    where n: "n = new_name dv 0" and pl': "pl' = swap_in dv bs old n d (pl\<lparr>pl_cloud := c\<rparr>)"
      and lost: "only_lost (\<lambda>a m. a = AccountID ?o \<and> m = Name ?o) (?L(AccountID ?o := insert n (?L (AccountID ?o)))) (scripts (pl_cloud pl'))"
    by auto
  obtain i where i: "find_idx old (pool_load (pl_pool pl)) = Some i" using assms(6) find_idx_None by (metis option.exhaust)
  have "\<exists>i < pool_Size (pl_pool pl). pool_load (pl_pool pl) ! i = old \<and> pool_load (pl_pool pl') = (pool_load (pl_pool pl))[i := pl_fresh pl]"
    using find_idx_Some [OF i] i by (auto simp: pl' swap_in_def pool_Replace_def pool_Size_def Let_def)
  moreover have "n \<in> scripts (pl_cloud pl') (AccountID ?o)" "\<forall>a. ?L a - {Name ?o} \<subseteq> scripts (pl_cloud pl') a"
    using only_lost_keeps [OF lost, of _ "AccountID ?o"] only_lost_keeps [OF lost] assms(5) n by simp_all (metis DiffE fun_upd_apply insertCI subsetI)
  ultimately show ?thesis using Inr assms(7) by (simp add: pl' swap_in_def NewWorker_def Let_def)
qed

definition fleet_worker :: worker where
  "fleet_worker = (NewWorker 0 ''acc1'' ''flx-1'' [])\<lparr>Backend := ''workers_dev''\<rparr>"

definition fleet_plane :: "((string \<times> string) list, (string \<times> bytes) list) plane" where
  "fleet_plane = \<lparr>pl_cloud = [(''acc1'', ''flx-1'')], pl_store = None, pl_heap = (\<lambda>_. fleet_worker), pl_pool = pool_New [7], pl_fresh = 8\<rparr>"

theorem RecyclePublic_replaces_witness:
  "\<exists>pl'. RecyclePublic fleet_env (pick_of demo_cf fleet_config) None 7 fleet_plane = (Inr ''flx-00'', pl') \<and>
     ''flx-00'' \<in> demo_scripts (pl_cloud pl') ''acc1'' \<and> Name (pl_heap pl' 8) = ''flx-00''"
proof -
  have f: "Name (pl_heap fleet_plane 7) = ''flx-1''" "AccountID (pl_heap fleet_plane 7) = ''acc1''" "pl_fresh fleet_plane = 8"
    "dv_cfg fleet_env = fleet_config" "Accounts fleet_config = [fleet_account]" "pool_load (pl_pool fleet_plane) = [7]"
    by (simp_all add: fleet_plane_def fleet_worker_def NewWorker_def fleet_env_def fleet_config_def pool_New_def pool_load_def)
  have n: "new_name fleet_env 0 = ''flx-00''"
    by (simp add: new_name_def fleet_env_def fleet_config_def randHex_def) code_simp
  have p: "plain ''flx-00''" "plain ''flx-1''" "plain ''acc1''" by code_simp+
  obtain r pl' where r: "RecyclePublic fleet_env (pick_of demo_cf (dv_cfg fleet_env)) None 7 fleet_plane = (r, pl')" by force
  have "\<exists>pl'. RecyclePublic fleet_env (pick_of demo_cf (dv_cfg fleet_env)) None 7 fleet_plane = (Inr ''flx-00'', pl')"
    using pick_workers_dev [OF demo_on_workers_dev(1), of demo_cf] demo_on_workers_dev(2) n p
    by (simp add: RecyclePublic_def f fleet_account_def fleet_plane_def fleet_env_def fleet_worker_def NewWorker_def NewWorkersDev_def
        workers_dev_Deploy_def calling_def UploadWorker_def EnableWorkersDev_def dropped_def cf_do_def demo_cf_def demo_send_def split_paths Let_def)
  then have "r = Inr ''flx-00''" using r by simp
  with RecyclePublic_replaces [OF demo_service _ _ _ _ _ _ r] demo_on_workers_dev(1) p r show ?thesis
    by (auto simp: f n)
qed

section \<open>What the store remembers\<close>

definition rec_of :: "worker \<Rightarrow> worker_rec" where
  "rec_of w = \<lparr>wr_Name = Name w, wr_AccountID = AccountID w, wr_URL = URL w, wr_CreatedAt = CreatedAt w, wr_Requests = 0,
     wr_Backend = Backend w, wr_Hostname = Hostname w, wr_ZoneID = ZoneID w, wr_RecordID = RecordID w\<rparr>"

definition restored :: "(string \<Rightarrow> string option) \<Rightarrow> worker \<Rightarrow> worker" where
  "restored url_host w = w\<lparr>Hostname := if Hostname w = [] then hostnameFromURL url_host (URL w) else Hostname w\<rparr>"

lemma workerRec_rec_of: "workerRec d now = rec_of (workerFromDeployed now d)"
  by (simp add: workerRec_def rec_of_def workerFromDeployed_def NewWorker_def)

lemma worker_of_rec_of: "worker_of_rec uh now2 (rec_of (workerFromDeployed now d)) = restored uh (workerFromDeployed now d)"
  by (simp add: worker_of_rec_def rec_of_def restored_def workerFromDeployed_def NewWorker_def)

definition was_deployed :: "worker \<Rightarrow> bool" where
  "was_deployed w \<longleftrightarrow> (\<exists>now d. w = workerFromDeployed now d)"

lemma was_deployed [simp]: "was_deployed (workerFromDeployed now d)"
  unfolding was_deployed_def by blast

definition remembers :: "'b persist \<Rightarrow> ('c, 'b) dep \<Rightarrow> bool" where
  "remembers pe dp \<longleftrightarrow> (\<exists>st. dp_store dp = Some st \<and>
     map_of (bo_items (pe_ops pe) (bucketWorkers st)) = map_of (rev (map (\<lambda>w. (Name w, marshal (pe_codec pe) (rec_of w))) (dp_workers dp))) \<and>
     (\<forall>w \<in> set (dp_workers dp). was_deployed w))"

lemma add_worker_remembers:
  assumes "bucket_ok (pe_ops (dv_pe dv))" "pe_commit (dv_pe dv)" "remembers (dv_pe dv) dp"
  shows "remembers (dv_pe dv) (add_worker dv d dp)"
proof -
  have "Name (workerFromDeployed now d) = de_Name d" for now by (simp add: workerFromDeployed_def NewWorker_def)
  moreover have "wr_Name (rec_of w) = Name w" for w by (simp add: rec_of_def)
  ultimately show ?thesis using assms
    by (auto simp: remembers_def add_worker_def put_worker_def PutWorker_def update_tx_def bucket_ok_def workerRec_rec_of)
qed

lemma add_workers_remember:
  assumes "bucket_ok (pe_ops (dv_pe dv))" "pe_commit (dv_pe dv)"
  shows "remembers (dv_pe dv) dp \<Longrightarrow> remembers (dv_pe dv) (foldl (\<lambda>dp d. add_worker dv d dp) dp ds)"
  by (induction ds arbitrary: dp) (simp_all add: add_worker_remembers [OF assms])

lemma remembers_frame [simp]:
  "remembers pe (dp\<lparr>dp_cloud := c\<rparr>) = remembers pe dp" "remembers pe (dp\<lparr>dp_jobs := n\<rparr>) = remembers pe dp"
  "remembers pe (dp\<lparr>dp_failed := f\<rparr>) = remembers pe dp"
  by (simp_all add: remembers_def)

lemma deploy_job_remembers:
  assumes "bucket_ok (pe_ops (dv_pe dv))" "pe_commit (dv_pe dv)" "remembers (dv_pe dv) dp"
  shows "remembers (dv_pe dv) (deploy_job dv b dp)"
  using assms by (auto simp: deploy_job_def Let_def add_worker_remembers split: prod.splits sum.splits)

lemma fill_backend_remembers:
  assumes "bucket_ok (pe_ops (dv_pe dv))" "pe_commit (dv_pe dv)" "remembers (dv_pe dv) dp"
  shows "remembers (dv_pe dv) (fill_backend dv b dp)"
proof -
  obtain ds dp1 where l: "list_existing dv b dp = (ds, dp1)" by force
  then have "remembers (dv_pe dv) dp1" using assms(3) by (auto simp: list_existing_def split: if_splits prod.splits sum.splits)
  from add_workers_remember [OF assms(1,2) this, of ds]
  have r: "remembers (dv_pe dv) (foldl (\<lambda>dp d. add_worker dv d dp) dp1 ds)" .
  have "remembers (dv_pe dv) ((deploy_job dv b ^^ k) (foldl (\<lambda>dp d. add_worker dv d dp) dp1 ds))" for k
    by (induction k) (simp_all add: r deploy_job_remembers [OF assms(1,2)])
  with r l show ?thesis by (simp add: fill_backend_def Let_def)
qed

lemma deploy_accounts_remembers:
  assumes "bucket_ok (pe_ops (dv_pe dv))" "pe_commit (dv_pe dv)" "remembers (dv_pe dv) dp" "deploy_accounts dv pick as dp = (e, dp')"
  shows "remembers (dv_pe dv) dp'"
  using assms(3,4)
proof (induction as arbitrary: dp)
  case (Cons a as)
  have f: "remembers (dv_pe dv) dp \<Longrightarrow> remembers (dv_pe dv) (foldl (\<lambda>dp b. fill_backend dv b dp) dp bs)" for bs dp
    by (induction bs arbitrary: dp) (simp_all add: fill_backend_remembers [OF assms(1,2)])
  show ?case using Cons f [of "dp\<lparr>dp_cloud := c\<rparr>" for c] by (auto split: prod.splits sum.splits)
qed auto

lemma decode_rows_total:
  "\<forall>kv \<in> set kvs. unmarshal cd (snd kv) \<noteq> None \<Longrightarrow> decode_rows cd kvs = (None, map (\<lambda>kv. the (unmarshal cd (snd kv))) kvs)"
  by (induction kvs) auto

lemma remembers_LoadFromState:
  assumes "bucket_ok (pe_ops pe)" "remembers pe dp"
    "\<forall>w \<in> set (dp_workers dp). unmarshal (pe_codec pe) (marshal (pe_codec pe) (rec_of w)) = Some (rec_of w)"
  shows "\<exists>st ws. dp_store dp = Some st \<and> LoadFromState (pe_ops pe) (pe_codec pe) uh now st = Inr ws \<and>
    Name ` set ws = Name ` set (dp_workers dp) \<and> set ws \<subseteq> restored uh ` set (dp_workers dp)"
proof -
  let ?cd = "pe_codec pe" and ?ws = "dp_workers dp"
  let ?row = "\<lambda>w. (Name w, marshal ?cd (rec_of w))" and ?wk = "\<lambda>kv. worker_of_rec uh now (the (unmarshal ?cd (snd kv)))"
  obtain st where st: "dp_store dp = Some st"
    and m: "map_of (bo_items (pe_ops pe) (bucketWorkers st)) = map_of (rev (map ?row ?ws))"
    and w: "\<forall>w \<in> set ?ws. was_deployed w"
    using assms(2) by (auto simp: remembers_def)
  let ?it = "bo_items (pe_ops pe) (bucketWorkers st)"
  have "distinct (map fst ?it)" using assms(1) by (simp add: bucket_ok_def strict_sorted_iff)
  have sub: "set ?it \<subseteq> ?row ` set ?ws"
  proof
    fix kv assume "kv \<in> set ?it"
    then have "map_of ?it (fst kv) = Some (snd kv)" using \<open>distinct (map fst ?it)\<close> by (simp add: map_of_eq_Some_iff)
    then have "map_of (rev (map ?row ?ws)) (fst kv) = Some (snd kv)" unfolding m .
    then have "(fst kv, snd kv) \<in> set (rev (map ?row ?ws))" by (rule map_of_SomeD)
    then show "kv \<in> ?row ` set ?ws" by simp
  qed
  have rst: "?wk (?row w) = restored uh w" "Name (restored uh w) = Name w" if "w \<in> set ?ws" for w
    using that w assms(3) by (auto simp: was_deployed_def worker_of_rec_of restored_def)
  have "decode_rows ?cd ?it = (None, map (\<lambda>kv. the (unmarshal ?cd (snd kv))) ?it)"
    using sub assms(3) by (intro decode_rows_total) auto
  then have load: "LoadFromState (pe_ops pe) ?cd uh now st = Inr (map ?wk ?it)"
    by (simp add: LoadFromState_def ListWorkers_def comp_def)
  have keys: "Name (?wk kv) = fst kv \<and> ?wk kv \<in> restored uh ` set ?ws" if "kv \<in> set ?it" for kv
  proof -
    from that sub obtain w where "w \<in> set ?ws" "kv = ?row w" by blast
    then show ?thesis using rst [of w] by simp
  qed
  have "Name ` set (map ?wk ?it) = fst ` set ?it" using keys by (simp add: image_image)
  also have "\<dots> = dom (map_of ?it)" by (simp add: dom_map_of_conv_image_fst)
  also have "\<dots> = Name ` set ?ws" unfolding m by (simp add: dom_map_of_conv_image_fst image_image)
  finally have "Name ` set (map ?wk ?it) = Name ` set ?ws" .
  moreover have "set (map ?wk ?it) \<subseteq> restored uh ` set ?ws" using keys by auto
  ultimately show ?thesis using st load by blast
qed



end
