(* ===== verification/Control_Plane.thy ===== *)
theory Control_Plane
  imports Account_Discovery Worker_Fleet Quota_Guard
begin

text \<open>
  The operations on the running process that \<^verbatim>\<open>cmd/flarex/main.go\<close> hands to the admin server and to the command line: adding and removing tokens, deploying
  more workers, destroying, cleaning by prefix, recycling by name, the start of the server, and the commands. They work on the configuration, the pool
  with its quotas, the store and the service at once. The environment of a call (service, crypto, file reader, random bytes, clock) is one record.
\<close>

section \<open>State and environment\<close>

record ('c, 'b) ctl =
  ct_cfg :: config
  ct_plane :: "('c, 'b) plane"

record ('c, 'j, 'b) cenv =
  ce_service :: "('c, 'j) cf"
  ce_crypto :: crypto
  ce_read_file :: "string \<Rightarrow> string option"
  ce_template :: string
  ce_pe :: "'b persist"
  ce_rnd :: "nat \<Rightarrow> bytes"
  ce_subs :: "string \<Rightarrow> nat \<Rightarrow> bytes"
  ce_now :: time
  ce_url_host :: "string \<Rightarrow> string option"

datatype ctl_err = Unregistered string | EmptyToken | TokenRejected discovery_err | AlreadyRegistered string string | SlicePanic
  | DeployOn string group_err | NoMatch | WorkerNotFound string | ListErr dep_err | DestroyErr dep_err | RenderErr
  | PrefixEmpty | PrefixDefaulted | PrefixShort | RecycleErr recycle_err | StoreMissing | StoreErr store_err
  | NothingConfigured | Discovery discovery_err | DeployErr group_err | NoWorkerFound | TailErr api_err | TailDial

definition render_of :: "('c, 'j, 'b) cenv \<Rightarrow> config \<Rightarrow> string option" where
  "render_of E cfg = Render (ce_crypto E) (ce_read_file E) (ce_template E) (Security_HMACSecret cfg) (Worker_TemplatePath cfg)"

definition denv_of :: "('c, 'j, 'b) cenv \<Rightarrow> config \<Rightarrow> 'b denv" where
  "denv_of E cfg = \<lparr>dv_cfg = cfg, dv_pe = ce_pe E, dv_rnd = ce_rnd E, dv_now = ce_now E, dv_script = []\<rparr>"

definition picks :: "('c, 'j, 'b) cenv \<Rightarrow> config \<Rightarrow> 'c picker" where
  "picks E cfg = pick_of (ce_service E) cfg"

section \<open>Pool and quotas\<close>

fun add_to_pool :: "worker list \<Rightarrow> ('c, 'b) plane \<Rightarrow> ('c, 'b) plane" where
  "add_to_pool [] pl = pl"
| "add_to_pool (w # ws) pl =
     add_to_pool ws (pl\<lparr>pl_heap := (pl_heap pl)(pl_fresh pl := w), pl_fresh := Suc (pl_fresh pl), pl_pool := pool_Add (pl_fresh pl) (pl_pool pl)\<rparr>)"

definition remove_all :: "ref list \<Rightarrow> pool \<Rightarrow> pool" where
  "remove_all ws p = fold pool_Remove ws p"

text \<open>The map of quotas is shared with the pool, so an entry added here is seen by \<^verbatim>\<open>QuotaFor\<close>.\<close>

definition ensure_quota :: "time \<Rightarrow> config \<Rightarrow> string \<Rightarrow> pool \<Rightarrow> pool" where
  "ensure_quota now cfg acc p =
     (if quotas p acc = None then SetQuotas ((quotas p)(acc \<mapsto> NewQuota now acc (Quota_DailyLimit cfg))) p else p)"

definition with_service :: "'c \<Rightarrow> 'b store option \<Rightarrow> ('c, 'b) ctl \<Rightarrow> ('c, 'b) ctl" where
  "with_service c st ct = ct\<lparr>ct_plane := (ct_plane ct)\<lparr>pl_cloud := c, pl_store := st\<rparr>\<rparr>"

definition set_pool :: "pool \<Rightarrow> ('c, 'b) ctl \<Rightarrow> ('c, 'b) ctl" where
  "set_pool p ct = ct\<lparr>ct_plane := (ct_plane ct)\<lparr>pl_pool := p\<rparr>\<rparr>"

section \<open>Deploying at run time\<close>

definition deploy_on ::
  "('c, 'j, 'b) cenv \<Rightarrow> account_cfg \<Rightarrow> int \<Rightarrow> ('c, 'b) ctl \<Rightarrow> (group_err + string list) \<times> ('c, 'b) ctl" where
  "deploy_on E a cnt ct =
     (let cfg = ct_cfg ct; pl = ct_plane ct
      in case DeployOnAccount (render_of E cfg) (denv_of E cfg) (picks E cfg) a cnt (pl_cloud pl) (pl_store pl) of
           (Some e, dp) \<Rightarrow> (Inl e, with_service (dp_cloud dp) (dp_store dp) ct)
         | (None, dp) \<Rightarrow>
             (let ct1 = with_service (dp_cloud dp) (dp_store dp) ct; pl1 = add_to_pool (dp_workers dp) (ct_plane ct1)
              in (Inr (map Name (dp_workers dp)),
                  ct1\<lparr>ct_plane := pl1\<lparr>pl_pool := ensure_quota (ce_now E) cfg (ac_ID a) (pl_pool pl1)\<rparr>\<rparr>)))"

definition wanted :: "config \<Rightarrow> int \<Rightarrow> int" where
  "wanted cfg cnt = (if cnt \<le> 0 then Worker_Count cfg else cnt)"

definition DeployMore :: "('c, 'j, 'b) cenv \<Rightarrow> string \<Rightarrow> int \<Rightarrow> ('c, 'b) ctl \<Rightarrow> (ctl_err + string list) \<times> ('c, 'b) ctl" where
  "DeployMore E acc cnt ct =
     (case find (\<lambda>a. ac_ID a = acc) (Accounts (ct_cfg ct)) of
        None \<Rightarrow> (Inl (Unregistered acc), ct)
      | Some a \<Rightarrow>
          (case deploy_on E a (wanted (ct_cfg ct) cnt) ct of
             (Inl e, ct') \<Rightarrow> (Inl (DeployErr e), ct')
           | (Inr names, ct') \<Rightarrow> (Inr names, ct')))"

text \<open>The check of \<^verbatim>\<open>AddTokenFunc\<close> for accounts that are there already; its message cuts the identifier to eight characters.\<close>

fun already_there :: "config \<Rightarrow> heap \<Rightarrow> pool \<Rightarrow> account_details list \<Rightarrow> ctl_err option" where
  "already_there cfg h p [] = None"
| "already_there cfg h p (d # ds) =
     (if dt_ID d \<in> set (map ac_ID (Accounts cfg)) \<and> ByAccount h p (dt_ID d) \<noteq> [] then
        Some (if length (dt_ID d) < 8 then SlicePanic
              else AlreadyRegistered (if dt_Name d = [] then dt_ID d else dt_Name d) (take 8 (dt_ID d)))
      else already_there cfg h p ds)"

fun add_accounts ::
  "('c, 'j, 'b) cenv \<Rightarrow> int \<Rightarrow> account_details list \<Rightarrow> string list \<Rightarrow> ('c, 'b) ctl \<Rightarrow> (ctl_err option \<times> string list) \<times> ('c, 'b) ctl" where
  "add_accounts E cnt [] names ct = ((None, names), ct)"
| "add_accounts E cnt (d # ds) names ct =
     (let a = account_of_details d
      in case deploy_on E a cnt ct of
           (Inl e, ct') \<Rightarrow> ((Some (DeployOn (dt_ID d) e), names), ct')
         | (Inr ns, ct') \<Rightarrow> add_accounts E cnt ds (names @ ns) (ct'\<lparr>ct_cfg := (ct_cfg ct')\<lparr>Accounts := Accounts (ct_cfg ct') @ [a]\<rparr>\<rparr>))"

definition AddToken :: "('c, 'j, 'b) cenv \<Rightarrow> string \<Rightarrow> int \<Rightarrow> ('c, 'b) ctl \<Rightarrow> (ctl_err option \<times> string list) \<times> ('c, 'b) ctl" where
  "AddToken E tok cnt ct =
     (let trimmed = trimSpace tok; pl = ct_plane ct
      in if trimmed = [] then ((Some EmptyToken, []), ct)
         else (case Resolve_token (ce_service E) trimmed True (ce_subs E trimmed) (pl_cloud pl) of
                 (Inl e, c) \<Rightarrow> ((Some (TokenRejected e), []), with_service c (pl_store pl) ct)
               | (Inr ds, c) \<Rightarrow>
                   (let ct1 = with_service c (pl_store pl) ct
                    in case already_there (ct_cfg ct) (pl_heap pl) (pl_pool pl) ds of
                         Some e \<Rightarrow> ((Some e, []), ct1)
                       | None \<Rightarrow> add_accounts E (wanted (ct_cfg ct) cnt) ds [] ct1)))"

section \<open>Removing, destroying, listing\<close>

definition mark_unhealthy :: "ref list \<Rightarrow> heap \<Rightarrow> heap" where
  "mark_unhealthy ws h = fold (\<lambda>w h. h(w := (h w)\<lparr>Healthy := False\<rparr>)) ws h"

definition destroy_in :: "('c, 'j, 'b) cenv \<Rightarrow> config \<Rightarrow> ('c, 'b) ctl \<Rightarrow> dep_err option \<times> ('c, 'b) ctl" where
  "destroy_in E cfg ct =
     (case DestroyAll cfg (ce_pe E) (picks E cfg) (pl_cloud (ct_plane ct)) (pl_store (ct_plane ct)) of
        (e, c, st) \<Rightarrow> (e, with_service c st ct))"

text \<open>One account of \<^verbatim>\<open>RemoveTokenFunc\<close>: stop its workers, destroy them, drop them from the pool and the account from the configuration.\<close>

definition remove_account :: "('c, 'j, 'b) cenv \<Rightarrow> account_cfg \<Rightarrow> string list \<times> ('c, 'b) ctl \<Rightarrow> string list \<times> ('c, 'b) ctl" where
  "remove_account E a s =
     (case s of (removed, ct) \<Rightarrow>
        (let pl = ct_plane ct; ws = ByAccount (pl_heap pl) (pl_pool pl) (ac_ID a);
             ct1 = ct\<lparr>ct_plane := pl\<lparr>pl_heap := mark_unhealthy ws (pl_heap pl)\<rparr>\<rparr>;
             ct2 = snd (destroy_in E ((ct_cfg ct)\<lparr>Accounts := [a]\<rparr>) ct1); pl2 = ct_plane ct2;
             ws2 = ByAccount (pl_heap pl2) (pl_pool pl2) (ac_ID a);
             ct3 = set_pool (remove_all ws2 (pl_pool pl2)) ct2
         in (removed @ map (\<lambda>w. Name (pl_heap pl2 w)) ws2,
             ct3\<lparr>ct_cfg := (ct_cfg ct3)\<lparr>Accounts := filter (\<lambda>x. ac_ID x \<noteq> ac_ID a \<or> ac_Token x \<noteq> ac_Token a) (Accounts (ct_cfg ct3))\<rparr>\<rparr>)))"

definition RemoveToken :: "('c, 'j, 'b) cenv \<Rightarrow> string \<Rightarrow> string \<Rightarrow> ('c, 'b) ctl \<Rightarrow> (ctl_err + string list) \<times> ('c, 'b) ctl" where
  "RemoveToken E acc tok ct =
     (let targets = filter (\<lambda>a. acc \<noteq> [] \<and> ac_ID a = acc \<or> tok \<noteq> [] \<and> ac_Token a = tok) (Accounts (ct_cfg ct))
      in if targets = [] then (Inl NoMatch, ct)
         else (let (removed, ct') = fold (remove_account E) targets ([], ct) in (Inr removed, ct')))"

definition list_in :: "('c, 'j, 'b) cenv \<Rightarrow> ('c, 'b) ctl \<Rightarrow> dep_err option \<times> worker list \<times> ('c, 'b) ctl" where
  "list_in E ct =
     (case ListAll (ct_cfg ct) (ce_now E) (picks E (ct_cfg ct)) (pl_cloud (ct_plane ct)) of
        (e, ws, c) \<Rightarrow> (e, ws, with_service c (pl_store (ct_plane ct)) ct))"

definition empty_pool :: "('c, 'b) ctl \<Rightarrow> ('c, 'b) ctl" where
  "empty_pool ct = set_pool (remove_all (pool_All (pl_pool (ct_plane ct))) (pl_pool (ct_plane ct))) ct"

definition DestroyAll_hook :: "('c, 'j, 'b) cenv \<Rightarrow> ('c, 'b) ctl \<Rightarrow> (ctl_err option \<times> string list) \<times> ('c, 'b) ctl" where
  "DestroyAll_hook E ct =
     (case list_in E ct of
        (_, ws, ct1) \<Rightarrow>
          (case destroy_in E (ct_cfg ct1) ct1 of
             (Some e, ct2) \<Rightarrow> ((Some (DestroyErr e), map Name ws), ct2)
           | (None, ct2) \<Rightarrow> ((None, map Name ws), empty_pool ct2)))"

definition ListWorkers_hook :: "('c, 'j, 'b) cenv \<Rightarrow> ('c, 'b) ctl \<Rightarrow> (ctl_err + worker list) \<times> ('c, 'b) ctl" where
  "ListWorkers_hook E ct =
     (case list_in E ct of
        (Some e, _, ct1) \<Rightarrow> (Inl (ListErr e), ct1)
      | (None, ws, ct1) \<Rightarrow> (Inr ws, ct1))"

definition recycleNamedWorker :: "('c, 'j, 'b) cenv \<Rightarrow> string \<Rightarrow> ('c, 'b) ctl \<Rightarrow> (ctl_err + string) \<times> ('c, 'b) ctl" where
  "recycleNamedWorker E name ct =
     (let pl = ct_plane ct; cfg = ct_cfg ct
      in case find (\<lambda>w. Name (pl_heap pl w) = name) (pool_All (pl_pool pl)) of
           None \<Rightarrow> (Inl (WorkerNotFound name), ct)
         | Some w \<Rightarrow>
             (case render_of E cfg of
                None \<Rightarrow> (Inl RenderErr, ct)
              | Some script \<Rightarrow>
                  (case RecyclePublic ((denv_of E cfg)\<lparr>dv_script := script\<rparr>) (picks E cfg) (render_of E cfg) w pl of
                     (Inl e, pl') \<Rightarrow> (Inl (RecycleErr e), ct\<lparr>ct_plane := pl'\<rparr>)
                   | (Inr n, pl') \<Rightarrow> (Inr n, ct\<lparr>ct_plane := pl'\<rparr>))))"

text \<open>Quota rows of the last days; dates are midnights.\<close>

definition QuotaHistory ::
  "'b bucket_ops \<Rightarrow> quota_day codec \<Rightarrow> time \<Rightarrow> int \<Rightarrow> string \<Rightarrow> 'b store option \<Rightarrow> ctl_err + quota_day list" where
  "QuotaHistory bo cd now days acc st =
     (case st of
        None \<Rightarrow> Inl StoreMissing
      | Some s \<Rightarrow>
          (case ListQuotaHistory bo cd s of
             (Some e, _) \<Rightarrow> Inl (StoreErr e)
           | (None, rows) \<Rightarrow>
               Inr (filter (\<lambda>q. \<not> qd_Date q < startOfDay now - days * 86400 \<and> (acc = [] \<or> qd_Account q = acc)) rows)))"

text \<open>Opening a log tail; \<open>dial\<close> says whether the websocket opens. When it does not the tail is deleted again.\<close>

definition tailWorkerLogs :: "('c, 'j, 'b) cenv \<Rightarrow> (string \<Rightarrow> bool) \<Rightarrow> string \<Rightarrow> ('c, 'b) ctl \<Rightarrow> (ctl_err + string) \<times> ('c, 'b) ctl" where
  "tailWorkerLogs E dial name ct =
     (let pl = ct_plane ct; s = ce_service E
      in case find (\<lambda>w. Name (pl_heap pl w) = name) (pool_All (pl_pool pl)) of
           None \<Rightarrow> (Inl (WorkerNotFound name), ct)
         | Some w \<Rightarrow>
             (case find (\<lambda>a. ac_ID a = AccountID (pl_heap pl w)) (Accounts (ct_cfg ct)) of
                None \<Rightarrow> (Inl (WorkerNotFound name), ct)
              | Some a \<Rightarrow>
                  (case StartTail s (ac_ID a) (ac_Token a) name (pl_cloud pl) of
                     (Inl e, c) \<Rightarrow> (Inl (TailErr e), with_service c (pl_store pl) ct)
                   | (Inr (tailID, ws), c) \<Rightarrow>
                       if dial ws then (Inr tailID, with_service c (pl_store pl) ct)
                       else (Inl TailDial, with_service (snd (DeleteTail s (ac_ID a) (ac_Token a) name tailID c)) (pl_store pl) ct))))"

section \<open>Cleaning by prefix\<close>

record clean_row =
  cl_Zone :: string
  cl_Type :: string
  cl_Name :: string
  cl_ID :: string

text \<open>The records of one zone. In a dry run the rows are reported; otherwise each is deleted and reported when that worked.\<close>

fun clean_records ::
  "('c, 'j) cf \<Rightarrow> bool \<Rightarrow> string \<Rightarrow> string \<Rightarrow> zone \<Rightarrow> dns_record list \<Rightarrow> 'c \<Rightarrow> clean_row list \<times> 'c" where
  "clean_records s dry prefix tok z [] c = ([], c)"
| "clean_records s dry prefix tok z (r # rs) c =
     (let row = \<lparr>cl_Zone = zn_Name z, cl_Type = dr_Type r, cl_Name = dr_Name r, cl_ID = dr_ID r\<rparr>
      in if \<not> has_prefix (dr_Name r) prefix then clean_records s dry prefix tok z rs c
         else if dry then (case clean_records s dry prefix tok z rs c of (rows, c) \<Rightarrow> (row # rows, c))
         else (case DeleteDNSRecord s tok (zn_ID z) (dr_ID r) c of
                 (Inl _, c) \<Rightarrow> clean_records s dry prefix tok z rs c
               | (Inr _, c) \<Rightarrow> (case clean_records s dry prefix tok z rs c of (rows, c) \<Rightarrow> (row # rows, c))))"

fun clean_zones :: "('c, 'j) cf \<Rightarrow> bool \<Rightarrow> string \<Rightarrow> string \<Rightarrow> zone list \<Rightarrow> 'c \<Rightarrow> clean_row list \<times> 'c" where
  "clean_zones s dry prefix tok [] c = ([], c)"
| "clean_zones s dry prefix tok (z # zs) c =
     (case ListDNSRecords s tok (zn_ID z) prefix c of
        (Inl _, c) \<Rightarrow> clean_zones s dry prefix tok zs c
      | (Inr rs, c) \<Rightarrow>
          (case clean_records s dry prefix tok z rs c of
             (rows, c) \<Rightarrow> (case clean_zones s dry prefix tok zs c of (rows', c) \<Rightarrow> (rows @ rows', c))))"

fun clean_tokens :: "('c, 'j) cf \<Rightarrow> bool \<Rightarrow> string \<Rightarrow> string set \<Rightarrow> account_cfg list \<Rightarrow> 'c \<Rightarrow> clean_row list \<times> 'c" where
  "clean_tokens s dry prefix seen [] c = ([], c)"
| "clean_tokens s dry prefix seen (a # as) c =
     (if ac_Token a \<in> seen then clean_tokens s dry prefix seen as c
      else (case ListZones s (ac_Token a) c of
              (Inl _, c) \<Rightarrow> clean_tokens s dry prefix (insert (ac_Token a) seen) as c
            | (Inr zs, c) \<Rightarrow>
                (case clean_zones s dry prefix (ac_Token a) zs c of
                   (rows, c) \<Rightarrow>
                     (case clean_tokens s dry prefix (insert (ac_Token a) seen) as c of (rows', c) \<Rightarrow> (rows @ rows', c)))))"

definition clean_refused :: "config \<Rightarrow> ctl_err option" where
  "clean_refused cfg =
     (if Worker_NamePrefix cfg = [] then Some PrefixEmpty
      else if Worker_NamePrefixDefaulted cfg then Some PrefixDefaulted
      else if length (Worker_NamePrefix cfg) < 3 then Some PrefixShort
      else None)"

definition runCleanCore ::
  "('c, 'j, 'b) cenv \<Rightarrow> bool \<Rightarrow> ('c, 'b) ctl \<Rightarrow> (ctl_err + string list \<times> clean_row list) \<times> ('c, 'b) ctl" where
  "runCleanCore E dry ct =
     (let cfg = ct_cfg ct
      in case clean_refused cfg of
           Some e \<Rightarrow> (Inl e, ct)
         | None \<Rightarrow>
             (case list_in E ct of
                (_, ws, ct1) \<Rightarrow>
                  (let ct2 = (if dry then ct1 else snd (destroy_in E cfg ct1))
                   in case clean_tokens (ce_service E) dry (Worker_NamePrefix cfg) {} (Accounts cfg) (pl_cloud (ct_plane ct2)) of
                        (rows, c) \<Rightarrow> (Inr (map Name ws, rows), with_service c (pl_store (ct_plane ct2)) ct2))))"

definition Clean_hook ::
  "('c, 'j, 'b) cenv \<Rightarrow> bool \<Rightarrow> ('c, 'b) ctl \<Rightarrow> (ctl_err + string list \<times> clean_row list) \<times> ('c, 'b) ctl" where
  "Clean_hook E dry ct =
     (case runCleanCore E dry ct of
        (Inl e, ct') \<Rightarrow> (Inl e, ct')
      | (Inr r, ct') \<Rightarrow> (Inr r, if dry then ct' else empty_pool ct'))"

section \<open>Start of the server and the commands\<close>

definition initial_quotas :: "time \<Rightarrow> config \<Rightarrow> heap \<Rightarrow> pool \<Rightarrow> pool" where
  "initial_quotas now cfg h p =
     (let limit = Quota_DailyLimit cfg;
          q1 = fold (\<lambda>a q. if ac_ID a \<noteq> [] then q(ac_ID a \<mapsto> NewQuota now (ac_ID a) limit) else q) (Accounts cfg) Map.empty;
          q2 = fold (\<lambda>w q. if AccountID (h w) = [] \<or> q (AccountID (h w)) \<noteq> None then q
                           else q(AccountID (h w) \<mapsto> NewQuota now (AccountID (h w)) limit)) (pool_All p) q1
      in SetQuotas q2 p)"

definition rec_of_listed :: "worker \<Rightarrow> worker_rec" where
  "rec_of_listed w =
     \<lparr>wr_Name = Name w, wr_AccountID = AccountID w, wr_URL = URL w, wr_CreatedAt = CreatedAt w, wr_Requests = 0,
      wr_Backend = Backend w, wr_Hostname = Hostname w, wr_ZoneID = ZoneID w, wr_RecordID = RecordID w\<rparr>"

text \<open>The workers a server starts with: those of the store; when there are none, those of the accounts; when there are none either and it
  may deploy, new ones.\<close>

definition find_workers :: "('c, 'j, 'b) cenv \<Rightarrow> config \<Rightarrow> 'b store \<Rightarrow> 'c \<Rightarrow> (dep_err + worker list) \<times> 'b store \<times> 'c" where
  "find_workers E cfg st c =
     (case LoadFromState (pe_ops (ce_pe E)) (pe_codec (ce_pe E)) (ce_url_host E) (ce_now E) st of
        Inr (w # ws) \<Rightarrow> (Inr (w # ws), st, c)
      | _ \<Rightarrow>
          (case ListAll cfg (ce_now E) (picks E cfg) c of
             (Some e, _, c) \<Rightarrow> (Inl e, st, c)
           | (None, ws, c) \<Rightarrow>
               (Inr ws, fold (\<lambda>w st. snd (PutWorker (pe_ops (ce_pe E)) (pe_codec (ce_pe E)) (pe_commit (ce_pe E)) (rec_of_listed w) st)) ws st, c)))"

definition more_workers ::
  "('c, 'j, 'b) cenv \<Rightarrow> bool \<Rightarrow> config \<Rightarrow> worker list \<Rightarrow> 'b store \<Rightarrow> 'c \<Rightarrow> (ctl_err + worker list) \<times> config \<times> 'b store option \<times> 'c" where
  "more_workers E autoDeploy cfg ws st c =
     (if ws = [] \<and> autoDeploy then
        (if \<not> ValidateForDeploy cfg then (Inl NothingConfigured, cfg, Some st, c)
         else (case resolveBareTokens (ce_service E) (ce_subs E) cfg c of
                 (Some e, cfg', c) \<Rightarrow> (Inl (Discovery e), cfg', Some st, c)
               | (None, cfg', c) \<Rightarrow>
                   (case DeployAll (render_of E cfg') (denv_of E cfg') (picks E cfg') c (Some st) of
                      (Some e, dp) \<Rightarrow> (Inl (DeployErr e), cfg', dp_store dp, dp_cloud dp)
                    | (None, dp) \<Rightarrow> (Inr (dp_workers dp), cfg', dp_store dp, dp_cloud dp))))
      else if Tokens cfg \<noteq> [] \<and> Accounts cfg = [] then
        (case resolveBareTokens (ce_service E) (ce_subs E) cfg c of (_, cfg', c) \<Rightarrow> (Inr ws, cfg', Some st, c))
      else (Inr ws, cfg, Some st, c))"

text \<open>The pool over the workers, their quotas, and the calls for the quota of today and the names of the accounts.\<close>

definition boot :: "('c, 'j, 'b) cenv \<Rightarrow> config \<Rightarrow> worker list \<Rightarrow> 'b store option \<Rightarrow> 'c \<Rightarrow> ('c, 'b) ctl" where
  "boot E cfg ws st c =
     (let h = (\<lambda>i. if i < length ws then ws ! i else hd ws);
          p = initial_quotas (ce_now E) cfg h (pool_New [0..<length ws]);
          keys = remdups (filter (\<lambda>k. k \<noteq> []) (map ac_ID (Accounts cfg) @ map AccountID ws));
          qc = (if Quota_SeedFromCloudflare cfg then seedQuotaFromCF (ce_service E) (ce_now E) cfg keys (quotas p) c else (quotas p, c));
          c' = snd (lookupAccountNames (ce_service E) cfg (snd qc))
      in \<lparr>ct_cfg = cfg, ct_plane = \<lparr>pl_cloud = c', pl_store = st, pl_heap = h, pl_pool = SetQuotas (fst qc) p, pl_fresh = length ws\<rparr>\<rparr>)"

definition serve_start ::
  "('c, 'j, 'b) cenv \<Rightarrow> bool \<Rightarrow> string \<Rightarrow> config \<Rightarrow> 'b store \<Rightarrow> 'c \<Rightarrow> ctl_err + ('c, 'b) ctl" where
  "serve_start E autoDeploy mode cfg0 st c =
     (let cfg = (if mode = [] then cfg0 else cfg0\<lparr>Pool_ProxyMode := mode\<rparr>)
      in case find_workers E cfg st c of
           (Inl e, st, c) \<Rightarrow> Inl (ListErr e)
         | (Inr ws, st, c) \<Rightarrow>
             (case more_workers E autoDeploy cfg ws st c of
                (Inl e, _) \<Rightarrow> Inl e
              | (Inr ws, cfg', st', c) \<Rightarrow> if ws = [] then Inl NoWorkerFound else Inr (boot E cfg' ws st' c)))"

text \<open>The commands \<^verbatim>\<open>deploy\<close>, \<^verbatim>\<open>destroy\<close>, \<^verbatim>\<open>seed\<close> and \<^verbatim>\<open>list\<close>, run locally.\<close>

definition runDeploy ::
  "('c, 'j, 'b) cenv \<Rightarrow> int \<Rightarrow> config \<Rightarrow> 'b store \<Rightarrow> 'c \<Rightarrow> (ctl_err + worker list) \<times> 'b store option \<times> 'c" where
  "runDeploy E n cfg st c =
     (if \<not> ValidateForDeploy cfg then (Inl NothingConfigured, Some st, c)
      else (case resolveBareTokens (ce_service E) (ce_subs E) cfg c of
              (Some e, _, c) \<Rightarrow> (Inl (Discovery e), Some st, c)
            | (None, cfg1, c) \<Rightarrow>
                (let cfg2 = (if n > 0 then cfg1\<lparr>Worker_Count := n\<rparr> else cfg1)
                 in case DeployAll (render_of E cfg2) (denv_of E cfg2) (picks E cfg2) c (Some st) of
                      (Some e, dp) \<Rightarrow> (Inl (DeployErr e), dp_store dp, dp_cloud dp)
                    | (None, dp) \<Rightarrow> (Inr (dp_workers dp), dp_store dp, dp_cloud dp))))"

definition runDestroy ::
  "('c, 'j, 'b) cenv \<Rightarrow> config \<Rightarrow> 'b store \<Rightarrow> 'c \<Rightarrow> (ctl_err + worker list) \<times> 'b store option \<times> 'c" where
  "runDestroy E cfg st c =
     (if \<not> ValidateForDeploy cfg then (Inl NothingConfigured, Some st, c)
      else (case resolveBareTokens (ce_service E) (ce_subs E) cfg c of
              (Some e, _, c) \<Rightarrow> (Inl (Discovery e), Some st, c)
            | (None, cfg1, c) \<Rightarrow>
                (case ListAll cfg1 (ce_now E) (picks E cfg1) c of
                   (_, ws, c) \<Rightarrow>
                     (case DestroyAll cfg1 (ce_pe E) (picks E cfg1) c (Some st) of
                        (Some e, c, st) \<Rightarrow> (Inl (DestroyErr e), st, c)
                      | (None, c, st) \<Rightarrow> (Inr ws, st, c)))))"

definition runSeed :: "('c, 'j, 'b) cenv \<Rightarrow> string \<Rightarrow> string \<Rightarrow> string \<Rightarrow> 'b store \<Rightarrow> store_err option \<times> 'b store" where
  "runSeed E name account url st =
     PutWorker (pe_ops (ce_pe E)) (pe_codec (ce_pe E)) (pe_commit (ce_pe E))
       \<lparr>wr_Name = name, wr_AccountID = account, wr_URL = url, wr_CreatedAt = ce_now E, wr_Requests = 0, wr_Backend = [],
        wr_Hostname = [], wr_ZoneID = [], wr_RecordID = []\<rparr> st"

definition runList :: "('c, 'j, 'b) cenv \<Rightarrow> config \<Rightarrow> 'c \<Rightarrow> (ctl_err + worker list) \<times> 'c" where
  "runList E cfg c =
     (case resolveBareTokens (ce_service E) (ce_subs E) cfg c of
        (Some e, _, c) \<Rightarrow> (Inl (Discovery e), c)
      | (None, cfg1, c) \<Rightarrow>
          (case ListAll cfg1 (ce_now E) (picks E cfg1) c of
             (Some e, _, c) \<Rightarrow> (Inl (ListErr e), c)
           | (None, ws, c) \<Rightarrow> (Inr ws, c)))"

text \<open>A command runs against the admin server when no configuration file was named and a login exists.\<close>

definition preferRemote :: "bool \<Rightarrow> bool \<Rightarrow> bool" where
  "preferRemote config_set logged_in = (if config_set then False else logged_in)"

definition dispatch :: "'a \<Rightarrow> 'a \<Rightarrow> bool \<Rightarrow> bool \<Rightarrow> 'a" where
  "dispatch locally remotely config_set logged_in = (if preferRemote config_set logged_in then remotely else locally)"

definition deriveSessionSecret :: "crypto \<Rightarrow> string \<Rightarrow> bytes" where
  "deriveSessionSecret cr hmacSecret = cr_sha256 cr (bytes_of (hmacSecret @ '':admin-session''))"

definition isExpectedShutdownErr :: "string option \<Rightarrow> bool" where
  "isExpectedShutdownErr err =
     (case err of
        None \<Rightarrow> False
      | Some s \<Rightarrow> contains_str s ''use of closed network connection'' \<or> contains_str s ''Server closed'' \<or> contains_str s ''context canceled'')"

section \<open>What the admin server may show of the configuration\<close>

datatype shown = SStr string | SInt int | SBool bool | SRat rat | SPort port_any | SList "shown list" | SMap "(string \<times> shown) list"

definition mask :: "string \<Rightarrow> string" where
  "mask s = (if s = [] then [] else ''****'')"

definition adminAuthMode :: "config \<Rightarrow> string" where
  "adminAuthMode c =
     (if Admin_Token c \<noteq> [] then ''bearer'' else if Admin_APIKey c \<noteq> [] then ''api_key''
      else if Admin_BasicUser c \<noteq> [] then ''basic'' else ''none'')"

text \<open>The dump that \<^verbatim>\<open>sanitizedConfig\<close> builds; the structs it passes on whole are maps of their fields.\<close>

definition show_account :: "account_cfg \<Rightarrow> shown" where
  "show_account a = SMap [(''id'', SStr (ac_ID a)), (''token'', SStr (mask (ac_Token a))), (''subdomain'', SStr (ac_Subdomain a))]"

definition show_filter :: "config \<Rightarrow> shown" where
  "show_filter c = SMap [(''DenyCIDRs'', SList (map SStr (Filter_DenyCIDRs c))), (''AllowPorts'', SList (map SPort (Filter_AllowPorts c)))]"

definition show_pool :: "config \<Rightarrow> shown" where
  "show_pool c = SMap
     [(''Strategy'', SStr (Pool_Strategy c)), (''MaxRetries'', SInt (Pool_MaxRetries c)), (''BackoffMs'', SInt (Pool_BackoffMs c)),
      (''HedgeAfterMs'', SInt (Pool_HedgeAfterMs c)), (''GoroutineSize'', SInt (Pool_GoroutineSize c)), (''ProxyMode'', SStr (Pool_ProxyMode c)),
      (''DisableProbe'', SBool (Pool_DisableProbe c)), (''TLSRewrap'', SBool (Pool_TLSRewrap c))]"

definition sanitizedConfig :: "(timeouts \<Rightarrow> string) \<Rightarrow> config \<Rightarrow> (string \<times> shown) list" where
  "sanitizedConfig timeouts_string c =
     [(''log'', SMap [(''level'', SStr (Log_Level c)), (''json'', SBool (Log_JSON c))]),
      (''listen'', SMap [(''socks5'', SStr (Listen_Socks5 c)), (''http'', SStr (Listen_HTTP c)), (''auth_user'', SStr (Listen_AuthUser c)),
         (''auth_pass'', SStr (mask (Listen_AuthPass c)))]),
      (''tokens_count'', SInt (int (length (Tokens c)))),
      (''accounts'', SList (map show_account (Accounts c))),
      (''worker'', SMap [(''name_prefix'', SStr (Worker_NamePrefix c)), (''count'', SInt (Worker_Count c)), (''deploy_backend'', SStr (Worker_DeployBackend c)),
         (''rotate_interval_sec'', SInt (Worker_RotateIntervalS c)), (''rotate_max_age_sec'', SInt (Worker_RotateMaxAgeSec c)),
         (''rotate_max_req'', SInt (uint (Worker_RotateMaxReq c))), (''prefer_ipv4'', SBool (Worker_PreferIPv4 c))]),
      (''filter'', show_filter c),
      (''pool'', show_pool c),
      (''rate_limit'', SMap [(''PerHostQPS'', SRat (RateLimit_PerHostQPS c)), (''PerHostBurst'', SInt (RateLimit_PerHostBurst c))]),
      (''admin'', SMap [(''addr'', SStr (Admin_Addr c)), (''enable_pprof'', SBool (Admin_EnablePprof c)), (''auth'', SStr (adminAuthMode c))]),
      (''state'', SMap [(''Path'', SStr (State_Path c))]),
      (''quota'', SMap [(''DailyLimit'', SInt (uint (Quota_DailyLimit c))), (''WarnPercent'', SInt (Quota_WarnPercent c)),
         (''SeedFromCloudflare'', SBool (Quota_SeedFromCloudflare c))]),
      (''alerts'', SMap [(''cooldown_sec'', SInt (Alerts_CooldownSec c)), (''http_webhooks'', SInt (int (length (Alerts_HTTPWebhooks c)))),
         (''discord'', SBool (Alerts_DiscordURL c \<noteq> []))]),
      (''tracing'', SMap [(''Endpoint'', SStr (Tracing_Endpoint c)), (''Insecure'', SBool (Tracing_Insecure c))]),
      (''timeouts'', SStr (timeouts_string (ResolvedTimeouts c)))]"

section \<open>The dump keeps the secrets\<close>

text \<open>Two configurations that differ in secrets only: which ones are set agrees, their values need not.\<close>

definition same_account :: "account_cfg \<Rightarrow> account_cfg \<Rightarrow> bool" where
  "same_account a b \<longleftrightarrow> ac_ID a = ac_ID b \<and> ac_Subdomain a = ac_Subdomain b \<and> (ac_Token a = []) = (ac_Token b = [])"

definition differ_in_secrets :: "config \<Rightarrow> config \<Rightarrow> bool" where
  "differ_in_secrets c d \<longleftrightarrow>
     (\<exists>pass toks accs sec tok key user pw totp hooks url name.
        d = c\<lparr>Listen_AuthPass := pass, Tokens := toks, Accounts := accs, Security_HMACSecret := sec, Admin_Token := tok, Admin_APIKey := key,
              Admin_BasicUser := user, Admin_BasicPass := pw, Admin_TOTPSecret := totp, Alerts_HTTPWebhooks := hooks, Alerts_DiscordURL := url,
              Alerts_DiscordName := name\<rparr> \<and>
        (pass = []) = (Listen_AuthPass c = []) \<and> length toks = length (Tokens c) \<and> list_all2 same_account (Accounts c) accs \<and>
        (tok = []) = (Admin_Token c = []) \<and> (key = []) = (Admin_APIKey c = []) \<and> (user = []) = (Admin_BasicUser c = []) \<and>
        length hooks = length (Alerts_HTTPWebhooks c) \<and> (url = []) = (Alerts_DiscordURL c = []))"

lemma differ_in_secretsI:
  assumes "d = c\<lparr>Listen_AuthPass := pass, Tokens := toks, Accounts := accs, Security_HMACSecret := sec, Admin_Token := tok, Admin_APIKey := key,
      Admin_BasicUser := user, Admin_BasicPass := pw, Admin_TOTPSecret := totp, Alerts_HTTPWebhooks := hooks, Alerts_DiscordURL := url,
      Alerts_DiscordName := name\<rparr>"
    and "(pass = []) = (Listen_AuthPass c = [])" "length toks = length (Tokens c)" "list_all2 same_account (Accounts c) accs"
    "(tok = []) = (Admin_Token c = [])" "(key = []) = (Admin_APIKey c = [])" "(user = []) = (Admin_BasicUser c = [])"
    "length hooks = length (Alerts_HTTPWebhooks c)" "(url = []) = (Alerts_DiscordURL c = [])"
  shows "differ_in_secrets c d"
  unfolding differ_in_secrets_def using assms by blast

lemma mask_eq: "(s = []) = (t = []) \<Longrightarrow> mask s = mask t"
  by (simp add: mask_def)

lemma show_accounts_same: "list_all2 same_account as bs \<Longrightarrow> map show_account as = map show_account bs"
  by (induction rule: list_all2_induct) (auto simp: same_account_def show_account_def mask_def)

text \<open>
  C20. The configuration dump of the admin server leaks no secret. Whatever the proxy password, the tokens, the HMAC secret, the admin token, key, user, password and TOTP secret, the
  webhooks and their headers are, the dump is the same as long as the same ones are set.
\<close>

theorem sanitizedConfig_hides:
  assumes "differ_in_secrets c d"
  shows "sanitizedConfig ts c = sanitizedConfig ts d"
proof -
  from assms obtain pass toks accs sec tok key user pw totp hooks url name where
    d: "d = c\<lparr>Listen_AuthPass := pass, Tokens := toks, Accounts := accs, Security_HMACSecret := sec, Admin_Token := tok, Admin_APIKey := key,
              Admin_BasicUser := user, Admin_BasicPass := pw, Admin_TOTPSecret := totp, Alerts_HTTPWebhooks := hooks, Alerts_DiscordURL := url,
              Alerts_DiscordName := name\<rparr>"
    and s: "(pass = []) = (Listen_AuthPass c = [])" "length toks = length (Tokens c)" "list_all2 same_account (Accounts c) accs"
      "(tok = []) = (Admin_Token c = [])" "(key = []) = (Admin_APIKey c = [])" "(user = []) = (Admin_BasicUser c = [])"
      "length hooks = length (Alerts_HTTPWebhooks c)" "(url = []) = (Alerts_DiscordURL c = [])"
    unfolding differ_in_secrets_def by blast
  have public:
    "Log_Level d = Log_Level c" "Log_JSON d = Log_JSON c" "Listen_Socks5 d = Listen_Socks5 c" "Listen_HTTP d = Listen_HTTP c"
    "Listen_AuthUser d = Listen_AuthUser c" "Worker_NamePrefix d = Worker_NamePrefix c" "Worker_Count d = Worker_Count c"
    "Worker_DeployBackend d = Worker_DeployBackend c" "Worker_RotateIntervalS d = Worker_RotateIntervalS c"
    "Worker_RotateMaxAgeSec d = Worker_RotateMaxAgeSec c" "Worker_RotateMaxReq d = Worker_RotateMaxReq c" "Worker_PreferIPv4 d = Worker_PreferIPv4 c"
    "Filter_DenyCIDRs d = Filter_DenyCIDRs c" "Filter_AllowPorts d = Filter_AllowPorts c" "Pool_Strategy d = Pool_Strategy c"
    "Pool_MaxRetries d = Pool_MaxRetries c" "Pool_BackoffMs d = Pool_BackoffMs c" "Pool_HedgeAfterMs d = Pool_HedgeAfterMs c"
    "Pool_GoroutineSize d = Pool_GoroutineSize c" "Pool_ProxyMode d = Pool_ProxyMode c" "Pool_DisableProbe d = Pool_DisableProbe c"
    "Pool_TLSRewrap d = Pool_TLSRewrap c" "RateLimit_PerHostQPS d = RateLimit_PerHostQPS c" "RateLimit_PerHostBurst d = RateLimit_PerHostBurst c"
    "Admin_Addr d = Admin_Addr c" "Admin_EnablePprof d = Admin_EnablePprof c" "State_Path d = State_Path c" "Quota_DailyLimit d = Quota_DailyLimit c"
    "Quota_WarnPercent d = Quota_WarnPercent c" "Quota_SeedFromCloudflare d = Quota_SeedFromCloudflare c"
    "Alerts_CooldownSec d = Alerts_CooldownSec c" "Tracing_Endpoint d = Tracing_Endpoint c" "Tracing_Insecure d = Tracing_Insecure c"
    "ResolvedTimeouts d = ResolvedTimeouts c"
    by (simp_all add: d)
  have auth: "adminAuthMode d = adminAuthMode c" using s by (simp add: d adminAuthMode_def)
  have secret: "mask (Listen_AuthPass d) = mask (Listen_AuthPass c)" "length (Tokens d) = length (Tokens c)"
    "map show_account (Accounts d) = map show_account (Accounts c)" "length (Alerts_HTTPWebhooks d) = length (Alerts_HTTPWebhooks c)"
    "(Alerts_DiscordURL d = []) = (Alerts_DiscordURL c = [])"
    using s mask_eq [OF s(1)] show_accounts_same [OF s(3)] by (simp_all add: d)
  show ?thesis unfolding sanitizedConfig_def show_filter_def show_pool_def public auth secret by (rule refl)
qed

theorem sanitizedConfig_hides_witness:
  "sanitizedConfig (\<lambda>_. []) (fleet_config\<lparr>Admin_Token := ''one''\<rparr>) =
   sanitizedConfig (\<lambda>_. []) (fleet_config\<lparr>Admin_Token := ''one'', Listen_AuthPass := [], Tokens := [], Accounts := [fleet_account\<lparr>ac_Token := ''t2''\<rparr>],
     Security_HMACSecret := ''k2'', Admin_Token := ''two'', Admin_APIKey := [], Admin_BasicUser := [], Admin_BasicPass := [], Admin_TOTPSecret := [],
     Alerts_HTTPWebhooks := [], Alerts_DiscordURL := [], Alerts_DiscordName := []\<rparr>)"
proof (rule sanitizedConfig_hides)
  let ?c = "fleet_config\<lparr>Admin_Token := ''one''\<rparr>"
  have "list_all2 same_account (Accounts ?c) [fleet_account\<lparr>ac_Token := ''t2''\<rparr>]"
    by (simp add: fleet_config_def same_account_def fleet_account_def)
  moreover have "Listen_AuthPass ?c = []" "Tokens ?c = []" "Admin_Token ?c \<noteq> []" "Admin_APIKey ?c = []" "Admin_BasicUser ?c = []"
    "Alerts_HTTPWebhooks ?c = []" "Alerts_DiscordURL ?c = []"
    by (simp_all add: fleet_config_def empty_config_def)
  ultimately show "differ_in_secrets ?c (?c\<lparr>Listen_AuthPass := [], Tokens := [], Accounts := [fleet_account\<lparr>ac_Token := ''t2''\<rparr>],
     Security_HMACSecret := ''k2'', Admin_Token := ''two'', Admin_APIKey := [], Admin_BasicUser := [], Admin_BasicPass := [], Admin_TOTPSecret := [],
     Alerts_HTTPWebhooks := [], Alerts_DiscordURL := [], Alerts_DiscordName := []\<rparr>)"
    by (intro differ_in_secretsI [OF refl]) simp_all
qed

end
