(* ===== verification/Control_Laws.thy ===== *)
theory Control_Laws
  imports Control_Plane
begin

text \<open>
  What the operations of \<open>Control_Plane\<close> keep and do: an invariant that ties the pool to the quotas, proved for every state the process can reach from its start;
  removal of a token; and the dry run of the cleaner, which only reads.
\<close>

section \<open>The pool of the process\<close>

lemma pool_load_Add [simp]: "pool_load (pool_Add w p) = pool_load p @ [w]"
  by (simp add: pool_Add_def pool_store_def pool_load_def)

lemma pool_load_SetQuotas [simp]: "pool_load (SetQuotas q p) = pool_load p"
  by (simp add: SetQuotas_def pool_load_def)

lemma quotas_frame [simp]: "quotas (pool_Add w p) = quotas p" "quotas (pool_Remove w p) = quotas p" "quotas (SetQuotas q p) = q"
  "quotas (pool_Replace v w p) = quotas p"
  by (simp_all add: pool_Add_def pool_Remove_def pool_Replace_def pool_store_def SetQuotas_def Let_def split: option.split)

lemma pool_load_ensure [simp]: "pool_load (ensure_quota now cfg acc p) = pool_load p"
  by (simp add: ensure_quota_def)

lemma quotas_ensure: "quotas (ensure_quota now cfg acc p) x = None \<longleftrightarrow> quotas p x = None \<and> x \<noteq> acc"
  by (auto simp: ensure_quota_def)

lemma remove_at: "distinct xs \<Longrightarrow> find_idx w xs = Some i \<Longrightarrow> take i xs @ drop (Suc i) xs = filter (\<lambda>x. x \<noteq> w) xs"
proof (induction xs arbitrary: i)
  case (Cons x xs)
  show ?case
  proof (cases "x = w")
    case True
    then have "filter (\<lambda>x. x \<noteq> w) xs = xs" using Cons.prems by (auto simp: filter_id_conv)
    then show ?thesis using True Cons.prems by auto
  next
    case False
    with Cons show ?thesis by auto
  qed
qed simp

lemma pool_load_Remove: "distinct (pool_load p) \<Longrightarrow> pool_load (pool_Remove w p) = filter (\<lambda>x. x \<noteq> w) (pool_load p)"
proof (cases "find_idx w (pool_load p)")
  case None
  then have "filter (\<lambda>x. x \<noteq> w) (pool_load p) = pool_load p" by (auto simp: find_idx_None filter_id_conv)
  then show ?thesis using None by (simp add: pool_Remove_def Let_def)
next
  case (Some i)
  moreover assume "distinct (pool_load p)"
  ultimately show ?thesis using remove_at [of "pool_load p" w i] by (simp add: pool_Remove_def Let_def pool_store_def pool_load_def)
qed

lemma pool_load_remove_all:
  "distinct (pool_load p) \<Longrightarrow> pool_load (remove_all ws p) = filter (\<lambda>x. x \<notin> set ws) (pool_load p)"
  unfolding remove_all_def by (induction ws arbitrary: p) (auto simp: pool_load_Remove filter_filter intro: filter_cong)

lemma quotas_remove_all [simp]: "quotas (remove_all ws p) = quotas p"
  unfolding remove_all_def by (induction ws arbitrary: p) simp_all

lemma add_to_pool_frame [simp]:
  "pl_cloud (add_to_pool ws pl) = pl_cloud pl" "pl_store (add_to_pool ws pl) = pl_store pl"
  "pl_fresh (add_to_pool ws pl) = pl_fresh pl + length ws" "quotas (pl_pool (add_to_pool ws pl)) = quotas (pl_pool pl)"
  "pool_load (pl_pool (add_to_pool ws pl)) = pool_load (pl_pool pl) @ [pl_fresh pl ..< pl_fresh pl + length ws]"
  by (induction ws arbitrary: pl) (simp_all add: upt_conv_Cons del: upt_Suc)

lemma add_to_pool_heap:
  "pl_heap (add_to_pool ws pl) r =
     (if pl_fresh pl \<le> r \<and> r < pl_fresh pl + length ws then ws ! (r - pl_fresh pl) else pl_heap pl r)"
  by (induction ws arbitrary: pl) (auto simp: nth_Cons' Suc_diff_Suc)

section \<open>The invariant\<close>

text \<open>The workers of the pool are different objects, older than the next one, and each account they belong to has a quota.\<close>

definition ctl_ok :: "('c, 'b) ctl \<Rightarrow> bool" where
  "ctl_ok ct \<longleftrightarrow>
     (let pl = ct_plane ct; ws = pool_load (pl_pool pl)
      in distinct ws \<and> list_all (\<lambda>w. w < pl_fresh pl) ws \<and>
         list_all (\<lambda>w. AccountID (pl_heap pl w) = [] \<or> quotas (pl_pool pl) (AccountID (pl_heap pl w)) \<noteq> None) ws)"

lemma ctl_ok_with_service [simp]: "ctl_ok (with_service c st ct) = ctl_ok ct"
  by (simp add: ctl_ok_def with_service_def Let_def)

lemma ctl_ok_cfg [simp]: "ctl_ok (ct\<lparr>ct_cfg := cfg\<rparr>) = ctl_ok ct"
  by (simp add: ctl_ok_def Let_def)

text \<open>Removing workers from the pool keeps it.\<close>

lemma ctl_ok_remove: "ctl_ok ct \<Longrightarrow> ctl_ok (set_pool (remove_all ws (pl_pool (ct_plane ct))) ct)"
  by (auto simp: ctl_ok_def set_pool_def Let_def pool_load_remove_all list_all_iff)

definition deploys_for :: "string \<Rightarrow> 'c backend \<Rightarrow> bool" where
  "deploys_for acc b \<longleftrightarrow> (\<forall>n sc c d c'. be_Deploy b n sc c = (Inr d, c') \<longrightarrow> de_AccountID d = acc)"

lemma deploys_forD: "deploys_for acc b \<Longrightarrow> be_Deploy b n sc c = (Inr d, c') \<Longrightarrow> de_AccountID d = acc"
  unfolding deploys_for_def by blast

lemma Pick_deploys_for:
  assumes "Pick s mode acc tok sub c = (Inr bs, c')" "b \<in> set bs"
  shows "deploys_for acc b"
proof -
  have "deploys_for acc (NewWorkersDev s acc tok sub)"
    by (auto simp: deploys_for_def NewWorkersDev_def workers_dev_Deploy_def calling_def workers_dev_deployed_def split: prod.splits sum.splits)
  moreover have "deploys_for acc (NewCustomDomain s acc tok z)" for z
    by (auto simp: deploys_for_def NewCustomDomain_def custom_Deploy_def calling_def custom_deployed_def Let_def split: prod.splits sum.splits)
  moreover have "b \<in> {NewWorkersDev s acc tok sub} \<union> range (NewCustomDomain s acc tok)"
    using assms(1,2) by (auto simp: Pick_def calling_def split: prod.splits sum.splits if_splits list.splits)
  ultimately show ?thesis by blast
qed

definition of_account :: "string \<Rightarrow> ('c, 'b) dep \<Rightarrow> bool" where
  "of_account acc dp \<longleftrightarrow> list_all (\<lambda>w. AccountID w = acc) (dp_workers dp)"

lemma of_account_frame [simp]:
  "of_account acc (start_dep c st)" "of_account acc (dp\<lparr>dp_cloud := c\<rparr>) = of_account acc dp"
  by (simp_all add: of_account_def start_dep_def)

lemma deploy_job_of_account:
  "deploys_for acc b \<Longrightarrow> of_account acc dp \<Longrightarrow> of_account acc (deploy_job dv b dp)"
  by (auto simp: deploy_job_def add_worker_def of_account_def Let_def workerFromDeployed_def NewWorker_def dest: deploys_forD split: prod.splits sum.splits)

lemma deploy_jobs_of_account:
  assumes "\<forall>b \<in> set bs. deploys_for acc b" "of_account acc dp"
  shows "of_account acc (foldl (\<lambda>dp b. (deploy_job dv b ^^ k) dp) dp bs)"
  using assms
proof (induction bs arbitrary: dp)
  case (Cons b bs)
  have "of_account acc ((deploy_job dv b ^^ i) dp)" for i
    by (induction i) (use Cons.prems in \<open>simp_all add: deploy_job_of_account\<close>)
  with Cons show ?case by simp
qed simp

lemma DeployOnAccount_of_account:
  assumes "DeployOnAccount rendered dv (pick_of s cfg) a cnt c st = (e, dp)"
  shows "of_account (ac_ID a) dp"
proof (cases rendered)
  case None
  then show ?thesis using assms by (auto simp: DeployOnAccount_def Let_def)
next
  case (Some script)
  obtain q c1 where p: "pick_of s cfg a c = (q, c1)" by force
  show ?thesis
  proof (cases q)
    case (Inl x)
    then show ?thesis using assms p Some by (auto simp: DeployOnAccount_def Let_def)
  next
    case (Inr bs)
    then have "\<forall>b \<in> set bs. deploys_for (ac_ID a) b" using Pick_deploys_for p unfolding pick_of_def by fastforce
    then show ?thesis using assms p Some Inr by (auto simp: DeployOnAccount_def Let_def intro!: deploy_jobs_of_account)
  qed
qed

lemma deploy_on_ok:
  assumes "ctl_ok ct" "deploy_on E a cnt ct = (r, ct')"
  shows "ctl_ok ct'"
proof -
  obtain e dp where d: "DeployOnAccount (render_of E (ct_cfg ct)) (denv_of E (ct_cfg ct)) (picks E (ct_cfg ct)) a cnt (pl_cloud (ct_plane ct))
      (pl_store (ct_plane ct)) = (e, dp)" by force
  show ?thesis
  proof (cases e)
    case (Some x)
    then show ?thesis using assms d by (auto simp: deploy_on_def Let_def)
  next
    case None
    have acc: "list_all (\<lambda>w. AccountID w = ac_ID a) (dp_workers dp)"
      using DeployOnAccount_of_account [OF d [unfolded picks_def]] by (simp add: of_account_def)
    let ?pl = "ct_plane (with_service (dp_cloud dp) (dp_store dp) ct)"
    have pl: "pl_pool ?pl = pl_pool (ct_plane ct)" "pl_heap ?pl = pl_heap (ct_plane ct)" "pl_fresh ?pl = pl_fresh (ct_plane ct)"
      by (simp_all add: with_service_def)
    have ct': "ct_plane ct' = (add_to_pool (dp_workers dp) ?pl)\<lparr>pl_pool := ensure_quota (ce_now E) (ct_cfg ct) (ac_ID a) (pl_pool (add_to_pool (dp_workers dp) ?pl))\<rparr>"
      using assms(2) d None by (auto simp: deploy_on_def Let_def)
    have at: "dp_workers dp ! i \<in> set (dp_workers dp)" if "i < length (dp_workers dp)" for i using that by simp
    have new: "AccountID (dp_workers dp ! (r - pl_fresh (ct_plane ct))) = ac_ID a"
      if "pl_fresh (ct_plane ct) \<le> r" "r < pl_fresh (ct_plane ct) + length (dp_workers dp)" for r
      using acc that at [of "r - pl_fresh (ct_plane ct)"] by (auto simp: list_all_iff)
    show ?thesis
      using assms(1) unfolding ctl_ok_def ct' Let_def
      by (auto simp: pl list_all_iff add_to_pool_heap quotas_ensure new not_None_eq [symmetric] simp del: not_None_eq)
  qed
qed

lemma DeployMore_ok: "ctl_ok ct \<Longrightarrow> DeployMore E acc cnt ct = (r, ct') \<Longrightarrow> ctl_ok ct'"
  using deploy_on_ok by (fastforce simp: DeployMore_def split: option.splits prod.splits sum.splits)

lemma add_accounts_ok: "ctl_ok ct \<Longrightarrow> add_accounts E cnt ds names ct = (r, ct') \<Longrightarrow> ctl_ok ct'"
proof (induction ds arbitrary: names ct)
  case (Cons d ds)
  obtain q ct1 where d: "deploy_on E (account_of_details d) cnt ct = (q, ct1)" by force
  then have ok: "ctl_ok ct1" using deploy_on_ok Cons.prems(1) by blast
  show ?case
  proof (cases q)
    case (Inl e)
    then show ?thesis using Cons.prems d ok by simp
  next
    case (Inr ns)
    with Cons.prems(2) d have rest: "add_accounts E cnt ds (names @ ns)
        (ct1\<lparr>ct_cfg := (ct_cfg ct1)\<lparr>Accounts := Accounts (ct_cfg ct1) @ [account_of_details d]\<rparr>\<rparr>) = (r, ct')" by simp
    from Cons.IH [OF _ rest] ok show ?thesis by simp
  qed
qed simp

lemma AddToken_ok: "ctl_ok ct \<Longrightarrow> AddToken E tok cnt ct = (r, ct') \<Longrightarrow> ctl_ok ct'"
  by (auto simp: AddToken_def Let_def intro: add_accounts_ok [rotated] split: if_splits option.splits prod.splits sum.splits)

lemma destroy_in_ok [simp]: "ctl_ok (snd (destroy_in E cfg ct)) = ctl_ok ct"
  by (simp add: destroy_in_def split: prod.split)

lemma list_in_ok: "list_in E ct = (e, ws, ct') \<Longrightarrow> ctl_ok ct' = ctl_ok ct"
  by (auto simp: list_in_def split: prod.splits)

lemma mark_unhealthy_frame [simp]: "AccountID (mark_unhealthy ws h w) = AccountID (h w)" "Name (mark_unhealthy ws h w) = Name (h w)"
  unfolding mark_unhealthy_def by (induction ws arbitrary: h) auto

lemma remove_account_ok: "ctl_ok (snd s) \<Longrightarrow> ctl_ok (snd (remove_account E a s))"
proof -
  assume ok: "ctl_ok (snd s)"
  let ?ct = "snd s" and ?pl = "ct_plane (snd s)"
  let ?ws = "ByAccount (pl_heap ?pl) (pl_pool ?pl) (ac_ID a)"
  let ?ct1 = "?ct\<lparr>ct_plane := ?pl\<lparr>pl_heap := mark_unhealthy ?ws (pl_heap ?pl)\<rparr>\<rparr>"
  have "ctl_ok ?ct1" using ok by (simp add: ctl_ok_def Let_def)
  then have "ctl_ok (snd (destroy_in E ((ct_cfg ?ct)\<lparr>Accounts := [a]\<rparr>) ?ct1))" by simp
  from ctl_ok_remove [OF this] show ?thesis by (simp add: remove_account_def Let_def case_prod_unfold)
qed

lemma RemoveToken_ok: "ctl_ok ct \<Longrightarrow> RemoveToken E acc tok ct = (r, ct') \<Longrightarrow> ctl_ok ct'"
proof -
  have fold_ok: "ctl_ok (snd s) \<Longrightarrow> ctl_ok (snd (fold (remove_account E) as s))" for as s
    by (induction as arbitrary: s) (simp_all add: remove_account_ok)
  show "ctl_ok ct \<Longrightarrow> RemoveToken E acc tok ct = (r, ct') \<Longrightarrow> ctl_ok ct'"
    using fold_ok [of "([], ct)"] by (auto simp: RemoveToken_def Let_def case_prod_unfold split: if_splits)
qed

lemma empty_pool_ok: "ctl_ok ct \<Longrightarrow> ctl_ok (empty_pool ct)"
  unfolding empty_pool_def by (rule ctl_ok_remove)

lemma DestroyAll_hook_ok: "ctl_ok ct \<Longrightarrow> DestroyAll_hook E ct = (r, ct') \<Longrightarrow> ctl_ok ct'"
proof -
  assume ok: "ctl_ok ct" and r: "DestroyAll_hook E ct = (r, ct')"
  obtain e ws ct1 where l: "list_in E ct = (e, ws, ct1)" by (metis prod_cases3)
  obtain f ct2 where d: "destroy_in E (ct_cfg ct1) ct1 = (f, ct2)" by force
  have "ctl_ok ct2" using destroy_in_ok [of E "ct_cfg ct1" ct1] d list_in_ok [OF l] ok by simp
  with r l d empty_pool_ok show "ctl_ok ct'" by (cases f) (auto simp: DestroyAll_hook_def)
qed

lemma runCleanCore_ok: "ctl_ok ct \<Longrightarrow> runCleanCore E dry ct = (r, ct') \<Longrightarrow> ctl_ok ct'"
proof -
  assume ok: "ctl_ok ct" and r: "runCleanCore E dry ct = (r, ct')"
  obtain e ws ct1 where l: "list_in E ct = (e, ws, ct1)" by (metis prod_cases3)
  have "ctl_ok ct1" using list_in_ok [OF l] ok by simp
  with ok r l show "ctl_ok ct'" by (auto simp: runCleanCore_def Let_def split: option.splits prod.splits if_splits)
qed

lemma Clean_hook_ok: "ctl_ok ct \<Longrightarrow> Clean_hook E dry ct = (r, ct') \<Longrightarrow> ctl_ok ct'"
  using runCleanCore_ok empty_pool_ok by (fastforce simp: Clean_hook_def split: prod.splits sum.splits if_splits)

lemma swap_in_ok:
  assumes "ctl_ok ct" "old \<in> set (pool_load (pl_pool (ct_plane ct)))"
  shows "ctl_ok (ct\<lparr>ct_plane := swap_in dv bs old n d ((ct_plane ct)\<lparr>pl_cloud := c\<rparr>)\<rparr>)"
proof -
  let ?pl = "ct_plane ct" and ?ws = "pool_load (pl_pool (ct_plane ct))"
  have old: "old < pl_fresh ?pl" "AccountID (pl_heap ?pl old) = [] \<or> quotas (pl_pool ?pl) (AccountID (pl_heap ?pl old)) \<noteq> None"
    using assms by (auto simp: ctl_ok_def Let_def list_all_iff)
  obtain i where i: "find_idx old ?ws = Some i" using assms(2) find_idx_None by (metis option.exhaust)
  have "pool_load (pool_Replace old (pl_fresh ?pl) (pl_pool ?pl)) = ?ws[i := pl_fresh ?pl]"
    using i by (simp add: pool_Replace_def Let_def pool_store_def pool_load_def)
  moreover have "distinct (?ws[i := pl_fresh ?pl])"
    using assms(1) by (intro distinct_list_update) (auto simp: ctl_ok_def Let_def list_all_iff)
  moreover have mem: "w = pl_fresh ?pl \<or> w \<in> set ?ws" if "w \<in> set (?ws[i := pl_fresh ?pl])" for w
    using set_update_subset_insert that by fast
  moreover have "w < Suc (pl_fresh ?pl)" if "w \<in> set (?ws[i := pl_fresh ?pl])" for w
    using mem [OF that] assms(1) by (auto simp: ctl_ok_def Let_def list_all_iff)
  moreover have "\<exists>y. quotas (pl_pool ?pl) (AccountID (pl_heap ?pl w)) = Some y"
    if "w \<in> set (?ws[i := pl_fresh ?pl])" "w \<noteq> pl_fresh ?pl" "AccountID (pl_heap ?pl w) \<noteq> []" for w
    using mem [OF that(1)] that(2,3) assms(1) by (auto simp: ctl_ok_def Let_def list_all_iff)
  ultimately show ?thesis
    using assms(1) old unfolding ctl_ok_def Let_def list_all_iff
    by (auto simp: swap_in_def Let_def NewWorker_def)
qed

lemma recycleNamedWorker_ok: "ctl_ok ct \<Longrightarrow> recycleNamedWorker E name ct = (r, ct') \<Longrightarrow> ctl_ok ct'"
proof -
  assume ok: "ctl_ok ct" and r: "recycleNamedWorker E name ct = (r, ct')"
  let ?pl = "ct_plane ct"
  show "ctl_ok ct'"
  proof (cases "find (\<lambda>w. Name (pl_heap ?pl w) = name) (pool_All (pl_pool ?pl))")
    case None
    then show ?thesis using r ok by (simp add: recycleNamedWorker_def Let_def)
  next
    case (Some w)
    then have w: "w \<in> set (pool_load (pl_pool ?pl))" by (auto simp: find_Some_iff pool_All_def)
    have cloud: "ctl_ok (ct\<lparr>ct_plane := ?pl\<lparr>pl_cloud := c\<rparr>\<rparr>)" for c using ok by (simp add: ctl_ok_def Let_def)
    have same: "ctl_ok (ct\<lparr>ct_plane := ?pl\<rparr>)" using ok by (simp add: ctl_ok_def Let_def)
    have "ctl_ok (ct\<lparr>ct_plane := pl'\<rparr>)" if "RecyclePublic dv (picks E (ct_cfg ct)) rendered w ?pl = (q, pl')" for dv rendered q pl'
      using that swap_in_ok [OF ok w] cloud same
      by (auto simp: RecyclePublic_def Let_def split: option.splits prod.splits sum.splits if_splits)
    with r ok Some show ?thesis by (auto simp: recycleNamedWorker_def Let_def split: option.splits prod.splits sum.splits)
  qed
qed

lemma tail_ok: "ctl_ok ct \<Longrightarrow> tailWorkerLogs E dial name ct = (r, ct') \<Longrightarrow> ctl_ok ct'"
  by (auto simp: tailWorkerLogs_def Let_def split: option.splits prod.splits sum.splits if_splits)

section \<open>The start\<close>

lemma fold_map_upd_dom: "x \<in> set xs \<and> P x \<or> q (f x) \<noteq> None \<Longrightarrow> fold (\<lambda>x q. if P x then q(f x \<mapsto> g x) else q) xs q (f x) \<noteq> None"
  by (induction xs arbitrary: q) auto

lemma initial_quotas_cover:
  assumes "w \<in> set (pool_load p)" "AccountID (h w) \<noteq> []"
  shows "quotas (initial_quotas now cfg h p) (AccountID (h w)) \<noteq> None"
proof -
  have "fold (\<lambda>w q. if AccountID (h w) = [] \<or> q (AccountID (h w)) \<noteq> None then q else q(AccountID (h w) \<mapsto> g w)) ws q (AccountID (h v)) \<noteq> None"
    if "v \<in> set ws \<and> AccountID (h v) \<noteq> [] \<or> q (AccountID (h v)) \<noteq> None" for v ws g and q :: "string \<rightharpoonup> quota"
    using that by (induction ws arbitrary: q) auto
  then show ?thesis using assms by (simp add: initial_quotas_def Let_def pool_All_def)
qed

lemma seed_one_dom: "fst (seed_one s now tokens acc qc) x = None \<longleftrightarrow> fst qc x = None"
  by (cases qc) (auto simp: seed_one_def Let_def split: option.splits prod.splits sum.splits)

lemma seed_dom: "fst (seedQuotaFromCF s now cfg order qs c) x = None \<longleftrightarrow> qs x = None"
proof -
  have "fst (fold (seed_one s now tokens) order qc) x = None \<longleftrightarrow> fst qc x = None" for tokens qc
    by (induction order arbitrary: qc) (simp_all add: seed_one_dom)
  then show ?thesis by (simp add: seedQuotaFromCF_def split: prod.split)
qed

lemma boot_ok: "ws \<noteq> [] \<Longrightarrow> ctl_ok (boot E cfg ws st c) \<and> pool_load (pl_pool (ct_plane (boot E cfg ws st c))) \<noteq> []"
proof -
  assume ne: "ws \<noteq> []"
  let ?h = "\<lambda>i. if i < length ws then ws ! i else hd ws"
  let ?p = "initial_quotas (ce_now E) cfg ?h (pool_New [0..<length ws])"
  have load: "pool_load ?p = [0..<length ws]" by (simp add: initial_quotas_def Let_def pool_New_def) (simp add: pool_load_def)
  have "\<exists>y. quotas ?p (AccountID (?h i)) = Some y" if "i < length ws" "AccountID (?h i) \<noteq> []" for i
    using initial_quotas_cover [of i "pool_New [0..<length ws]" ?h] that by (simp add: pool_New_def pool_load_def)
  then show ?thesis
    using ne by (auto simp: boot_def Let_def ctl_ok_def load list_all_iff seed_dom simp flip: not_None_eq)
qed

section \<open>The process as a state machine\<close>

text \<open>A step is one operation of the admin server, with whatever its environment is at the time; a run is the list of them.\<close>

datatype ctl_op = OpAdd string int | OpRemove string string | OpMore string int | OpDestroy | OpClean bool | OpRecycle string
  | OpTail "string \<Rightarrow> bool" string

fun ctl_do :: "('c, 'j, 'b) cenv \<Rightarrow> ctl_op \<Rightarrow> ('c, 'b) ctl \<Rightarrow> ('c, 'b) ctl" where
  "ctl_do E (OpAdd tok cnt) ct = snd (AddToken E tok cnt ct)"
| "ctl_do E (OpRemove acc tok) ct = snd (RemoveToken E acc tok ct)"
| "ctl_do E (OpMore acc cnt) ct = snd (DeployMore E acc cnt ct)"
| "ctl_do E OpDestroy ct = snd (DestroyAll_hook E ct)"
| "ctl_do E (OpClean dry) ct = snd (Clean_hook E dry ct)"
| "ctl_do E (OpRecycle name) ct = snd (recycleNamedWorker E name ct)"
| "ctl_do E (OpTail dial name) ct = snd (tailWorkerLogs E dial name ct)"

inductive ctl_run :: "('c, 'b) ctl \<Rightarrow> (('c, 'j, 'b) cenv \<times> ctl_op) list \<Rightarrow> ('c, 'b) ctl \<Rightarrow> bool" for start where
  start: "ctl_run start [] start"
| step: "ctl_run start run ct \<Longrightarrow> ctl_run start (run @ [(E, f)]) (ctl_do E f ct)"

lemma ctl_do_ok: "ctl_ok ct \<Longrightarrow> ctl_ok (ctl_do E f ct)"
  by (cases f) (auto intro: AddToken_ok RemoveToken_ok DeployMore_ok DestroyAll_hook_ok Clean_hook_ok recycleNamedWorker_ok tail_ok prod.collapse [symmetric])

lemma ctl_run_ok: "ctl_run ct run ct' \<Longrightarrow> ctl_ok ct \<Longrightarrow> ctl_ok ct'"
  by (induction rule: ctl_run.induct) (auto intro: ctl_do_ok)

lemma serve_start_boot:
  assumes "serve_start E autoDeploy mode cfg st c = Inr ct"
  obtains cfg' ws st' c' where "ws \<noteq> []" "ct = boot E cfg' ws st' c'"
proof -
  let ?cfg = "if mode = [] then cfg else cfg\<lparr>Pool_ProxyMode := mode\<rparr>"
  obtain q st1 c1 where f: "find_workers E ?cfg st c = (q, st1, c1)" by (metis prod_cases3)
  show thesis
  proof (cases q)
    case (Inl e)
    then show ?thesis using assms f unfolding serve_start_def Let_def by simp
  next
    case (Inr ws1)
    obtain r cfg2 st2 c2 where m: "more_workers E autoDeploy ?cfg ws1 st1 c1 = (r, cfg2, st2, c2)" by (metis prod_cases4)
    show ?thesis
    proof (cases r)
      case (Inl e)
      then show ?thesis using assms f Inr m unfolding serve_start_def Let_def by simp
    next
      case (Inr ws)
      then show ?thesis
        using assms f \<open>q = Inr ws1\<close> m that [of ws cfg2 st2 c2] unfolding serve_start_def Let_def by (cases "ws = []") simp_all
    qed
  qed
qed

lemma serve_start_ok:
  assumes "serve_start E autoDeploy mode cfg st c = Inr ct"
  shows "ctl_ok ct \<and> pool_load (pl_pool (ct_plane ct)) \<noteq> []"
proof -
  from assms obtain cfg' ws st' c' where ws: "ws \<noteq> []" and ct: "ct = boot E cfg' ws st' c'" by (rule serve_start_boot)
  show ?thesis unfolding ct by (rule boot_ok [OF ws])
qed


definition demo_cenv :: "((string \<times> string) list, string list, (string \<times> bytes) list) cenv" where
  "demo_cenv = \<lparr>ce_service = demo_cf, ce_crypto = \<lparr>cr_hmac = (\<lambda>k m. k), cr_sha256 = id, cr_totp = (\<lambda>s t. False)\<rparr>,
     ce_read_file = (\<lambda>_. None), ce_template = ''code'', ce_pe = dv_pe fleet_env, ce_rnd = (\<lambda>k. [of_nat k]), ce_subs = (\<lambda>_ _. []), ce_now = 5,
     ce_url_host = (\<lambda>_. None)\<rparr>"


section \<open>Removing a token\<close>

definition targeted :: "string \<Rightarrow> string \<Rightarrow> account_cfg \<Rightarrow> bool" where
  "targeted acc tok a \<longleftrightarrow> acc \<noteq> [] \<and> ac_ID a = acc \<or> tok \<noteq> [] \<and> ac_Token a = tok"

text \<open>What one account of the loop does, and what the loop does.\<close>

definition removed_to :: "account_cfg set \<Rightarrow> string list \<times> ('c, 'b) ctl \<Rightarrow> string list \<times> ('c, 'b) ctl \<Rightarrow> bool" where
  "removed_to A s s' \<longleftrightarrow>
     (let h = pl_heap (ct_plane (snd s)); h' = pl_heap (ct_plane (snd s')); ws = pool_load (pl_pool (ct_plane (snd s)))
      in pool_load (pl_pool (ct_plane (snd s'))) = filter (\<lambda>w. AccountID (h w) \<notin> ac_ID ` A) ws \<and>
         set (fst s') = set (fst s) \<union> (\<lambda>w. Name (h w)) ` {w \<in> set ws. AccountID (h w) \<in> ac_ID ` A} \<and>
         (\<forall>w. AccountID (h' w) = AccountID (h w) \<and> Name (h' w) = Name (h w) \<and> (AccountID (h w) \<notin> ac_ID ` A \<longrightarrow> h' w = h w)) \<and>
         Accounts (ct_cfg (snd s')) = filter (\<lambda>x. \<forall>a \<in> A. ac_ID x \<noteq> ac_ID a \<or> ac_Token x \<noteq> ac_Token a) (Accounts (ct_cfg (snd s))))"

lemma removed_toI:
  assumes "pool_load (pl_pool (ct_plane (snd s'))) = filter (\<lambda>w. AccountID (pl_heap (ct_plane (snd s)) w) \<notin> ac_ID ` A) (pool_load (pl_pool (ct_plane (snd s))))"
    and "set (fst s') = set (fst s) \<union> (\<lambda>w. Name (pl_heap (ct_plane (snd s)) w)) ` {w \<in> set (pool_load (pl_pool (ct_plane (snd s)))). AccountID (pl_heap (ct_plane (snd s)) w) \<in> ac_ID ` A}"
    and "\<And>w. AccountID (pl_heap (ct_plane (snd s')) w) = AccountID (pl_heap (ct_plane (snd s)) w)"
    and "\<And>w. Name (pl_heap (ct_plane (snd s')) w) = Name (pl_heap (ct_plane (snd s)) w)"
    and "\<And>w. AccountID (pl_heap (ct_plane (snd s)) w) \<notin> ac_ID ` A \<Longrightarrow> pl_heap (ct_plane (snd s')) w = pl_heap (ct_plane (snd s)) w"
    and "Accounts (ct_cfg (snd s')) = filter (\<lambda>x. \<forall>a \<in> A. ac_ID x \<noteq> ac_ID a \<or> ac_Token x \<noteq> ac_Token a) (Accounts (ct_cfg (snd s)))"
  shows "removed_to A s s'"
  using assms unfolding removed_to_def Let_def by blast

lemma removed_toD:
  assumes "removed_to A s s'"
  shows "pool_load (pl_pool (ct_plane (snd s'))) = filter (\<lambda>w. AccountID (pl_heap (ct_plane (snd s)) w) \<notin> ac_ID ` A) (pool_load (pl_pool (ct_plane (snd s))))"
    and "set (fst s') = set (fst s) \<union> (\<lambda>w. Name (pl_heap (ct_plane (snd s)) w)) ` {w \<in> set (pool_load (pl_pool (ct_plane (snd s)))). AccountID (pl_heap (ct_plane (snd s)) w) \<in> ac_ID ` A}"
    and "AccountID (pl_heap (ct_plane (snd s')) w) = AccountID (pl_heap (ct_plane (snd s)) w)"
    and "Name (pl_heap (ct_plane (snd s')) w) = Name (pl_heap (ct_plane (snd s)) w)"
    and "AccountID (pl_heap (ct_plane (snd s)) w) \<notin> ac_ID ` A \<Longrightarrow> pl_heap (ct_plane (snd s')) w = pl_heap (ct_plane (snd s)) w"
    and "Accounts (ct_cfg (snd s')) = filter (\<lambda>x. \<forall>a \<in> A. ac_ID x \<noteq> ac_ID a \<or> ac_Token x \<noteq> ac_Token a) (Accounts (ct_cfg (snd s)))"
  using assms unfolding removed_to_def Let_def by blast+

lemma removed_to_trans:
  assumes "removed_to A s1 s2" "removed_to B s2 s3"
  shows "removed_to (A \<union> B) s1 s3"
proof (rule removed_toI)
  note d1 = removed_toD [OF assms(1)] and d2 = removed_toD [OF assms(2)]
  show "pool_load (pl_pool (ct_plane (snd s3))) = filter (\<lambda>w. AccountID (pl_heap (ct_plane (snd s1)) w) \<notin> ac_ID ` (A \<union> B)) (pool_load (pl_pool (ct_plane (snd s1))))"
    by (simp add: d2(1) d1(1,3) image_Un conj_commute)
  show "set (fst s3) = set (fst s1) \<union> (\<lambda>w. Name (pl_heap (ct_plane (snd s1)) w)) `
      {w \<in> set (pool_load (pl_pool (ct_plane (snd s1)))). AccountID (pl_heap (ct_plane (snd s1)) w) \<in> ac_ID ` (A \<union> B)}"
    unfolding d2(2) d1(1,2) d1(3,4) by auto
  show "pl_heap (ct_plane (snd s3)) w = pl_heap (ct_plane (snd s1)) w" if "AccountID (pl_heap (ct_plane (snd s1)) w) \<notin> ac_ID ` (A \<union> B)" for w
    using d1(5) d2(5) that by (simp add: d1(3) image_Un)
  show "Accounts (ct_cfg (snd s3)) = filter (\<lambda>x. \<forall>a \<in> A \<union> B. ac_ID x \<noteq> ac_ID a \<or> ac_Token x \<noteq> ac_Token a) (Accounts (ct_cfg (snd s1)))"
    unfolding d2(6) d1(6) by (auto intro: filter_cong)
qed (simp_all add: removed_toD(3,4) [OF assms(1)] removed_toD(3,4) [OF assms(2)])

lemma mark_unhealthy_other: "w \<notin> set ws \<Longrightarrow> mark_unhealthy ws h w = h w"
  unfolding mark_unhealthy_def by (induction ws arbitrary: h) auto

lemma destroy_in_frame:
  "ct_cfg (snd (destroy_in E cfg ct)) = ct_cfg ct" "pl_heap (ct_plane (snd (destroy_in E cfg ct))) = pl_heap (ct_plane ct)"
  "pl_pool (ct_plane (snd (destroy_in E cfg ct))) = pl_pool (ct_plane ct)"
  by (simp_all add: destroy_in_def with_service_def split: prod.split)

lemma remove_account_removed:
  assumes "distinct (pool_load (pl_pool (ct_plane (snd s))))"
  shows "removed_to {a} s (remove_account E a s)"
proof (rule removed_toI)
  let ?pl = "ct_plane (snd s)"
  let ?ws = "ByAccount (pl_heap ?pl) (pl_pool ?pl) (ac_ID a)"
  have mine: "set (ByAccount h (pl_pool ?pl) (ac_ID a)) = {w \<in> set (pool_load (pl_pool ?pl)). AccountID (h w) = ac_ID a}" for h
    by (auto simp: ByAccount_def pool_All_def)
  have heap: "pl_heap (ct_plane (snd (remove_account E a s))) = mark_unhealthy ?ws (pl_heap ?pl)"
    by (simp add: remove_account_def Let_def case_prod_unfold set_pool_def destroy_in_frame)
  show "pool_load (pl_pool (ct_plane (snd (remove_account E a s)))) =
      filter (\<lambda>w. AccountID (pl_heap ?pl w) \<notin> ac_ID ` {a}) (pool_load (pl_pool ?pl))"
    using assms by (auto simp: remove_account_def Let_def case_prod_unfold set_pool_def destroy_in_frame pool_load_remove_all mine intro: filter_cong)
  show "set (fst (remove_account E a s)) = set (fst s) \<union> (\<lambda>w. Name (pl_heap ?pl w)) ` {w \<in> set (pool_load (pl_pool ?pl)). AccountID (pl_heap ?pl w) \<in> ac_ID ` {a}}"
    by (auto simp: remove_account_def Let_def case_prod_unfold destroy_in_frame mine)
  show "pl_heap (ct_plane (snd (remove_account E a s))) w = pl_heap ?pl w" if "AccountID (pl_heap ?pl w) \<notin> ac_ID ` {a}" for w
    using that unfolding heap by (intro mark_unhealthy_other) (simp add: mine)
  show "Accounts (ct_cfg (snd (remove_account E a s))) =
      filter (\<lambda>x. \<forall>a \<in> {a}. ac_ID x \<noteq> ac_ID a \<or> ac_Token x \<noteq> ac_Token a) (Accounts (ct_cfg (snd s)))"
    by (simp add: remove_account_def Let_def case_prod_unfold set_pool_def destroy_in_frame)
qed (simp_all add: remove_account_def Let_def case_prod_unfold set_pool_def destroy_in_frame)

lemma fold_removed:
  assumes "distinct (pool_load (pl_pool (ct_plane (snd s))))"
  shows "removed_to (set as) s (fold (remove_account E) as s)"
  using assms
proof (induction as arbitrary: s)
  case Nil
  show ?case by (rule removed_toI) simp_all
next
  case (Cons a as)
  note one = remove_account_removed [OF Cons.prems, of a E]
  have "distinct (pool_load (pl_pool (ct_plane (snd (remove_account E a s)))))"
    using Cons.prems by (simp add: removed_toD(1) [OF one])
  from removed_to_trans [OF one Cons.IH [OF this]] show ?case by simp
qed

text \<open>
  C18. Removing a token is complete and touches nothing else. When an account or a token matches, the pool loses exactly the workers of the matching accounts, in order, the names
  reported are theirs, the matching entries and no others leave the configuration, and every other worker stays as it was, whatever the service answers to the
  deletions. When nothing matches, it is an error and nothing changes.
\<close>

theorem RemoveToken_complete:
  assumes "distinct (pool_All (pl_pool (ct_plane ct)))"
  shows "case RemoveToken E acc tok ct of
      (Inl e, ct') \<Rightarrow> e = NoMatch \<and> ct' = ct \<and> filter (targeted acc tok) (Accounts (ct_cfg ct)) = []
    | (Inr removed, ct') \<Rightarrow>
        let h = pl_heap (ct_plane ct); gone = (\<lambda>w. AccountID (h w) \<in> ac_ID ` set (filter (targeted acc tok) (Accounts (ct_cfg ct))))
        in pool_All (pl_pool (ct_plane ct')) = filter (\<lambda>w. \<not> gone w) (pool_All (pl_pool (ct_plane ct))) \<and>
           set removed = (\<lambda>w. Name (h w)) ` set (filter gone (pool_All (pl_pool (ct_plane ct)))) \<and>
           Accounts (ct_cfg ct') = filter (\<lambda>a. \<not> targeted acc tok a) (Accounts (ct_cfg ct)) \<and>
           list_all (\<lambda>w. pl_heap (ct_plane ct') w = h w) (pool_All (pl_pool (ct_plane ct')))"
proof -
  let ?T = "filter (targeted acc tok) (Accounts (ct_cfg ct))"
  let ?s = "fold (remove_account E) ?T ([], ct)"
  have T: "filter (\<lambda>a. acc \<noteq> [] \<and> ac_ID a = acc \<or> tok \<noteq> [] \<and> ac_Token a = tok) (Accounts (ct_cfg ct)) = ?T"
    by (simp add: targeted_def [abs_def])
  have run: "RemoveToken E acc tok ct = (if ?T = [] then (Inl NoMatch, ct) else (Inr (fst ?s), snd ?s))"
    unfolding RemoveToken_def Let_def T by (simp add: case_prod_unfold)
  have R: "removed_to (set ?T) ([], ct) ?s" using fold_removed [of "([], ct)" "?T" E] assms by (simp add: pool_All_def)
  note d = removed_toD [OF R]
  have "Accounts (ct_cfg (snd ?s)) = filter (\<lambda>a. \<not> targeted acc tok a) (Accounts (ct_cfg ct))"
    unfolding d(6) by (auto simp: targeted_def intro!: filter_cong)
  moreover have "pool_All (pl_pool (ct_plane (snd ?s))) = filter (\<lambda>w. AccountID (pl_heap (ct_plane ct) w) \<notin> ac_ID ` set ?T) (pool_All (pl_pool (ct_plane ct)))"
    using d(1) by (simp add: pool_All_def)
  moreover have "set (fst ?s) = (\<lambda>w. Name (pl_heap (ct_plane ct) w)) ` set (filter (\<lambda>w. AccountID (pl_heap (ct_plane ct) w) \<in> ac_ID ` set ?T) (pool_All (pl_pool (ct_plane ct))))"
    using d(2) by (simp add: pool_All_def)
  ultimately show ?thesis using d(5) by (simp add: run Let_def list_all_iff)
qed

theorem RemoveToken_complete_witness:
  "\<exists>ct'. RemoveToken demo_cenv ''acc1'' [] \<lparr>ct_cfg = fleet_config, ct_plane = fleet_plane\<rparr> = (Inr [''flx-1''], ct') \<and>
     pool_All (pl_pool (ct_plane ct')) = [] \<and> Accounts (ct_cfg ct') = []"
proof -
  let ?ct = "\<lparr>ct_cfg = fleet_config, ct_plane = fleet_plane\<rparr>"
  have f: "Accounts fleet_config = [fleet_account]" "ac_ID fleet_account = ''acc1''" "pool_All (pl_pool fleet_plane) = [7]"
    "pool_load (pl_pool fleet_plane) = [7]" "pl_heap fleet_plane 7 = fleet_worker" "AccountID fleet_worker = ''acc1''" "Name fleet_worker = ''flx-1''"
    by (simp_all add: fleet_config_def fleet_account_def fleet_plane_def pool_New_def pool_All_def pool_load_def fleet_worker_def NewWorker_def)
  have g: "ByAccount h (pl_pool fleet_plane) ''acc1'' = (if AccountID (h 7) = ''acc1'' then [7] else [])" for h
    by (simp add: ByAccount_def f)
  have t: "targeted ''acc1'' [] fleet_account" by (simp add: targeted_def f)
  have "RemoveToken demo_cenv ''acc1'' [] ?ct = (Inr [''flx-1''], snd (RemoveToken demo_cenv ''acc1'' [] ?ct))"
    by (simp add: RemoveToken_def f remove_account_def Let_def case_prod_unfold destroy_in_frame g f)
  with RemoveToken_complete [where ct = ?ct and E = demo_cenv and acc = "''acc1''" and tok = "[]"] show ?thesis
    by (cases "RemoveToken demo_cenv ''acc1'' [] ?ct") (auto simp: f t Let_def)
qed

section \<open>The dry run\<close>

text \<open>A service that also writes down the requests it gets, and the requests that may change it.\<close>

definition recording :: "('c, 'j) cf \<Rightarrow> ('c \<times> api_req list, 'j) cf" where
  "recording s =
     \<lparr>cf_send = (\<lambda>q (c, reqs). case cf_send s q c of (r, c') \<Rightarrow> (r, (c', reqs @ [q]))),
      cf_graphql = (\<lambda>tok acc t1 t2 (c, reqs). case cf_graphql s tok acc t1 t2 c of (r, c') \<Rightarrow> (r, (c', reqs))),
      cf_scripts = cf_scripts s, cf_accounts = cf_accounts s, cf_subdomain = cf_subdomain s, cf_zones = cf_zones s, cf_dns = cf_dns s,
      cf_domain = cf_domain s, cf_domains = cf_domains s, cf_tail = cf_tail s\<rparr>"

definition writes :: "api_req list \<Rightarrow> api_req list" where
  "writes reqs = filter (\<lambda>q. aq_Method q \<noteq> ''GET'') reqs"

text \<open>An observation of the service that no \<open>GET\<close> request changes, and calls that keep it.\<close>

definition read_safe :: "('c, 'j) cf \<Rightarrow> ('c \<Rightarrow> 'v) \<Rightarrow> bool" where
  "read_safe s V \<longleftrightarrow> (\<forall>q c. aq_Method q = ''GET'' \<longrightarrow> V (snd (cf_send s q c)) = V c)"

definition keeps :: "('c \<Rightarrow> 'v) \<Rightarrow> ('c \<Rightarrow> 'a \<times> 'c) \<Rightarrow> bool" where
  "keeps V f \<longleftrightarrow> (\<forall>c. V (snd (f c)) = V c)"

lemma keepsD: "keeps V f \<Longrightarrow> f c = (r, c') \<Longrightarrow> V c' = V c"
  unfolding keeps_def by (metis snd_conv)

lemma keepsI: "(\<And>c r c'. f c = (r, c') \<Longrightarrow> V c' = V c) \<Longrightarrow> keeps V f"
  unfolding keeps_def by (metis prod.collapse)

lemma recording_read_safe: "read_safe (recording s) (\<lambda>c. writes (snd c))"
  by (auto simp: read_safe_def recording_def writes_def split: prod.splits)

lemma decoded_keeps [intro]: "keeps V f \<Longrightarrow> keeps V (decoded d f)"
  by (rule keepsI) (auto simp: decoded_def dest: keepsD split: prod.splits sum.splits option.splits)

lemma get_keeps [intro]: "read_safe s V \<Longrightarrow> keeps V (cf_do s tok ''GET'' path b t)"
  by (rule keepsI) (auto simp: cf_do_def read_safe_def split: prod.splits api_resp.splits if_splits, (metis api_req.select_convs(2) snd_conv)+)

lemma reads_keep [intro]:
  assumes "read_safe s V"
  shows "keeps V (cf_ListWorkers s acc tok)" "keeps V (ListZones s tok)" "keeps V (ListDNSRecords s tok z p)" "keeps V (ListWorkerDomains s acc tok p)"
  using assms unfolding cf_ListWorkers_def ListZones_def ListDNSRecords_def ListWorkerDomains_def by auto

lemma Pick_keeps:
  assumes "read_safe s V"
  shows "keeps V (Pick s mode acc tok sub)"
proof (rule keepsI)
  fix c r c'
  assume p: "Pick s mode acc tok sub c = (r, c')"
  obtain q c1 where z: "listZonesForAccount s tok acc c = (q, c1)" by force
  have "V c1 = V c" using keepsD [OF reads_keep(2) [OF assms]] z by (simp add: listZonesForAccount_def)
  then show "V c' = V c" using p z by (auto simp: Pick_def calling_def split: sum.splits if_splits list.splits)
qed

definition lists_safely :: "('c \<Rightarrow> 'v) \<Rightarrow> 'c backend \<Rightarrow> bool" where
  "lists_safely V b \<longleftrightarrow> (\<forall>p. keeps V (be_List b p))"

lemma Pick_lists_safely:
  assumes "read_safe s V" "Pick s mode acc tok sub c = (Inr bs, c')" "b \<in> set bs"
  shows "lists_safely V b"
proof -
  have "keeps V (workers_dev_List s acc tok sub p)" for p
    using keepsD [OF reads_keep(1) [OF assms(1)]] by (intro keepsI) (auto simp: workers_dev_List_def calling_def split: prod.splits sum.splits)
  moreover have "keeps V (custom_List s acc tok z p)" for z p
    using keepsD [OF reads_keep(4) [OF assms(1)]] by (intro keepsI) (auto simp: custom_List_def calling_def split: prod.splits sum.splits)
  ultimately have "lists_safely V (NewWorkersDev s acc tok sub)" "lists_safely V (NewCustomDomain s acc tok z)" for z
    by (simp_all add: lists_safely_def NewWorkersDev_def NewCustomDomain_def)
  moreover have "b \<in> {NewWorkersDev s acc tok sub} \<union> range (NewCustomDomain s acc tok)"
    using assms(2,3) by (auto simp: Pick_def calling_def split: prod.splits sum.splits if_splits list.splits)
  ultimately show ?thesis by blast
qed

lemma list_backends_keeps:
  "\<forall>b \<in> set bs. lists_safely V b \<Longrightarrow> list_backends p now bs c = (e, ws, c') \<Longrightarrow> V c' = V c"
proof (induction bs arbitrary: c e ws c')
  case (Cons b bs)
  then have b: "keeps V (be_List b p)" and bs: "\<forall>b \<in> set bs. lists_safely V b" by (simp_all add: lists_safely_def)
  obtain q c1 where l: "be_List b p c = (q, c1)" by force
  with keepsD [OF b] have "V c1 = V c" by blast
  with Cons.prems(2) l Cons.IH [OF bs] show ?case by (cases q) (auto split: prod.splits)
qed simp

lemma ListAll_keeps:
  assumes safe: "read_safe s V" and "ListAll cfg now (pick_of s cfg) c = (e, ws, c')"
  shows "V c' = V c"
proof -
  have "list_accounts p now (pick_of s cfg) as c = (e, ws, c') \<Longrightarrow> V c' = V c" for p as c e ws c'
  proof (induction as arbitrary: c e ws c')
    case (Cons a as)
    obtain q c1 where pick: "pick_of s cfg a c = (q, c1)" by force
    then have c1: "V c1 = V c" using keepsD [OF Pick_keeps [OF safe]] by (auto simp: pick_of_def)
    show ?case
    proof (cases q)
      case (Inl x)
      then show ?thesis using Cons.prems pick c1 by simp
    next
      case (Inr bs)
      then have safe_bs: "\<forall>b \<in> set bs. lists_safely V b" using Pick_lists_safely [OF safe] pick by (auto simp: pick_of_def)
      obtain f us c2 where l: "list_backends p now bs c1 = (f, us, c2)" by (metis prod_cases3)
      have "V c2 = V c" using list_backends_keeps [OF safe_bs l] c1 by simp
      then show ?thesis using Cons.prems pick Inr l Cons.IH by (cases f) (auto split: prod.splits)
    qed
  qed simp
  then show ?thesis using assms(2) by (simp add: ListAll_def)
qed

lemma clean_records_dry: "snd (clean_records s True p tok z rs c) = c"
  by (induction rs) (simp_all add: Let_def case_prod_unfold)

lemma clean_zones_keeps: "read_safe s V \<Longrightarrow> V (snd (clean_zones s True p tok zs c)) = V c"
  by (induction zs arbitrary: c)
    (simp_all add: case_prod_unfold clean_records_dry reads_keep(3) [unfolded keeps_def, rule_format] split: sum.split)

lemma clean_tokens_keeps: "read_safe s V \<Longrightarrow> V (snd (clean_tokens s True p seen as c)) = V c"
  by (induction as arbitrary: seen c)
    (simp_all add: case_prod_unfold clean_zones_keeps reads_keep(2) [unfolded keeps_def, rule_format] split: sum.split)

text \<open>Rows of either mode carry the prefix.\<close>

lemma clean_records_prefix: "list_all (\<lambda>r. has_prefix (cl_Name r) p) (fst (clean_records s dry p tok z rs c))"
  by (cases dry; induction rs arbitrary: c) (simp_all add: Let_def case_prod_unfold split: sum.split)

lemma clean_zones_prefix: "list_all (\<lambda>r. has_prefix (cl_Name r) p) (fst (clean_zones s dry p tok zs c))"
  by (induction zs arbitrary: c) (simp_all add: clean_records_prefix case_prod_unfold split: sum.split)

lemma clean_tokens_prefix: "list_all (\<lambda>r. has_prefix (cl_Name r) p) (fst (clean_tokens s dry p seen as c))"
  by (induction as arbitrary: seen c) (simp_all add: clean_zones_prefix case_prod_unfold split: sum.split)

text \<open>
  C19. The dry run of the cleaner only looks. Whatever the service answers, it sends no request but \<open>GET\<close>, so the list of writing requests the service has seen does not grow, and
  pool, workers, store and configuration stay as they are. A prefix that is empty, defaulted or shorter than three characters is refused with nothing
  sent at all, and every record in the plan has a name with the prefix.
\<close>

theorem clean_dry_run_reads:
  "case runCleanCore (E\<lparr>ce_service := recording s\<rparr>) True ct of
     (Inl e, ct') \<Rightarrow> ct' = ct \<and> clean_refused (ct_cfg ct) = Some e
   | (Inr (names, rows), ct') \<Rightarrow>
       writes (snd (pl_cloud (ct_plane ct'))) = writes (snd (pl_cloud (ct_plane ct))) \<and>
       ct' = with_service (pl_cloud (ct_plane ct')) (pl_store (ct_plane ct)) ct \<and>
       length (Worker_NamePrefix (ct_cfg ct)) \<ge> 3 \<and> \<not> Worker_NamePrefixDefaulted (ct_cfg ct) \<and>
       list_all (\<lambda>r. has_prefix (cl_Name r) (Worker_NamePrefix (ct_cfg ct))) rows"
proof (cases "clean_refused (ct_cfg ct)")
  case (Some e)
  then show ?thesis by (simp add: runCleanCore_def)
next
  case None
  let ?E = "E\<lparr>ce_service := recording s\<rparr>" and ?cfg = "ct_cfg ct" and ?V = "\<lambda>c. writes (snd c)"
  obtain e ws c1 where l: "ListAll ?cfg (ce_now E) (pick_of (recording s) ?cfg) (pl_cloud (ct_plane ct)) = (e, ws, c1)" by (metis prod_cases3)
  obtain rows c2 where t: "clean_tokens (recording s) True (Worker_NamePrefix ?cfg) {} (Accounts ?cfg) c1 = (rows, c2)" by (metis surj_pair)
  have "?V c1 = ?V (pl_cloud (ct_plane ct))" by (rule ListAll_keeps [OF recording_read_safe l])
  moreover have "?V c2 = ?V c1" using clean_tokens_keeps [OF recording_read_safe] t by (metis snd_conv)
  moreover have "list_all (\<lambda>r. has_prefix (cl_Name r) (Worker_NamePrefix ?cfg)) rows" using clean_tokens_prefix t by (metis fst_conv)
  moreover have "length (Worker_NamePrefix ?cfg) \<ge> 3" "\<not> Worker_NamePrefixDefaulted ?cfg"
    using None by (simp_all add: clean_refused_def split: if_splits)
  ultimately show ?thesis
    using None l t by (simp add: runCleanCore_def list_in_def picks_def with_service_def Let_def)
qed

end
