(* ===== verification/Lifecycle.thy ===== *)
theory Lifecycle
  imports Control_Laws
begin

text \<open>
  What surrounds the running server: the configuration file that is downloaded on the first start and the check for its placeholders
  (\<^verbatim>\<open>internal/config/bootstrap.go\<close>), the commands \<^verbatim>\<open>clean\<close>, \<^verbatim>\<open>backup\<close> and \<^verbatim>\<open>restore\<close>, and the way from the start of \<^verbatim>\<open>server\<close> to its end
  (\<^verbatim>\<open>cmd/flarex/main.go\<close>). The file system is a map from paths to contents; whether the system lets a file be written, and what the
  database package makes of a file it opens, are arguments.
\<close>

section \<open>Files\<close>

type_synonym file_system = "string \<rightharpoonup> bytes"

definition file_exists :: "file_system \<Rightarrow> string \<Rightarrow> bool" where
  "file_exists fs path \<longleftrightarrow> fs path \<noteq> None"

definition rename :: "string \<Rightarrow> string \<Rightarrow> file_system \<Rightarrow> file_system" where
  "rename a b fs = (case fs a of None \<Rightarrow> fs | Some c \<Rightarrow> if a = b then fs else fs(b \<mapsto> c, a := None))"

section \<open>The configuration file\<close>

definition DefaultExampleURL :: string where
  "DefaultExampleURL = ''https://raw.githubusercontent.com/Vozec/FlareX/main/config.example.yaml''"

definition templateMarkers :: "string list" where
  "templateMarkers =
     [''change_me_32b_minimum_random_string'', ''your_cf_account_id'', ''cf_api_token_with_workers_edit'',
      ''cf_api_token_with_workers_edit_scope'', ''your-subdomain'']"

datatype fetched = FetchFailed | Fetched nat bytes

datatype life_err = MkdirFailed | DownloadFailed | DownloadStatus nat | WriteRefused | FreshlyDownloaded | Placeholder string | ConfigUnreadable
  | ServerInvalid | DeployInvalid | StateUnopened | OutRequired | InRequired | BadSnapshot | DestinationExists | SourceUnopened | CopyFailed
  | Operation ctl_err | NotResolved discovery_err

text \<open>The URL of the flag, of the environment, or the default one.\<close>

definition example_url :: "string \<Rightarrow> string \<Rightarrow> string" where
  "example_url url env = (let u = (if url = [] then env else url) in if u = [] then DefaultExampleURL else u)"

definition Bootstrap ::
  "(string \<Rightarrow> fetched) \<Rightarrow> bool \<Rightarrow> bool \<Rightarrow> string \<Rightarrow> string \<Rightarrow> string \<Rightarrow> file_system \<Rightarrow> (life_err + bool) \<times> file_system" where
  "Bootstrap fetch mkdir_ok write_ok env path url fs =
     (if file_exists fs path then (Inr False, fs)
      else if \<not> mkdir_ok then (Inl MkdirFailed, fs)
      else (case fetch (example_url url env) of
              FetchFailed \<Rightarrow> (Inl DownloadFailed, fs)
            | Fetched code content \<Rightarrow>
                if code \<noteq> 200 then (Inl (DownloadStatus code), fs)
                else if \<not> write_ok then (Inl WriteRefused, fs)
                else (Inr True, fs(path \<mapsto> content))))"

definition LooksLikeTemplate :: "string \<Rightarrow> file_system \<Rightarrow> string option" where
  "LooksLikeTemplate path fs =
     (case fs path of
        None \<Rightarrow> None
      | Some raw \<Rightarrow> (case find (contains_str (string_of raw)) templateMarkers of None \<Rightarrow> Some [] | Some m \<Rightarrow> Some m))"

text \<open>The beginning of \<^verbatim>\<open>runServe\<close>, up to a valid configuration.\<close>

definition prepare_serve ::
  "(string \<Rightarrow> fetched) \<Rightarrow> bool \<Rightarrow> bool \<Rightarrow> (bytes \<Rightarrow> config option) \<Rightarrow> string \<Rightarrow> string \<Rightarrow> string \<Rightarrow> file_system \<Rightarrow> (life_err + config) \<times> file_system" where
  "prepare_serve fetch mkdir_ok write_ok load env path url fs =
     (case Bootstrap fetch mkdir_ok write_ok env path url fs of
        (Inl e, fs) \<Rightarrow> (Inl e, fs)
      | (Inr True, fs) \<Rightarrow> (Inl FreshlyDownloaded, fs)
      | (Inr False, fs) \<Rightarrow>
          (case LooksLikeTemplate path fs of
             Some (c # m) \<Rightarrow> (Inl (Placeholder (c # m)), fs)
           | _ \<Rightarrow>
               (case Option.bind (fs path) load of
                  None \<Rightarrow> (Inl ConfigUnreadable, fs)
                | Some cfg \<Rightarrow> if \<not> ValidateForServer cfg then (Inl ServerInvalid, fs) else (Inr cfg, fs))))"

section \<open>Backup and restore\<close>

text \<open>
  \<open>opened\<close> is the content of a database file after the package has opened it, or nothing when it is not one; a missing file
  is created. \<open>snapshot\<close> is what the package writes for a backup.
\<close>

definition runBackup ::
  "(bytes option \<Rightarrow> bytes option) \<Rightarrow> (bytes \<Rightarrow> bytes) \<Rightarrow> bool \<Rightarrow> string \<Rightarrow> string \<Rightarrow> file_system \<Rightarrow> life_err option \<times> file_system" where
  "runBackup opened snapshot write_ok state_path out fs =
     (if out = [] then (Some OutRequired, fs)
      else (case opened (fs state_path) of
              None \<Rightarrow> (Some StateUnopened, fs)
            | Some b \<Rightarrow>
                (let fs1 = fs(state_path \<mapsto> b)
                 in if \<not> write_ok then (Some WriteRefused, fs1) else (None, fs1(out \<mapsto> snapshot b)))))"

definition runRestore ::
  "(bytes option \<Rightarrow> bytes option) \<Rightarrow> bool \<Rightarrow> bool \<Rightarrow> bool \<Rightarrow> string \<Rightarrow> string \<Rightarrow> file_system \<Rightarrow> life_err option \<times> file_system" where
  "runRestore opened rename_ok write_ok force dst src fs =
     (if src = [] then (Some InRequired, fs)
      else (case opened (fs src) of
              None \<Rightarrow> (Some BadSnapshot, fs)
            | Some b \<Rightarrow>
                (let fs1 = fs(src \<mapsto> b)
                 in if file_exists fs1 dst \<and> \<not> force then (Some DestinationExists, fs1)
                    else (let fs2 = (if file_exists fs1 dst \<and> rename_ok then rename dst (dst @ ''.bak'') fs1 else fs1)
                          in case fs2 src of
                               None \<Rightarrow> (Some SourceUnopened, fs2)
                             | Some c \<Rightarrow> if \<not> write_ok then (Some WriteRefused, fs2) else (None, fs2(dst \<mapsto> c))))))"

section \<open>Clean, and the end of the server\<close>

definition runClean ::
  "('c, 'j, 'b) cenv \<Rightarrow> bool \<Rightarrow> ('c, 'b) ctl \<Rightarrow> (life_err + string list \<times> clean_row list) \<times> ('c, 'b) ctl" where
  "runClean E dryRun ct =
     (if \<not> ValidateForDeploy (ct_cfg ct) then (Inl DeployInvalid, ct)
      else (case resolveBareTokens (ce_service E) (ce_subs E) (ct_cfg ct) (pl_cloud (ct_plane ct)) of
              (Some e, _, c) \<Rightarrow> (Inl (NotResolved e), with_service c (pl_store (ct_plane ct)) ct)
            | (None, cfg, c) \<Rightarrow>
                (case runCleanCore E dryRun (with_service c (pl_store (ct_plane ct)) (ct\<lparr>ct_cfg := cfg\<rparr>)) of
                   (Inl e, ct') \<Rightarrow> (Inl (Operation e), ct')
                 | (Inr r, ct') \<Rightarrow> (Inr r, ct'))))"

text \<open>After the listener has returned: destruction when it was asked for, and an orderly shutdown is no error.\<close>

definition serve_exit :: "('c, 'j, 'b) cenv \<Rightarrow> bool \<Rightarrow> string option \<Rightarrow> ('c, 'b) ctl \<Rightarrow> string option \<times> ('c, 'b) ctl" where
  "serve_exit E destroyOnExit serveErr ct =
     (let ct' = (if destroyOnExit then snd (destroy_in E (ct_cfg ct) ct) else ct)
      in (if serveErr \<noteq> None \<and> isExpectedShutdownErr serveErr then None else serveErr, ct'))"

section \<open>Properties\<close>

text \<open>
  The first start never runs on a template and never overwrites a configuration. Whatever the download answers, a configuration file that exists keeps its
  content; a server configuration is only ever read from a file that was there before and that has none of the placeholders in it, and it is valid for a server.
\<close>

lemma prepare_serve_safe:
  "case prepare_serve fetch mkdir_ok write_ok load env path url fs of (r, fs') \<Rightarrow>
     (fs' = fs \<or> fs path = None \<and> (\<exists>content. fs' = fs(path \<mapsto> content))) \<and>
     (case r of Inl e \<Rightarrow> True
      | Inr cfg \<Rightarrow> (\<exists>raw. fs path = Some raw \<and> load raw = Some cfg \<and> list_all (\<lambda>m. \<not> contains_str (string_of raw) m) templateMarkers) \<and> ValidateForServer cfg)"
proof (cases "fs path")
  case None
  then show ?thesis
    by (auto simp: prepare_serve_def Bootstrap_def file_exists_def split: fetched.split)
next
  case (Some raw)
  then have b: "Bootstrap fetch mkdir_ok write_ok env path url fs = (Inr False, fs)" by (simp add: Bootstrap_def file_exists_def)
  show ?thesis
  proof (cases "find (contains_str (string_of raw)) templateMarkers")
    case None
    then have "list_all (\<lambda>m. \<not> contains_str (string_of raw) m) templateMarkers" by (auto simp: find_None_iff list_all_iff)
    then show ?thesis using Some b None by (auto simp: prepare_serve_def LooksLikeTemplate_def split: option.split)
  next
    case m: (Some m)
    then have "m \<in> set templateMarkers" by (auto simp: find_Some_iff)
    then have "m \<noteq> []" by (auto simp: templateMarkers_def)
    then show ?thesis using Some b m by (cases m) (simp_all add: prepare_serve_def LooksLikeTemplate_def)
  qed
qed

text \<open>
  A backup can be restored. After a backup of the state and any later change of it, a restore with \<^verbatim>\<open>--force\<close> from that backup puts the snapshot of the
  old state in place and keeps the state it replaces beside it.
\<close>

lemma backup_restore:
  assumes "runBackup opened snapshot True dst out fs = (None, fs1)" "opened (fs dst) = Some b" "opened (Some (snapshot b)) = Some (snapshot b)"
    and "out \<noteq> dst" "out \<noteq> dst @ ''.bak''"
  shows "\<exists>fs2. runRestore opened True True True dst out (fs1(dst \<mapsto> later)) = (None, fs2) \<and> fs2 dst = Some (snapshot b) \<and> fs2 (dst @ ''.bak'') = Some later \<and>
    fs2 out = Some (snapshot b)"
proof -
  have o: "out \<noteq> []" and fs1: "fs1 = fs(dst \<mapsto> b, out \<mapsto> snapshot b)"
    using assms(1,2) by (auto simp: runBackup_def Let_def split: if_splits)
  let ?fs = "fs1(dst \<mapsto> later)"
  have out: "?fs out = Some (snapshot b)" using assms(4) by (simp add: fs1)
  have "?fs(out \<mapsto> snapshot b) = ?fs" using assms(4) by (simp add: fs1 fun_eq_iff)
  moreover have "rename dst (dst @ ''.bak'') ?fs = ?fs(dst @ ''.bak'' \<mapsto> later, dst := None)" by (simp add: rename_def)
  ultimately have "runRestore opened True True True dst out ?fs = (None, (?fs(dst @ ''.bak'' \<mapsto> later, dst := None))(dst \<mapsto> snapshot b))"
    using o out assms(3-5) by (simp add: runRestore_def file_exists_def Let_def fs1)
  then show ?thesis using assms(4,5) by (simp add: fs1)
qed

lemma backup_restore_example:
  "\<exists>fs2. runRestore (\<lambda>c. case c of None \<Rightarrow> Some [] | Some b \<Rightarrow> Some b) True True True ''db'' ''copy'' ([''db'' \<mapsto> [3], ''copy'' \<mapsto> [1, 2]]) = (None, fs2) \<and>
     fs2 ''db'' = Some [1, 2]"
proof -
  let ?o = "\<lambda>c. case c of None \<Rightarrow> Some [] | Some b \<Rightarrow> Some b"
  have "runBackup ?o (\<lambda>b. b) True ''db'' ''copy'' [''db'' \<mapsto> [1, 2]] = (None, [''db'' \<mapsto> [1, 2], ''copy'' \<mapsto> [1, 2]])"
    by (simp add: runBackup_def Let_def fun_upd_idem)
  from backup_restore [OF this, of "[1, 2]" "[3]"]
  have "\<exists>fs2. runRestore ?o True True True ''db'' ''copy'' ([''db'' \<mapsto> [1, 2], ''copy'' \<mapsto> [1, 2], ''db'' \<mapsto> [3]]) = (None, fs2) \<and> fs2 ''db'' = Some [1, 2]"
    by auto
  moreover have "[''db'' \<mapsto> [1, 2 :: 8 word], ''copy'' \<mapsto> [1, 2], ''db'' \<mapsto> [3]] = [''db'' \<mapsto> [3], ''copy'' \<mapsto> [1, 2]]" by (simp add: fun_eq_iff)
  ultimately show ?thesis by simp
qed

text \<open>
  Reverting a restore from the file it has left behind does not work: the rename replaces that file by the present state, which is then copied onto itself, and the older state is lost.
\<close>

lemma restore_from_bak_loses:
  assumes "opened (fs (dst @ ''.bak'')) = Some old" "fs dst = Some cur"
  shows "\<exists>fs2. runRestore opened True True True dst (dst @ ''.bak'') fs = (None, fs2) \<and> fs2 dst = Some cur \<and> fs2 (dst @ ''.bak'') = Some cur"
  using assms by (simp add: runRestore_def file_exists_def rename_def Let_def)

text \<open>A missing snapshot is created by opening it, so its empty state replaces the present one.\<close>

lemma restore_missing_empties:
  assumes "opened None = Some fresh" "fs src = None" "src \<notin> {[], dst, dst @ ''.bak''}"
  shows "\<exists>fs2. runRestore opened True True True dst src fs = (None, fs2) \<and> fs2 dst = Some fresh"
  using assms by (auto simp: runRestore_def file_exists_def rename_def Let_def split: option.split)

text \<open>An orderly shutdown ends without an error and, unless asked, destroys nothing.\<close>

lemma serve_exit_quiet: "serve_exit E False (Some (''accept: '' @ ''use of closed network connection'')) ct = (None, ct)"
proof -
  have "isExpectedShutdownErr (Some (''accept: '' @ ''use of closed network connection''))" by code_simp
  then show ?thesis by (simp add: serve_exit_def)
qed

end
