(* ===== verification/Client_Cli.thy ===== *)
theory Client_Cli
  imports Admin_Server
begin

text \<open>
  The command-line client of the admin server (\<^verbatim>\<open>internal/clientcli/client.go\<close>, \<^verbatim>\<open>cmd/flarex/client_cmd.go\<close>): the login file, the request with its credential,
  and every command from its flags to the requests it sends and the error or answer it ends with. Tables are printed by the library, so a command's answer is the
  data it prints. The client's requests are then handed to the server of \<open>Admin_Server\<close>. The YAML codec and the URL parser are arguments.
\<close>

section \<open>The login file\<close>

record client_cfg =
  cc_URL :: string
  cc_APIKey :: string
  cc_Bearer :: string
  cc_BasicU :: string
  cc_BasicP :: string
  cc_Insecure :: bool

datatype cli_err = NotLoggedIn | ReadFailed | NotYaml | BadURL | Transport | HttpStatus nat | BodyUndecoded | AbortedByUser | FlagMissing | WriteFailed

datatype file_read = FileMissing | FileUnreadable | FileBytes bytes

definition LoadFrom :: "(bytes \<Rightarrow> client_cfg option) \<Rightarrow> file_read \<Rightarrow> cli_err + client_cfg" where
  "LoadFrom yaml raw =
     (case raw of
        FileMissing \<Rightarrow> Inl NotLoggedIn
      | FileUnreadable \<Rightarrow> Inl ReadFailed
      | FileBytes b \<Rightarrow>
          (case yaml b of
             None \<Rightarrow> Inl NotYaml
           | Some c \<Rightarrow> if cc_URL c = [] then Inl NotLoggedIn else Inr c))"

text \<open>\<^verbatim>\<open>filepath.Join\<close> of a directory and two names, as far as the client needs it.\<close>

definition DefaultPath :: "string \<Rightarrow> string option \<Rightarrow> string" where
  "DefaultPath env config_dir =
     (if env \<noteq> [] then env
      else (case config_dir of None \<Rightarrow> ''flarex/client.yaml'' | Some d \<Rightarrow> d @ ''/flarex/client.yaml''))"

text \<open>Saving makes the directory and writes the file; either may be refused by the system.\<close>

type_synonym files = "string \<Rightarrow> file_read"

definition SaveTo :: "(client_cfg \<Rightarrow> bytes option) \<Rightarrow> bool \<Rightarrow> bool \<Rightarrow> client_cfg \<Rightarrow> string \<Rightarrow> files \<Rightarrow> cli_err option \<times> files" where
  "SaveTo to_yaml mkdir_ok write_ok cfg path fs =
     (if \<not> mkdir_ok then (Some WriteFailed, fs)
      else (case to_yaml cfg of
              None \<Rightarrow> (Some NotYaml, fs)
            | Some raw \<Rightarrow> if \<not> write_ok then (Some WriteFailed, fs) else (None, fs(path := FileBytes raw))))"

definition runClientLogin ::
  "(client_cfg \<Rightarrow> bytes option) \<Rightarrow> bool \<Rightarrow> bool \<Rightarrow> string \<Rightarrow> string \<Rightarrow> string \<Rightarrow> string \<Rightarrow> string \<Rightarrow> string \<Rightarrow> files \<Rightarrow> cli_err option \<times> files" where
  "runClientLogin to_yaml mkdir_ok write_ok path url key bearer user pass fs =
     SaveTo to_yaml mkdir_ok write_ok \<lparr>cc_URL = url, cc_APIKey = key, cc_Bearer = bearer, cc_BasicU = user, cc_BasicP = pass, cc_Insecure = False\<rparr> path fs"

definition runClientLogout :: "bool \<Rightarrow> string \<Rightarrow> files \<Rightarrow> cli_err option \<times> files" where
  "runClientLogout remove_ok path fs =
     (if fs path = FileMissing then (None, fs)
      else if remove_ok then (None, fs(path := FileMissing)) else (Some WriteFailed, fs))"

definition whoami_method :: "client_cfg \<Rightarrow> string" where
  "whoami_method cfg =
     (if cc_APIKey cfg \<noteq> [] then ''api-key'' else if cc_Bearer cfg \<noteq> [] then ''bearer'' else if cc_BasicU cfg \<noteq> [] then ''basic'' else ''none'')"

definition runClientWhoami :: "(cli_err + client_cfg) \<Rightarrow> cli_err + (string \<times> string)" where
  "runClientWhoami loaded = (case loaded of Inl e \<Rightarrow> Inl e | Inr cfg \<Rightarrow> Inr (cc_URL cfg, whoami_method cfg))"

section \<open>A request\<close>

text \<open>Of a URL the client touches the path and the query only. The bodies it sends, before JSON.\<close>

record url_parts =
  ul_Base :: string
  ul_Path :: string
  ul_RawQuery :: string

datatype cbody = CNone | CToken string "int option" | CDeploy string "int option" | CClean bool

record creq =
  cq_Method :: string
  cq_URL :: url_parts
  cq_Body :: cbody
  cq_ContentType :: string
  cq_APIKey :: string
  cq_Authorization :: string

definition applyAuth :: "client_cfg \<Rightarrow> creq \<Rightarrow> creq" where
  "applyAuth cfg q =
     (if cc_APIKey cfg \<noteq> [] then q\<lparr>cq_APIKey := cc_APIKey cfg\<rparr>
      else if cc_Bearer cfg \<noteq> [] then q\<lparr>cq_Authorization := ''Bearer '' @ cc_Bearer cfg\<rparr>
      else if cc_BasicU cfg \<noteq> [] then
        q\<lparr>cq_Authorization := ''Basic '' @ b64_encode StdEncoding (bytes_of (cc_BasicU cfg @ CHR '':'' # cc_BasicP cfg))\<rparr>
      else q)"

definition trim_slashes :: "string \<Rightarrow> string" where
  "trim_slashes s = rev (dropWhile (\<lambda>c. c = CHR ''/'') (rev s))"

definition client_Do :: "(string \<Rightarrow> url_parts option) \<Rightarrow> client_cfg \<Rightarrow> string \<Rightarrow> string \<Rightarrow> cbody \<Rightarrow> creq option" where
  "client_Do parse cfg meth path bdy =
     (case parse (cc_URL cfg) of
        None \<Rightarrow> None
      | Some u \<Rightarrow>
          (let (p, q) = (case index_byte path (CHR ''?'') of None \<Rightarrow> (path, []) | Some i \<Rightarrow> (take i path, drop (i + 1) path));
               u1 = u\<lparr>ul_Path := trim_slashes (ul_Path u) @ p\<rparr>;
               u2 = (if q \<noteq> [] then u1\<lparr>ul_RawQuery := q\<rparr> else u1)
           in Some (applyAuth cfg \<lparr>cq_Method = meth, cq_URL = u2, cq_Body = bdy,
                cq_ContentType = (if bdy = CNone then [] else ''application/json''), cq_APIKey = [], cq_Authorization = []\<rparr>)))"

section \<open>Exchanges\<close>

text \<open>What sending does: an answer with its status and body, or a transport error; the state is the server's.\<close>

type_synonym ('s, 'b) send = "string \<Rightarrow> string \<Rightarrow> cbody \<Rightarrow> 's \<Rightarrow> (nat \<times> 'b) option \<times> 's"

definition GetJSON :: "('s, 'b) send \<Rightarrow> ('b \<Rightarrow> 'j option) \<Rightarrow> string \<Rightarrow> 's \<Rightarrow> (cli_err + 'j) \<times> 's" where
  "GetJSON send dj path s =
     (case send ''GET'' path CNone s of
        (None, s) \<Rightarrow> (Inl Transport, s)
      | (Some (code, b), s) \<Rightarrow>
          if code \<ge> 300 then (Inl (HttpStatus code), s)
          else (case dj b of None \<Rightarrow> (Inl BodyUndecoded, s) | Some j \<Rightarrow> (Inr j, s)))"

definition GetRaw :: "('s, 'b) send \<Rightarrow> string \<Rightarrow> 's \<Rightarrow> (cli_err + 'b) \<times> 's" where
  "GetRaw send path s =
     (case send ''GET'' path CNone s of
        (None, s) \<Rightarrow> (Inl Transport, s)
      | (Some (code, b), s) \<Rightarrow> if code \<ge> 300 then (Inl (HttpStatus code), s) else (Inr b, s))"

definition doJSONOp :: "('s, 'b) send \<Rightarrow> ('b \<Rightarrow> 'j option) \<Rightarrow> string \<Rightarrow> string \<Rightarrow> cbody \<Rightarrow> 's \<Rightarrow> (cli_err + 'j) \<times> 's" where
  "doJSONOp send dj meth path bdy s =
     (case send meth path bdy s of
        (None, s) \<Rightarrow> (Inl Transport, s)
      | (Some (code, b), s) \<Rightarrow>
          (case dj b of
             None \<Rightarrow> (Inl BodyUndecoded, s)
           | Some j \<Rightarrow> if code \<ge> 300 then (Inl (HttpStatus code), s) else (Inr j, s)))"

text \<open>Every command first loads the login.\<close>

definition loadClient :: "(cli_err + client_cfg) \<Rightarrow> (client_cfg \<Rightarrow> 's \<Rightarrow> (cli_err + 'r) \<times> 's) \<Rightarrow> 's \<Rightarrow> (cli_err + 'r) \<times> 's" where
  "loadClient loaded k s = (case loaded of Inl e \<Rightarrow> (Inl e, s) | Inr cfg \<Rightarrow> k cfg s)"

section \<open>Commands that change the server\<close>

type_synonym ('s, 'b) net = "client_cfg \<Rightarrow> ('s, 'b) send"

definition positive :: "int \<Rightarrow> int option" where
  "positive n = (if n > 0 then Some n else None)"

definition runClientAddToken :: "('s, 'b) net \<Rightarrow> (cli_err + client_cfg) \<Rightarrow> ('b \<Rightarrow> 'j option) \<Rightarrow> string \<Rightarrow> int \<Rightarrow> 's \<Rightarrow> (cli_err + 'j) \<times> 's" where
  "runClientAddToken net loaded dj tok n =
     loadClient loaded (\<lambda>cfg. doJSONOp (net cfg) dj ''POST'' ''/tokens'' (CToken tok (positive n)))"

definition runClientRemoveToken :: "('s, 'b) net \<Rightarrow> (cli_err + client_cfg) \<Rightarrow> ('b \<Rightarrow> 'j option) \<Rightarrow> string \<Rightarrow> string \<Rightarrow> 's \<Rightarrow> (cli_err + 'j) \<times> 's" where
  "runClientRemoveToken net loaded dj account tok =
     loadClient loaded (\<lambda>cfg s.
       if account \<noteq> [] then doJSONOp (net cfg) dj ''DELETE'' (''/tokens'' @ ''?account='' @ account) CNone s
       else if tok \<noteq> [] then doJSONOp (net cfg) dj ''DELETE'' (''/tokens'' @ ''?token='' @ tok) CNone s
       else (Inl FlagMissing, s))"

definition runClientDeploy :: "('s, 'b) net \<Rightarrow> (cli_err + client_cfg) \<Rightarrow> ('b \<Rightarrow> 'j option) \<Rightarrow> string \<Rightarrow> int \<Rightarrow> 's \<Rightarrow> (cli_err + 'j) \<times> 's" where
  "runClientDeploy net loaded dj account n =
     loadClient loaded (\<lambda>cfg. doJSONOp (net cfg) dj ''POST'' ''/workers/deploy'' (CDeploy account (positive n)))"

text \<open>The prompt takes the first word of the line.\<close>

definition confirmed :: "bool \<Rightarrow> string \<Rightarrow> bool" where
  "confirmed yes answer \<longleftrightarrow> yes \<or> trim_space (to_lower answer) = ''yes''"

definition runClientDestroy :: "('s, 'b) net \<Rightarrow> (cli_err + client_cfg) \<Rightarrow> ('b \<Rightarrow> 'j option) \<Rightarrow> bool \<Rightarrow> string \<Rightarrow> 's \<Rightarrow> (cli_err + 'j) \<times> 's" where
  "runClientDestroy net loaded dj yes answer =
     loadClient loaded (\<lambda>cfg s.
       if \<not> confirmed yes answer then (Inl AbortedByUser, s)
       else doJSONOp (net cfg) dj ''DELETE'' ''/workers?confirm=true'' CNone s)"

definition runClientClean :: "('s, 'b) net \<Rightarrow> (cli_err + client_cfg) \<Rightarrow> ('b \<Rightarrow> 'j option) \<Rightarrow> bool \<Rightarrow> bool \<Rightarrow> string \<Rightarrow> 's \<Rightarrow> (cli_err + 'j) \<times> 's" where
  "runClientClean net loaded dj dryRun yes answer =
     loadClient loaded (\<lambda>cfg s.
       if \<not> dryRun \<and> \<not> confirmed yes answer then (Inl AbortedByUser, s)
       else doJSONOp (net cfg) dj ''POST'' ''/workers/clean'' (CClean dryRun) s)"

definition runClientRecycle :: "('s, 'b) net \<Rightarrow> (cli_err + client_cfg) \<Rightarrow> ('b \<Rightarrow> 'j option) \<Rightarrow> string \<Rightarrow> 's \<Rightarrow> (cli_err + 'j) \<times> 's" where
  "runClientRecycle net loaded dj name =
     loadClient loaded (\<lambda>cfg. doJSONOp (net cfg) dj ''POST'' (''/workers/'' @ name @ ''/recycle'') CNone)"

section \<open>Commands that read\<close>

definition runClientMetrics :: "('s, 'b) net \<Rightarrow> (cli_err + client_cfg) \<Rightarrow> 's \<Rightarrow> (cli_err + 'b) \<times> 's" where
  "runClientMetrics net loaded = loadClient loaded (\<lambda>cfg. GetRaw (net cfg) ''/metrics'')"

definition runClientHealth :: "('s, 'b) net \<Rightarrow> (cli_err + client_cfg) \<Rightarrow> 's \<Rightarrow> (cli_err + 'b) \<times> 's" where
  "runClientHealth net loaded = loadClient loaded (\<lambda>cfg. GetRaw (net cfg) ''/health'')"

text \<open>The list and the status, each as JSON or as rows of a table.\<close>

datatype ('b, 'r) printed = PRaw 'b | PRows "'r list"

record listed_worker =
  lw_Name :: string
  lw_URL :: string
  lw_Account :: string
  lw_Backend :: string

definition short_account :: "string \<Rightarrow> string" where
  "short_account acc = (if length acc > 12 then take 8 acc @ map char_of [0xE2, 0x80, 0xA6 :: nat] else acc)"

definition list_row :: "listed_worker \<Rightarrow> string list" where
  "list_row w = [lw_Name w, if lw_Backend w = [] then ''-'' else lw_Backend w, short_account (lw_Account w), lw_URL w]"

definition runClientList ::
  "('s, 'b) net \<Rightarrow> (cli_err + client_cfg) \<Rightarrow> ('b \<Rightarrow> listed_worker list option) \<Rightarrow> bool \<Rightarrow> 's \<Rightarrow> (cli_err + ('b, string list) printed) \<times> 's" where
  "runClientList net loaded dj as_json =
     loadClient loaded (\<lambda>cfg s.
       if as_json then (case GetRaw (net cfg) ''/workers'' s of (Inl e, s) \<Rightarrow> (Inl e, s) | (Inr raw, s) \<Rightarrow> (Inr (PRaw raw), s))
       else (case GetJSON (net cfg) dj ''/workers'' s of (Inl e, s) \<Rightarrow> (Inl e, s) | (Inr ws, s) \<Rightarrow> (Inr (PRows (map list_row ws)), s)))"

text \<open>Division of Go rounds to zero; the first case takes every negative number.\<close>

definition fmtAge :: "int \<Rightarrow> string" where
  "fmtAge sec =
     (if sec < 60 then itoa sec @ ''s''
      else if sec < 3600 then itoa (sec div 60) @ ''m''
      else (let h = sec div 3600; m = sec mod 3600 div 60
            in if m = 0 then itoa h @ ''h'' else itoa h @ ''h'' @ (if m < 10 then ''0'' else []) @ itoa m @ ''m''))"

definition status_health :: "worker_status \<Rightarrow> string" where
  "status_health w = (if ws_QuotaPaused w then ''quota'' else if \<not> ws_Healthy w then ''down'' else ''ok'')"

text \<open>The cells of a row but the error percentage, which the library formats.\<close>

definition status_cells :: "worker_status \<Rightarrow> string list" where
  "status_cells w =
     [ws_Name w, status_health w, ws_Breaker w, if ws_Colo w = [] then ''-'' else ws_Colo w, itoa (ws_Inflight w),
      dec (unat (ws_Requests w)), dec (unat (ws_Errors w)), fmtAge (ws_AgeSec w)]"

definition runClientStatus ::
  "('s, 'b) net \<Rightarrow> (cli_err + client_cfg) \<Rightarrow> ('b \<Rightarrow> 'j option) \<Rightarrow> ('b \<Rightarrow> (nat \<times> worker_status list) option) \<Rightarrow> bool \<Rightarrow> string \<Rightarrow> 's
     \<Rightarrow> (cli_err + ('j, string list) printed) \<times> 's" where
  "runClientStatus net loaded dj ds as_json acct =
     loadClient loaded (\<lambda>cfg s.
       if as_json then (case GetJSON (net cfg) dj ''/status'' s of (Inl e, s) \<Rightarrow> (Inl e, s) | (Inr j, s) \<Rightarrow> (Inr (PRaw j), s))
       else (case GetJSON (net cfg) ds ''/status'' s of
               (Inl e, s) \<Rightarrow> (Inl e, s)
             | (Inr (psize, ws), s) \<Rightarrow>
                 (let rows = (if acct \<noteq> [] then filter (\<lambda>w. ws_Account w = acct) ws else ws)
                  in (Inr (PRows (if rows = [] then [] else map status_cells rows @ [[''pool_size='' @ dec psize]])), s))))"

section \<open>The history of quotas\<close>

record history_row =
  hr_Date :: string
  hr_AccountID :: string
  hr_Used :: u64
  hr_Limit :: u64

text \<open>Percentages are binary64.\<close>

definition percent :: "u64 \<Rightarrow> u64 \<Rightarrow> rat" where
  "percent used limit =
     (if limit > 0 then fmul (fdiv (f64 (of_nat (unat used))) (f64 (of_nat (unat limit)))) 100 else 0)"

definition add_day :: "history_row \<Rightarrow> (string \<rightharpoonup> u64 \<times> u64) \<Rightarrow> (string \<rightharpoonup> u64 \<times> u64)" where
  "add_day q m =
     (let (used, limit) = (case m (hr_Date q) of None \<Rightarrow> (0, 0) | Some s \<Rightarrow> s)
      in m(hr_Date q \<mapsto> (used + hr_Used q, limit + hr_Limit q)))"

definition byDate :: "history_row list \<Rightarrow> (string \<rightharpoonup> u64 \<times> u64)" where
  "byDate rows = fold add_day rows Map.empty"

definition day_rows :: "history_row list \<Rightarrow> (string \<times> string \<times> u64 \<times> u64 \<times> rat) list" where
  "day_rows rows = map (\<lambda>q. (hr_Date q, short_account (hr_AccountID q), hr_Used q, hr_Limit q, percent (hr_Used q) (hr_Limit q))) rows"

text \<open>The keys of the map in the order of \<^verbatim>\<open>sort.Strings\<close>: byte-wise.\<close>

fun str_le :: "string \<Rightarrow> string \<Rightarrow> bool" where
  "str_le [] b = True"
| "str_le (x # a) [] = False"
| "str_le (x # a) (y # b) = (if x = y then str_le a b else (of_char x :: nat) < of_char y)"

fun insert_date :: "string \<Rightarrow> string list \<Rightarrow> string list" where
  "insert_date d [] = [d]"
| "insert_date d (x # xs) = (if d = x then x # xs else if str_le d x then d # x # xs else x # insert_date d xs)"

definition total_rows :: "history_row list \<Rightarrow> (string \<times> string \<times> u64 \<times> u64 \<times> rat) list" where
  "total_rows rows =
     map (\<lambda>d. let (used, limit) = the (byDate rows d) in (d, ''TOTAL'', used, limit, percent used limit))
       (fold insert_date (map hr_Date rows) [])"

definition runClientMetricsHistory ::
  "('s, 'b) net \<Rightarrow> (cli_err + client_cfg) \<Rightarrow> ('b \<Rightarrow> history_row list option) \<Rightarrow> int \<Rightarrow> string \<Rightarrow> bool \<Rightarrow> 's
     \<Rightarrow> (cli_err + ('b, string \<times> string \<times> u64 \<times> u64 \<times> rat) printed) \<times> 's" where
  "runClientMetricsHistory net loaded dj days0 acct as_json =
     loadClient loaded (\<lambda>cfg s.
       let days = (if days0 \<le> 0 then 7 else days0);
           path = ''/metrics/history?days='' @ itoa days @ (if acct \<noteq> [] then ''&account='' @ acct else [])
       in if as_json then (case GetRaw (net cfg) path s of (Inl e, s) \<Rightarrow> (Inl e, s) | (Inr raw, s) \<Rightarrow> (Inr (PRaw raw), s))
          else (case GetJSON (net cfg) dj path s of
                  (Inl e, s) \<Rightarrow> (Inl e, s)
                | (Inr rows, s) \<Rightarrow> (Inr (PRows (day_rows rows @ (if acct = [] then total_rows rows else []))), s)))"

section \<open>Log streams\<close>

record log_event =
  le_Outcome :: string
  le_URL :: string
  le_Method :: string
  le_Exceptions :: "string list"

text \<open>What the reader yields until the end: complete lines; an unfinished last one is dropped.\<close>

definition complete_lines :: "string \<Rightarrow> string list" where
  "complete_lines s = butlast (split_on (CHR 0x0A) s)"

definition payload_of :: "string \<Rightarrow> string option" where
  "payload_of line0 =
     (let line = trim_space line0
      in if line = [] \<or> \<not> has_prefix line ''data:'' then None else Some (trim_space (trim_prefix line ''data:'')))"

definition log_line :: "(string \<Rightarrow> log_event option) \<Rightarrow> string \<Rightarrow> string" where
  "log_line decode payload =
     (case decode payload of
        None \<Rightarrow> payload
      | Some ev \<Rightarrow>
          (let marker = ''['' @ le_Outcome ev @ '']''
           in case le_Exceptions ev of
                m # _ \<Rightarrow> marker @ ''  exception: '' @ m
              | [] \<Rightarrow> if le_URL ev \<noteq> [] then marker @ ''  '' @ le_Method ev @ '' '' @ le_URL ev else payload))"

definition shown_lines :: "(string \<Rightarrow> log_event option) \<Rightarrow> bool \<Rightarrow> string \<Rightarrow> string list" where
  "shown_lines decode raw s =
     (if raw then complete_lines s else map (log_line decode) (List.map_filter payload_of (complete_lines s)))"

definition runClientLogs ::
  "('s, string) net \<Rightarrow> (cli_err + client_cfg) \<Rightarrow> (string \<Rightarrow> log_event option) \<Rightarrow> string \<Rightarrow> bool \<Rightarrow> 's \<Rightarrow> (cli_err + string list) \<times> 's" where
  "runClientLogs net loaded decode name raw =
     loadClient loaded (\<lambda>cfg s.
       case net cfg ''GET'' (''/workers/'' @ name @ ''/logs'') CNone s of
         (None, s) \<Rightarrow> (Inl Transport, s)
       | (Some (code, stream), s) \<Rightarrow> if code \<ge> 300 then (Inl (HttpStatus code), s) else (Inr (shown_lines decode raw stream), s))"

section \<open>The request at the server\<close>

text \<open>The query of a URL as the server reads it: the first value of a key, with percent and plus decoded; a malformed pair is skipped.\<close>

fun query_unescape :: "string \<Rightarrow> string option" where
  "query_unescape [] = Some []"
| "query_unescape (c # s) =
     (if c = CHR ''%'' then
        (case s of
           x # y # r \<Rightarrow> if is_hex x \<and> is_hex y then map_option (Cons (char_of (16 * hex_val x + hex_val y))) (query_unescape r) else None
         | _ \<Rightarrow> None)
      else map_option (Cons (if c = CHR ''+'' then CHR '' '' else c)) (query_unescape s))"

definition query_pair :: "string \<Rightarrow> (string \<times> string) option" where
  "query_pair p =
     (if p = [] \<or> CHR '';'' \<in> set p then None
      else (let (k, v) = (case index_byte p (CHR ''='') of None \<Rightarrow> (p, []) | Some i \<Rightarrow> (take i p, drop (i + 1) p))
            in case (query_unescape k, query_unescape v) of (Some k', Some v') \<Rightarrow> Some (k', v') | _ \<Rightarrow> None))"

definition query_get :: "string \<Rightarrow> string \<Rightarrow> string" where
  "query_get q k =
     (case map_of (List.map_filter query_pair (split_on (CHR ''&'') q)) k of None \<Rightarrow> [] | Some v \<Rightarrow> v)"

text \<open>The request as \<open>serve\<close> takes it: no cookies, and bodies decoded into the fields of the handler.\<close>

definition received :: "time \<Rightarrow> string \<Rightarrow> creq \<Rightarrow> sreq" where
  "received now addr q =
     \<lparr>sr_req = \<lparr>rq_Method = cq_Method q, rq_Path = ul_Path (cq_URL q), rq_Authorization = cq_Authorization q, rq_APIKey = cq_APIKey q,
        rq_CSRF = [], rq_session_cookie = None, rq_csrf_cookie = None, rq_RemoteAddr = addr\<rparr>,
      sr_query = query_get (ul_RawQuery (cq_URL q)),
      sr_env = \<lparr>ke_now = now, ke_who = None, ke_create = None, ke_patch = None, ke_rng24 = None, ke_rng16 = []\<rparr>,
      sr_token = (case cq_Body q of CNone \<Rightarrow> None | CToken t n \<Rightarrow> Some (t, case n of None \<Rightarrow> 0 | Some k \<Rightarrow> k) | _ \<Rightarrow> Some ([], 0)),
      sr_config = None,
      sr_deploy = (case cq_Body q of CDeploy a n \<Rightarrow> (a, case n of None \<Rightarrow> 0 | Some k \<Rightarrow> k) | _ \<Rightarrow> ([], 0)),
      sr_dry_run = (case cq_Body q of CClean d \<Rightarrow> d | _ \<Rightarrow> False), sr_alerts = None, sr_url = None, sr_mode = None, sr_session = None\<rparr>"

text \<open>The server on the other end of the client's connection.\<close>

record 'm backend_server =
  bs_brk :: "ref \<Rightarrow> breaker_state"
  bs_parse :: "string \<Rightarrow> (string \<times> string) option"
  bs_crypto :: crypto
  bs_admin :: admin_cfg
  bs_pprof :: bool
  bs_hooks :: "'m world_scheme hooks"

definition net_of :: "(string \<Rightarrow> url_parts option) \<Rightarrow> 'm backend_server \<Rightarrow> time \<Rightarrow> string \<Rightarrow> ('m world_scheme api_state, body) net" where
  "net_of parse bs now addr cfg meth path bdy st =
     (case client_Do parse cfg meth path bdy of
        None \<Rightarrow> (None, st)
      | Some q \<Rightarrow>
          (case serve (bs_brk bs) (bs_parse bs) (bs_crypto bs) (bs_admin bs) (bs_pprof bs) (bs_hooks bs) (received now addr q) st of
             (rep, _, st') \<Rightarrow> (Some rep, st')))"

text \<open>The server takes the login of the client, in the order in which the client chooses.\<close>

definition accepts :: "admin_cfg \<Rightarrow> client_cfg \<Rightarrow> bool" where
  "accepts ad cfg \<longleftrightarrow>
     (if cc_APIKey cfg \<noteq> [] then ad_APIKey ad = cc_APIKey cfg
      else if cc_Bearer cfg \<noteq> [] then ad_Token ad = cc_Bearer cfg
      else cc_BasicU cfg \<noteq> [] \<and> cc_BasicP cfg \<noteq> [] \<and> CHR '':'' \<notin> set (cc_BasicU cfg) \<and>
           ad_BasicUser ad = cc_BasicU cfg \<and> ad_BasicPass ad = cc_BasicP cfg)"

section \<open>Lemmas: the credential\<close>

lemma http_basic:
  assumes "CHR '':'' \<notin> set u"
  shows "http_BasicAuth (''Basic '' @ b64_encode StdEncoding (bytes_of (u @ CHR '':'' # p))) = Some (u, p)"
proof -
  let ?e = "b64_encode StdEncoding (bytes_of (u @ CHR '':'' # p))"
  have "has_prefix (to_lower (''Basic '' @ ?e)) ''basic ''"
    by (simp add: has_prefix_def to_lower_def lower_char_def char_of_eq_iff)
  moreover have "b64_decode StdEncoding ?e = Some (bytes_of (u @ CHR '':'' # p))" by (rule b64_roundtrip) simp
  moreover have "drop 6 (''Basic '' @ ?e) = ?e" by simp
  ultimately show ?thesis unfolding http_BasicAuth_def using assms by simp
qed

lemma applyAuth_frame [simp]:
  "cq_Method (applyAuth cfg q) = cq_Method q" "cq_URL (applyAuth cfg q) = cq_URL q" "cq_Body (applyAuth cfg q) = cq_Body q"
  by (simp_all add: applyAuth_def)

lemma applyAuth_accepted:
  assumes "accepts ad cfg" "cq_APIKey q = []" "cq_Authorization q = []"
  shows "bootstrap_credential ad (sr_req (received now addr (applyAuth cfg q)))"
  using assms http_basic [of "cc_BasicU cfg" "cc_BasicP cfg"]
  by (auto simp: accepts_def applyAuth_def received_def bootstrap_credential_def split: if_splits)

lemma bootstrap_resolves:
  assumes "bootstrap_credential ad r" "rq_session_cookie r = None"
  shows "\<exists>who. resolveScopes cr ad keys now r cache = (Some (AllScopes, who), cache, None) \<and> has_prefix who ''bootstrap:''"
  using assms by (auto simp: resolveScopes_def bootstrap_credential_def resolveSessionCookie_def resolveSessionCookieWithExp_def has_prefix_def)

lemma bootstrap_served:
  assumes "bootstrap_credential ad r" "rq_session_cookie r = None" "\<not> isBlockedIP now r (as_tracker ast)"
  shows "\<exists>who. authed cr ad keys now r ast = (Served who None, None, ast)"
proof -
  obtain who where w: "resolveScopes cr ad keys now r (as_cache ast) = (Some (AllScopes, who), as_cache ast, None)" "has_prefix who ''bootstrap:''"
    using bootstrap_resolves [OF assms(1,2)] by blast
  have "\<not> noAuthConfigured ad" using assms(1) by (auto simp: bootstrap_credential_def noAuthConfigured_def)
  moreover have "\<not> has_prefix who ''session:''" using w(2) prefix_clash [of who "''session:''" "''bootstrap:''"] by auto
  ultimately show ?thesis
    using w assms(2,3) by (simp add: authed_def Let_def HasScope_iff RequiredScope_known checkCSRF_def maybeRefreshSession_def split: option.split)
qed

section \<open>Lemmas: a request of the client is served\<close>

lemma bootstrap_hasKeys [simp]: "bootstrap_credential (ad\<lparr>ad_hasKeys := b\<rparr>) r = bootstrap_credential ad r"
  by (simp add: bootstrap_credential_def)

text \<open>Whether an address is locked out.\<close>

definition locked_out :: "time \<Rightarrow> string \<Rightarrow> tracker \<Rightarrow> bool" where
  "locked_out now addr tr \<longleftrightarrow>
     (case failed tr (case SplitHostPort addr of None \<Rightarrow> addr | Some (host, _) \<Rightarrow> host) of
        None \<Rightarrow> False
      | Some f \<Rightarrow> (case fs_lockedUntil f of None \<Rightarrow> False | Some u \<Rightarrow> \<not> now > u))"

lemma blocked_received [simp]: "isBlockedIP now (sr_req (received now addr q)) tr = locked_out now addr tr"
  by (cases "SplitHostPort addr") (auto simp: isBlockedIP_def locked_out_def clientIP_def received_def)

lemma received_fields [simp]:
  "rq_Method (sr_req (received now addr q)) = cq_Method q" "rq_Path (sr_req (received now addr q)) = ul_Path (cq_URL q)"
  "rq_session_cookie (sr_req (received now addr q)) = None" "now_of (received now addr q) = now"
  "sr_query (received now addr q) = query_get (ul_RawQuery (cq_URL q))"
  by (simp_all add: received_def now_of_def)

definition behind_auth :: "route \<Rightarrow> bool" where
  "behind_auth rt \<longleftrightarrow> rt \<notin> {RMoved, RRoot, RHealth, RSPA, RSession}"

lemma net_served:
  assumes "client_Do parse cfg meth path bdy = Some q" "accepts (bs_admin bs) cfg" "\<not> locked_out now addr (ap_tracker st)"
    and "route_of (ad_UIEnabled (bs_admin bs)) (bs_pprof bs) (cq_Method q) (ul_Path (cq_URL q)) = rt" "behind_auth rt"
  shows "\<exists>who. net_of parse bs now addr cfg meth path bdy st =
    (let (rep, st') = handler (bs_brk bs) (bs_parse bs) (bs_crypto bs) (ad_UIEnabled (bs_admin bs)) (bs_hooks bs) rt (with_who who (received now addr q)) st
     in (Some rep, st'))"
proof -
  let ?ad = "(bs_admin bs)\<lparr>ad_hasKeys := hk_APIKeys (bs_hooks bs) \<noteq> None\<rparr>" and ?sq = "received now addr q"
  let ?ast = "\<lparr>as_cache = ap_cache st, as_tracker = ap_tracker st\<rparr>"
  obtain q0 where q: "q = applyAuth cfg q0" "cq_APIKey q0 = []" "cq_Authorization q0 = []"
    using assms(1) by (auto simp: client_Do_def Let_def split: option.splits prod.splits)
  have "bootstrap_credential ?ad (sr_req ?sq)" using applyAuth_accepted [OF assms(2) q(2,3)] q(1) by simp
  with assms(3) obtain who where a: "authed (bs_crypto bs) ?ad (registry (bs_hooks bs) (ap_store st)) now (sr_req ?sq) ?ast = (Served who None, None, ?ast)"
    using bootstrap_served [of ?ad "sr_req ?sq" now ?ast] by auto
  have "net_of parse bs now addr cfg meth path bdy st =
    (let (rep, st') = handler (bs_brk bs) (bs_parse bs) (bs_crypto bs) (ad_UIEnabled (bs_admin bs)) (bs_hooks bs) rt (with_who who ?sq) st in (Some rep, st'))"
    using assms(1,4,5) a by (simp add: net_of_def serve_def Let_def behind_auth_def case_prod_unfold)
  then show ?thesis by blast
qed

lemma client_Do_plain:
  assumes "parse (cc_URL cfg) = Some u" "trim_slashes (ul_Path u) = []" "CHR ''?'' \<notin> set path"
  obtains q where "client_Do parse cfg meth path bdy = Some q" "cq_Method q = meth" "ul_Path (cq_URL q) = path" "cq_Body q = bdy"
  using assms index_byte_None [of path "CHR ''?''"] by (auto simp: client_Do_def Let_def intro: that)

lemma client_Do_query:
  assumes "parse (cc_URL cfg) = Some u" "trim_slashes (ul_Path u) = []" "CHR ''?'' \<notin> set path" "qs \<noteq> []"
  obtains q where "client_Do parse cfg meth (path @ CHR ''?'' # qs) bdy = Some q" "cq_Method q = meth" "ul_Path (cq_URL q) = path" "cq_Body q = bdy"
    "ul_RawQuery (cq_URL q) = qs"
  using assms by (auto simp: client_Do_def Let_def intro: that)

text \<open>Values that a query carries as they are.\<close>

definition query_safe :: "string \<Rightarrow> bool" where
  "query_safe s \<longleftrightarrow> list_all (\<lambda>c. c \<notin> set ''%+&;=?'') s"

lemma unescape_safe: "query_safe s \<Longrightarrow> query_unescape s = Some s"
  by (induction s) (auto simp: query_safe_def)

lemma query_get_one:
  assumes "query_safe k" "query_safe v" "k \<noteq> []"
  shows "query_get (k @ CHR ''='' # v) k = v" "k' \<noteq> k \<Longrightarrow> query_get (k @ CHR ''='' # v) k' = []"
proof -
  have n: "c \<notin> set s" if "query_safe s" "c \<in> set ''%+&;=?''" for c s using that by (auto simp: query_safe_def list_all_iff)
  have "query_pair (k @ CHR ''='' # v) = Some (k, v)"
    using assms n [OF assms(1)] n [OF assms(2)] by (simp add: query_pair_def unescape_safe)
  moreover have "split_on (CHR ''&'') (k @ CHR ''='' # v) = [k @ CHR ''='' # v]"
    using n [OF assms(1)] n [OF assms(2)] by (intro split_on_atom) simp
  ultimately show "query_get (k @ CHR ''='' # v) k = v" "k' \<noteq> k \<Longrightarrow> query_get (k @ CHR ''='' # v) k' = []"
    by (simp_all add: query_get_def List.map_filter_simps)
qed

section \<open>The commands that change something\<close>

datatype change = ChAdd string int | ChRemove string string | ChDeploy string int | ChDestroy | ChClean bool | ChRecycle string

fun run_change :: "('s, body) net \<Rightarrow> (cli_err + client_cfg) \<Rightarrow> change \<Rightarrow> 's \<Rightarrow> (cli_err + body) \<times> 's" where
  "run_change net l (ChAdd tok n) = runClientAddToken net l Some tok n"
| "run_change net l (ChRemove acc tok) = runClientRemoveToken net l Some acc tok"
| "run_change net l (ChDeploy acc n) = runClientDeploy net l Some acc n"
| "run_change net l ChDestroy = runClientDestroy net l Some True []"
| "run_change net l (ChClean dry) = runClientClean net l Some dry True []"
| "run_change net l (ChRecycle name) = runClientRecycle net l Some name"

text \<open>The operation of the server that a command asks for, with whether it succeeds.\<close>

definition succeeds :: "('e + 'a) \<times> 's \<Rightarrow> bool \<times> 's" where
  "succeeds rs = (case rs of (Inl _, s) \<Rightarrow> (False, s) | (Inr _, s) \<Rightarrow> (True, s))"

fun hook_of :: "'s hooks \<Rightarrow> change \<Rightarrow> ('s \<Rightarrow> bool \<times> 's) option" where
  "hook_of hk (ChAdd tok n) = map_option (\<lambda>f s. succeeds (f tok (if n > 0 then n else 0) s)) (hk_AddToken hk)"
| "hook_of hk (ChRemove acc tok) = map_option (\<lambda>f s. succeeds (f acc (if acc = [] then tok else []) s)) (hk_RemoveToken hk)"
| "hook_of hk (ChDeploy acc n) = map_option (\<lambda>f s. succeeds (f acc (if n > 0 then n else 0) s)) (hk_DeployMore hk)"
| "hook_of hk ChDestroy = map_option (\<lambda>f s. succeeds (f s)) (hk_DestroyAll hk)"
| "hook_of hk (ChClean dry) = map_option (\<lambda>f s. succeeds (f dry s)) (hk_Clean hk)"
| "hook_of hk (ChRecycle name) = map_option (\<lambda>f s. succeeds (f name s)) (hk_RecycleWorker hk)"

text \<open>Arguments that are not empty and that the request line carries as they are.\<close>

fun proper :: "change \<Rightarrow> bool" where
  "proper (ChAdd tok n) \<longleftrightarrow> tok \<noteq> []"
| "proper (ChRemove acc tok) \<longleftrightarrow> (acc \<noteq> [] \<or> tok \<noteq> []) \<and> query_safe acc \<and> query_safe tok"
| "proper (ChDeploy acc n) \<longleftrightarrow> trim_space acc \<noteq> []"
| "proper ChDestroy \<longleftrightarrow> True"
| "proper (ChClean dry) \<longleftrightarrow> True"
| "proper (ChRecycle name) \<longleftrightarrow> name \<notin> {[], ''.'', ''..''} \<and> CHR ''/'' \<notin> set name \<and> CHR ''?'' \<notin> set name"

text \<open>The state after the operation, with or without its audit line.\<close>

definition audited :: "'s hooks \<Rightarrow> time \<Rightarrow> string \<Rightarrow> 's \<Rightarrow> 's \<Rightarrow> bool" where
  "audited hk now who s s' \<longleftrightarrow> s' = s \<or> (\<exists>action target detail. s' = audit (hk_Audit hk) now (Some who) action target detail s)"

lemma audited_line: "audited hk now who s (ap_store (audit_line hk (with_who who (received now addr q)) action target detail (st\<lparr>ap_store := s\<rparr>)))"
  by (auto simp: audited_def audit_line_def with_who_def now_of_def received_def)

lemma audited_refl: "audited hk now who s s"
  by (simp add: audited_def)

lemma routes:
  "route_of ui pprof ''POST'' ''/tokens'' = RTokens" "route_of ui pprof ''DELETE'' ''/tokens'' = RTokens" "route_of ui pprof ''POST'' ''/workers/deploy'' = RWorkerSub"
  "route_of ui pprof ''DELETE'' ''/workers'' = RWorkers" "route_of ui pprof ''POST'' ''/workers/clean'' = RWorkerSub"
proof -
  have "list_all (\<lambda>(m, p, rt). list_all (\<lambda>ui. list_all (\<lambda>pprof. route_of ui pprof m p = rt) [True, False]) [True, False])
      [(''POST'', ''/tokens'', RTokens), (''DELETE'', ''/tokens'', RTokens), (''POST'', ''/workers/deploy'', RWorkerSub), (''DELETE'', ''/workers'', RWorkers),
       (''POST'', ''/workers/clean'', RWorkerSub)]" by code_simp
  then show "route_of ui pprof ''POST'' ''/tokens'' = RTokens" "route_of ui pprof ''DELETE'' ''/tokens'' = RTokens"
    "route_of ui pprof ''POST'' ''/workers/deploy'' = RWorkerSub" "route_of ui pprof ''DELETE'' ''/workers'' = RWorkers"
    "route_of ui pprof ''POST'' ''/workers/clean'' = RWorkerSub"
    by (cases ui; cases pprof; simp)+
qed

lemma route_recycle:
  assumes "proper (ChRecycle name)"
  shows "route_of ui pprof ''POST'' (''/workers/'' @ name @ ''/recycle'') = RWorkerSub"
proof -
  let ?p = "''/workers/'' @ name @ ''/recycle''"
  have sp: "split_on (CHR ''/'') (''workers/'' @ name @ ''/recycle'') = [''workers'', name, ''recycle'']"
    using split_on_append_sep [of "CHR ''/''" "''workers''" "name @ ''/recycle''"] split_on_append_sep [of "CHR ''/''" name "''recycle''"] assms
    by (simp add: split_on_atom)
  then have "clean_url_path ?p" using assms by (simp add: clean_url_path_def)
  moreover have "map_of (exact_routes ui) ?p = None"
    by (auto simp: map_of_eq_None_iff exact_routes_def)
  moreover have "find (\<lambda>pr. has_prefix ?p (fst pr)) (prefix_routes ui pprof) = Some (''/workers/'', RWorkerSub)"
    by (simp add: prefix_routes_def has_prefix_def)
  ultimately show ?thesis by (simp add: route_of_def)
qed

text \<open>A command's operation, through the client, the middleware and the handler.\<close>

lemma doJSONOp_served:
  assumes "client_Do parse cfg meth path bdy = Some q" "accepts (bs_admin bs) cfg" "\<not> locked_out now addr (ap_tracker st)"
    and "route_of (ad_UIEnabled (bs_admin bs)) (bs_pprof bs) (cq_Method q) (ul_Path (cq_URL q)) = rt" "behind_auth rt"
  obtains who rep st' where
    "handler (bs_brk bs) (bs_parse bs) (bs_crypto bs) (ad_UIEnabled (bs_admin bs)) (bs_hooks bs) rt (with_who who (received now addr q)) st = (rep, st')"
    "doJSONOp (net_of parse bs now addr cfg) Some meth path bdy st = (if fst rep \<ge> 300 then Inl (HttpStatus (fst rep)) else Inr (snd rep), st')"
proof -
  obtain who where n: "net_of parse bs now addr cfg meth path bdy st =
    (let (rep, st') = handler (bs_brk bs) (bs_parse bs) (bs_crypto bs) (ad_UIEnabled (bs_admin bs)) (bs_hooks bs) rt (with_who who (received now addr q)) st
     in (Some rep, st'))" using net_served [OF assms] by blast
  obtain rep st' where h: "handler (bs_brk bs) (bs_parse bs) (bs_crypto bs) (ad_UIEnabled (bs_admin bs)) (bs_hooks bs) rt (with_who who (received now addr q)) st = (rep, st')"
    by (metis surj_pair)
  from n h have "doJSONOp (net_of parse bs now addr cfg) Some meth path bdy st = (if fst rep \<ge> 300 then Inl (HttpStatus (fst rep)) else Inr (snd rep), st')"
    by (simp add: doJSONOp_def case_prod_unfold)
  with h that show thesis by blast
qed

lemma add_token_status_error [simp]: "\<not> add_token_status e < 300"
  by (simp add: add_token_status_def)

lemma with_who_fields [simp]:
  "rmethod (with_who who sq) = rmethod sq" "sr_token (with_who who sq) = sr_token sq" "sr_query (with_who who sq) = sr_query sq"
  "sr_deploy (with_who who sq) = sr_deploy sq" "sr_dry_run (with_who who sq) = sr_dry_run sq" "sr_req (with_who who sq) = sr_req sq"
  by (simp_all add: with_who_def rmethod_def)

lemma received_body [simp]:
  "rmethod (received now addr q) = cq_Method q"
  "cq_Body q = CToken t n \<Longrightarrow> sr_token (received now addr q) = Some (t, case n of None \<Rightarrow> 0 | Some k \<Rightarrow> k)"
  "cq_Body q = CDeploy a n \<Longrightarrow> sr_deploy (received now addr q) = (a, case n of None \<Rightarrow> 0 | Some k \<Rightarrow> k)"
  "cq_Body q = CClean d \<Longrightarrow> sr_dry_run (received now addr q) = d"
  by (simp_all add: received_def rmethod_def)

lemma positive_default [simp]: "(case positive n of None \<Rightarrow> 0 | Some k \<Rightarrow> k) = (if n > 0 then n else 0)"
  by (simp add: positive_def)

text \<open>What a handler leaves: the state of the hook, audited or not, and a status below 300 exactly when the hook succeeded.\<close>

definition carried_out :: "'s hooks \<Rightarrow> time \<Rightarrow> string \<Rightarrow> bool \<times> 's \<Rightarrow> (nat \<times> body) \<times> 's api_state \<Rightarrow> bool" where
  "carried_out hk now who bs res \<longleftrightarrow> (fst (fst res) < 300 \<longleftrightarrow> fst bs) \<and> audited hk now who (snd bs) (ap_store (snd res))"

lemma carried_out_line:
  "(code < 300) = ok \<Longrightarrow> carried_out hk now who (ok, s) ((code, b), audit_line hk (with_who who (received now addr q)) action target detail (st\<lparr>ap_store := s\<rparr>))"
  by (simp add: carried_out_def audited_line)

lemma carried_out_quiet: "(code < 300) = ok \<Longrightarrow> carried_out hk now who (ok, s) ((code, b), st\<lparr>ap_store := s\<rparr>)"
  by (simp add: carried_out_def audited_refl)

lemmas carried_out_intros = carried_out_line carried_out_quiet

lemma handler_adds:
  assumes "hk_AddToken hk = Some f" "cq_Method q = ''POST''" "cq_Body q = CToken tok (positive n)" "tok \<noteq> []"
  shows "carried_out hk now who (succeeds (f tok (if n > 0 then n else 0) (ap_store st))) (handler brk pu cr ui hk RTokens (with_who who (received now addr q)) st)"
  using assms
  by (auto simp: handler_def handleTokens_def handleAddToken_def with_hook_def run_hook_def succeeds_def not_less Let_def
      intro!: carried_out_intros split: prod.split sum.split)

lemma handler_removes:
  assumes "hk_RemoveToken hk = Some f" "cq_Method q = ''DELETE''" "query_get (ul_RawQuery (cq_URL q)) ''account'' = acc"
    "query_get (ul_RawQuery (cq_URL q)) ''token'' = tok" "acc \<noteq> [] \<or> tok \<noteq> []"
  shows "carried_out hk now who (succeeds (f acc tok (ap_store st))) (handler brk pu cr ui hk RTokens (with_who who (received now addr q)) st)"
  using assms
  by (auto simp: handler_def handleTokens_def handleRemoveToken_def with_hook_def run_hook_def succeeds_def Let_def
      intro!: carried_out_intros split: prod.split sum.split)

lemma handler_destroys:
  assumes "hk_DestroyAll hk = Some f" "cq_Method q = ''DELETE''" "query_get (ul_RawQuery (cq_URL q)) ''confirm'' = ''true''"
  shows "carried_out hk now who (succeeds (f (ap_store st))) (handler brk pu cr ui hk RWorkers (with_who who (received now addr q)) st)"
  using assms
  by (auto simp: handler_def handleWorkersRoot_def handleWorkersDestroyAll_def with_hook_def run_hook_def succeeds_def Let_def
      intro!: carried_out_intros split: prod.split sum.split)

lemma handler_deploys:
  assumes "hk_DeployMore hk = Some f" "cq_Method q = ''POST''" "cq_Body q = CDeploy acc (positive n)" "ul_Path (cq_URL q) = ''/workers/deploy''" "trim_space acc \<noteq> []"
  shows "carried_out hk now who (succeeds (f acc (if n > 0 then n else 0) (ap_store st))) (handler brk pu cr ui hk RWorkerSub (with_who who (received now addr q)) st)"
  using assms
  by (auto simp: handler_def handleWorkerSub_def handleWorkersDeploy_def with_hook_def run_hook_def succeeds_def trim_prefix_def has_prefix_def Let_def
      intro!: carried_out_intros split: prod.split sum.split)

lemma handler_cleans:
  assumes "hk_Clean hk = Some f" "cq_Method q = ''POST''" "cq_Body q = CClean dry" "ul_Path (cq_URL q) = ''/workers/clean''"
  shows "carried_out hk now who (succeeds (f dry (ap_store st))) (handler brk pu cr ui hk RWorkerSub (with_who who (received now addr q)) st)"
  using assms
  by (auto simp: handler_def handleWorkerSub_def handleWorkersClean_def with_hook_def run_hook_def succeeds_def trim_prefix_def has_prefix_def Let_def
      intro!: carried_out_intros split: prod.split sum.split)

lemma handler_recycles:
  assumes "hk_RecycleWorker hk = Some f" "cq_Method q = ''POST''" "ul_Path (cq_URL q) = ''/workers/'' @ name @ ''/recycle''" "CHR ''/'' \<notin> set name"
  shows "carried_out hk now who (succeeds (f name (ap_store st))) (handler brk pu cr ui hk RWorkerSub (with_who who (received now addr q)) st)"
proof -
  have t: "trim_prefix (''/workers/'' @ name @ ''/recycle'') ''/workers/'' = name @ ''/recycle''" by (rule trim_prefix_append)
  have "CHR ''/'' \<in> set (name @ ''/recycle'')" "CHR ''/'' \<notin> set ''deploy''" "CHR ''/'' \<notin> set ''clean''" by simp_all
  then have n: "name @ ''/recycle'' \<noteq> ''deploy''" "name @ ''/recycle'' \<noteq> ''clean''" by metis+
  have sp: "split_n 2 (CHR ''/'') (name @ ''/recycle'') = [name, ''recycle'']" using assms(4) by (simp add: numeral_2_eq_2)
  show ?thesis
    using assms t n sp
    by (auto simp: handler_def handleWorkerSub_def handleWorkerRecycle_def with_hook_def run_hook_def succeeds_def Let_def
        intro!: carried_out_intros split: prod.split sum.split)
qed

section \<open>Properties\<close>

lemma finish_change:
  assumes "doJSONOp (net_of parse bs now addr cfg) Some meth path bdy st = (if fst rep \<ge> 300 then Inl (HttpStatus (fst rep)) else Inr (snd rep), st')"
    and "carried_out hk now who (ok, s) (rep, st')"
  shows "case doJSONOp (net_of parse bs now addr cfg) Some meth path bdy st of (r, st') \<Rightarrow> (isl r \<longleftrightarrow> \<not> ok) \<and> (\<exists>who. audited hk now who s (ap_store st'))"
  using assms by (auto simp: carried_out_def not_less)


text \<open>A login for the demonstration server, which adds a token.\<close>

definition demo_login :: client_cfg where
  "demo_login = \<lparr>cc_URL = ''http://h'', cc_APIKey = [], cc_Bearer = ''t0k'', cc_BasicU = [], cc_BasicP = [], cc_Insecure = False\<rparr>"

definition demo_backend :: "unit backend_server" where
  "demo_backend = \<lparr>bs_brk = (\<lambda>_. StateClosed), bs_parse = (\<lambda>_. None), bs_crypto = demo_crypto, bs_admin = demo_admin, bs_pprof = False,
     bs_hooks = demo_hooks\<lparr>hk_AddToken := Some (\<lambda>tok n s. (Inr [tok, itoa n], s))\<rparr>\<rparr>"


section \<open>The log stream\<close>

text \<open>What the server writes for the messages of a tail.\<close>

definition sse :: "string list \<Rightarrow> string" where
  "sse msgs = concat (map (\<lambda>m. ''data: '' @ m @ [CHR 0x0A, CHR 0x0A]) msgs)"

lemma trim_space_ends: "\<not> is_space (hd s) \<Longrightarrow> \<not> is_space (last s) \<Longrightarrow> trim_space s = s"
proof (cases "s = []")
  case False
  assume "\<not> is_space (hd s)" "\<not> is_space (last s)"
  then have "dropWhile is_space s = s" "dropWhile is_space (rev s) = rev s" using False by (simp_all add: dropWhile_eq_self_iff hd_rev)
  then show ?thesis by (simp add: trim_space_def)
qed (simp add: trim_space_def)

definition clean_message :: "string \<Rightarrow> bool" where
  "clean_message m \<longleftrightarrow> m \<noteq> [] \<and> CHR 0x0A \<notin> set m \<and> \<not> is_space (hd m) \<and> \<not> is_space (last m)"

lemma payload_of_data:
  assumes "clean_message m"
  shows "payload_of (''data: '' @ m) = Some m"
proof -
  have m: "m \<noteq> []" "\<not> is_space (hd m)" "\<not> is_space (last m)" using assms by (simp_all add: clean_message_def)
  have "trim_space (''data: '' @ m) = ''data: '' @ m" using m by (intro trim_space_ends) (simp_all add: is_space_def)
  moreover have "trim_prefix (''data: '' @ m) ''data:'' = CHR '' '' # m" by (simp add: trim_prefix_def has_prefix_def)
  moreover have "trim_space (CHR '' '' # m) = m"
  proof -
    have "trim_space (CHR '' '' # m) = trim_space m" by (simp add: trim_space_def is_space_def)
    with trim_space_ends [OF m(2,3)] show ?thesis by simp
  qed
  ultimately show ?thesis by (simp add: payload_of_def Let_def has_prefix_def)
qed

lemma complete_lines_sse:
  assumes "clean_message m"
  shows "complete_lines (sse (m # ms)) = (''data: '' @ m) # [] # complete_lines (sse ms)"
proof -
  have n: "CHR 0x0A \<notin> set (''data: '' @ m)" using assms by (simp add: clean_message_def)
  have "sse (m # ms) = (''data: '' @ m) @ CHR 0x0A # [] @ CHR 0x0A # sse ms" by (simp add: sse_def)
  then have "split_on (CHR 0x0A) (sse (m # ms)) = (''data: '' @ m) # [] # split_on (CHR 0x0A) (sse ms)"
    using n by (simp only: split_on_append_sep [OF n] split_on_append_sep [of "CHR 0x0A" "[]"] list.set(1) empty_iff not_False_eq_True)
  then show ?thesis by (simp add: complete_lines_def)
qed

text \<open>
  The log tail shows every message once and in order. For messages without line breaks and without white space at their ends, what \<^verbatim>\<open>client logs\<close> prints from the
  server's event stream is line by line the rendering of the messages sent, whatever they contain.
\<close>

lemma logs_roundtrip:
  assumes "list_all clean_message msgs"
  shows "shown_lines decode False (sse msgs) = map (log_line decode) msgs"
proof -
  have "List.map_filter payload_of (complete_lines (sse msgs)) = msgs"
    using assms
  proof (induction msgs)
    case (Cons m ms)
    have "payload_of [] = None" by (simp add: payload_of_def trim_space_def)
    with Cons show ?case by (simp add: complete_lines_sse payload_of_data List.map_filter_simps del: append.simps)
  qed (simp add: sse_def complete_lines_def List.map_filter_simps)
  then show ?thesis by (simp add: shown_lines_def)
qed

lemma logs_roundtrip_example: "shown_lines (\<lambda>_. None) False (sse [''one'', ''data: two'']) = [''one'', ''data: two'']"
proof -
  have "list_all clean_message [''one'', ''data: two'']" by (simp add: clean_message_def is_space_def)
  from logs_roundtrip [OF this, of "\<lambda>_. None"] show ?thesis by (simp add: log_line_def)
qed

text \<open>An error of the tail reaches the user as if it were a message, and the command succeeds.\<close>

lemma tail_error_shown:
  "clean_message e \<Longrightarrow> shown_lines decode False (''event: error'' @ CHR 0x0A # ''data: '' @ e @ [CHR 0x0A, CHR 0x0A]) = [log_line decode e]"
proof -
  assume e: "clean_message e"
  have "''event: error'' @ CHR 0x0A # ''data: '' @ e @ [CHR 0x0A, CHR 0x0A] = ''event: error'' @ CHR 0x0A # sse [e]" by (simp add: sse_def)
  moreover have "split_on (CHR 0x0A) (''event: error'' @ CHR 0x0A # sse [e]) = ''event: error'' # split_on (CHR 0x0A) (sse [e])"
    by (rule split_on_append_sep) simp
  moreover have "payload_of ''event: error'' = None" by code_simp
  moreover have "List.map_filter payload_of (complete_lines (sse [e])) = [e]"
    using complete_lines_sse [OF e, of "[]"] payload_of_data [OF e]
    by (simp add: payload_of_def [of "[]"] trim_space_def complete_lines_def sse_def List.map_filter_simps del: append.simps)
  ultimately show ?thesis by (simp add: shown_lines_def complete_lines_def List.map_filter_simps del: append.simps)
qed

section \<open>The totals of the history\<close>

lemma str_le_refl [simp]: "str_le a a"
  by (induction a) simp_all

lemma str_le_antisym: "str_le a b \<Longrightarrow> str_le b a \<Longrightarrow> a = b"
  by (induction a b rule: str_le.induct) (auto split: if_splits elim: str_le.elims)

lemma str_le_total: "str_le a b \<or> str_le b a"
proof (induction a b rule: str_le.induct)
  case (3 x a y b)
  have "(of_char x :: nat) < of_char y \<or> (of_char y :: nat) < of_char x" if "x \<noteq> y" using that by (metis nat_neq_iff of_char_eq_iff)
  with 3 show ?case by auto
qed simp_all

lemma str_le_trans: "str_le a b \<Longrightarrow> str_le b c \<Longrightarrow> str_le a c"
proof (induction a b arbitrary: c rule: str_le.induct)
  case (3 x a y b)
  then show ?case by (cases c) (auto split: if_splits)
qed (auto elim: str_le.elims)

definition str_less :: "string \<Rightarrow> string \<Rightarrow> bool" where
  "str_less a b \<longleftrightarrow> str_le a b \<and> a \<noteq> b"

lemma insert_date_set [simp]: "set (insert_date d xs) = insert d (set xs)"
  by (induction xs) auto

lemma insert_date_sorted: "sorted_wrt str_less xs \<Longrightarrow> sorted_wrt str_less (insert_date d xs)"
proof (induction xs)
  case (Cons x xs)
  have "str_less d y" if "str_le d x" "d \<noteq> x" "y \<in> set xs" for y
    using that Cons.prems str_le_trans str_le_antisym by (auto simp: str_less_def)
  moreover have "str_less x d" if "\<not> str_le d x" using that str_le_total by (auto simp: str_less_def)
  ultimately show ?case using Cons by (auto simp: str_less_def)
qed simp

lemma byDate_sums:
  "byDate rows d =
     (if d \<in> hr_Date ` set rows
      then Some (sum_list (map hr_Used (filter (\<lambda>r. hr_Date r = d) rows)), sum_list (map hr_Limit (filter (\<lambda>r. hr_Date r = d) rows)))
      else None)"
proof (induction rows rule: rev_induct)
  case (snoc r rows)
  have "byDate (rows @ [r]) = add_day r (byDate rows)" by (simp add: byDate_def)
  moreover have "filter (\<lambda>x. hr_Date x = d) rows = []" if "d \<notin> hr_Date ` set rows" using that by (auto simp: filter_empty_conv)
  ultimately show ?case using snoc by (auto simp: add_day_def Let_def split: option.split)
qed (simp add: byDate_def)


text \<open>Logging in and out: the file decides whether the command line goes to a server.\<close>

lemma login_loads:
  assumes "runClientLogin to_yaml True True path url key bearer user pass fs = (None, fs')" "url \<noteq> []"
    and "\<And>c raw. to_yaml c = Some raw \<Longrightarrow> yaml raw = Some c"
  shows "LoadFrom yaml (fs' path) = Inr \<lparr>cc_URL = url, cc_APIKey = key, cc_Bearer = bearer, cc_BasicU = user, cc_BasicP = pass, cc_Insecure = False\<rparr>"
    and "LoadFrom yaml (snd (runClientLogout True path fs') path) = Inl NotLoggedIn"
  using assms by (auto simp: runClientLogin_def SaveTo_def LoadFrom_def runClientLogout_def split: option.splits)

end
