(* ===== verification/Worker_Script.thy ===== *)
theory Worker_Script
  imports Tunnel Netip
begin

text \<open>
  The other end of a tunnel: the request check of the worker script (\<^verbatim>\<open>internal/worker/template.js\<close>) and of the local stand-in
  (\<^verbatim>\<open>cmd/mockworker/main.go\<close>), against the queries that \<open>DialWorker\<close> of \<open>Tunnel\<close> makes. The keyed hash is an argument; numbers of JavaScript are
  integers here, which is exact below \<open>2 ^ 53\<close>.
\<close>

section \<open>The script\<close>

definition js_parseInt :: "string \<Rightarrow> int option" where
  "js_parseInt s =
     (let t = dropWhile is_space s; u = (if t \<noteq> [] \<and> (hd t = CHR ''-'' \<or> hd t = CHR ''+'') then tl t else t); ds = takeWhile is_digit u
      in if ds = [] then None else Some (if t \<noteq> [] \<and> hd t = CHR ''-'' then - int (undec ds) else int (undec ds)))"

fun hex2bytes :: "string \<Rightarrow> bytes option" where
  "hex2bytes [] = Some []"
| "hex2bytes [c] = None"
| "hex2bytes (a # b # r) =
     (if is_hex a \<and> is_hex b then map_option (Cons (of_nat (16 * hex_val a + hex_val b))) (hex2bytes r) else None)"

datatype worker_answer = WHealth | WStatus nat | WSocket string int | WFetch string int bool

text \<open>A parameter of the query with a default; a missing and an empty one are the same.\<close>

definition param :: "(string \<rightharpoonup> string) \<Rightarrow> string \<Rightarrow> string \<Rightarrow> string" where
  "param q k d = (case q k of None \<Rightarrow> d | Some v \<Rightarrow> if v = [] then d else v)"

definition TS_WINDOW_SEC :: int where "TS_WINDOW_SEC = 60"

definition script_fetch ::
  "(bytes \<Rightarrow> bytes \<Rightarrow> bytes) \<Rightarrow> string \<Rightarrow> time \<Rightarrow> string \<Rightarrow> bool \<Rightarrow> (string \<rightharpoonup> string) \<Rightarrow> worker_answer" where
  "script_fetch hmac secret now pathname upgrade q =
     (if pathname = ''/__health'' then WHealth
      else if \<not> upgrade then WStatus 426
      else (let host = param q ''h'' []; sig = param q ''s'' []; tls = (q ''t'' = Some ''1''); mode = param q ''m'' ''socket''
            in case (js_parseInt (param q ''p'' ''0''), js_parseInt (param q ''ts'' ''0'')) of
                 (Some port, Some ts) \<Rightarrow>
                   if host = [] \<or> port = 0 \<or> ts = 0 \<or> sig = [] then WStatus 400
                   else if \<bar>now - ts\<bar> > TS_WINDOW_SEC then WStatus 401
                   else (case hex2bytes sig of
                           None \<Rightarrow> WStatus 403
                         | Some mac \<Rightarrow>
                             if mac \<noteq> hmac (bytes_of secret) (bytes_of (sign_text ts host port tls mode)) then WStatus 403
                             else if mode = ModeFetch then WFetch host port tls else WSocket host port)
               | _ \<Rightarrow> WStatus 400))"

text \<open>What the dialing side sees of it: whether the handshake succeeds, and the first message. In socket mode the probe byte is sent once the target is open.\<close>

definition script_dial :: "worker_answer \<Rightarrow> string option" where
  "script_dial a = (case a of WSocket _ _ \<Rightarrow> None | WFetch _ _ _ \<Rightarrow> None | _ \<Rightarrow> Some ''handshake'')"

definition script_first :: "(string \<Rightarrow> int \<Rightarrow> bool) \<Rightarrow> worker_answer \<Rightarrow> probe" where
  "script_first opens a =
     (case a of WSocket h p \<Rightarrow> if opens h p then ProbeMsg [1] else ProbeErr 4001 | _ \<Rightarrow> ProbeMsg [1])"

section \<open>The stand-in\<close>

datatype mock_answer = MStatus nat | MDial string int bool

text \<open>Differences of 64-bit numbers wrap, and so does \<^verbatim>\<open>abs\<close>.\<close>

definition wrap64 :: "int \<Rightarrow> int" where
  "wrap64 x = sint (word_of_int x :: 64 word)"

definition abs64 :: "int \<Rightarrow> int" where
  "abs64 x = (if x < 0 then wrap64 (- x) else x)"

definition mock_text :: "time \<Rightarrow> string \<Rightarrow> int \<Rightarrow> bool \<Rightarrow> string" where
  "mock_text ts host port tls =
     itoa ts @ CHR ''|'' # host @ CHR ''|'' # itoa port @ CHR ''|'' # (if tls then ''1'' else ''0'')"

definition mock_verify :: "(bytes \<Rightarrow> bytes \<Rightarrow> bytes) \<Rightarrow> string \<Rightarrow> time \<Rightarrow> string \<Rightarrow> int \<Rightarrow> bool \<Rightarrow> string \<Rightarrow> bool" where
  "mock_verify hmac secret ts host port tls sig \<longleftrightarrow>
     hex_encode (hmac (bytes_of secret) (bytes_of (mock_text ts host port tls))) = sig"

definition mock_ServeHTTP :: "(bytes \<Rightarrow> bytes \<Rightarrow> bytes) \<Rightarrow> string \<Rightarrow> int \<Rightarrow> time \<Rightarrow> (string \<rightharpoonup> string) \<Rightarrow> mock_answer" where
  "mock_ServeHTTP hmac secret tsWindow now q =
     (let host = param q ''h'' []; portS = param q ''p'' []; useTLS = (param q ''t'' [] = ''1''); tsS = param q ''ts'' []; sig = param q ''s'' []
      in if host = [] \<or> portS = [] \<or> tsS = [] \<or> sig = [] then MStatus 400
         else (case (atoi portS, atoi tsS) of
                 (Some port, Some ts) \<Rightarrow>
                   if abs64 (wrap64 (now - ts)) > tsWindow then MStatus 401
                   else if \<not> mock_verify hmac secret ts host port useTLS sig then MStatus 403
                   else MDial host port useTLS
               | _ \<Rightarrow> MStatus 400))"

section \<open>Lemmas\<close>

lemma nibble_hex: "d < 16 \<Longrightarrow> is_hex (nibble d) \<and> hex_val (nibble d) = d"
  using hex_digit_ok [of d] by (simp add: nibble_def hex_digit_def)

lemma hex2bytes_encode [simp]: "hex2bytes (hex_encode b) = Some b"
proof (induction b)
  case (Cons w b)
  have n: "unat w div 16 < 16" "unat w mod 16 < 16" using unsigned_less [of w, where 'a = nat] by auto
  have "of_nat (16 * (unat w div 16) + unat w mod 16) = w" by simp
  then show ?case using Cons nibble_hex [OF n(1)] nibble_hex [OF n(2)] by (simp add: hex_encode_def)
qed (simp add: hex_encode_def)

lemma digits_parse: "takeWhile is_digit (dec n) = dec n"
  by (simp add: takeWhile_eq_all_conv digit_in_dec)

lemma digit_not_space: "is_digit c \<Longrightarrow> \<not> is_space c" "\<not> is_space (CHR ''-'')"
  by (auto simp: is_digit_def is_space_def)

lemma js_parseInt_itoa [simp]: "js_parseInt (itoa n) = Some n"
proof (cases "n < 0")
  case True
  then show ?thesis by (simp add: js_parseInt_def itoa_def digit_not_space digits_parse)
next
  case False
  obtain c s where d: "dec (nat n) = c # s" by (cases "dec (nat n)") auto
  have c: "is_digit c" using hd_dec_digit [of "nat n"] d by simp
  then have "\<not> is_space c" "c \<noteq> CHR ''-''" "c \<noteq> CHR ''+''" by (auto simp: digit_not_space)
  moreover have "takeWhile is_digit (c # s) = c # s" using digits_parse [of "nat n"] d by simp
  moreover have "undec (c # s) = nat n" using undec_dec [of "nat n"] d by simp
  ultimately show ?thesis using False d by (simp add: js_parseInt_def itoa_def)
qed

lemma itoa_nonempty [simp]: "itoa n \<noteq> []"
  by (simp add: itoa_def)

text \<open>The separators of a signed text: four, and those of host and mode.\<close>

definition seps :: "string \<Rightarrow> nat" where
  "seps s = length (filter (\<lambda>c. c = CHR ''|'') s)"

lemma seps_simps [simp]: "seps [] = 0" "seps (c # s) = (if c = CHR ''|'' then Suc (seps s) else seps s)" "seps (s @ t) = seps s + seps t"
  "seps (itoa n) = 0"
  using sep_notin_itoa(1) [of n] by (auto simp: seps_def filter_empty_conv)

lemma seps_zero: "seps s = 0 \<longleftrightarrow> CHR ''|'' \<notin> set s"
  by (auto simp: seps_def filter_empty_conv)

lemma seps_sign_text: "seps (sign_text ts h p t m) = seps h + seps m + 4"
  by (simp add: sign_text_def)

lemma sign_text_fields:
  assumes "sign_text ts h p t m = sign_text ts' h' p' t' m'" "CHR ''|'' \<notin> set h'" "CHR ''|'' \<notin> set m'"
  shows "ts = ts' \<and> h = h' \<and> p = p' \<and> t = t' \<and> m = m'"
proof -
  have "seps h + seps m = seps h' + seps m'" using seps_sign_text assms(1) by (metis add_right_cancel)
  then have "CHR ''|'' \<notin> set m" using assms(2,3) by (simp add: seps_zero [symmetric])
  from sign_text_inject [OF this assms(3)] assms(1) show ?thesis by simp
qed

lemma ws_url_query:
  assumes "m \<noteq> []"
  shows "Query (ws_url hmac now secret h p t m u) ''h'' = Some h" "Query (ws_url hmac now secret h p t m u) ''m'' = Some m"
    "Query (ws_url hmac now secret h p t m u) ''p'' = Some (itoa p)" "Query (ws_url hmac now secret h p t m u) ''ts'' = Some (itoa now)"
    "Query (ws_url hmac now secret h p t m u) ''t'' = Some (if t then ''1'' else ''0'')"
    "Query (ws_url hmac now secret h p t m u) ''s'' = Some (hex_encode (hmac (bytes_of secret) (bytes_of (sign_text now h p t m))))"
  using assms by (simp_all add: ws_url_def Sign_def Let_def)

text \<open>The script accepts what the dialer signs.\<close>

lemma script_accepts:
  assumes "h \<noteq> []" "p \<noteq> 0" "ts \<noteq> 0" "\<bar>now - ts\<bar> \<le> 60" "m \<noteq> []" "hmac (bytes_of secret) (bytes_of (sign_text ts h p t m)) \<noteq> []"
  shows "script_fetch hmac secret now ''/'' True (Query (ws_url hmac ts secret h p t m u)) = (if m = ModeFetch then WFetch h p t else WSocket h p)"
proof -
  have e: "hex_encode b \<noteq> []" if "b \<noteq> []" for b using that by (cases b) (simp_all add: hex_encode_def)
  show ?thesis
    using assms e by (simp add: script_fetch_def ws_url_query param_def TS_WINDOW_SEC_def Let_def)
qed

section \<open>Properties\<close>

text \<open>The target and the mode of a dial, as \<^verbatim>\<open>DialWorker\<close> sends them.\<close>

definition sent_host :: "dial_env \<Rightarrow> string \<Rightarrow> string" where
  "sent_host env host =
     (case PreferIPv4Resolver env of Some r \<Rightarrow> if PreferIPv4 env \<and> r host \<noteq> [] then r host else host | None \<Rightarrow> host)"

definition sent_mode :: "string \<Rightarrow> string" where
  "sent_mode mode = (if mode = [] then ModeSocket else mode)"

lemma sent_host_env [simp]: "sent_host (env\<lparr>parsed_url := a, ws_dial := b, ws_first := c\<rparr>) host = sent_host env host"
  by (cases "PreferIPv4Resolver env") (simp_all add: sent_host_def)

lemma DialWorker_unfold:
  "DialWorker hmac env secret host port tls mode =
     (case parsed_url env of
        None \<Rightarrow> (Inl ErrUrl, NotOpened)
      | Some base \<Rightarrow>
          (let u = ws_url hmac (env_now env) secret (sent_host env host) port tls (sent_mode mode) base
           in case ws_dial env u of
                Some e \<Rightarrow> (Inl (ErrWsDial e), NotOpened)
              | None \<Rightarrow>
                  if ProbeDisabled env then (Inr u, Returned)
                  else (case ws_first env of
                          ProbeErr status \<Rightarrow> if status = 4001 then (Inl ErrUpstreamBlocked, Closed) else (Inl (ErrProbe status), Closed)
                        | ProbeMsg probe \<Rightarrow>
                            if length probe \<noteq> 1 \<or> probe ! 0 \<noteq> 1 then (Inl (ErrProbeSig (length probe)), Closed) else (Inr u, Returned))))"
  unfolding DialWorker_def sent_host_def sent_mode_def Let_def by (rule refl)

text \<open>A dial whose other end is the script with the same secret, at a time of its own.\<close>

definition dial_script ::
  "(bytes \<Rightarrow> bytes \<Rightarrow> bytes) \<Rightarrow> string \<Rightarrow> (string \<Rightarrow> int \<Rightarrow> bool) \<Rightarrow> time \<Rightarrow> url \<Rightarrow> dial_env \<Rightarrow> string \<Rightarrow> int \<Rightarrow> bool \<Rightarrow> string
     \<Rightarrow> (dial_err + url) \<times> ws_fate" where
  "dial_script hmac secret opens now' base env host port tls mode =
     (let answer = (\<lambda>u. script_fetch hmac secret now' ''/'' True (Query u))
      in DialWorker hmac (env\<lparr>parsed_url := Some base, ws_dial := (\<lambda>u. script_dial (answer u)),
           ws_first := script_first opens (answer (ws_url hmac (env_now env) secret (sent_host env host) port tls (sent_mode mode) base))\<rparr>)
           secret host port tls mode)"




lemma no_sep_h: "CHR ''|'' \<notin> set ''h''" by simp

lemma no_sep_socket: "CHR ''|'' \<notin> set ''socket''" by simp


lemma mock_text_shorter: "length (mock_text ts h p t) < length (sign_text ts h p t m)"
  by (simp add: mock_text_def sign_text_def)

text \<open>
  The local stand-in refuses every tunnel of the program. It computes the signature without the mode, so, unless the two texts are a collision of the keyed hash, it answers no query that \<^verbatim>\<open>DialWorker\<close> makes with
  a connection, whatever the clocks, the target, the mode and the shared secret are.
\<close>

lemma mock_refuses_dial:
  assumes "hmac (bytes_of secret) (bytes_of (mock_text ts h p t)) = hmac (bytes_of secret) (bytes_of (sign_text ts h p t m)) \<Longrightarrow>
      mock_text ts h p t = sign_text ts h p t m"
    and "m \<noteq> []" "int64_range p" "int64_range ts"
  shows "\<exists>code. mock_ServeHTTP hmac secret window now (Query (ws_url hmac ts secret h p t m u)) = MStatus code"
proof -
  have "mock_text ts h p t \<noteq> sign_text ts h p t m"
    using mock_text_shorter [of ts h p t m] by (metis less_irrefl)
  then have "hmac (bytes_of secret) (bytes_of (mock_text ts h p t)) \<noteq> hmac (bytes_of secret) (bytes_of (sign_text ts h p t m))"
    using assms(1) by blast
  then have v: "\<not> mock_verify hmac secret ts h p t (hex_encode (hmac (bytes_of secret) (bytes_of (sign_text ts h p t m))))"
    unfolding mock_verify_def by (metis hex2bytes_encode option.inject)
  have t: "(param (Query (ws_url hmac ts secret h p t m u)) ''t'' [] = ''1'') = t" using assms(2) by (simp add: param_def ws_url_query)
  show ?thesis
    using v t assms(2-4) by (auto simp: mock_ServeHTTP_def Let_def param_def ws_url_query)
qed

lemma mock_refuses_dial_example:
  "\<exists>code. mock_ServeHTTP (\<lambda>_ x. x) ''k'' 60 10 (Query (ws_url (\<lambda>_ x. x) 5 ''k'' ''h'' 80 False ''socket'' \<lparr>Scheme = [], Query = Map.empty\<rparr>)) = MStatus code"
  by (rule mock_refuses_dial) (metis string_of_bytes_of, simp_all add: int64_range_def)

text \<open>A difference of the two smallest kinds wraps to a negative number that passes for a small one; the signature still has to match.\<close>

lemma mock_window_wraps: "abs64 (wrap64 (0 - (- (2 ^ 63)))) = - (2 ^ 63)"
  by code_simp

end
