(* ===== verification/Net_Services.thy ===== *)
theory Net_Services
  imports Http_Connect
begin

text \<open>
  Three helpers of the data path: the DNS cache (\<^verbatim>\<open>internal/dnscache\<close>), the rate limiter per host (\<^verbatim>\<open>internal/ratelimit\<close>) and the
  warm-up of the workers (\<^verbatim>\<open>internal/proxy/prewarm.go\<close>). The resolver, the dialer and the token bucket of one host are arguments.
\<close>

section \<open>The DNS cache\<close>

type_synonym ip = bytes

type_synonym resolver = "string \<Rightarrow> ip list option"

record dns_cache =
  dc_entries :: "string \<rightharpoonup> ip list"
  dc_ttl :: int

definition dns_New :: "int \<Rightarrow> dns_cache" where
  "dns_New ttl = \<lparr>dc_entries = Map.empty, dc_ttl = (if ttl \<le> 0 then 300000000000 else ttl)\<rparr>"

definition lookup_ips :: "resolver \<Rightarrow> string \<Rightarrow> dns_cache \<Rightarrow> ip list option \<times> dns_cache" where
  "lookup_ips resolve host c =
     (case dc_entries c host of
        Some (ip # ips) \<Rightarrow> (Some (ip # ips), c)
      | _ \<Rightarrow>
          (case resolve host of
             None \<Rightarrow> (None, c)
           | Some addrs \<Rightarrow> (Some addrs, c\<lparr>dc_entries := (dc_entries c)(host \<mapsto> addrs)\<rparr>)))"

text \<open>Warming up and a tick of the refresh loop look up a list of hosts; the order of the goroutines, or of the walk over the entries, is the list's.\<close>

definition lookup_all :: "resolver \<Rightarrow> string list \<Rightarrow> dns_cache \<Rightarrow> dns_cache" where
  "lookup_all resolve hosts c = fold (\<lambda>h c. snd (lookup_ips resolve h c)) hosts c"

definition Warm :: "resolver \<Rightarrow> string list \<Rightarrow> dns_cache \<Rightarrow> dns_cache" where
  "Warm resolve hostnames c = lookup_all resolve hostnames c"

definition refresh_tick :: "resolver \<Rightarrow> string list \<Rightarrow> dns_cache \<Rightarrow> dns_cache" where
  "refresh_tick resolve order c = lookup_all resolve (filter (\<lambda>h. dc_entries c h \<noteq> None) order) c"

datatype dial_target = ByName string | ByIP ip string

datatype 'c dialed = Dialed 'c | NoAddress | AllFailed string | NameFailed

text \<open>The addresses in order, up to the first that connects; also which were tried.\<close>

fun dial_ips :: "(dial_target \<Rightarrow> 'c option) \<Rightarrow> string \<Rightarrow> ip list \<Rightarrow> 'c option \<times> ip list" where
  "dial_ips dial port [] = (None, [])"
| "dial_ips dial port (ip # ips) =
     (case dial (ByIP ip port) of
        Some c \<Rightarrow> (Some c, [ip])
      | None \<Rightarrow> (case dial_ips dial port ips of (r, tried) \<Rightarrow> (r, ip # tried)))"

definition DialContext :: "resolver \<Rightarrow> (dial_target \<Rightarrow> 'c option) \<Rightarrow> string \<Rightarrow> dns_cache \<Rightarrow> 'c dialed \<times> dns_cache" where
  "DialContext resolve dial address c =
     (case SplitHostPort address of
        None \<Rightarrow> (NoAddress, c)
      | Some (host, port) \<Rightarrow>
          (case lookup_ips resolve host c of
             (Some (ip # ips), c') \<Rightarrow>
               (case fst (dial_ips dial port (ip # ips)) of Some conn \<Rightarrow> (Dialed conn, c') | None \<Rightarrow> (AllFailed host, c'))
           | (_, c') \<Rightarrow> (case dial (ByName address) of Some conn \<Rightarrow> (Dialed conn, c') | None \<Rightarrow> (NameFailed, c'))))"

definition To4 :: "ip \<Rightarrow> ip option" where
  "To4 ip =
     (if length ip = 4 then Some ip
      else if length ip = 16 \<and> take 12 ip = replicate 10 0 @ [255, 255] then Some (drop 12 ip) else None)"

definition dotted :: "ip \<Rightarrow> string" where
  "dotted ip = join_with ''.'' (map (\<lambda>b. dec (unat b)) ip)"

fun first_v4 :: "ip list \<Rightarrow> string" where
  "first_v4 [] = []"
| "first_v4 (ip # ips) = (case To4 ip of Some v4 \<Rightarrow> dotted v4 | None \<Rightarrow> first_v4 ips)"

definition LookupIPv4 :: "resolver \<Rightarrow> string \<Rightarrow> dns_cache \<Rightarrow> string \<times> dns_cache" where
  "LookupIPv4 resolve host c =
     (case lookup_ips resolve host c of (None, c') \<Rightarrow> ([], c') | (Some ips, c') \<Rightarrow> (first_v4 ips, c'))"

definition dns_Stats :: "dns_cache \<Rightarrow> string \<rightharpoonup> nat" where
  "dns_Stats c = map_option length \<circ> dc_entries c"

section \<open>The rate limiter\<close>

text \<open>No limiter at all is \<open>None\<close>; the bucket of a host is made at its first request.\<close>

record 'l per_host =
  ph_limiters :: "string \<rightharpoonup> 'l"
  ph_qps :: rat
  ph_burst :: int

definition NewPerHost :: "rat \<Rightarrow> int \<Rightarrow> 'l per_host" where
  "NewPerHost qps burst = \<lparr>ph_limiters = Map.empty, ph_qps = qps, ph_burst = burst\<rparr>"

definition Wait ::
  "(rat \<Rightarrow> int \<Rightarrow> 'l) \<Rightarrow> ('l \<Rightarrow> bool \<times> 'l) \<Rightarrow> string \<Rightarrow> 'l per_host option \<Rightarrow> bool \<times> 'l per_host option" where
  "Wait new_limiter wait host p0 =
     (case p0 of
        None \<Rightarrow> (True, None)
      | Some p \<Rightarrow>
          if ph_qps p \<le> 0 then (True, Some p)
          else (let l = (case ph_limiters p host of None \<Rightarrow> new_limiter (ph_qps p) (ph_burst p) | Some l \<Rightarrow> l); (ok, l') = wait l
                in (ok, Some (p\<lparr>ph_limiters := (ph_limiters p)(host \<mapsto> l')\<rparr>))))"

fun wait_all :: "(rat \<Rightarrow> int \<Rightarrow> 'l) \<Rightarrow> ('l \<Rightarrow> bool \<times> 'l) \<Rightarrow> string list \<Rightarrow> 'l per_host option \<Rightarrow> bool list" where
  "wait_all new_limiter wait [] p = []"
| "wait_all new_limiter wait (h # hs) p = (case Wait new_limiter wait h p of (ok, p') \<Rightarrow> ok # wait_all new_limiter wait hs p')"

section \<open>Warm-up\<close>

text \<open>
  One worker: up to \<open>retries\<close> pings, stopping at the first that is answered. \<open>None\<close> when the context ends in the pause after a failed one;
  the verdict is then not stored.
\<close>

fun prewarm_one :: "nat \<Rightarrow> bool list \<Rightarrow> bool list \<Rightarrow> bool option" where
  "prewarm_one 0 answers cancelled = Some False"
| "prewarm_one (Suc n) answers cancelled =
     (if answers \<noteq> [] \<and> hd answers then Some True
      else if cancelled \<noteq> [] \<and> hd cancelled then None
      else prewarm_one n (tl answers) (tl cancelled))"

text \<open>The number of attempts is a setting, which the start of the server takes from the configuration.\<close>

definition prewarm_store :: "int \<Rightarrow> (ref \<Rightarrow> bool list) \<Rightarrow> (ref \<Rightarrow> bool list) \<Rightarrow> ref \<Rightarrow> heap \<Rightarrow> heap" where
  "prewarm_store retries answers cancelled w h =
     (case prewarm_one (nat retries) (answers w) (cancelled w) of None \<Rightarrow> h | Some ok \<Rightarrow> h(w := (h w)\<lparr>Healthy := ok\<rparr>))"

definition Prewarm :: "int \<Rightarrow> (ref \<Rightarrow> bool list) \<Rightarrow> (ref \<Rightarrow> bool list) \<Rightarrow> pool \<Rightarrow> heap \<Rightarrow> heap" where
  "Prewarm retries answers cancelled p h = fold (prewarm_store retries answers cancelled) (pool_All p) h"

section \<open>Lemmas and properties\<close>

lemma dial_ips_first:
  "dial_ips dial port ips =
     (case find (\<lambda>ip. dial (ByIP ip port) \<noteq> None) ips of
        None \<Rightarrow> (None, ips)
      | Some ip \<Rightarrow> (dial (ByIP ip port), takeWhile (\<lambda>ip. dial (ByIP ip port) = None) ips @ [ip]))"
  by (induction ips) (auto split: option.splits)

text \<open>What the cache is used for, over a run: lookups for dialing and for a literal, warming, and ticks of the refresh loop, each with the resolver of its time.\<close>

datatype dns_op = DLookup resolver string | DRefresh resolver "string list" | DWarm resolver "string list"

fun dns_do :: "dns_op \<Rightarrow> dns_cache \<Rightarrow> dns_cache" where
  "dns_do (DLookup r h) c = snd (lookup_ips r h c)"
| "dns_do (DRefresh r hs) c = refresh_tick r hs c"
| "dns_do (DWarm r hs) c = Warm r hs c"

text \<open>An entry is usable when it has an address.\<close>

definition usable :: "dns_cache \<Rightarrow> string \<Rightarrow> ip list \<Rightarrow> bool" where
  "usable c host ips \<longleftrightarrow> dc_entries c host = Some ips \<and> ips \<noteq> []"

lemma lookup_keeps: "usable c host ips \<Longrightarrow> usable (snd (lookup_ips r h c)) host ips"
  by (auto simp: usable_def lookup_ips_def split: option.split list.split)

lemma lookup_all_keeps: "usable c host ips \<Longrightarrow> usable (lookup_all r hs c) host ips"
  unfolding lookup_all_def by (induction hs arbitrary: c) (simp_all add: lookup_keeps)

lemma dns_do_keeps: "usable c host ips \<Longrightarrow> usable (dns_do f c) host ips"
  by (cases f) (simp_all add: lookup_keeps lookup_all_keeps refresh_tick_def Warm_def)



text \<open>Where no entry is usable the cache falls back on the name, and a failing lookup is never stored.\<close>

lemma dns_fallback:
  assumes "SplitHostPort address = Some (host, port)" "\<not> (\<exists>ips. usable c host ips)" "resolve host = None"
  shows "DialContext resolve dial address c = ((case dial (ByName address) of Some conn \<Rightarrow> Dialed conn | None \<Rightarrow> NameFailed), c)"
proof -
  have "lookup_ips resolve host c = (None, c)"
    using assms(2,3) by (auto simp: lookup_ips_def usable_def split: option.split list.split)
  then show ?thesis using assms(1) by (simp add: DialContext_def split: option.split)
qed

text \<open>
  The limit is per host. In any sequence of requests, those of one host get the answers they would get if the other hosts' requests were not there: a host's bucket is
  neither filled nor drained by others. Without a limiter, or with a rate that is not positive, every request passes.
\<close>

lemma ratelimit_per_host:
  "map snd (filter (\<lambda>(h, ok). h = host) (zip hosts (wait_all new_limiter wait hosts p))) = wait_all new_limiter wait (filter (\<lambda>h. h = host) hosts) p \<and>
   (if case p of None \<Rightarrow> True | Some q \<Rightarrow> ph_qps q \<le> 0 then wait_all new_limiter wait hosts p = replicate (length hosts) True else True)"
proof -
  define view where "view p = (case p of None \<Rightarrow> None | Some q \<Rightarrow> Some (ph_qps q, ph_burst q, ph_limiters q host))" for p :: "'a per_host option"
  have same: "view p = view q \<Longrightarrow> fst (Wait new_limiter wait host p) = fst (Wait new_limiter wait host q) \<and>
      view (snd (Wait new_limiter wait host p)) = view (snd (Wait new_limiter wait host q))" for p q
    by (cases p; cases q) (auto simp: view_def Wait_def Let_def split: prod.split option.split)
  have other: "h \<noteq> host \<Longrightarrow> view (snd (Wait new_limiter wait h p)) = view p" for h p
    by (cases p) (auto simp: view_def Wait_def Let_def split: prod.split)
  have "view p = view q \<Longrightarrow> map snd (filter (\<lambda>(h, ok). h = host) (zip hosts (wait_all new_limiter wait hosts p))) = wait_all new_limiter wait (filter (\<lambda>h. h = host) hosts) q" for p q
  proof (induction hosts arbitrary: p q)
    case (Cons h hs)
    show ?case
    proof (cases "h = host")
      case True
      then show ?thesis using same [OF Cons.prems] Cons.IH by (auto simp: case_prod_unfold)
    next
      case False
      then show ?thesis using other [OF False] Cons by (simp add: case_prod_unfold)
    qed
  qed simp
  moreover have "wait_all new_limiter wait hosts p = replicate (length hosts) True" if "case p of None \<Rightarrow> True | Some q \<Rightarrow> ph_qps q \<le> 0" for p
    using that by (induction hosts) (auto simp: Wait_def split: option.splits)
  ultimately show ?thesis by simp
qed

text \<open>Warming decides by the first answers: a worker that answers one of its pings is healthy, one that answers none is not, and others are left alone.\<close>

lemma prewarm_one_spec:
  "\<not> list_ex (\<lambda>b. b) cancelled \<Longrightarrow> prewarm_one n answers cancelled = Some (list_ex (\<lambda>b. b) (take n answers))"
proof (induction n arbitrary: answers cancelled)
  case (Suc n)
  show ?case
  proof (cases cancelled)
    case Nil
    then show ?thesis using Suc.IH [of "[]" "tl answers"] by (cases answers) auto
  next
    case (Cons b bs)
    then show ?thesis using Suc.IH [of bs "tl answers"] Suc.prems by (cases answers) auto
  qed
qed simp

lemma Prewarm_other: "w \<notin> set (pool_All p) \<Longrightarrow> Prewarm retries answers cancelled p h w = h w"
proof -
  have "w \<notin> set ws \<Longrightarrow> fold (prewarm_store retries answers cancelled) ws h w = h w" for ws
    by (induction ws arbitrary: h) (auto simp: prewarm_store_def split: option.split)
  then show "w \<notin> set (pool_All p) \<Longrightarrow> Prewarm retries answers cancelled p h w = h w" by (simp add: Prewarm_def)
qed

lemma Prewarm_verdict:
  assumes "w \<in> set (pool_All p)" "\<not> list_ex (\<lambda>b. b) (cancelled w)"
  shows "Healthy (Prewarm retries answers cancelled p h w) = list_ex (\<lambda>b. b) (take (nat retries) (answers w))"
proof -
  let ?b = "list_ex (\<lambda>b. b) (take (nat retries) (answers w))"
  have one: "Healthy (prewarm_store retries answers cancelled w g w) = ?b" for g
    using prewarm_one_spec [OF assms(2)] by (simp add: prewarm_store_def)
  have same: "v \<noteq> w \<Longrightarrow> prewarm_store retries answers cancelled v g w = g w" for v g
    by (simp add: prewarm_store_def split: option.split)
  have stays: "Healthy (g w) = ?b \<Longrightarrow> Healthy (fold (prewarm_store retries answers cancelled) ws g w) = ?b" for ws g
    by (induction ws arbitrary: g) (simp, metis fold_simps(2) one same)
  have "w \<in> set ws \<Longrightarrow> Healthy (fold (prewarm_store retries answers cancelled) ws g w) = ?b" for ws g
    by (induction ws arbitrary: g) (simp, metis fold_simps(2) one stays set_ConsD)
  then show ?thesis using assms(1) by (simp add: Prewarm_def)
qed

end
