(* ===== verification/Serve_Wiring.thy ===== *)
theory Serve_Wiring
  imports Config_Update Http_Connect Admin_Server Control_Plane Net_Services
begin

text \<open>
  How \<^verbatim>\<open>runServe\<close> (\<^verbatim>\<open>cmd/flarex/main.go\<close>) turns a loaded configuration into the running parts: the scheduler, the filter, the credentials
  and the limiter of the proxy server, the sinks and the threshold of the alerts, the DNS cache, the settings of the dialer, the rotator and the admin
  server; and what the two hooks of the admin server that change the running proxy do to them. The IP set of netipx and the resolver are arguments.
\<close>

section \<open>The proxy server\<close>

definition scheduler_of :: "config \<Rightarrow> sched" where
  "scheduler_of cfg = (if Pool_Strategy cfg = ''least_inflight'' then leastInflight_Next else roundRobin_Next)"

definition auth_of :: "config \<Rightarrow> auth option" where
  "auth_of cfg = (if Listen_AuthUser cfg \<noteq> [] then Some \<lparr>User = Listen_AuthUser cfg, Pass = Listen_AuthPass cfg\<rparr> else None)"

definition limiter_of :: "config \<Rightarrow> 'l per_host option" where
  "limiter_of cfg = (if RateLimit_PerHostQPS cfg > 0 then Some (NewPerHost (RateLimit_PerHostQPS cfg) (RateLimit_PerHostBurst cfg)) else None)"

text \<open>The threshold of the quota warnings, in binary64; the sign is set apart.\<close>

definition warn_threshold :: "config \<Rightarrow> u64" where
  "warn_threshold cfg =
     (let limit = f64 (of_nat (unat (Quota_DailyLimit cfg))); p = Quota_WarnPercent cfg
      in if p < 0 then go_uint64 (- of_int \<lfloor>fdiv (fmul limit (f64 (of_int (- p)))) 100\<rfloor>)
         else go_uint64 (fdiv (fmul limit (f64 (of_int p))) 100))"

text \<open>The literal of the server, after \<^verbatim>\<open>SetProxyMode\<close>. Of the hook the model keeps its threshold, of the limiter that there is one.\<close>

definition server_of :: "config \<Rightarrow> 's IPFilter \<Rightarrow> 's server" where
  "server_of cfg filt =
     SetProxyMode (Pool_ProxyMode cfg)
       \<lparr>sv_Auth = auth_of cfg, sv_Filter = filt, sv_Scheduler = scheduler_of cfg, sv_RateLimit = (limiter_of cfg \<noteq> (None :: unit per_host option)),
        sv_HMACSecret = Security_HMACSecret cfg, sv_MaxRetries = Pool_MaxRetries cfg, sv_BaseBackoff = wrap64 (Pool_BackoffMs cfg * 1000000),
        sv_HedgeAfter = wrap64 (Pool_HedgeAfterMs cfg * 1000000), sv_TLSRewrap = Pool_TLSRewrap cfg,
        sv_QuotaHook = Some (warn_threshold cfg), proxyMode = None\<rparr>"

definition wire_server :: "'s build \<Rightarrow> config \<Rightarrow> filter_err + 's running" where
  "wire_server build cfg =
     (case NewIPFilter build (Filter_DenyCIDRs cfg) (Filter_AllowPorts cfg) of
        Inl e \<Rightarrow> Inl e
      | Inr filt \<Rightarrow> Inr \<lparr>run_cfg = cfg, run_srv = Some (server_of cfg filt), run_filt = Some filt\<rparr>)"

section \<open>Alerts, dialer, rotator, admin server\<close>

datatype sink = HTTPSink string "(string \<times> string) list" | DiscordSink string string

definition sinks_of :: "config \<Rightarrow> sink list" where
  "sinks_of cfg =
     map (\<lambda>(url, headers). HTTPSink url headers) (filter (\<lambda>(url, headers). url \<noteq> []) (Alerts_HTTPWebhooks cfg)) @
     (if Alerts_DiscordURL cfg \<noteq> [] then [DiscordSink (Alerts_DiscordURL cfg) (if Alerts_DiscordName cfg = [] then ''FlareX'' else Alerts_DiscordName cfg)] else [])"

definition dispatcher_of :: "config \<Rightarrow> dispatcher" where
  "dispatcher_of cfg =
     \<lparr>sinks = length (sinks_of cfg), cooldwn = wrap64 (Alerts_CooldownSec cfg * 1000000000) div 1000000000, last_sent = Map.empty, sent = []\<rparr>"

text \<open>The cache is warmed with the host names of the pool; the dialer prefers what it resolves.\<close>

definition hostnames_of :: "heap \<Rightarrow> pool \<Rightarrow> string list" where
  "hostnames_of h p = filter (\<lambda>n. n \<noteq> []) (map (\<lambda>w. Hostname (h w)) (pool_All p))"

definition dns_start :: "resolver \<Rightarrow> config \<Rightarrow> heap \<Rightarrow> pool \<Rightarrow> dns_cache" where
  "dns_start resolve cfg h p = Warm resolve (hostnames_of h p) (dns_New (to_DNSCacheTTL (ResolvedTimeouts cfg)))"

definition dial_settings :: "resolver \<Rightarrow> config \<Rightarrow> dns_cache \<Rightarrow> dial_env \<Rightarrow> dial_env" where
  "dial_settings resolve cfg dc env =
     env\<lparr>PreferIPv4 := Worker_PreferIPv4 cfg, PreferIPv4Resolver := Some (\<lambda>host. fst (LookupIPv4 resolve host dc)), ProbeDisabled := Pool_DisableProbe cfg\<rparr>"

text \<open>Interval, age and number of requests of the rotator, when it runs at all.\<close>

definition rotator_of :: "config \<Rightarrow> (int \<times> int \<times> u64) option" where
  "rotator_of cfg =
     (if Worker_RotateMaxAgeSec cfg > 0 \<or> Worker_RotateMaxReq cfg > 0
      then Some (wrap64 (Worker_RotateIntervalS cfg * 1000000000), wrap64 (Worker_RotateMaxAgeSec cfg * 1000000000), Worker_RotateMaxReq cfg) else None)"

definition admin_of :: "crypto \<Rightarrow> config \<Rightarrow> (admin_cfg \<times> bool) option" where
  "admin_of cr cfg =
     (if Admin_Addr cfg = [] then None
      else Some (\<lparr>ad_Token = Admin_Token cfg, ad_APIKey = Admin_APIKey cfg, ad_BasicUser = Admin_BasicUser cfg, ad_BasicPass = Admin_BasicPass cfg,
        ad_TOTPSecret = Admin_TOTPSecret cfg, ad_UIEnabled = Admin_UI cfg, ad_hasKeys = True,
        ad_secret = (if Admin_UI cfg then Some (deriveSessionSecret cr (Security_HMACSecret cfg)) else None)\<rparr>, Admin_EnablePprof cfg))"

definition AccountNames :: "config \<Rightarrow> (string \<rightharpoonup> string)" where
  "AccountNames cfg = fold (\<lambda>a m. if ac_Name a \<noteq> [] then m(ac_ID a \<mapsto> ac_Name a) else m) (Accounts cfg) Map.empty"

section \<open>The hooks that change the running proxy\<close>

definition SetProxyMode_hook :: "string \<Rightarrow> 's running \<Rightarrow> 's running" where
  "SetProxyMode_hook mode r = set_cfg (\<lambda>c. c\<lparr>Pool_ProxyMode := mode\<rparr>) (set_srv (SetProxyMode mode) r)"

datatype live_op = LUpdate string any | LMode string

fun live_do :: "(string \<Rightarrow> rat option) \<Rightarrow> live_op \<Rightarrow> 's running \<Rightarrow> 's running" where
  "live_do sscanf_f (LUpdate path val) r = snd (applyConfigUpdate sscanf_f path val r)"
| "live_do sscanf_f (LMode mode) r = SetProxyMode_hook mode r"

section \<open>Lemmas\<close>

text \<open>The fields that take effect while the server runs.\<close>

definition merge_live :: "config \<Rightarrow> config \<Rightarrow> config" where
  "merge_live cfg now =
     cfg\<lparr>Pool_ProxyMode := Pool_ProxyMode now, Pool_MaxRetries := Pool_MaxRetries now, Pool_BackoffMs := Pool_BackoffMs now,
       Pool_HedgeAfterMs := Pool_HedgeAfterMs now, Pool_TLSRewrap := Pool_TLSRewrap now, Filter_AllowPorts := Filter_AllowPorts now\<rparr>"

definition live_part :: "config \<Rightarrow> (string \<times> int \<times> int \<times> int \<times> bool) \<times> port_any list" where
  "live_part c = (pool_part c, Filter_AllowPorts c)"

lemma merge_live_cong: "live_part c = live_part d \<Longrightarrow> merge_live b c = merge_live b d"
  by (simp add: merge_live_def live_part_def pool_part_def)

lemma merge_live_simps [simp]:
  "auth_of (merge_live b c) = auth_of b" "scheduler_of (merge_live b c) = scheduler_of b" "limiter_of (merge_live b c) = limiter_of b"
  "warn_threshold (merge_live b c) = warn_threshold b" "Security_HMACSecret (merge_live b c) = Security_HMACSecret b"
  "Filter_DenyCIDRs (merge_live b c) = Filter_DenyCIDRs b" "Filter_AllowPorts (merge_live b c) = Filter_AllowPorts c"
  "Pool_ProxyMode (merge_live b c) = Pool_ProxyMode c" "Pool_MaxRetries (merge_live b c) = Pool_MaxRetries c"
  "Pool_BackoffMs (merge_live b c) = Pool_BackoffMs c" "Pool_HedgeAfterMs (merge_live b c) = Pool_HedgeAfterMs c"
  "Pool_TLSRewrap (merge_live b c) = Pool_TLSRewrap c"
  by (simp_all add: merge_live_def auth_of_def scheduler_of_def limiter_of_def warn_threshold_def)

lemma merge_live_self [simp]: "merge_live c c = c"
  by (simp add: merge_live_def)

text \<open>The running parts are the ones a start with the merged configuration would make.\<close>

definition as_restarted :: "'s build \<Rightarrow> config \<Rightarrow> 's running \<Rightarrow> bool" where
  "as_restarted build b r \<longleftrightarrow>
     (\<exists>filt. NewIPFilter build (Filter_DenyCIDRs b) (Filter_AllowPorts (run_cfg r)) = Inr filt \<and>
        run_srv r = Some (server_of (merge_live b (run_cfg r)) filt) \<and> run_filt r = Some filt)"

lemma restarted_start: "wire_server build b = Inr r \<Longrightarrow> as_restarted build b r"
  by (auto simp: wire_server_def as_restarted_def split: sum.splits)

lemma restarted_cfg: "as_restarted build b r \<Longrightarrow> live_part (f (run_cfg r)) = live_part (run_cfg r) \<Longrightarrow> as_restarted build b (set_cfg f r)"
  using merge_live_cong [of "f (run_cfg r)" "run_cfg r" b] by (simp add: as_restarted_def set_cfg_def live_part_def)

lemma restarted_pool:
  assumes "as_restarted build b r"
  shows "as_restarted build b (set_srv (SetProxyMode m) (set_cfg (\<lambda>c. c\<lparr>Pool_ProxyMode := m\<rparr>) r))"
    "as_restarted build b (set_srv (\<lambda>v. v\<lparr>sv_MaxRetries := n\<rparr>) (set_cfg (\<lambda>c. c\<lparr>Pool_MaxRetries := n\<rparr>) r))"
    "as_restarted build b (set_srv (\<lambda>v. v\<lparr>sv_BaseBackoff := wrap64 (n * 1000000)\<rparr>) (set_cfg (\<lambda>c. c\<lparr>Pool_BackoffMs := n\<rparr>) r))"
    "as_restarted build b (set_srv (\<lambda>v. v\<lparr>sv_HedgeAfter := wrap64 (n * 1000000)\<rparr>) (set_cfg (\<lambda>c. c\<lparr>Pool_HedgeAfterMs := n\<rparr>) r))"
    "as_restarted build b (set_srv (\<lambda>v. v\<lparr>sv_TLSRewrap := t\<rparr>) (set_cfg (\<lambda>c. c\<lparr>Pool_TLSRewrap := t\<rparr>) r))"
  using assms by (auto simp: as_restarted_def set_srv_def set_cfg_def server_of_def SetProxyMode_def)

lemma restarted_ports:
  assumes "as_restarted build b r" "wire = map PInt ports"
  shows "as_restarted build b (snd (let r1 = set_cfg (\<lambda>c. c\<lparr>Filter_AllowPorts := wire\<rparr>) r
           in case run_filt r1 of
                None \<Rightarrow> live r1
              | Some f \<Rightarrow> (case SetAllowPorts wire f of
                   (Some e, f') \<Rightarrow> refuse (PortsRefused e) (set_filt f' r1) | (None, f') \<Rightarrow> live (set_filt f' r1))))"
proof -
  obtain f where f: "NewIPFilter build (Filter_DenyCIDRs b) (Filter_AllowPorts (run_cfg r)) = Inr f"
    "run_srv r = Some (server_of (merge_live b (run_cfg r)) f)" "run_filt r = Some f" using assms(1) by (auto simp: as_restarted_def)
  obtain ap al where p: "parse_ports wire {} False = Inr (ap, al)" using parse_ports_ints [of ports "{}" False] assms(2) by auto
  then have s: "SetAllowPorts wire f = (None, f\<lparr>allowPorts := ap, allowAll := al\<rparr>)" by (simp add: SetAllowPorts_def)
  obtain es t where "parse_cidrs (Filter_DenyCIDRs b) [] = Inr es" "build (default_deny @ es) = Some t" "ip_set f = t"
    using f(1) by (auto elim: NewIPFilter_ok)
  then have "NewIPFilter build (Filter_DenyCIDRs b) wire = Inr (f\<lparr>allowPorts := ap, allowAll := al\<rparr>)"
    using p f(1) by (auto simp: NewIPFilter_def split: sum.splits option.splits)
  then show ?thesis
    using s f(2,3) by (simp add: as_restarted_def set_cfg_def set_filt_def set_srv_def server_of_def SetProxyMode_def Let_def)
qed

lemma restarted_coerce: "as_restarted build b r \<Longrightarrow> (\<And>v. as_restarted build b (snd (k v))) \<Longrightarrow> as_restarted build b (snd (coerce x r k))"
  by (simp add: coerce_def split: sum.split)

lemma restarted_if: "as_restarted build b (snd x) \<Longrightarrow> as_restarted build b (snd y) \<Longrightarrow> as_restarted build b (snd (if c then x else y))"
  by simp

lemma restarted_sections:
  assumes "as_restarted build b r" "as_restarted build b (snd other)"
  shows "as_restarted build b (snd (update_worker path val r other))" "as_restarted build b (snd (update_access path val r other))"
    "as_restarted build b (snd (update_pool path val r other))" "as_restarted build b (snd (update_limits sf path val r other))"
proof -
  note facts = assms restarted_cfg restarted_pool pool_part_def live_part_def
  show "as_restarted build b (snd (update_worker path val r other))"
    unfolding update_worker_def by (intro restarted_if restarted_coerce) (simp_all add: facts)
  show "as_restarted build b (snd (update_access path val r other))"
    unfolding update_access_def Let_def
    by (intro restarted_if restarted_coerce restarted_ports [OF assms(1) refl, unfolded Let_def]) (simp_all add: facts)
  show "as_restarted build b (snd (update_pool path val r other))"
    unfolding update_pool_def Let_def by (intro restarted_if restarted_coerce) (simp_all add: facts)
  show "as_restarted build b (snd (update_limits sf path val r other))"
    unfolding update_limits_def Let_def by (intro restarted_if restarted_coerce) (simp_all add: facts)
qed

lemma restarted_update: "as_restarted build b r \<Longrightarrow> as_restarted build b (snd (applyConfigUpdate sf path val r))"
  by (simp add: applyConfigUpdate_def restarted_sections)

lemma restarted_mode: "as_restarted build b r \<Longrightarrow> as_restarted build b (SetProxyMode_hook m r)"
  by (auto simp: SetProxyMode_hook_def as_restarted_def set_srv_def set_cfg_def server_of_def SetProxyMode_def)

lemma restarted_do: "as_restarted build b r \<Longrightarrow> as_restarted build b (live_do sf f r)"
  by (cases f) (simp_all add: restarted_update restarted_mode)

lemma restarted_run: "as_restarted build b r \<Longrightarrow> as_restarted build b (foldl (\<lambda>r f. live_do sf f r) r ops)"
  by (induction ops arbitrary: r) (simp_all add: restarted_do)

lemma Handshake_result:
  assumes "Handshake contains au filt c = (Inr req, c')"
  shows "AllowHost contains filt (Host req) (Port req) = None"
    and "case au of None \<Rightarrow> True | Some a \<Rightarrow>
      \<exists>ms up rest. inp c = enc_greeting ms @ enc_auth (fst up) (snd up) @ rest \<and> authMatches (string_of (fst up)) (User a) \<and> string_of (snd up) = Pass a"
proof -
  obtain ms r c1 where g: "inp c = enc_greeting ms @ r" "c1 = c\<lparr>inp := r, outp := outp c @ [5, want_method au], wleft := wleft c - 1\<rparr>"
    and k: "authenticate contains au filt c1 = (Inr req, c')"
    by (rule Handshake_Inr [OF assms])
  then obtain session c2 where "read_request contains filt session c2 = (Inr req, c')"
    by (cases au) (auto simp: authenticate_def elim: authenticate_Inr split: prod.splits sum.splits)
  then show "AllowHost contains filt (Host req) (Port req) = None" by (rule read_request_Inr) simp
  show "case au of None \<Rightarrow> True | Some a \<Rightarrow>
      \<exists>ms up rest. inp c = enc_greeting ms @ enc_auth (fst up) (snd up) @ rest \<and> authMatches (string_of (fst up)) (User a) \<and> string_of (snd up) = Pass a"
  proof (cases au)
    case (Some a)
    with k obtain u c2 where "userPassAuth a c1 = (Inr u, c2)" by (auto elim: authenticate_Inr)
    from userPassAuth_Inr [OF this] obtain ub pb where
      "u = string_of ub" "inp c1 = enc_auth ub pb @ inp c2" "authMatches u (User a)" "string_of pb = Pass a" .
    with g Some show ?thesis by simp (intro exI [of _ ms] exI [of _ ub] exI [of _ pb] exI [of _ "inp c2"], simp)
  qed simp
qed

section \<open>Properties\<close>





end
