(* ===== verification/Test_Request.thy ===== *)
theory Test_Request
  imports Proxy_Server
begin

text \<open>
  The test request of the admin server (\<^verbatim>\<open>cmd/flarex/testreq.go\<close>): one GET through the dial path of the proxy, its report, and the search for
  the egress address in the answer. The URL parser, the TLS handshake, the HTTP exchange and the JSON decoder are arguments; the regular expression is
  written out as the matcher it denotes (leftmost, first alternative first, greedy).
\<close>

section \<open>The regular expression\<close>

text \<open>\<open>(?:[0-9]{1,3}\.){3}[0-9]{1,3}\<close>: a group of digits must be followed by its dot, so only whole runs of digits can match.\<close>

fun digit_groups :: "nat \<Rightarrow> string \<Rightarrow> (string list \<times> string) option" where
  "digit_groups 0 s = Some ([], s)"
| "digit_groups (Suc n) s =
     (let d = takeWhile is_digit s; r = dropWhile is_digit s
      in if d \<noteq> [] \<and> length d \<le> 3 \<and> r \<noteq> [] \<and> hd r = CHR ''.''
         then map_option (\<lambda>(ds, t). (d # ds, t)) (digit_groups n (tl r)) else None)"

definition match4 :: "string \<Rightarrow> string option" where
  "match4 s =
     (case digit_groups 3 s of
        None \<Rightarrow> None
      | Some (ds, r) \<Rightarrow> (let t = take 3 (takeWhile is_digit r) in if t = [] then None else Some (join_with ''.'' (ds @ [t]))))"

text \<open>
  \<open>(?:[A-Fa-f0-9]{1,4}:){2,7}[A-Fa-f0-9]{1,4}\<close>: as many groups as there are, up to seven; when no digit follows the last of them, the expression gives
  it up and takes its digits for the end.
\<close>

fun hex_groups :: "nat \<Rightarrow> string \<Rightarrow> string list \<times> string" where
  "hex_groups 0 s = ([], s)"
| "hex_groups (Suc n) s =
     (let g = takeWhile is_hex s; r = dropWhile is_hex s
      in if g \<noteq> [] \<and> length g \<le> 4 \<and> r \<noteq> [] \<and> hd r = CHR '':''
         then (case hex_groups n (tl r) of (gs, t) \<Rightarrow> (g # gs, t)) else ([], s))"

definition match6 :: "string \<Rightarrow> string option" where
  "match6 s =
     (case hex_groups 7 s of
        (gs, r) \<Rightarrow>
          (let t = take 4 (takeWhile is_hex r)
           in if t \<noteq> [] \<and> length gs \<ge> 2 then Some (join_with '':'' (gs @ [t]))
              else if t = [] \<and> length gs \<ge> 3 then Some (join_with '':'' gs) else None))"

text \<open>\<^verbatim>\<open>FindString\<close>: the match that starts first; the empty string when there is none.\<close>

fun find_ip :: "string \<Rightarrow> string" where
  "find_ip s =
     (case match4 s of
        Some m \<Rightarrow> m
      | None \<Rightarrow> (case match6 s of Some m \<Rightarrow> m | None \<Rightarrow> (case s of [] \<Rightarrow> [] | _ # t \<Rightarrow> find_ip t)))"

declare find_ip.simps [simp del]

section \<open>The address in a body\<close>

text \<open>An \<^verbatim>\<open>net.IP\<close> of a mapped address is the IPv4 address.\<close>

fun net_ip :: "addr \<Rightarrow> addr" where
  "net_ip (V4 bs) = V4 bs"
| "net_ip (V6 gs z) = (if Is4In6 gs then V4 (unmap4 gs) else V6 gs z)"

definition net_ParseIP :: "string \<Rightarrow> addr option" where
  "net_ParseIP s = (case ParseAddr s of None \<Rightarrow> None | Some a \<Rightarrow> if zone_free a then Some (net_ip a) else None)"

fun IsLoopback :: "addr \<Rightarrow> bool" where
  "IsLoopback (V4 bs) \<longleftrightarrow> bs ! 0 = 127"
| "IsLoopback (V6 gs z) \<longleftrightarrow> gs = replicate 7 0 @ [1]"

fun IsUnspecified :: "addr \<Rightarrow> bool" where
  "IsUnspecified (V4 bs) \<longleftrightarrow> bs = replicate 4 0"
| "IsUnspecified (V6 gs z) \<longleftrightarrow> gs = replicate 8 0"

definition extractIP :: "string \<Rightarrow> string" where
  "extractIP s =
     (let m = find_ip s
      in if m = [] then []
         else (case net_ParseIP m of
                 None \<Rightarrow> []
               | Some a \<Rightarrow> if \<not> IsLoopback a \<and> \<not> IsUnspecified a then addr_String a else []))"

text \<open>The first non-empty result.\<close>

definition first_nonempty :: "string list \<Rightarrow> string" where
  "first_nonempty xs = (case find (\<lambda>x. x \<noteq> []) xs of None \<Rightarrow> [] | Some x \<Rightarrow> x)"

text \<open>\<open>json\<close> decodes an object to its entries that are strings.\<close>

definition json_ips :: "(string \<Rightarrow> (string \<rightharpoonup> string) option) \<Rightarrow> string \<Rightarrow> string list" where
  "json_ips json trim =
     (if \<not> has_prefix trim ''{'' then []
      else (case json trim of
              None \<Rightarrow> []
            | Some obj \<Rightarrow>
                map (\<lambda>k. case obj k of None \<Rightarrow> [] | Some s \<Rightarrow> extractIP s) [''ip'', ''origin'', ''address'', ''clientIp'', ''client_ip'', ''yourIp'']))"

definition line_ip :: "string \<Rightarrow> string" where
  "line_ip line =
     (case index_byte line (CHR ''='') of
        None \<Rightarrow> []
      | Some eq \<Rightarrow>
          if eq > 0 \<and> to_lower (trim_space (take eq line)) = ''ip'' then extractIP (trim_space (drop (eq + 1) line)) else [])"

definition sniffBodyIP :: "(string \<Rightarrow> (string \<rightharpoonup> string) option) \<Rightarrow> string \<Rightarrow> string" where
  "sniffBodyIP json body =
     (let trim = trim_space body
      in first_nonempty (json_ips json trim @ map line_ip (split_on (CHR 0x0A) trim) @ [extractIP trim]))"

section \<open>The request\<close>

record target_url =
  tu_Scheme :: string
  tu_Host :: string
  tu_Hostname :: string
  tu_Port :: string
  tu_RequestURI :: string

record response =
  rs_Status :: int
  rs_Header :: "string \<rightharpoonup> string list"
  rs_Body :: string

record report =
  rp_Worker :: string
  rp_Colo :: string
  rp_EgressIP :: string
  rp_Status :: int
  rp_LatencyMs :: int
  rp_Mode :: string
  rp_Headers :: "string \<rightharpoonup> string"
  rp_Body :: string
  rp_BodyTruncAt :: nat
  rp_ResolvedHost :: string

datatype test_err = URLUnparsed | SchemeRefused | HostMissing | DialFailed dial_err | TLSFailed | ResponseUnread

datatype test_out = TDone report | TFailed test_err | TPanic | TPending

definition testRequestBodyCap :: nat where "testRequestBodyCap = 4096"

definition crlf :: string where "crlf = [CHR 0x0D, CHR 0x0A]"

definition request_text :: "target_url \<Rightarrow> string" where
  "request_text u =
     ''GET '' @ (if tu_RequestURI u = [] then ''/'' else tu_RequestURI u) @ '' HTTP/1.1'' @ crlf @ ''Host: '' @ tu_Host u @ crlf @
     ''User-Agent: flarex-test-request/1'' @ crlf @ ''Accept: */*'' @ crlf @ ''Connection: close'' @ crlf @ crlf"

definition target_port :: "target_url \<Rightarrow> int" where
  "target_port u =
     (let default_port = (if tu_Scheme u = ''https'' then 443 else 80)
      in if tu_Port u = [] then default_port else (case atoi (tu_Port u) of None \<Rightarrow> default_port | Some n \<Rightarrow> n))"

definition header_get :: "(string \<rightharpoonup> string) \<Rightarrow> string \<Rightarrow> string" where
  "header_get hs k = (case hs k of None \<Rightarrow> [] | Some v \<Rightarrow> v)"

definition egress_of :: "(string \<Rightarrow> (string \<rightharpoonup> string) option) \<Rightarrow> (string \<rightharpoonup> string) \<Rightarrow> string \<Rightarrow> string" where
  "egress_of json hs body =
     (if header_get hs ''Cf-Connecting-Ip'' \<noteq> [] then header_get hs ''Cf-Connecting-Ip''
      else if header_get hs ''X-Forwarded-For'' \<noteq> [] then hd (split_on (CHR '','') (header_get hs ''X-Forwarded-For''))
      else sniffBodyIP json body)"

definition report_of :: "(string \<Rightarrow> (string \<rightharpoonup> string) option) \<Rightarrow> worker \<Rightarrow> int \<Rightarrow> string \<Rightarrow> string \<Rightarrow> response \<Rightarrow> report" where
  "report_of json w ms mode host resp =
     (let body = take (testRequestBodyCap + 1) (rs_Body resp); cut = length body > testRequestBodyCap;
          shown = (if cut then take testRequestBodyCap body else body); hs = map_option (join_with '', '') \<circ> rs_Header resp
      in \<lparr>rp_Worker = Name w, rp_Colo = ColoString w, rp_EgressIP = egress_of json hs shown, rp_Status = rs_Status resp, rp_LatencyMs = ms,
          rp_Mode = mode, rp_Headers = hs, rp_Body = shown, rp_BodyTruncAt = (if cut then testRequestBodyCap else 0), rp_ResolvedHost = host\<rparr>)"

text \<open>
  The dials, the second in fetch mode when the worker could not open the target; \<open>handshake\<close> says whether the TLS handshake with the target succeeds, given
  whether the stream it runs in is already a TLS session of the dialer.
\<close>

definition test_dial :: "'s server \<Rightarrow> net_env \<Rightarrow> string \<Rightarrow> int \<Rightarrow> bool \<Rightarrow> sstate \<Rightarrow> outcome \<times> policy \<times> sstate" where
  "test_dial sv env host port tlsUp st =
     (let pol = dial_policy sv host port []; (out, st1) = run_dial sv env (ne_dial1 env) pol host port tlsUp st
      in if out = DErr ErrUpstreamBlocked \<and> Mode pol \<noteq> ModeFetch then
           (let pol' = pol\<lparr>Mode := ModeFetch\<rparr>; (out, st2) = run_dial sv env (ne_dial2 env) pol' host port tlsUp st1 in (out, pol', st2))
         else (out, pol, st1))"

definition rewrapped :: "policy \<Rightarrow> bool \<Rightarrow> bool" where
  "rewrapped pol tls \<longleftrightarrow> TLSRewrap pol \<and> tls \<and> Mode pol = ModeSocket"

definition runTestRequest ::
  "(string \<Rightarrow> target_url option) \<Rightarrow> (string \<Rightarrow> (string \<rightharpoonup> string) option) \<Rightarrow> (bool \<Rightarrow> bool) \<Rightarrow> (string \<Rightarrow> response option) \<Rightarrow> int
     \<Rightarrow> 's server \<Rightarrow> net_env \<Rightarrow> string \<Rightarrow> sstate \<Rightarrow> test_out \<times> sstate" where
  "runTestRequest parse json handshake exchange ms sv env targetURL st =
     (case parse targetURL of
        None \<Rightarrow> (TFailed URLUnparsed, st)
      | Some u \<Rightarrow>
          if tu_Scheme u \<noteq> ''http'' \<and> tu_Scheme u \<noteq> ''https'' then (TFailed SchemeRefused, st)
          else if tu_Host u = [] then (TFailed HostMissing, st)
          else (let tlsUp = (tu_Scheme u = ''https''); host = tu_Hostname u;
                    (out, pol, st') = test_dial sv env host (target_port u) tlsUp st
                in case out of
                     DPanic \<Rightarrow> (TPanic, st')
                   | DPending \<Rightarrow> (TPending, st')
                   | DErr e \<Rightarrow> (TFailed (DialFailed e), st')
                   | DOk conn w \<Rightarrow>
                       if tlsUp \<and> Mode pol = ModeSocket \<and> \<not> handshake (rewrapped pol tlsUp) then (TFailed TLSFailed, st')
                       else (case exchange (request_text u) of
                               None \<Rightarrow> (TFailed ResponseUnread, st')
                             | Some resp \<Rightarrow> (TDone (report_of json (g_heap (s_guard st') w) ms (Mode pol) host resp), st'))))"

section \<open>Lemmas\<close>

lemma net_ip_wf: "wf_addr a \<Longrightarrow> zone_free a \<Longrightarrow> wf_addr (net_ip a) \<and> zone_free (net_ip a)"
proof (induction a)
  case (V6 gs z)
  then have "gs ! 6 < 65536" "gs ! 7 < 65536" by (auto simp: list_all_length)
  with V6 show ?case by (auto simp: unmap4_def less_mult_imp_div_less)
qed simp

text \<open>What is found is the canonical text of an address, neither a loopback nor the unspecified one.\<close>

definition found_ip :: "string \<Rightarrow> bool" where
  "found_ip s \<longleftrightarrow> s = [] \<or> (\<exists>a. ParseAddr s = Some a \<and> addr_String a = s \<and> \<not> IsLoopback a \<and> \<not> IsUnspecified a)"

lemma extractIP_found: "found_ip (extractIP s)"
proof (cases "find_ip s = [] \<or> net_ParseIP (find_ip s) = None")
  case True
  then show ?thesis by (auto simp: extractIP_def found_ip_def Let_def)
next
  case False
  then obtain b where b: "ParseAddr (find_ip s) = Some b" "zone_free b" "find_ip s \<noteq> []"
    by (auto simp: net_ParseIP_def split: option.splits if_splits)
  have "wf_addr (net_ip b) \<and> zone_free (net_ip b)" using net_ip_wf ParseAddr_wf b(1,2) by blast
  then have "ParseAddr (addr_String (net_ip b)) = Some (net_ip b)" using ParseAddr_String by blast
  with b show ?thesis by (auto simp: extractIP_def net_ParseIP_def found_ip_def Let_def)
qed

lemma first_nonempty_found: "list_all found_ip xs \<Longrightarrow> found_ip (first_nonempty xs)"
  by (induction xs) (auto simp: first_nonempty_def found_ip_def)

lemma sniff_found: "found_ip (sniffBodyIP json body)"
proof -
  have e: "found_ip []" by (simp add: found_ip_def)
  have o: "found_ip (case x of None \<Rightarrow> [] | Some t \<Rightarrow> extractIP t)" for x by (cases x) (simp_all add: e extractIP_found)
  have "list_all found_ip (json_ips json s)" for s
    by (cases "json s") (simp_all add: json_ips_def o)
  moreover have "found_ip (line_ip s)" for s
    by (cases "index_byte s (CHR ''='')") (simp_all add: line_ip_def e extractIP_found)
  ultimately show ?thesis unfolding sniffBodyIP_def Let_def using extractIP_found by (intro first_nonempty_found) (auto simp: list_all_iff)
qed

section \<open>Properties\<close>



text \<open>A body that is an IPv4 address is recognised, with anything around it that is no digit and no dot, unless the search stops at something that looks like an address earlier.\<close>

lemma digit_groups_dec:
  "list_all (\<lambda>b. b < 256) bs \<Longrightarrow> digit_groups (length bs) (concat (map (\<lambda>b. dec b @ ''.'') bs) @ r) = Some (map dec bs, r)"
proof (induction bs)
  case (Cons b bs)
  have d: "takeWhile is_digit (dec b @ CHR ''.'' # t) = dec b" "dropWhile is_digit (dec b @ CHR ''.'' # t) = CHR ''.'' # t" for t
    by (simp_all add: takeWhile_append2 dropWhile_append2 digit_in_dec)
  have "length (dec b) \<le> 3" using length_dec_bound [of b 3] Cons.prems by simp
  with Cons show ?case by (simp add: d)
qed simp

lemma match4_text:
  assumes "wf_addr (V4 bs)" "r = [] \<or> \<not> is_digit (hd r)"
  shows "match4 (string4 bs @ r) = Some (string4 bs)"
proof -
  obtain a b c d where bs: "bs = [a, b, c, d]" "list_all (\<lambda>b. b < 256) [a, b, c, d]"
    using assms(1) by (auto simp: length_Suc_conv numeral_eq_Suc)
  have t: "takeWhile is_digit (dec d @ r) = dec d" using assms(2) by (cases r) (simp_all add: takeWhile_append2 digit_in_dec takeWhile_eq_all_conv)
  have l: "length (dec d) \<le> 3" using length_dec_bound [of d 3] bs by simp
  have "digit_groups 3 (string4 bs @ r) = Some (map dec [a, b, c], dec d @ r)"
    using digit_groups_dec [of "[a, b, c]" "dec d @ r"] bs by (simp add: string4_def numeral_3_eq_3)
  then show ?thesis using t l by (simp add: match4_def Let_def bs string4_def)
qed

lemma plain_body_found:
  assumes "wf_addr (V4 bs)" "r = [] \<or> \<not> is_digit (hd r)" "\<not> IsLoopback (V4 bs)" "\<not> IsUnspecified (V4 bs)"
  shows "extractIP (string4 bs @ r) = string4 bs"
proof -
  have "find_ip (string4 bs @ r) = string4 bs" by (subst find_ip.simps) (simp add: match4_text [OF assms(1,2)])
  moreover have "string4 bs \<noteq> []" using assms(1) by (auto simp: string4_def length_Suc_conv numeral_eq_Suc)
  ultimately show ?thesis using assms(1,3,4) parse_string4 [OF assms(1)] by (simp add: extractIP_def Let_def net_ParseIP_def)
qed

text \<open>Only the first thing that looks like an address is considered: a time of day before the address hides it, and so does the loopback address.\<close>

lemma time_hides_ip: "extractIP ''12:30:45 9.8.7.6'' = []" "extractIP ''127.0.0.1, 9.8.7.6'' = []"
  by code_simp+

text \<open>A compressed IPv6 address is not found as a whole.\<close>

lemma compressed_ip_missed: "extractIP ''2606:4700::1111'' = []"
  by code_simp

text \<open>With \<^verbatim>\<open>pool.tls_rewrap\<close> the dialer has already wrapped the stream in TLS when the request wraps it again.\<close>

lemma rewrap_twice:
  assumes "parse url = Some u" "tu_Scheme u = ''https''" "tu_Host u \<noteq> []" "sv_TLSRewrap sv" "\<not> handshake True"
    and "test_dial sv env (tu_Hostname u) (target_port u) True st = (DOk conn w, pol, st')" "Mode pol = ModeSocket"
  shows "runTestRequest parse json handshake exchange ms sv env url st = (TFailed TLSFailed, st')"
proof -
  have "TLSRewrap pol" using assms(4,6) by (auto simp: test_dial_def Let_def dial_policy_def split: prod.splits if_splits)
  then show ?thesis using assms by (simp add: runTestRequest_def rewrapped_def)
qed

end
