(* ===== verification/Alert_Sinks.thy ===== *)
theory Alert_Sinks
  imports Serve_Wiring
begin

text \<open>
  What an alert looks like and where it goes (\<^verbatim>\<open>internal/alerts/alerts.go\<close>, with the literals of \<^verbatim>\<open>cmd/flarex/main.go\<close>): the message of the quota
  hook and of the webhook of the admin server, the request of an HTTP sink, and the embed of a Discord sink with its progress bar. JSON texts are made by the
  library, so a body is the value that is encoded; characters outside ASCII are written as their UTF-8 bytes.
\<close>

section \<open>Alerts\<close>

record alert_msg =
  al_Kind :: string
  al_AccountID :: string
  al_AccountName :: string
  al_Message :: string
  al_Used :: u64
  al_Limit :: u64
  al_At :: time

text \<open>The literals of the quota hook, for the events of \<open>Quota_Guard\<close>.\<close>

definition quota_message :: "int \<Rightarrow> event \<Rightarrow> string" where
  "quota_message warn_percent ev =
     (if ev_Kind ev = KindQuotaLimit
      then ''Daily quota exhausted ('' @ dec (unat (ev_Used ev)) @ ''/'' @ dec (unat (ev_Limit ev)) @ ''). Workers paused until UTC midnight reset.''
      else ''Crossed '' @ itoa warn_percent @ ''% of daily quota. Consider rotating accounts or slowing down.'')"

definition alert_of_event :: "(string \<rightharpoonup> string) \<Rightarrow> int \<Rightarrow> event \<Rightarrow> alert_msg" where
  "alert_of_event accountNames warn_percent ev =
     \<lparr>al_Kind = kind_string (ev_Kind ev), al_AccountID = ev_AccountID ev,
      al_AccountName = (case accountNames (ev_AccountID ev) of None \<Rightarrow> [] | Some n \<Rightarrow> n), al_Message = quota_message warn_percent ev,
      al_Used = ev_Used ev, al_Limit = ev_Limit ev, al_At = ev_At ev\<rparr>"

definition AlertHook :: "time \<Rightarrow> string \<Rightarrow> string \<Rightarrow> string \<Rightarrow> string \<Rightarrow> alert_msg" where
  "AlertHook now source summary severity status =
     \<lparr>al_Kind = ''alertmanager.'' @ status, al_AccountID = source, al_AccountName = [], al_Message = ''['' @ severity @ ''] '' @ summary,
      al_Used = 0, al_Limit = 0, al_At = now\<rparr>"

section \<open>The embed\<close>

definition utf8 :: "nat list \<Rightarrow> string" where
  "utf8 = map char_of"

definition full_block :: string where "full_block = utf8 [0xE2, 0x96, 0x88]"
definition light_shade :: string where "light_shade = utf8 [0xE2, 0x96, 0x91]"

text \<open>Integer division of Go, for a positive divisor.\<close>

definition go_div :: "int \<Rightarrow> int \<Rightarrow> int" where
  "go_div a b = (if a < 0 then - (- a div b) else a div b)"

definition progress_percent :: "u64 \<Rightarrow> u64 \<Rightarrow> int" where
  "progress_percent used limit = min 100 (go_int (fmul (fdiv (f64 (of_nat (unat used))) (f64 (of_nat (unat limit)))) 100))"

definition progressBar :: "u64 \<Rightarrow> u64 \<Rightarrow> nat \<Rightarrow> string \<times> int" where
  "progressBar used limit width =
     (if limit = 0 then ([], 0)
      else (let pct = progress_percent used limit; filled = go_div (wrap64 (pct * int width)) 100
            in (concat (map (\<lambda>i. if int i < filled then full_block else light_shade) [0..<width]), pct)))"

text \<open>Both apostrophes, with both spellings; the first suffix that fits is cut.\<close>

definition account_suffixes :: "string list" where
  "account_suffixes =
     [CHR 0x27 # ''s Account'', utf8 [0xE2, 0x80, 0x99] @ ''s Account'', CHR 0x27 # ''s account'', utf8 [0xE2, 0x80, 0x99] @ ''s account'']"

definition prettifyAccountName :: "string \<Rightarrow> string" where
  "prettifyAccountName s0 =
     (let s = trim_space s0;
          s1 = (case find (has_suffix s) account_suffixes of None \<Rightarrow> s | Some suf \<Rightarrow> take (length s - length suf) s)
      in (case index_byte s1 (CHR ''@'') of Some (Suc _) \<Rightarrow> to_lower s1 | _ \<Rightarrow> s1))"

record discord_field =
  df_Name :: string
  df_Value :: string
  df_Inline :: bool

record discord_embed =
  de_Title :: string
  de_Description :: string
  de_Color :: int
  de_Timestamp :: string
  de_Fields :: "discord_field list"
  de_Thumbnail :: string

record discord_payload =
  dp_Username :: string
  dp_AvatarURL :: string
  dp_Embeds :: "discord_embed list"

definition defaultCFLogoURL :: string where
  "defaultCFLogoURL = ''https://www.cloudflare.com/static/b30a57477bde900ba55c0b5f98c4e524/c238b/cf-logo-on-white-bg.png''"

definition discord_title :: "string \<Rightarrow> string \<times> int" where
  "discord_title kind =
     (if kind = kind_string KindQuotaWarn
        then (utf8 [0xE2, 0x9A, 0xA0, 0xEF, 0xB8, 0x8F] @ '' Cloudflare Workers '' @ utf8 [0xE2, 0x80, 0x94] @ '' Quota Warning'', 0xF38020)
      else if kind = kind_string KindQuotaLimit
        then (utf8 [0xF0, 0x9F, 0x94, 0xA5] @ '' Cloudflare Workers '' @ utf8 [0xE2, 0x80, 0x94] @ '' Quota Limit Reached'', 0xE74C3C)
      else if kind = kind_string KindWorkerDown then (utf8 [0xF0, 0x9F, 0x92, 0x80] @ '' Worker Down'', 0xE74C3C)
      else (kind, 0x3498DB))"

definition nl :: string where "nl = [CHR 0x0A]"
definition fence :: string where "fence = replicate 3 (CHR 0x60)"

definition discord_description :: "alert_msg \<Rightarrow> string" where
  "discord_description ev =
     (case progressBar (al_Used ev) (al_Limit ev) 20 of
        (bar, pct) \<Rightarrow>
          if bar \<noteq> [] then fence @ nl @ bar @ ''  '' @ itoa pct @ ''%'' @ nl @ fence @ nl @ al_Message ev else al_Message ev)"

definition account_field :: "alert_msg \<Rightarrow> discord_field" where
  "account_field ev =
     (let name = prettifyAccountName (al_AccountName ev); shown = (if name = [] then ''(unknown)'' else name);
          idShort = (if length (al_AccountID ev) > 12 then take 8 (al_AccountID ev) @ utf8 [0xE2, 0x80, 0xA6] else al_AccountID ev)
      in \<lparr>df_Name = ''Account'', df_Value = ''**'' @ shown @ ''**'' @ nl @ CHR 0x60 # idShort @ [CHR 0x60], df_Inline = True\<rparr>)"

definition discord_fields :: "alert_msg \<Rightarrow> discord_field list" where
  "discord_fields ev =
     (if al_AccountName ev \<noteq> [] \<or> al_AccountID ev \<noteq> [] then [account_field ev] else []) @
     (if al_Limit ev > 0
      then [\<lparr>df_Name = ''Used'', df_Value = dec (unat (al_Used ev)) @ '' / '' @ dec (unat (al_Limit ev)), df_Inline = True\<rparr>,
            \<lparr>df_Name = ''Remaining'', df_Value = dec (unat (al_Limit ev - min (al_Used ev) (al_Limit ev))), df_Inline = True\<rparr>]
      else [])"

definition discord_message :: "(time \<Rightarrow> string) \<Rightarrow> string \<Rightarrow> alert_msg \<Rightarrow> discord_payload" where
  "discord_message rfc3339 username ev =
     (case discord_title (al_Kind ev) of
        (title, color) \<Rightarrow>
          \<lparr>dp_Username = username, dp_AvatarURL = defaultCFLogoURL,
           dp_Embeds = [\<lparr>de_Title = title, de_Description = discord_description ev, de_Color = color, de_Timestamp = rfc3339 (al_At ev),
             de_Fields = discord_fields ev, de_Thumbnail = defaultCFLogoURL\<rparr>]\<rparr>)"

section \<open>Sending\<close>

datatype alert_body = BEvent alert_msg | BDiscord discord_payload

record post =
  po_URL :: string
  po_Header :: "string \<rightharpoonup> string"
  po_Body :: alert_body

datatype send_err = RequestInvalid | SendFailed | SinkStatus nat

text \<open>\<open>canonical\<close> is the spelling that the library gives a header name; \<open>send\<close> is the exchange: nothing for a transport error, or the status.\<close>

definition sink_post :: "(string \<Rightarrow> string) \<Rightarrow> (time \<Rightarrow> string) \<Rightarrow> sink \<Rightarrow> alert_msg \<Rightarrow> post" where
  "sink_post canonical rfc3339 s ev =
     (case s of
        HTTPSink url headers \<Rightarrow>
          \<lparr>po_URL = url, po_Header = fold (\<lambda>(k, v) m. m(canonical k \<mapsto> v)) headers [''Content-Type'' \<mapsto> ''application/json''], po_Body = BEvent ev\<rparr>
      | DiscordSink url username \<Rightarrow>
          \<lparr>po_URL = url, po_Header = [''Content-Type'' \<mapsto> ''application/json''], po_Body = BDiscord (discord_message rfc3339 username ev)\<rparr>)"

definition sink_Send :: "(string \<Rightarrow> string) \<Rightarrow> (time \<Rightarrow> string) \<Rightarrow> (string \<Rightarrow> bool) \<Rightarrow> (post \<Rightarrow> nat option) \<Rightarrow> sink \<Rightarrow> alert_msg \<Rightarrow> send_err option" where
  "sink_Send canonical rfc3339 url_ok send s ev =
     (let p = sink_post canonical rfc3339 s ev
      in if \<not> url_ok (po_URL p) then Some RequestInvalid
         else (case send p of None \<Rightarrow> Some SendFailed | Some status \<Rightarrow> if status \<ge> 300 then Some (SinkStatus status) else None))"

section \<open>Lemmas and properties\<close>

lemma min_go_int_bounds:
  assumes "0 \<le> x" "x < 2 ^ 63"
  shows "0 \<le> min 100 (go_int x)" "min 100 (go_int x) \<le> 100" "100 \<le> x \<Longrightarrow> min 100 (go_int x) = 100"
proof -
  have "go_int x = \<lfloor>x\<rfloor>"
    using assms by (simp add: go_int_def rtrunc_def int64_range_def floor_less_iff le_floor_iff)
  then show "0 \<le> min 100 (go_int x)" "min 100 (go_int x) \<le> 100" "100 \<le> x \<Longrightarrow> min 100 (go_int x) = 100"
    using assms by (simp_all add: le_floor_iff)
qed

lemma f64_powers: "f64 1 = 1" "f64 100 = 100" "f64 9007199254740992 = 9007199254740992" "f64 1152921504606846976 = 1152921504606846976"
  by code_simp+

lemma percent_bounds:
  assumes "limit \<noteq> 0" "unat used < 2 ^ 53"
  shows "0 \<le> progress_percent used limit" "progress_percent used limit \<le> 100" "limit \<le> used \<Longrightarrow> progress_percent used limit = 100"
proof -
  let ?u = "f64 (of_nat (unat used))" and ?l = "f64 (of_nat (unat limit))"
  have "unat limit \<ge> 1" using assms(1) by (simp add: Suc_leI unat_gt_0)
  then have "(1 :: rat) \<le> of_nat (unat limit)" by (metis of_nat_1 of_nat_le_iff)
  from f64_mono [OF this] have l: "1 \<le> ?l" by (simp only: f64_powers)
  have u: "?u \<le> 2 ^ 53" using f64_mono [of "of_nat (unat used)" "2 ^ 53"] assms(2) by (simp add: f64_powers del: of_nat_unat)
  have "?u / ?l \<le> 2 ^ 53" using l u by (simp add: pos_divide_le_eq)
  then have "fdiv ?u ?l \<le> 2 ^ 53" using f64_mono [of "?u / ?l" "2 ^ 53"] by (simp add: fdiv_def f64_powers)
  then have "fdiv ?u ?l * 100 \<le> 2 ^ 60" by simp
  then have hi: "fmul (fdiv ?u ?l) 100 < 2 ^ 63" using f64_mono [of "fdiv ?u ?l * 100" "2 ^ 60"] by (simp add: fmul_def f64_powers)
  note b = min_go_int_bounds [OF fop_nonneg(2) hi]
  show "0 \<le> progress_percent used limit" "progress_percent used limit \<le> 100" unfolding progress_percent_def by (rule b)+
  assume "limit \<le> used"
  then have "?l \<le> ?u" by (intro f64_mono) (simp add: word_le_nat_alt del: of_nat_unat)
  then have "1 \<le> fdiv ?u ?l" using l f64_mono [of 1 "?u / ?l"] by (simp add: fdiv_def f64_powers)
  then have "100 \<le> fmul (fdiv ?u ?l) 100" using f64_mono [of 100 "fdiv ?u ?l * 100"] by (simp add: fmul_def f64_powers)
  from b(3) [OF this] show "progress_percent used limit = 100" unfolding progress_percent_def .
qed

text \<open>
  The progress bar of an alert. For a limit and fewer than \<open>2 ^ 53\<close> requests the percentage is between 0 and 100, and 100 once the limit is reached; the bar has exactly the given number of
  cells, of which the first ones are filled, as many as the percentage of the width, rounded down.
\<close>

lemma progress_bar_exact:
  assumes "limit \<noteq> 0" "unat used < 2 ^ 53" "width < 2 ^ 32"
  shows "\<exists>k. progressBar used limit width = (concat (replicate k full_block @ replicate (width - k) light_shade), progress_percent used limit) \<and>
    k \<le> width \<and> k = nat (progress_percent used limit) * width div 100 \<and> 0 \<le> progress_percent used limit \<and> progress_percent used limit \<le> 100 \<and>
    (if limit \<le> used then progress_percent used limit = 100 \<and> k = width else True)"
proof -
  let ?p = "progress_percent used limit"
  note b = percent_bounds [OF assms(1,2)]
  define k where "k = nat ?p * width div 100"
  have p: "?p = int (nat ?p)" using b(1) by simp
  have "nat ?p * width \<le> 100 * width" using b(2) by (intro mult_right_mono) simp_all
  then have k: "k \<le> width" unfolding k_def by (metis div_le_mono nonzero_mult_div_cancel_left zero_neq_numeral)
  have "int64_range (?p * int width)"
    using b(1,2) assms(3) mult_mono [of ?p 100 "int width" "2 ^ 32"] by (simp add: int64_range_def) (smt (verit) mult_nonneg_nonneg of_nat_0_le_iff)
  then have w: "wrap64 (?p * int width) = ?p * int width"
    unfolding wrap64_def int64_range_def by (simp add: signed_take_bit_int_eq_self)
  have f: "go_div (wrap64 (?p * int width)) 100 = int k"
    unfolding w k_def using b(1) by (subst (1 2) p) (simp add: go_div_def zdiv_int mult_less_0_iff del: int_nat_eq)
  have "map (\<lambda>i. if int i < int k then full_block else light_shade) [0..<width] = replicate k full_block @ replicate (width - k) light_shade"
    using k by (intro nth_equalityI) (auto simp: nth_append)
  then have "progressBar used limit width = (concat (replicate k full_block @ replicate (width - k) light_shade), ?p)"
    using assms(1) f by (simp add: progressBar_def Let_def)
  moreover have "k = width" if "?p = 100" using that by (simp add: k_def)
  ultimately show ?thesis using k b k_def by auto
qed

lemma progress_bar_exact_example:
  "\<exists>k. progressBar 50 200 20 = (concat (replicate k full_block @ replicate (20 - k) light_shade), progress_percent 50 200) \<and> k \<le> 20"
  using progress_bar_exact [of 200 50 20] by auto

text \<open>What remains is never negative, and nothing exactly when the limit is reached.\<close>

lemma remaining_zero: "limit - min used limit = (0 :: u64) \<longleftrightarrow> limit \<le> used"
  by (cases "used \<le> limit") (auto simp: min_def)

lemma prettify_examples:
  "prettifyAccountName (''Bob@Ex.org'' @ CHR 0x27 # ''s Account '') = ''bob@ex.org''" "prettifyAccountName ''@Team'' = ''@Team''"
  by code_simp+

text \<open>A message without a limit has neither bar nor counts: what the admin webhook sends on is its text only.\<close>

lemma webhook_embed:
  "de_Fields (hd (dp_Embeds (discord_message rfc3339 u (AlertHook now [] summary severity status)))) = []"
  "de_Description (hd (dp_Embeds (discord_message rfc3339 u (AlertHook now [] summary severity status)))) = ''['' @ severity @ ''] '' @ summary"
  by (simp_all add: discord_message_def discord_fields_def discord_description_def progressBar_def AlertHook_def split: prod.split)

end
