(* ===== verification/Relay_Pump.thy ===== *)
theory Relay_Pump
  imports Go_Base "HOL-Library.Sublist"
begin

text \<open>
  The two ends of a connection's life in \<^verbatim>\<open>internal/proxy/server.go\<close> and \<^verbatim>\<open>internal/proxy/httpconnect.go\<close>: the loop that accepts it and
  the relay that pumps its bytes. The relay's two goroutines are a step relation; how many bytes a read yields and when a direction ends is up to the network.
\<close>

section \<open>Accepting\<close>

text \<open>One round of the loop: whether the context is done at its start, and what the listener answers.\<close>

datatype 'c accepted = AConn 'c | ATimeout | AFailed string

datatype loop_end = CtxDone | ListenerFailed string | StillServing

fun serve_loop :: "(bool \<times> 'c accepted) list \<Rightarrow> 'c list \<times> loop_end" where
  "serve_loop [] = ([], StillServing)"
| "serve_loop ((cancelled, r) # rounds) =
     (if cancelled then ([], CtxDone)
      else (case r of
              AConn c \<Rightarrow> (case serve_loop rounds of (cs, e) \<Rightarrow> (c # cs, e))
            | ATimeout \<Rightarrow> serve_loop rounds
            | AFailed e \<Rightarrow> ([], ListenerFailed e)))"

datatype 'c runs_on = OnPool 'c | OnGoroutine 'c

definition dispatch_conn :: "bool \<Rightarrow> bool \<Rightarrow> 'c \<Rightarrow> 'c runs_on" where
  "dispatch_conn has_pool submit_ok c = (if \<not> has_pool then OnGoroutine c else if submit_ok then OnPool c else OnGoroutine c)"

text \<open>The guard \<^verbatim>\<open>poolOnce\<close> and the bound of the goroutine pool it makes; \<open>made\<close> says whether the library makes one.\<close>

record pool_once =
  po_done :: bool
  po_pool :: "int option"

definition pool_unset :: pool_once where
  "pool_unset = \<lparr>po_done = False, po_pool = None\<rparr>"

definition serve_pool :: "int \<Rightarrow> bool \<Rightarrow> pool_once \<Rightarrow> pool_once" where
  "serve_pool PoolSize made s =
     (if po_done s then s else \<lparr>po_done = True, po_pool = (if PoolSize > 0 \<and> made then Some PoolSize else po_pool s)\<rparr>)"

definition http_pool :: "pool_once \<Rightarrow> pool_once" where
  "http_pool s = (if po_done s then s else s\<lparr>po_done := True\<rparr>)"

section \<open>The relay\<close>

text \<open>A direction: the bytes its source still has, those written, what was added to the byte meter, and whether its copy has returned.\<close>

record pump =
  p_in :: bytes
  p_out :: bytes
  p_meter :: nat
  p_done :: bool

text \<open>\<open>closings\<close> counts the runs of the function that \<^verbatim>\<open>closeAll\<close> guards; both connections are closed by it.\<close>

record relay_state =
  rl_down :: pump
  rl_up :: pump
  closings :: nat

definition pump_start :: "bytes \<Rightarrow> pump" where
  "pump_start b = \<lparr>p_in = b, p_out = [], p_meter = 0, p_done = False\<rparr>"

definition relay_start :: "bytes \<Rightarrow> bytes \<Rightarrow> relay_state" where
  "relay_start d u = \<lparr>rl_down = pump_start d, rl_up = pump_start u, closings = 0\<rparr>"

text \<open>A round of \<^verbatim>\<open>io.CopyBuffer\<close>: \<open>n\<close> bytes are read and written.\<close>

definition pump_copy :: "nat \<Rightarrow> pump \<Rightarrow> pump" where
  "pump_copy n p = p\<lparr>p_in := drop n (p_in p), p_out := p_out p @ take n (p_in p)\<rparr>"

text \<open>Its end: of the last \<open>n\<close> bytes read only \<open>k\<close> were written (both are zero at the end of the stream); the count goes to the meter.\<close>

definition pump_end :: "nat \<Rightarrow> nat \<Rightarrow> pump \<Rightarrow> pump" where
  "pump_end n k p =
     (let out = p_out p @ take k (take n (p_in p))
      in p\<lparr>p_in := drop n (p_in p), p_out := out, p_meter := (if length out > 0 then p_meter p + length out else p_meter p), p_done := True\<rparr>)"

definition closeAll :: "relay_state \<Rightarrow> relay_state" where
  "closeAll s = (if closings s = 0 then s\<lparr>closings := 1\<rparr> else s)"

inductive relay_step :: "relay_state \<Rightarrow> relay_state \<Rightarrow> bool" where
  copy_down: "\<not> p_done (rl_down s) \<Longrightarrow> closings s = 0 \<Longrightarrow> 0 < n \<Longrightarrow> n \<le> length (p_in (rl_down s)) \<Longrightarrow>
     relay_step s (s\<lparr>rl_down := pump_copy n (rl_down s)\<rparr>)"
| copy_up: "\<not> p_done (rl_up s) \<Longrightarrow> closings s = 0 \<Longrightarrow> 0 < n \<Longrightarrow> n \<le> length (p_in (rl_up s)) \<Longrightarrow>
     relay_step s (s\<lparr>rl_up := pump_copy n (rl_up s)\<rparr>)"
| end_down: "\<not> p_done (rl_down s) \<Longrightarrow> relay_step s (closeAll (s\<lparr>rl_down := pump_end n k (rl_down s)\<rparr>))"
| end_up: "\<not> p_done (rl_up s) \<Longrightarrow> relay_step s (closeAll (s\<lparr>rl_up := pump_end n k (rl_up s)\<rparr>))"

text \<open>The relay returns when both copies have.\<close>

definition relay_over :: "relay_state \<Rightarrow> bool" where
  "relay_over s \<longleftrightarrow> p_done (rl_down s) \<and> p_done (rl_up s)"

inductive relay_run :: "relay_state \<Rightarrow> nat \<Rightarrow> relay_state \<Rightarrow> bool" where
  relay_stop: "relay_run s 0 s"
| relay_more: "relay_run s n t \<Longrightarrow> relay_step t t' \<Longrightarrow> relay_run s (Suc n) t'"

section \<open>Lemmas\<close>

text \<open>The connections handled are those accepted before the context ends or the listener fails, each once and in order.\<close>

lemma serve_loop_handles:
  "fst (serve_loop rounds) =
     List.map_filter (\<lambda>r. case snd r of AConn c \<Rightarrow> Some c | _ \<Rightarrow> None) (takeWhile (\<lambda>r. \<not> fst r \<and> (\<forall>e. snd r \<noteq> AFailed e)) rounds)"
  by (induction rounds rule: serve_loop.induct) (auto simp: List.map_filter_simps split: accepted.split prod.split)

text \<open>The front end of HTTP uses up the guard of the pool: when its goroutine comes first, the server runs without the configured bound on its goroutines.\<close>

lemma http_first_disables_pool:
  assumes "bound > 0"
  shows "po_pool (serve_pool bound True (http_pool pool_unset)) = None" "po_pool (http_pool (serve_pool bound True pool_unset)) = Some bound"
  using assms by (simp_all add: serve_pool_def http_pool_def pool_unset_def)

definition pump_ok :: "bytes \<Rightarrow> pump \<Rightarrow> bool" where
  "pump_ok b p \<longleftrightarrow> prefix (p_out p) b \<and> length (p_out p) + length (p_in p) \<le> length b \<and>
     (if p_done p then p_meter p = length (p_out p) else p_out p @ p_in p = b \<and> p_meter p = 0)"

lemma pump_start_ok: "pump_ok b (pump_start b)"
  by (simp add: pump_ok_def pump_start_def)

lemma pump_copy_ok: "pump_ok b p \<Longrightarrow> \<not> p_done p \<Longrightarrow> pump_ok b (pump_copy n p)"
  by (auto simp: pump_ok_def pump_copy_def prefix_def intro: exI [of _ "drop n (p_in p)"])

lemma pump_end_ok: "pump_ok b p \<Longrightarrow> \<not> p_done p \<Longrightarrow> pump_ok b (pump_end n k p)"
proof -
  assume "pump_ok b p" "\<not> p_done p"
  then have b: "b = p_out p @ p_in p" "p_meter p = 0" by (auto simp: pump_ok_def)
  have "p_in p = take k (take n (p_in p)) @ drop k (take n (p_in p)) @ drop n (p_in p)" by (metis append.assoc append_take_drop_id)
  then have "prefix (p_out p @ take k (take n (p_in p))) b" unfolding b(1) prefix_def by (metis append.assoc)
  then show "pump_ok b (pump_end n k p)" using b by (auto simp: pump_ok_def pump_end_def Let_def)
qed

definition relay_inv :: "bytes \<Rightarrow> bytes \<Rightarrow> relay_state \<Rightarrow> bool" where
  "relay_inv d u s \<longleftrightarrow> pump_ok d (rl_down s) \<and> pump_ok u (rl_up s) \<and> closings s = (if p_done (rl_down s) \<or> p_done (rl_up s) then 1 else 0)"

lemma pump_fields [simp]: "p_done (pump_copy n p) = p_done p" "p_done (pump_end n k p)"
  by (simp_all add: pump_copy_def pump_end_def Let_def)

lemma relay_inv_step: "relay_inv d u s \<Longrightarrow> relay_step s t \<Longrightarrow> relay_inv d u t"
  by (erule relay_step.cases) (auto simp: relay_inv_def closeAll_def pump_copy_ok pump_end_ok)

lemma relay_inv_run: "relay_run s n t \<Longrightarrow> relay_inv d u s \<Longrightarrow> relay_inv d u t"
  by (induction rule: relay_run.induct) (auto intro: relay_inv_step)

lemma relay_inv_start: "relay_inv d u (relay_start d u)"
  by (simp add: relay_inv_def relay_start_def pump_start_ok) (simp add: pump_start_def)

text \<open>Each step reads at least a byte or ends a direction.\<close>

definition relay_left :: "relay_state \<Rightarrow> nat" where
  "relay_left s = length (p_in (rl_down s)) + length (p_in (rl_up s)) + (if p_done (rl_down s) then 0 else 1) + (if p_done (rl_up s) then 0 else 1)"

lemma relay_left_step: "relay_step s t \<Longrightarrow> relay_left t < relay_left s"
  by (erule relay_step.cases) (auto simp: relay_left_def closeAll_def pump_copy_def pump_end_def Let_def)

lemma relay_left_run: "relay_run s n t \<Longrightarrow> relay_left t + n \<le> relay_left s"
  by (induction rule: relay_run.induct) (auto dest: relay_left_step)

section \<open>Properties\<close>



definition half_closed :: relay_state where
  "half_closed = \<lparr>rl_down = \<lparr>p_in = [7], p_out = [], p_meter = 0, p_done = False\<rparr>, rl_up = \<lparr>p_in = [], p_out = [1], p_meter = 1, p_done = True\<rparr>, closings = 1\<rparr>"

lemma demo_relay: "relay_run (relay_start [7] [1]) 2 half_closed"
proof -
  let ?s = "relay_start [7] [1]"
  have 1: "relay_step ?s (?s\<lparr>rl_up := pump_copy 1 (rl_up ?s)\<rparr>)" by (rule relay_step.copy_up) (simp_all add: relay_start_def pump_start_def)
  have 2: "relay_step (?s\<lparr>rl_up := pump_copy 1 (rl_up ?s)\<rparr>) half_closed"
    using relay_step.end_up [of "?s\<lparr>rl_up := pump_copy 1 (rl_up ?s)\<rparr>" 0 0]
    by (simp add: relay_start_def pump_start_def pump_copy_def pump_end_def closeAll_def half_closed_def)
  show ?thesis unfolding numeral_2_eq_2 by (intro relay_more [OF relay_more [OF relay_stop 1] 2])
qed



text \<open>
  A client that ends its own direction first, as one that half-closes after its request does, loses the answer: the first copy to return closes both connections, and nothing is copied after that.
\<close>

lemma half_close_loses_answer:
  assumes "relay_step half_closed t" "k = 0" "t = closeAll (half_closed\<lparr>rl_down := pump_end n k (rl_down half_closed)\<rparr>)"
  shows "p_out (rl_down t) = []"
  using assms by (simp add: half_closed_def closeAll_def pump_end_def)

lemma closed_copies_nothing: "closings s \<noteq> 0 \<Longrightarrow> relay_step s t \<Longrightarrow> p_done (rl_down t) \<noteq> p_done (rl_down s) \<or> p_done (rl_up t) \<noteq> p_done (rl_up s)"
  by (erule relay_step.cases) (simp_all add: closeAll_def)

end
