(* ===== verification/Operator_Views.thy ===== *)
theory Operator_Views
  imports Serve_Wiring Client_Cli
begin

text \<open>
  What an operator sees: the banner and the summary of the configuration at start (\<^verbatim>\<open>internal/logger/banner.go\<close>), the tables of the local commands and the
  check of a configuration (\<^verbatim>\<open>cmd/flarex/main.go\<close>), and the files of the dashboard (\<^verbatim>\<open>internal/admin/webui.go\<close>). A text is the list of its lines; the
  column printer of the library gets rows.
\<close>

section \<open>Banner\<close>

text \<open>Characters outside ASCII are their UTF-8 bytes; the art is written with stand-ins for them and for the characters that need an escape.\<close>

definition utf8_bytes :: "nat list \<Rightarrow> string" where
  "utf8_bytes = map char_of"

definition cloud_glyph :: "char \<Rightarrow> string" where
  "cloud_glyph c =
     (if c = CHR ''o'' then utf8_bytes [0xE2, 0x96, 0x88] else if c = CHR ''m'' then utf8_bytes [0xE2, 0x96, 0x84]
      else if c = CHR ''w'' then utf8_bytes [0xE2, 0x96, 0x80] else [c])"

definition text_glyph :: "char \<Rightarrow> string" where
  "text_glyph c =
     (if c = CHR ''%'' then [CHR 0x5C] else if c = CHR ''~'' then [CHR 0x60] else if c = CHR ''^'' then [CHR 0x27]
      else if c = CHR ''='' then utf8_bytes [0xE2, 0x80, 0x94] else [c])"

definition cloudArt :: "string list" where
  "cloudArt = map (\<lambda>l. concat (map cloud_glyph l))
     [''      mmooooomm    '',
       ''   moow      woom  '',
       ''  oow          woo '',
       '' oo              oo'',
       ''ow  mmoooooomm    o'',
       ''o moow      woom  o'',
       '' woo          oow  '',
       ''   woom     moow   '',
       ''      woooow       '']"

definition textArt :: "string list" where
  "textArt = map (\<lambda>l. concat (map text_glyph l))
     ['' _____ _                __   __'',
       ''|  ___| | __ _ _ __ ___ % % / /'',
       ''| |_  | |/ _~ | ^__/ _ % % V / '',
       ''|  _| | | (_| | | |  __/  > <  '',
       ''|_|   |_|%__,_|_|  %___| /_/%_%'',
       ''                               '',
       ''  FlareX = SOCKS5 / HTTP rotator'',
       ''  over Cloudflare Workers      '']"

text \<open>The runes of a valid UTF-8 text: its bytes that do not continue one.\<close>

definition visualWidth :: "string \<Rightarrow> nat" where
  "visualWidth s = length (filter (\<lambda>c. of_char c div 64 \<noteq> (2 :: nat)) s)"

definition spaces :: "nat \<Rightarrow> string" where
  "spaces n = replicate n (CHR '' '')"

definition padRight :: "string \<Rightarrow> nat \<Rightarrow> string" where
  "padRight s w = (let n = visualWidth s in if n \<ge> w then s else s @ spaces (w - n))"

definition art_width :: "string list \<Rightarrow> nat" where
  "art_width ls = fold (\<lambda>l m. if visualWidth l > m then visualWidth l else m) ls 0"

definition art_line :: "string list \<Rightarrow> nat \<Rightarrow> nat \<Rightarrow> string" where
  "art_line ls w i = (if i < length ls then padRight (ls ! i) w else spaces w)"

text \<open>The lines below the empty one.\<close>

definition compose_lines :: "string list \<Rightarrow> string list \<Rightarrow> string list" where
  "compose_lines cloud txt =
     map (\<lambda>i. art_line cloud (art_width cloud) i @ ''  '' @ art_line txt (art_width txt) i) [0..<max (length cloud) (length txt)]"

definition composeBanner :: "string list" where
  "composeBanner = [] # compose_lines cloudArt textArt"

definition esc :: "string \<Rightarrow> string" where "esc s = CHR 0x1B # CHR ''['' # s"
definition resetCol :: string where "resetCol = esc ''0m''"
definition dimColor :: string where "dimColor = esc ''38;5;240m''"
definition cfAccent :: string where "cfAccent = esc ''38;5;214m''"
definition boldColor :: string where "boldColor = esc ''1m''"

definition banner_meta :: "string \<Rightarrow> string \<Rightarrow> string \<Rightarrow> string" where
  "banner_meta version commit buildDate =
     ''  version='' @ version @ (if commit \<noteq> [] then '' commit='' @ commit else []) @ (if buildDate \<noteq> [] then '' built='' @ buildDate else [])"

definition cfOrange :: string where "cfOrange = esc ''38;5;208m''"

definition PrintBanner :: "bool \<Rightarrow> string \<Rightarrow> string \<Rightarrow> string \<Rightarrow> string" where
  "PrintBanner useColor version commit buildDate =
     (let art = concat (map (\<lambda>l. l @ [CHR 0x0A]) composeBanner); meta = banner_meta version commit buildDate
      in (if useColor then cfOrange @ art @ resetCol else art) @ (if useColor then dimColor @ meta @ resetCol else meta) @ [CHR 0x0A, CHR 0x0A])"

section \<open>The summary of the configuration\<close>

type_synonym config_section = "string \<times> (string \<times> string) list"

text \<open>\<^verbatim>\<open>strings.Repeat\<close> panics on a negative count; \<open>None\<close> is that panic.\<close>

definition repeat_str :: "string \<Rightarrow> int \<Rightarrow> string option" where
  "repeat_str s n = (if n < 0 then None else Some (concat (replicate (nat n) s)))"

definition max_key :: "config_section list \<Rightarrow> int" where
  "max_key sections =
     fold (\<lambda>(title, rows). fold (\<lambda>(k, v) m. if v = [] then m else if int (length k) > m then int (length k) else m) rows) sections 0"

definition config_line :: "bool \<Rightarrow> int \<Rightarrow> string \<times> string \<Rightarrow> string option" where
  "config_line useColor maxKey r =
     (case r of (k, v) \<Rightarrow>
        (case repeat_str '' '' (maxKey - int (length k)) of
           None \<Rightarrow> None
         | Some filler \<Rightarrow>
             Some (if useColor then ''  '' @ dimColor @ k @ resetCol @ '' '' @ dimColor @ '':'' @ resetCol @ '' '' @ filler @ v
                   else ''  '' @ k @ filler @ '' : '' @ v)))"

definition section_title :: "bool \<Rightarrow> string \<Rightarrow> string" where
  "section_title useColor title =
     (let t = utf8_bytes [0xE2, 0x96, 0xB8] @ '' '' @ title in if useColor then boldColor @ cfAccent @ t @ resetCol else t)"

fun section_lines :: "bool \<Rightarrow> int \<Rightarrow> bool \<Rightarrow> config_section list \<Rightarrow> string list option" where
  "section_lines useColor maxKey first [] = Some []"
| "section_lines useColor maxKey first ((title, rows) # sections) =
     (case those (map (config_line useColor maxKey) (filter (\<lambda>(k, v). v \<noteq> []) rows)) of
        None \<Rightarrow> None
      | Some ls \<Rightarrow>
          map_option (\<lambda>rest. (if first then [] else [[]]) @ section_title useColor title # ls @ rest) (section_lines useColor maxKey False sections))"

definition config_border :: "bool \<Rightarrow> string" where
  "config_border useColor =
     (let b = concat (replicate 64 (utf8_bytes [0xE2, 0x94, 0x80])) in if useColor then dimColor @ b @ resetCol else b)"

definition PrintConfig :: "bool \<Rightarrow> config_section list \<Rightarrow> string list option" where
  "PrintConfig useColor sections =
     map_option (\<lambda>ls. config_border useColor # ls @ [config_border useColor, []]) (section_lines useColor (max_key sections) True sections)"

definition boolOnOff :: "bool \<Rightarrow> string" where
  "boolOnOff b = (if b then ''enabled'' else ''disabled'')"

text \<open>The sections of \<^verbatim>\<open>runServe\<close>, from the configuration, the number of workers and the number of quotas.\<close>

definition serve_sections :: "config \<Rightarrow> nat \<Rightarrow> nat \<Rightarrow> config_section list" where
  "serve_sections cfg workers accounts =
     [(''Pool'', [(''workers'', dec workers @ '' loaded across '' @ dec accounts @ '' account(s)''), (''backend'', Worker_DeployBackend cfg),
         (''strategy'', Pool_Strategy cfg), (''proxy_mode'', Pool_ProxyMode cfg)]),
      (''Listeners'', [(''socks5'', Listen_Socks5 cfg), (''http'', Listen_HTTP cfg), (''admin'', Admin_Addr cfg)]),
      (''Quota'', [(''daily_limit_per_account'', dec (unat (Quota_DailyLimit cfg))),
         (''daily_limit_total'', dec (unat (Quota_DailyLimit cfg * of_nat accounts))),
         (''warn_threshold'', itoa (Quota_WarnPercent cfg) @ ''% ('' @ dec (unat (warn_threshold cfg)) @ '' req)'')]),
      (''Alerts'', [(''sinks'', dec (length (sinks_of cfg))), (''discord'', boolOnOff (Alerts_DiscordURL cfg \<noteq> [])),
         (''http_webhooks'', dec (length (Alerts_HTTPWebhooks cfg)))]),
      (''Features'', [(''tls_rewrap'', boolOnOff (Pool_TLSRewrap cfg)), (''hedge_after_ms'', itoa (Pool_HedgeAfterMs cfg)),
         (''tracing'', Tracing_Endpoint cfg), (''state_path'', State_Path cfg)])]"

section \<open>Tables and the check of a configuration\<close>

definition worker_row :: "worker \<Rightarrow> string list" where
  "worker_row w = [Name w, if Backend w = [] then ''-'' else Backend w, short_account (AccountID w), URL w]"

text \<open>The heading with the number of workers and the rows, or \<open>None\<close> for nothing.\<close>

definition printWorkerSummary :: "string \<Rightarrow> worker list \<Rightarrow> (string \<times> string list list) option" where
  "printWorkerSummary heading ws =
     (if ws = [] then None
      else Some (heading @ '' ('' @ dec (length ws) @ '')'', [''NAME'', ''BACKEND'', ''ACCOUNT'', ''URL''] # map worker_row ws))"

text \<open>The answer of \<^verbatim>\<open>list\<close>: name, address, account, back end and host name of every worker as JSON, or the table.\<close>

datatype list_shown = ShownJson "string list list" | NoWorkers | ShownTable "string list list"

definition show_list :: "bool \<Rightarrow> worker list \<Rightarrow> list_shown" where
  "show_list json ws =
     (if json then ShownJson (map (\<lambda>w. [Name w, URL w, AccountID w, Backend w, Hostname w]) ws)
      else if ws = [] then NoWorkers
      else ShownTable ([''NAME'', ''BACKEND'', ''ACCOUNT'', ''URL''] # map worker_row ws))"

text \<open>What a dry run of \<^verbatim>\<open>clean\<close> would delete, and what the remote command reports; a table that would be empty is one line instead.\<close>

datatype table = NoTable string | Table string "string list" "string list list" string

definition clean_dry_tables :: "string list \<Rightarrow> (string \<times> string \<times> string) list \<Rightarrow> table list" where
  "clean_dry_tables names dns =
     [if names = [] then NoTable ''no workers to delete''
      else Table ''[DRY-RUN] WORKERS TO DELETE'' [''NAME''] (map (\<lambda>n. [n]) names) (''-- '' @ dec (length names) @ '' worker(s)''),
      if dns = [] then NoTable ''no DNS records to delete''
      else Table ''[DRY-RUN] DNS RECORDS TO DELETE'' [''ZONE'', ''TYPE'', ''NAME''] (map (\<lambda>(z, t, n). [z, t, n]) dns) (''-- '' @ dec (length dns) @ '' record(s)'')]"

definition client_clean_tables :: "bool \<Rightarrow> string list \<Rightarrow> (string \<times> string \<times> string) list \<Rightarrow> table list" where
  "client_clean_tables dry names dns =
     (let heading = (if dry then ''[DRY-RUN] WOULD DELETE'' else ''DELETED'')
      in [if names = [] then NoTable (heading @ '' workers: none'')
          else Table (heading @ '' WORKERS ('' @ dec (length names) @ '')'') [''NAME''] (map (\<lambda>n. [n]) names) [],
          if dns = [] then NoTable (heading @ '' DNS records: none'')
          else Table (heading @ '' DNS ('' @ dec (length dns) @ '')'') [''ZONE'', ''TYPE'', ''NAME''] (map (\<lambda>(z, t, n). [z, t, n]) dns) []])"

definition runVersion :: "string \<Rightarrow> string \<Rightarrow> string \<Rightarrow> string" where
  "runVersion version commit buildDate = ''flarex '' @ version @ '' (commit '' @ commit @ '', built '' @ buildDate @ '')''"

datatype check_res = CheckUnreadable | CheckInvalid | CheckOk bool

text \<open>Of a valid configuration also whether it could be deployed, which is only a warning.\<close>

definition runConfigValidate :: "config option \<Rightarrow> check_res" where
  "runConfigValidate loaded =
     (case loaded of
        None \<Rightarrow> CheckUnreadable
      | Some cfg \<Rightarrow> if \<not> ValidateForServer cfg then CheckInvalid else CheckOk (ValidateForDeploy cfg))"

section \<open>The dashboard\<close>

datatype ui_node = UFile string | UDir

datatype ui_reply = UAsset string string | UIndex string | UPlaceholder | URedirect

text \<open>\<^verbatim>\<open>fs.ValidPath\<close>: no empty element, no dot and no dot-dot; the bundle opens nothing else.\<close>

definition valid_path :: "string \<Rightarrow> bool" where
  "valid_path p \<longleftrightarrow> list_all (\<lambda>e. e \<notin> {[], ''.'', ''..''}) (split_on (CHR ''/'') p)"

definition serveIndex :: "(string \<rightharpoonup> ui_node) \<Rightarrow> ui_reply" where
  "serveIndex bundle = (case bundle ''index.html'' of Some (UFile d) \<Rightarrow> UIndex d | _ \<Rightarrow> UPlaceholder)"

text \<open>\<^verbatim>\<open>ServeFileFS\<close> sends a request for an index file to its directory instead.\<close>

definition handleSPA :: "(string \<rightharpoonup> ui_node) \<Rightarrow> string \<Rightarrow> ui_reply" where
  "handleSPA bundle path =
     (let p = trim_prefix (trim_prefix path ''/ui'') ''/''
      in if p = [] then serveIndex bundle
         else (case (if valid_path p then bundle p else None) of
                 Some (UFile d) \<Rightarrow> if has_suffix path ''/index.html'' then URedirect else UAsset p d
               | _ \<Rightarrow> serveIndex bundle))"

section \<open>Lemmas and properties\<close>

lemma fold_max_mono:
  fixes m :: int
  shows "m \<le> fold (\<lambda>(k, v) m. if v = [] then m else if int (length k) > m then int (length k) else m) rows m"
    and "(k, v) \<in> set rows \<Longrightarrow> v \<noteq> [] \<Longrightarrow> int (length k) \<le> fold (\<lambda>(k, v) m. if v = [] then m else if int (length k) > m then int (length k) else m) rows m"
proof -
  let ?f = "fold (\<lambda>(k, v) m. if v = [] then m else if int (length k) > m then int (length k) else m)"
  have mono: "m \<le> ?f rows m" for m :: int and rows :: "('a list \<times> 'b list) list"
  proof (induction rows arbitrary: m)
    case (Cons r rows)
    obtain k' v' where r: "r = (k', v')" by (cases r)
    have "m \<le> (if v' = [] then m else if int (length k') > m then int (length k') else m)" by simp
    also have "\<dots> \<le> ?f rows \<dots>" by (rule Cons.IH)
    finally show ?case by (simp add: r)
  qed simp
  show "m \<le> ?f rows m" by (rule mono)
  show "(k, v) \<in> set rows \<Longrightarrow> v \<noteq> [] \<Longrightarrow> int (length k) \<le> ?f rows m"
  proof (induction rows arbitrary: m)
    case (Cons r rows)
    show ?case
    proof (cases "(k, v) \<in> set rows")
      case False
      then have r: "r = (k, v)" using Cons.prems by simp
      have "int (length k) \<le> (if int (length k) > m then int (length k) else m)" by simp
      also have "\<dots> \<le> ?f rows \<dots>" by (rule mono)
      finally show ?thesis using Cons.prems(2) by (simp add: r)
    qed (use Cons in simp)
  qed simp
qed

definition sections_max :: "config_section list \<Rightarrow> int \<Rightarrow> int" where
  "sections_max = fold (\<lambda>(title, rows). fold (\<lambda>(k, v) m. if v = [] then m else if int (length k) > m then int (length k) else m) rows)"

lemma sections_max_mono: "m \<le> sections_max sections m"
proof (induction sections arbitrary: m)
  case (Cons s sections)
  then show ?case using fold_max_mono(1) [of m "snd s"] by (cases s) (fastforce simp: sections_max_def intro: order_trans)
qed (simp add: sections_max_def)

lemma max_key_bounds: "(title, rows) \<in> set sections \<Longrightarrow> (k, v) \<in> set rows \<Longrightarrow> v \<noteq> [] \<Longrightarrow> int (length k) \<le> max_key sections"
proof -
  have "(title, rows) \<in> set sections \<Longrightarrow> (k, v) \<in> set rows \<Longrightarrow> v \<noteq> [] \<Longrightarrow> int (length k) \<le> sections_max sections m" for m
  proof (induction sections arbitrary: m)
    case (Cons s sections)
    show ?case
    proof (cases "s = (title, rows)")
      case True
      have "int (length k) \<le> fold (\<lambda>(k, v) m. if v = [] then m else if int (length k) > m then int (length k) else m) rows m"
        by (rule fold_max_mono(2) [OF Cons.prems(2,3)])
      also have "\<dots> \<le> sections_max sections \<dots>" by (rule sections_max_mono)
      finally show ?thesis by (simp add: True sections_max_def)
    next
      case False
      then show ?thesis using Cons by (cases s) (auto simp: sections_max_def)
    qed
  qed simp
  then show "(title, rows) \<in> set sections \<Longrightarrow> (k, v) \<in> set rows \<Longrightarrow> v \<noteq> [] \<Longrightarrow> int (length k) \<le> max_key sections"
    by (simp add: max_key_def sections_max_def)
qed

lemma config_line_plain:
  "int (length k) \<le> m \<Longrightarrow> config_line False m (k, v) = Some (''  '' @ k @ spaces (nat m - length k) @ '' : '' @ v)"
  by (simp add: config_line_def repeat_str_def spaces_def nat_diff_distrib' concat_replicate_single)

text \<open>
  The summary is always printed: the padding of a row is never negative, since the widest key is taken over the rows that are printed. Without colours every row with a value is
  printed with its separator in the same column.
\<close>

lemma config_line_total:
  assumes "int (length k) \<le> m"
  shows "\<exists>l. config_line useColor m (k, v) = Some l"
  using assms by (simp add: config_line_def repeat_str_def)

lemma those_total: "(\<And>x. x \<in> set xs \<Longrightarrow> \<exists>y. f x = Some y) \<Longrightarrow> \<exists>ys. those (map f xs) = Some ys \<and> (\<forall>x\<in>set xs. the (f x) \<in> set ys)"
proof (induction xs)
  case (Cons x xs)
  then obtain y ys where "f x = Some y" "those (map f xs) = Some ys \<and> (\<forall>x\<in>set xs. the (f x) \<in> set ys)" by (metis list.set_intros)
  then show ?case by auto
qed simp

lemma section_lines_total:
  assumes "\<And>title rows k v. (title, rows) \<in> set sections \<Longrightarrow> (k, v) \<in> set rows \<Longrightarrow> v \<noteq> [] \<Longrightarrow> int (length k) \<le> m"
  shows "\<exists>ls. section_lines useColor m first sections = Some ls \<and>
    (\<forall>title rows k v. (title, rows) \<in> set sections \<longrightarrow> (k, v) \<in> set rows \<longrightarrow> v \<noteq> [] \<longrightarrow> the (config_line useColor m (k, v)) \<in> set ls)"
  using assms
proof (induction sections arbitrary: first)
  case (Cons s sections)
  obtain title rows where s: "s = (title, rows)" by (cases s)
  obtain rest where rest: "section_lines useColor m False sections = Some rest"
    "\<forall>title rows k v. (title, rows) \<in> set sections \<longrightarrow> (k, v) \<in> set rows \<longrightarrow> v \<noteq> [] \<longrightarrow> the (config_line useColor m (k, v)) \<in> set rest"
    using Cons.IH [of False] Cons.prems by (metis list.set_intros(2))
  have each: "\<exists>y. config_line useColor m x = Some y" if "x \<in> set (filter (\<lambda>(k, v). v \<noteq> []) rows)" for x
  proof -
    obtain k v where x: "x = (k, v)" "(k, v) \<in> set rows" "v \<noteq> []" using \<open>x \<in> set (filter (\<lambda>(k, v). v \<noteq> []) rows)\<close> by (cases x rule: prod.exhaust) simp
    have "int (length k) \<le> m" using Cons.prems [of title rows k v] x s by simp
    then show ?thesis unfolding x(1) by (rule config_line_total)
  qed
  obtain ls where
    ls: "those (map (config_line useColor m) (filter (\<lambda>(k, v). v \<noteq> []) rows)) = Some ls"
    "\<forall>x\<in>set (filter (\<lambda>(k, v). v \<noteq> []) rows). the (config_line useColor m x) \<in> set ls"
    using those_total [of "filter (\<lambda>(k, v). v \<noteq> []) rows" "config_line useColor m", OF each] by blast
  show ?case using rest ls by (auto simp: s)
qed simp

lemma summary_total:
  obtains ls where "PrintConfig useColor sections = Some ls"
    and "\<And>title rows k v. useColor = False \<Longrightarrow> (title, rows) \<in> set sections \<Longrightarrow> (k, v) \<in> set rows \<Longrightarrow> v \<noteq> [] \<Longrightarrow>
      ''  '' @ k @ spaces (nat (max_key sections) - length k) @ '' : '' @ v \<in> set ls"
proof -
  obtain ls where ls: "section_lines useColor (max_key sections) True sections = Some ls"
    "\<forall>title rows k v. (title, rows) \<in> set sections \<longrightarrow> (k, v) \<in> set rows \<longrightarrow> v \<noteq> [] \<longrightarrow> the (config_line useColor (max_key sections) (k, v)) \<in> set ls"
    using section_lines_total [of sections "max_key sections" useColor True] max_key_bounds by blast
  show ?thesis
  proof (rule that [of "config_border useColor # ls @ [config_border useColor, []]"])
    show "PrintConfig useColor sections = Some (config_border useColor # ls @ [config_border useColor, []])" by (simp add: PrintConfig_def ls(1))
    fix title rows k v
    assume a: "useColor = False" "(title, rows) \<in> set sections" "(k, v) \<in> set rows" "v \<noteq> []"
    from ls(2) a config_line_plain [OF max_key_bounds [OF a(2-4)]]
    show "''  '' @ k @ spaces (nat (max_key sections) - length k) @ '' : '' @ v \<in> set (config_border useColor # ls @ [config_border useColor, []])"
      by fastforce
  qed
qed

text \<open>The lines of the banner all have the same width, whatever the two pictures are.\<close>

lemma visualWidth_append [simp]: "visualWidth (a @ b) = visualWidth a + visualWidth b"
  by (simp add: visualWidth_def)

lemma visualWidth_spaces [simp]: "visualWidth (spaces n) = n" "visualWidth (CHR '' '' # s) = Suc (visualWidth s)"
  by (simp_all add: visualWidth_def spaces_def)

lemma art_width_bound: "l \<in> set ls \<Longrightarrow> visualWidth l \<le> art_width ls"
proof -
  have mono: "m \<le> fold (\<lambda>l m. if visualWidth l > m then visualWidth l else m) ls m" for ls m
    by (induction ls arbitrary: m) (auto intro: order_trans less_imp_le)
  have "l \<in> set ls \<Longrightarrow> visualWidth l \<le> fold (\<lambda>l m. if visualWidth l > m then visualWidth l else m) ls m" for m
  proof (induction ls arbitrary: m)
    case (Cons x ls)
    have "l = x \<Longrightarrow> visualWidth l \<le> (if visualWidth x > m then visualWidth x else m)" by simp
    with Cons mono show ?case by (metis (no_types, lifting) fold_simps(2) order_trans set_ConsD)
  qed simp
  then show "l \<in> set ls \<Longrightarrow> visualWidth l \<le> art_width ls" by (simp add: art_width_def)
qed

lemma art_line_width: "visualWidth (art_line ls (art_width ls) i) = art_width ls"
proof (cases "i < length ls")
  case True
  then have "visualWidth (ls ! i) \<le> art_width ls" by (simp add: art_width_bound)
  then show ?thesis using True by (simp add: art_line_def padRight_def Let_def)
qed (simp add: art_line_def)

lemma banner_aligned: "l \<in> set (compose_lines cloud txt) \<Longrightarrow> visualWidth l = art_width cloud + 2 + art_width txt"
  by (auto simp: compose_lines_def art_line_width)

text \<open>The dashboard serves files of its bundle only, by a path without dots, and its index or a notice otherwise.\<close>

lemma spa_confined:
  "case handleSPA bundle path of
     UAsset p d \<Rightarrow> valid_path p \<and> bundle p = Some (UFile d)
   | UIndex d \<Rightarrow> bundle ''index.html'' = Some (UFile d)
   | UPlaceholder \<Rightarrow> \<not> (\<exists>d. bundle ''index.html'' = Some (UFile d))
   | URedirect \<Rightarrow> has_suffix path ''/index.html''"
  by (auto simp: handleSPA_def serveIndex_def Let_def split: option.split ui_node.split)

end
