(* ===== verification/Start_Tuning.thy ===== *)
theory Start_Tuning
  imports Serve_Wiring Metrics_Ring
begin

text \<open>
  When the settings of a configuration take hold. The packages keep their time-outs in variables that \<^verbatim>\<open>applyResolvedTimeouts\<close>
  (\<^verbatim>\<open>cmd/flarex/main.go\<close>) overwrites in the middle of the start; what was made before has the defaults. Here are those variables, the parts that read
  them (breakers, HTTP clients, health checker, warm-up) in the order of \<^verbatim>\<open>runServe\<close>, and the loop that persists the metrics
  (\<^verbatim>\<open>internal/metrics/series.go\<close>). Durations are in nanoseconds.
\<close>

section \<open>The variables\<close>

record tunables =
  tn_DialTimeout :: int
  tn_ProbeTimeout :: int
  tn_ProbeFetchTimeout :: int
  tn_CFCacheTTL :: int
  tn_PrewarmAttemptTimeout :: int
  tn_PrewarmRetries :: int
  tn_BreakerIntervalD :: int
  tn_BreakerOpenTimeoutD :: int
  tn_HTTPIdleConnD :: int
  tn_HTTPTLSHandshakeD :: int
  tn_HTTPH2ReadIdleD :: int
  tn_HTTPH2PingD :: int
  tn_HealthIntervalD :: int
  tn_HealthTimeoutD :: int
  tn_ShutdownTimeoutD :: int
  tn_TokenOpTimeoutD :: int
  tn_APITimeout :: int
  tn_DrainTimeoutD :: int
  tn_DrainPollD :: int

definition ms :: int where "ms = 1000000"
definition sec :: int where "sec = 1000000000"

definition default_tunables :: tunables where
  "default_tunables =
     \<lparr>tn_DialTimeout = 15 * sec, tn_ProbeTimeout = 800 * ms, tn_ProbeFetchTimeout = 1500 * ms,
      tn_CFCacheTTL = 600 * sec, tn_PrewarmAttemptTimeout = 3 * sec, tn_PrewarmRetries = 5, tn_BreakerIntervalD = 60 * sec,
      tn_BreakerOpenTimeoutD = 30 * sec, tn_HTTPIdleConnD = 120 * sec, tn_HTTPTLSHandshakeD = 10 * sec, tn_HTTPH2ReadIdleD = 30 * sec,
      tn_HTTPH2PingD = 10 * sec, tn_HealthIntervalD = 30 * sec, tn_HealthTimeoutD = 5 * sec, tn_ShutdownTimeoutD = 2 * sec,
      tn_TokenOpTimeoutD = 120 * sec, tn_APITimeout = 30 * sec, tn_DrainTimeoutD = 30 * sec, tn_DrainPollD = 100 * ms\<rparr>"

definition applyResolvedTimeouts :: "config \<Rightarrow> tunables \<Rightarrow> tunables" where
  "applyResolvedTimeouts cfg g =
     (let t = ResolvedTimeouts cfg
      in g\<lparr>tn_DialTimeout := to_Dial t, tn_ProbeTimeout := to_Probe t, tn_ProbeFetchTimeout := to_ProbeFetch t,
           tn_CFCacheTTL := to_CFBlockedCacheTTL t, tn_PrewarmAttemptTimeout := to_PrewarmAttempt t, tn_PrewarmRetries := to_PrewarmRetries t,
           tn_BreakerIntervalD := to_BreakerInterval t, tn_BreakerOpenTimeoutD := to_BreakerOpen t, tn_HTTPIdleConnD := to_IdleConn t,
           tn_HTTPTLSHandshakeD := to_TLSHandshake t, tn_HTTPH2ReadIdleD := to_H2ReadIdle t, tn_HTTPH2PingD := to_H2Ping t,
           tn_HealthIntervalD := to_HealthCheckInterval t, tn_HealthTimeoutD := to_HealthCheckTimeout t,
           tn_ShutdownTimeoutD := to_AdminShutdown t, tn_TokenOpTimeoutD := to_AdminTokenOp t, tn_APITimeout := to_CFAPI t,
           tn_DrainTimeoutD := to_DrainTimeout t, tn_DrainPollD := to_DrainPoll t\<rparr>)"

section \<open>What reads them\<close>

record breaker_settings =
  bs_Name :: string
  bs_MaxRequests :: nat
  bs_Interval :: int
  bs_Timeout :: int
  bs_ReadyToTrip :: "counts \<Rightarrow> bool"

definition breaker_of :: "tunables \<Rightarrow> string \<Rightarrow> breaker_settings" where
  "breaker_of g name =
     \<lparr>bs_Name = name, bs_MaxRequests = 3, bs_Interval = tn_BreakerIntervalD g, bs_Timeout = tn_BreakerOpenTimeoutD g, bs_ReadyToTrip = ReadyToTrip\<rparr>"

record h2_settings =
  h2_MaxReadFrameSize :: nat
  h2_ReadIdleTimeout :: int
  h2_PingTimeout :: int
  h2_StrictMaxConcurrentStreams :: bool
  h2_MaxHeaderListSize :: nat
  h2_AllowHTTP :: bool

record http_settings =
  hc_MaxIdleConns :: nat
  hc_MaxIdleConnsPerHost :: nat
  hc_MaxConnsPerHost :: nat
  hc_IdleConnTimeout :: int
  hc_TLSHandshakeTimeout :: int
  hc_ExpectContinueTimeout :: int
  hc_DisableCompression :: bool
  hc_ForceAttemptHTTP2 :: bool
  hc_ReadBufferSize :: nat
  hc_WriteBufferSize :: nat
  hc_OwnDialer :: bool
  hc_H2 :: "h2_settings option"

text \<open>\<open>own\<close> says whether the DNS cache has been installed as dialer, \<open>h2_ok\<close> whether the library could set up HTTP/2.\<close>

definition newTunedHTTPClient :: "tunables \<Rightarrow> bool \<Rightarrow> bool \<Rightarrow> http_settings" where
  "newTunedHTTPClient g own h2_ok =
     \<lparr>hc_MaxIdleConns = 200, hc_MaxIdleConnsPerHost = 100, hc_MaxConnsPerHost = 0, hc_IdleConnTimeout = tn_HTTPIdleConnD g,
      hc_TLSHandshakeTimeout = tn_HTTPTLSHandshakeD g, hc_ExpectContinueTimeout = sec, hc_DisableCompression = True,
      hc_ForceAttemptHTTP2 = True, hc_ReadBufferSize = 262144, hc_WriteBufferSize = 262144, hc_OwnDialer = own,
      hc_H2 = (if h2_ok then Some \<lparr>h2_MaxReadFrameSize = 2 ^ 20, h2_ReadIdleTimeout = tn_HTTPH2ReadIdleD g,
        h2_PingTimeout = tn_HTTPH2PingD g, h2_StrictMaxConcurrentStreams = False, h2_MaxHeaderListSize = 2 ^ 16, h2_AllowHTTP = False\<rparr> else None)\<rparr>"

text \<open>The client of a worker is made at its first use and kept.\<close>

definition HTTPClient :: "tunables \<Rightarrow> bool \<Rightarrow> bool \<Rightarrow> http_settings option \<Rightarrow> http_settings option" where
  "HTTPClient g own h2_ok made = (case made of Some c \<Rightarrow> Some c | None \<Rightarrow> Some (newTunedHTTPClient g own h2_ok))"

definition NewHealthChecker :: "tunables \<Rightarrow> int \<times> int" where
  "NewHealthChecker g = (tn_HealthIntervalD g, tn_HealthTimeoutD g)"

text \<open>
  The start in its order: the workers are loaded (or deployed) and the accounts looked up, then the variables are set, the DNS cache becomes the dialer, the pool is
  warmed and the health checker made. A worker that is deployed later has its breaker from the variables as they are then.
\<close>

record start_parts =
  st_breakers :: "breaker_settings list"
  st_api_timeout :: int
  st_tunables :: tunables
  st_health :: "int \<times> int"

definition start_parts_of :: "config \<Rightarrow> string list \<Rightarrow> start_parts" where
  "start_parts_of cfg names =
     (let g0 = default_tunables; loaded = map (breaker_of g0) names; api = tn_APITimeout g0; g = applyResolvedTimeouts cfg g0
      in \<lparr>st_breakers = loaded, st_api_timeout = api, st_tunables = g, st_health = NewHealthChecker g\<rparr>)"

definition start_warmup :: "config \<Rightarrow> (ref \<Rightarrow> bool list) \<Rightarrow> (ref \<Rightarrow> bool list) \<Rightarrow> pool \<Rightarrow> heap \<Rightarrow> heap" where
  "start_warmup cfg answers cancelled p h =
     Prewarm (tn_PrewarmRetries (applyResolvedTimeouts cfg default_tunables)) answers cancelled p h"

section \<open>The loop of the metrics\<close>

text \<open>What wakes the loop: a sample that is due, or the hourly pruning with its cut-off. A pruning that does not return is the value \<open>None\<close>.\<close>

datatype 'a loop_ev = STick 'a | SPrune time

definition persist_prune :: "'b bucket_ops \<Rightarrow> ('b \<Rightarrow> string option) \<Rightarrow> time \<Rightarrow> 'b store option \<Rightarrow> 'b store option option" where
  "persist_prune bo unpos before persist =
     (case persist of None \<Rightarrow> Some None | Some st \<Rightarrow> map_option (\<lambda>r. Some (snd r)) (PruneMetricsSamples bo unpos True before st))"

fun snapshot_loop ::
  "'b bucket_ops \<Rightarrow> 'a codec \<Rightarrow> ('a \<Rightarrow> time) \<Rightarrow> ('b \<Rightarrow> string option) \<Rightarrow> 'a loop_ev list \<Rightarrow> 'b store option \<times> 'a series
     \<Rightarrow> ('b store option \<times> 'a series) option" where
  "snapshot_loop bo cd at_of unpos [] s = Some s"
| "snapshot_loop bo cd at_of unpos (STick x # evs) s = snapshot_loop bo cd at_of unpos evs (push_tick bo cd at_of True x (fst s) (snd s))"
| "snapshot_loop bo cd at_of unpos (SPrune before # evs) s =
     (case persist_prune bo unpos before (fst s) of None \<Rightarrow> None | Some p \<Rightarrow> snapshot_loop bo cd at_of unpos evs (p, snd s))"

section \<open>Lemmas\<close>

text \<open>
  Nothing of the configuration reaches the breakers of the workers that a server starts with, nor the client of the API that lists, deploys and looks up accounts at
  the start: both are made from the defaults. The health checker and whatever is made later follow the configuration.
\<close>

lemma start_ignores_breaker_timeouts:
  "st_breakers (start_parts_of cfg names) = st_breakers (start_parts_of cfg' names)"
  "st_api_timeout (start_parts_of cfg names) = 30 * sec"
  "bs_Interval (breaker_of (st_tunables (start_parts_of cfg names)) n) = to_BreakerInterval (ResolvedTimeouts cfg)"
  "st_health (start_parts_of cfg names) = (to_HealthCheckInterval (ResolvedTimeouts cfg), to_HealthCheckTimeout (ResolvedTimeouts cfg))"
  by (simp_all add: start_parts_of_def Let_def breaker_of_def applyResolvedTimeouts_def NewHealthChecker_def default_tunables_def)

text \<open>The client of a worker keeps the settings of its first use, whatever the variables become.\<close>

lemma http_client_kept: "HTTPClient g' own' h2' (HTTPClient g own h2 None) = Some (newTunedHTTPClient g own h2)"
  by (simp add: HTTPClient_def)

text \<open>
  The environment may set the number of attempts to zero, which the configuration file may not: then the warm-up asks no worker and marks every one as unhealthy, so that the
  round robin finds none until a health check has run.
\<close>

lemma zero_attempts_from_environment:
  assumes "env ''FLX_TIMEOUT_PREWARM_RETRIES'' = ''0''"
  shows "to_PrewarmRetries (Resolve env t) = 0"
  using assms by (simp add: Resolve_def envInt_def Let_def) code_simp

lemma no_attempt_no_worker:
  assumes "tn_PrewarmRetries (applyResolvedTimeouts cfg default_tunables) = 0" "\<And>w. \<not> list_ex (\<lambda>b. b) (cancelled w)" "w \<in> set (pool_All p)"
  shows "\<not> Available brk (start_warmup cfg answers cancelled p h) w"
  using Prewarm_verdict [of w p cancelled 0 answers h] assms by (simp add: start_warmup_def Available_def)

text \<open>Under a limit that is positive, a worker that answers at once is healthy after the warm-up.\<close>

lemma warmup_keeps_answering:
  assumes "0 < tn_PrewarmRetries (applyResolvedTimeouts cfg default_tunables)" "\<not> list_ex (\<lambda>b. b) (cancelled w)" "w \<in> set (pool_All p)"
    and "answers w = True # answers'"
  shows "Healthy (start_warmup cfg answers cancelled p h w)"
  using Prewarm_verdict [of w p cancelled _ answers h] assms by (simp add: start_warmup_def take_Cons')

section \<open>What the loop leaves in the store\<close>

definition ticks :: "'a loop_ev list \<Rightarrow> 'a list" where
  "ticks evs = List.map_filter (\<lambda>e. case e of STick x \<Rightarrow> Some x | SPrune _ \<Rightarrow> None) evs"

definition prunes :: "'a loop_ev list \<Rightarrow> nat" where
  "prunes evs = length (filter (\<lambda>e. case e of STick _ \<Rightarrow> False | SPrune _ \<Rightarrow> True) evs)"

lemma loop_counts [simp]:
  "ticks [] = []" "ticks (STick x # evs) = x # ticks evs" "ticks (SPrune t # evs) = ticks evs"
  "prunes [] = 0" "prunes (STick x # evs) = prunes evs" "prunes (SPrune t # evs) = Suc (prunes evs)"
  by (simp_all add: ticks_def prunes_def map_filter_simps)

lemma drop_front: "drop k xs @ ys = drop (min k (length xs)) (xs @ ys)"
  by (simp add: min_def)

lemma clocked_drop: "clocked (xs @ ys) \<Longrightarrow> clocked (drop k xs @ ys)"
  unfolding drop_front clocked_def list_all_iff
  by (intro conjI ballI sorted_wrt_drop) (blast dest: in_set_dropD)+

definition row_of :: "'a codec \<Rightarrow> ('a \<Rightarrow> time) \<Rightarrow> 'a \<Rightarrow> time \<times> bytes" where
  "row_of cd at_of x = (at_of x, marshal cd x)"

lemma prune_rows:
  assumes "bucket_ok bo" "\<And>b. unpos b = None" "bo_items bo (bucketMetricsSeries st) = entries rows"
  shows "\<exists>st' k. persist_prune bo unpos before (Some st) = Some (Some st') \<and> k \<le> 1 \<and> bo_items bo (bucketMetricsSeries st') = entries (drop k rows)"
proof (cases rows)
  case Nil
  then have "first_key bo (bucketMetricsSeries st) = None" using assms(3) by (simp add: first_key_def entries_def)
  then have "\<exists>st'. PruneMetricsSamples bo unpos True before st = Some (None, st') \<and> bo_items bo (bucketMetricsSeries st') = []"
    using Nil assms(3) by (simp add: PruneMetricsSamples_def update_tx_def prune_loop.simps [where k = None] entries_def)
  then show ?thesis using Nil by (auto simp: persist_prune_def entries_def)
next
  case (Cons r rs)
  then have "bo_items bo (bucketMetricsSeries st) = (micro_key (fst r), snd r) # entries rs"
    using assms(3) by (simp add: entries_def split: prod.split)
  from prune_removes_one [where unpos = unpos and before = before, OF assms(1,2) this] obtain st' where
    "PruneMetricsSamples bo unpos True before st = Some (None, st')"
    "bo_items bo (bucketMetricsSeries st') = (if micro_key (fst r) < micro_key before then entries rs else (micro_key (fst r), snd r) # entries rs)"
    by auto
  then have "persist_prune bo unpos before (Some st) = Some (Some st') \<and> bo_items bo (bucketMetricsSeries st') =
      entries (drop (if micro_key (fst r) < micro_key before then 1 else 0) rows)"
    using Cons by (simp add: persist_prune_def entries_def split: prod.split)
  then show ?thesis by (metis le_numeral_extra(4) zero_le_one)
qed

text \<open>
  The rows on disk pile up: whatever the cut-offs, after any run of the loop the store holds every sample that was ever written except for at most as many of the oldest as there
  were prunings, one an hour beside 240 samples. The ring meanwhile shows the newest ones.
\<close>

lemma samples_pile_up:
  assumes "bucket_ok bo" "\<And>b. unpos b = None" "bo_items bo (bucketMetricsSeries st) = entries rows"
    and "clocked (map fst rows @ map at_of (ticks evs))"
  shows "\<exists>st' s' k. snapshot_loop bo cd at_of unpos evs (Some st, s) = Some (Some st', s') \<and> k \<le> prunes evs \<and>
    bo_items bo (bucketMetricsSeries st') = entries (drop k (rows @ map (row_of cd at_of) (ticks evs))) \<and>
    s' = foldl (\<lambda>s x. Push x s) s (ticks evs)"
  using assms(3,4)
proof (induction evs arbitrary: st s rows)
  case (Cons e evs)
  show ?case
  proof (cases e)
    case (STick x)
    let ?st = "snd (PutMetricsSample bo True (at_of x) (marshal cd x) st)"
    have c: "clocked (map fst (rows @ [row_of cd at_of x]) @ map at_of (ticks evs))" using Cons.prems(2) STick by (simp add: row_of_def)
    then have "clocked (map fst rows @ [at_of x])" by (auto simp: clocked_def row_of_def sorted_wrt_append)
    from clocked_snoc [OF this] have "bo_items bo (bo_put bo (micro_key (at_of x)) (marshal cd x) (bucketMetricsSeries st)) =
        entries (rows @ [(at_of x, marshal cd x)])"
      by (intro put_entries [OF assms(1) Cons.prems(1)]) auto
    then have "bo_items bo (bucketMetricsSeries ?st) = entries (rows @ [row_of cd at_of x])"
      by (simp add: PutMetricsSample_def update_tx_def row_of_def)
    from Cons.IH [OF this c, of "Push x s"] STick show ?thesis by (simp add: push_tick_def)
  next
    case (SPrune before)
    obtain st' k where p: "persist_prune bo unpos before (Some st) = Some (Some st')" "k \<le> 1"
      "bo_items bo (bucketMetricsSeries st') = entries (drop k rows)" using prune_rows [where unpos = unpos and before = before, OF assms(1,2) Cons.prems(1)] by blast
    have "clocked (map fst (drop k rows) @ map at_of (ticks evs))"
      using clocked_drop [OF Cons.prems(2)] SPrune by (simp add: drop_map)
    from Cons.IH [OF p(3) this, of s] obtain st2 s2 k2 where
      i: "snapshot_loop bo cd at_of unpos evs (Some st', s) = Some (Some st2, s2)" "k2 \<le> prunes evs"
        "bo_items bo (bucketMetricsSeries st2) = entries (drop k2 (drop k rows @ map (row_of cd at_of) (ticks evs)))"
        "s2 = foldl (\<lambda>s x. Push x s) s (ticks evs)" by blast
    have "drop k2 (drop k rows @ map (row_of cd at_of) (ticks evs)) =
        drop (k2 + min k (length rows)) (rows @ map (row_of cd at_of) (ticks (e # evs)))"
      unfolding drop_front [of k rows] using SPrune by (simp del: drop_append)
    moreover have "k2 + min k (length rows) \<le> prunes (e # evs)" using i(2) p(2) SPrune by simp
    moreover have "snapshot_loop bo cd at_of unpos (e # evs) (Some st, s) = Some (Some st2, s2)" using i(1) p(1) SPrune by simp
    moreover have "s2 = foldl (\<lambda>s x. Push x s) s (ticks (e # evs))" using i(4) SPrune by simp
    ultimately show ?thesis using i(3) by metis
  qed
qed simp

end
