(* ===== verification/Spec2Isabelle.thy ===== *)
theory Spec2Isabelle
  imports Schedulers Http_Connect Metrics_Ring Admin_Server Control_Laws Lifecycle Client_Cli Worker_Script Net_Services
    Serve_Wiring Test_Request Alert_Sinks Relay_Pump Operator_Views Start_Tuning
begin

text \<open>
  A verification development for Flarex, a SOCKS5 and HTTP CONNECT proxy that tunnels through
  a rotating pool of Cloudflare Workers (sources under \<^verbatim>\<open>src/\<close>).

  \<^bold>\<open>The program.\<close> A client speaks SOCKS5 or HTTP CONNECT to a listener (\<^verbatim>\<open>internal/proxy\<close>). The handler
  authenticates it, checks the target against the filter (\<^verbatim>\<open>internal/filter\<close>), asks the scheduler and the
  pool (\<^verbatim>\<open>internal/scheduler\<close>, \<^verbatim>\<open>internal/pool\<close>) for a worker, dials it with retries, hedging and a
  circuit breaker, and relays bytes over a signed WebSocket. Health, quotas and alerts (\<^verbatim>\<open>internal/pool\<close>,
  \<^verbatim>\<open>internal/alerts\<close>, loops of \<^verbatim>\<open>cmd/flarex/main.go\<close>) decide which workers are available. A store
  (\<^verbatim>\<open>internal/state\<close>) persists samples, audit lines and API keys. The configuration is loaded at start
  (\<^verbatim>\<open>internal/config\<close>) and edited at run time (\<^verbatim>\<open>cmd/flarex/config_update.go\<close>) through the admin server
  (\<^verbatim>\<open>internal/admin\<close>).

  \<^bold>\<open>The theories.\<close>
  \<^item> \<open>Go_Base\<close>: strings, numbers and bytes of the Go library with the lemmas all theories share;
    \<open>Float64\<close>: binary64 arithmetic on rationals; \<open>Base64\<close>, \<open>Go_Duration\<close>, \<open>Netip\<close>: the library codecs and
    parsers that the sources call.
  \<^item> \<open>Account_Quota\<close>, \<open>Worker_Pool\<close>, \<open>Health_Check\<close>, \<open>Schedulers\<close>: the pool. Workers are heap objects, the
    pool is a snapshot of pointers. Shown: counting per day, the pickers find the first available worker
    and are fair, the snapshot operations refine list operations, concurrent health updates linearize, and
    a paused worker stays unavailable. The locale \<open>scheduler\<close> is the contract of the interface.
  \<^item> \<open>Ip_Filter\<close>, \<open>Tunnel\<close>, \<open>Socks5\<close>, \<open>Hedged_Dial\<close>, \<open>Dial_Policy\<close>, \<open>Quota_Guard\<close>, \<open>Proxy_Server\<close>, \<open>Http_Connect\<close>:
    the data path. A client connection is the bytes still to come, the bytes written and a budget of
    successful writes. Shown: the handshakes are sound and complete, reserved addresses are never dialled, the retry
    discipline, termination and conservation of the hedged dial as a step relation, the relay is transparent,
    counters balance, and no run-time panic.
  \<^item> \<open>State_Store\<close>, \<open>Metrics_Ring\<close>: the store over an ordered bucket and the ring of samples, with the
    locale \<open>bounded_log\<close> for what a bounded log promises.
  \<^item> \<open>Config_Load\<close>, \<open>Config_Update\<close>: a loaded configuration is well-formed; an edit that fails changes nothing and an
    edit that succeeds leaves server, filter and configuration in step.
  \<^item> \<open>Admin_Auth\<close>, \<open>Admin_Keys\<close>, \<open>Admin_Server\<close>: cookies, scopes, lockout and middleware; the API-key registry over the
    locale \<open>apikey_store\<close>, interpreted by the adapter of \<^verbatim>\<open>main.go\<close>; every handler and the routes. Shown: a
    request that changes anything carries a valid credential with the scope it needs.

  \<^item> \<open>Cf_Api\<close>, \<open>Deploy_Backends\<close>, \<open>Worker_Deploy\<close>, \<open>Worker_Fleet\<close>: the client of the Cloudflare API, whose service is a record of
    functions over a state, the two deployment back ends behind the locale \<open>deploy_backends\<close> (interpreted on workers.dev), the worker template,
    deployment, destruction, listing and rotation. Shown: a secret cannot leave its JavaScript literal, destruction stays within the prefix,
    deployment fills the accounts and is found again after a restart, recycling replaces a worker in place.
  \<^item> \<open>Account_Discovery\<close>, \<open>Control_Plane\<close>, \<open>Control_Laws\<close>: from tokens to accounts, and the operations of \<^verbatim>\<open>main.go\<close> on the running process (start,
    tokens, deployment, destruction, cleaning, recycling, log tails, commands). Shown: in every state a run of operations can reach, the pool holds
    each worker once and every account in use has a quota; removal of a token is complete; the dry run only reads; the dump hides secrets.
  \<^item> \<open>Lifecycle\<close>: the first start (download of the example configuration, check for its placeholders), backup and restore of the
    state, the command \<^verbatim>\<open>clean\<close> and the end of the server. \<open>Client_Cli\<close>: the command-line client from its login file to its requests, composed
    with the admin server: a command does on the server what it says. \<open>Worker_Script\<close>: the request check of the worker's JavaScript and of the
    mock worker against the dialer of \<open>Tunnel\<close>. \<open>Net_Services\<close>: the DNS cache, the limiter per host and the warm-up of the workers. Shown besides: an entry
    of the DNS cache never changes, the answers of a limiter depend on the own host only, a log stream is read as it was written, the totals of the history
    are the sums per day.
  \<^item> \<open>Serve_Wiring\<close>: from a configuration to a running proxy and its editing at run time. \<open>Relay_Pump\<close>: the accept loop and the two directions of
    a relay as a step relation. \<open>Test_Request\<close>: the test request of the admin page. \<open>Alert_Sinks\<close>: what an alert looks like and the request that
    carries it. \<open>Operator_Views\<close>: banner, configuration summary, worker tables and the files of the web interface. Shown: editing a running proxy
    equals restarting it on the edited configuration, and a started proxy keeps its guards whatever is edited; the relay keeps the order of the bytes,
    meters what it delivered, closes once and ends; a report tells what the target answered; the summary of the workers cannot panic, and the web
    interface serves nothing outside its bundle. \<open>Start_Tuning\<close>: which part of the process takes which time-out, in the order of the start, the warm-up with its
    number of attempts, and the loop that persists the metrics, which keeps every sample but at most one for each hourly pruning.

  \<^bold>\<open>Conventions.\<close> A struct is a record, an enumeration a datatype, an error a value of a sum or option type, a
  run-time panic a constructor of the result. Machine integers keep their width where the code can wrap. What
  the environment answers (clock, network, random bytes, schedules of goroutines) is an argument. Code outside the
  repository is an argument too: HMAC, SHA-256 and TOTP, the IP set of netipx (its law is a
  hypothesis), the buckets of bbolt (the predicate \<open>bucket_ok\<close>), JSON codecs of rows, the state of the
  circuit breaker, the URL parser and the YAML reader. Properties with such a hypothesis have a witness on a
  concrete function.

  \<^bold>\<open>Bounds.\<close> Loops are structural recursions or have a termination proof; \<open>prune_loop\<close> is a partial function
  whose result is proved to exist. The hedged dial takes the schedule of its goroutines as a list of events and is proved to
  finish within a bound on every fair schedule. Lengths below \<open>2 ^ 64\<close> and times below \<open>16 ^ 16\<close>
  microseconds are hypotheses where 64-bit indexes and sixteen hexadecimal digits are used.

  \<^bold>\<open>Not modelled.\<close> The frame pump of the worker script, keep-alive pings and tickers are I/O without a decision. The set-up of the
  logger, tracing, the Prometheus registry, socket options, buffer pools, removal of files and the TLS fingerprint dialer only call libraries. The
  end of a direction of the relay and the closing that follows are one step. Lookups of the DNS cache are taken one after the other. Tables and JSON texts
  are printed by the library, so a command's answer is the data it prints.
\<close>

end
